(* ===== verification/Prelude.thy ===== *)
theory Prelude
  imports Main "HOL-Library.AList"
begin

text \<open>
  Shared vocabulary of the development.

  \<^item> Exceptions. \<open>error_code\<close> is the union \<open>ErrorCode\<close> of
    \<open>packages/mcp-core/src/errors.ts\<close>; \<open>exn\<close> is what a modelled function may throw: an
    \<open>AppError\<close> (code and message), a plain \<open>Error\<close>, a \<open>TypeError\<close>, a \<open>RangeError\<close>, or
    the error a zod schema raises. A fallible pure function returns \<open>exn + 'a\<close> (\<open>Inl\<close> is
    the exception). A method that also mutates its object returns the pair of that result
    and the new object state, since JavaScript keeps the writes made before a throw.
  \<^item> JavaScript \<open>Map\<close>. A \<open>Map\<close> iterates in insertion order and a \<open>set\<close> on a present key
    keeps its position: exactly an association list with \<open>AList.update\<close> and
    \<open>AList.delete\<close>. \<open>js_get\<close>, \<open>js_set\<close>, \<open>js_delete\<close> name them, and \<open>js_wf\<close> (distinct
    keys) is the invariant every operation keeps.
  \<^item> Instants. \<open>Date.now()\<close> is an \<open>int\<close> (milliseconds). Each call of the clock in the
    source is an argument of the model, so two readings in one method may differ.
    \<open>new Date(ms).toISOString()\<close> and \<open>Date.parse\<close> are inverse on the instants the code
    makes, so a timestamp field is the instant itself.
  \<^item> Strings. A \<open>string\<close> is a list of 8-bit characters: the source's strings over the code
    units below 256 (Latin-1). On them equality, \<open><\<close>, \<open>trim\<close>, \<open>\s\<close> and \<open>toLowerCase\<close> are
    modelled exactly; longer code units are outside the model.
\<close>

named_theorems js_map_simps \<open>reading and writing JavaScript maps\<close>
named_theorems js_wf_intros \<open>operations that keep the keys of a map distinct\<close>

subsection \<open>Errors\<close>

datatype (plugins only: size) error_code =
    POLICY_INVALID
  | WORKSPACE_NOT_FOUND
  | WORKSPACE_DISABLED
  | PERMISSION_DENIED
  | WRITE_NOT_ALLOWED
  | SHELL_NOT_ALLOWED
  | SHELL_FAILED
  | SHELL_UNAVAILABLE
  | COMMAND_CONFIRMATION_INVALID
  | INVALID_PATH
  | PATH_OUTSIDE_WORKSPACE
  | PATH_OUTSIDE_ALLOWED_ROOTS
  | BLOCKED_PATH
  | FILE_NOT_FOUND
  | NOT_A_FILE
  | NOT_A_DIRECTORY
  | FILE_TOO_LARGE
  | INVALID_UTF8
  | BINARY_FILE
  | LIMIT_EXCEEDED
  | NOT_GIT_REPOSITORY
  | GIT_ERROR
  | SOURCE_CONTROL_CAPABILITY_DENIED
  | SOURCE_CONTROL_CONFIRMATION_INVALID
  | SOURCE_CONTROL_IDEMPOTENCY_CONFLICT
  | SOURCE_CONTROL_RECONCILIATION_REQUIRED
  | GIT_HEAD_MISMATCH
  | GIT_BRANCH_CONFLICT
  | GIT_INDEX_CHANGED
  | GIT_REMOTE_CHANGED
  | GIT_MERGE_NOT_FAST_FORWARD
  | GIT_PROTECTED_BRANCH
  | AUDIT_FAILED
  | AGENT_UNAVAILABLE
  | AGENT_BUSY
  | AGENT_TIMEOUT
  | OPERATION_CANCELLED
  | RELAY_PROTOCOL_ERROR
  | IDEMPOTENCY_KEY_CONFLICT
  | EXECUTION_NOT_FOUND
  | EXECUTION_STATE_INVALID
  | EXECUTION_OUTCOME_UNKNOWN
  | AUTHENTICATION_FAILED
  | BROWSER_WORKER_UNAVAILABLE
  | BROWSER_WORKER_TIMEOUT
  | BROWSER_DISCONNECTED
  | BROWSER_CONTEXT_RECOVERY_FAILED
  | TASK_SCOPE_REQUIRED
  | TASK_NOT_FOUND
  | TASK_OWNERSHIP_MISMATCH
  | TASK_SUSPENDED
  | TASK_EXPIRED
  | SITE_ACCESS_AUTHORIZATION_REQUIRED
  | SITE_ACCESS_GRANT_EXPIRED
  | SITE_NAVIGATION_BLOCKED
  | SITE_POLICY_NOT_FOUND
  | SITE_PRODUCTION_BLOCKED
  | LOGIN_CREDENTIAL_UNAVAILABLE
  | LOGIN_CREDENTIALS_INVALID
  | LOGIN_INTERACTION_REQUIRED
  | CREDENTIAL_BROKER_UNAVAILABLE
  | CREDENTIAL_BROKER_PROTOCOL_MISMATCH
  | CREDENTIAL_BROKER_ACCESS_DENIED
  | BROWSER_CAPABILITY_UNSUPPORTED
  | BROWSER_OPERATION_MODE_UNSUPPORTED
  | FRAME_NOT_FOUND
  | FRAME_NOT_READY
  | FRAME_CROSS_ORIGIN
  | LOCATOR_NOT_FOUND
  | LOCATOR_AMBIGUOUS
  | LOCATOR_LOW_CONFIDENCE
  | NAVIGATION_TIMEOUT
  | STATE_NOT_REACHED
  | ACTION_BLOCKED_BY_POLICY
  | CAPABILITY_UNSUPPORTED
  | TAB_NOT_FOUND
  | STALE_TAB_ID
  | TAB_NOT_OWNED
  | TAB_PROTECTED
  | NAVIGATION_BLOCKED
  | AUTHENTICATION_REQUIRED
  | CAPTCHA_DETECTED
  | ACTION_REQUIRES_CONFIRMATION
  | BROWSER_CONFIRMATION_INVALID
  | INVALID_ARGUMENT
  | INTERNAL_ERROR

text \<open>
  Equality of error codes is executable through their position in the union.
\<close>

primrec error_rank :: "error_code \<Rightarrow> nat" where
  "error_rank POLICY_INVALID = 0"
| "error_rank WORKSPACE_NOT_FOUND = 1"
| "error_rank WORKSPACE_DISABLED = 2"
| "error_rank PERMISSION_DENIED = 3"
| "error_rank WRITE_NOT_ALLOWED = 4"
| "error_rank SHELL_NOT_ALLOWED = 5"
| "error_rank SHELL_FAILED = 6"
| "error_rank SHELL_UNAVAILABLE = 7"
| "error_rank COMMAND_CONFIRMATION_INVALID = 8"
| "error_rank INVALID_PATH = 9"
| "error_rank PATH_OUTSIDE_WORKSPACE = 10"
| "error_rank PATH_OUTSIDE_ALLOWED_ROOTS = 11"
| "error_rank BLOCKED_PATH = 12"
| "error_rank FILE_NOT_FOUND = 13"
| "error_rank NOT_A_FILE = 14"
| "error_rank NOT_A_DIRECTORY = 15"
| "error_rank FILE_TOO_LARGE = 16"
| "error_rank INVALID_UTF8 = 17"
| "error_rank BINARY_FILE = 18"
| "error_rank LIMIT_EXCEEDED = 19"
| "error_rank NOT_GIT_REPOSITORY = 20"
| "error_rank GIT_ERROR = 21"
| "error_rank SOURCE_CONTROL_CAPABILITY_DENIED = 22"
| "error_rank SOURCE_CONTROL_CONFIRMATION_INVALID = 23"
| "error_rank SOURCE_CONTROL_IDEMPOTENCY_CONFLICT = 24"
| "error_rank SOURCE_CONTROL_RECONCILIATION_REQUIRED = 25"
| "error_rank GIT_HEAD_MISMATCH = 26"
| "error_rank GIT_BRANCH_CONFLICT = 27"
| "error_rank GIT_INDEX_CHANGED = 28"
| "error_rank GIT_REMOTE_CHANGED = 29"
| "error_rank GIT_MERGE_NOT_FAST_FORWARD = 30"
| "error_rank GIT_PROTECTED_BRANCH = 31"
| "error_rank AUDIT_FAILED = 32"
| "error_rank AGENT_UNAVAILABLE = 33"
| "error_rank AGENT_BUSY = 34"
| "error_rank AGENT_TIMEOUT = 35"
| "error_rank OPERATION_CANCELLED = 36"
| "error_rank RELAY_PROTOCOL_ERROR = 37"
| "error_rank IDEMPOTENCY_KEY_CONFLICT = 38"
| "error_rank EXECUTION_NOT_FOUND = 39"
| "error_rank EXECUTION_STATE_INVALID = 40"
| "error_rank EXECUTION_OUTCOME_UNKNOWN = 41"
| "error_rank AUTHENTICATION_FAILED = 42"
| "error_rank BROWSER_WORKER_UNAVAILABLE = 43"
| "error_rank BROWSER_WORKER_TIMEOUT = 44"
| "error_rank BROWSER_DISCONNECTED = 45"
| "error_rank BROWSER_CONTEXT_RECOVERY_FAILED = 46"
| "error_rank TASK_SCOPE_REQUIRED = 47"
| "error_rank TASK_NOT_FOUND = 48"
| "error_rank TASK_OWNERSHIP_MISMATCH = 49"
| "error_rank TASK_SUSPENDED = 50"
| "error_rank TASK_EXPIRED = 51"
| "error_rank SITE_ACCESS_AUTHORIZATION_REQUIRED = 52"
| "error_rank SITE_ACCESS_GRANT_EXPIRED = 53"
| "error_rank SITE_NAVIGATION_BLOCKED = 54"
| "error_rank SITE_POLICY_NOT_FOUND = 55"
| "error_rank SITE_PRODUCTION_BLOCKED = 56"
| "error_rank LOGIN_CREDENTIAL_UNAVAILABLE = 57"
| "error_rank LOGIN_CREDENTIALS_INVALID = 58"
| "error_rank LOGIN_INTERACTION_REQUIRED = 59"
| "error_rank CREDENTIAL_BROKER_UNAVAILABLE = 60"
| "error_rank CREDENTIAL_BROKER_PROTOCOL_MISMATCH = 61"
| "error_rank CREDENTIAL_BROKER_ACCESS_DENIED = 62"
| "error_rank BROWSER_CAPABILITY_UNSUPPORTED = 63"
| "error_rank BROWSER_OPERATION_MODE_UNSUPPORTED = 64"
| "error_rank FRAME_NOT_FOUND = 65"
| "error_rank FRAME_NOT_READY = 66"
| "error_rank FRAME_CROSS_ORIGIN = 67"
| "error_rank LOCATOR_NOT_FOUND = 68"
| "error_rank LOCATOR_AMBIGUOUS = 69"
| "error_rank LOCATOR_LOW_CONFIDENCE = 70"
| "error_rank NAVIGATION_TIMEOUT = 71"
| "error_rank STATE_NOT_REACHED = 72"
| "error_rank ACTION_BLOCKED_BY_POLICY = 73"
| "error_rank CAPABILITY_UNSUPPORTED = 74"
| "error_rank TAB_NOT_FOUND = 75"
| "error_rank STALE_TAB_ID = 76"
| "error_rank TAB_NOT_OWNED = 77"
| "error_rank TAB_PROTECTED = 78"
| "error_rank NAVIGATION_BLOCKED = 79"
| "error_rank AUTHENTICATION_REQUIRED = 80"
| "error_rank CAPTCHA_DETECTED = 81"
| "error_rank ACTION_REQUIRES_CONFIRMATION = 82"
| "error_rank BROWSER_CONFIRMATION_INVALID = 83"
| "error_rank INVALID_ARGUMENT = 84"
| "error_rank INTERNAL_ERROR = 85"

definition error_codes :: "error_code list" where
  "error_codes = [
     POLICY_INVALID, WORKSPACE_NOT_FOUND, WORKSPACE_DISABLED, PERMISSION_DENIED,
     WRITE_NOT_ALLOWED, SHELL_NOT_ALLOWED, SHELL_FAILED, SHELL_UNAVAILABLE,
     COMMAND_CONFIRMATION_INVALID, INVALID_PATH, PATH_OUTSIDE_WORKSPACE, PATH_OUTSIDE_ALLOWED_ROOTS,
     BLOCKED_PATH, FILE_NOT_FOUND, NOT_A_FILE, NOT_A_DIRECTORY,
     FILE_TOO_LARGE, INVALID_UTF8, BINARY_FILE, LIMIT_EXCEEDED,
     NOT_GIT_REPOSITORY, GIT_ERROR, SOURCE_CONTROL_CAPABILITY_DENIED, SOURCE_CONTROL_CONFIRMATION_INVALID,
     SOURCE_CONTROL_IDEMPOTENCY_CONFLICT, SOURCE_CONTROL_RECONCILIATION_REQUIRED, GIT_HEAD_MISMATCH, GIT_BRANCH_CONFLICT,
     GIT_INDEX_CHANGED, GIT_REMOTE_CHANGED, GIT_MERGE_NOT_FAST_FORWARD, GIT_PROTECTED_BRANCH,
     AUDIT_FAILED, AGENT_UNAVAILABLE, AGENT_BUSY, AGENT_TIMEOUT,
     OPERATION_CANCELLED, RELAY_PROTOCOL_ERROR, IDEMPOTENCY_KEY_CONFLICT, EXECUTION_NOT_FOUND,
     EXECUTION_STATE_INVALID, EXECUTION_OUTCOME_UNKNOWN, AUTHENTICATION_FAILED, BROWSER_WORKER_UNAVAILABLE,
     BROWSER_WORKER_TIMEOUT, BROWSER_DISCONNECTED, BROWSER_CONTEXT_RECOVERY_FAILED, TASK_SCOPE_REQUIRED,
     TASK_NOT_FOUND, TASK_OWNERSHIP_MISMATCH, TASK_SUSPENDED, TASK_EXPIRED,
     SITE_ACCESS_AUTHORIZATION_REQUIRED, SITE_ACCESS_GRANT_EXPIRED, SITE_NAVIGATION_BLOCKED, SITE_POLICY_NOT_FOUND,
     SITE_PRODUCTION_BLOCKED, LOGIN_CREDENTIAL_UNAVAILABLE, LOGIN_CREDENTIALS_INVALID, LOGIN_INTERACTION_REQUIRED,
     CREDENTIAL_BROKER_UNAVAILABLE, CREDENTIAL_BROKER_PROTOCOL_MISMATCH, CREDENTIAL_BROKER_ACCESS_DENIED, BROWSER_CAPABILITY_UNSUPPORTED,
     BROWSER_OPERATION_MODE_UNSUPPORTED, FRAME_NOT_FOUND, FRAME_NOT_READY, FRAME_CROSS_ORIGIN,
     LOCATOR_NOT_FOUND, LOCATOR_AMBIGUOUS, LOCATOR_LOW_CONFIDENCE, NAVIGATION_TIMEOUT,
     STATE_NOT_REACHED, ACTION_BLOCKED_BY_POLICY, CAPABILITY_UNSUPPORTED, TAB_NOT_FOUND,
     STALE_TAB_ID, TAB_NOT_OWNED, TAB_PROTECTED, NAVIGATION_BLOCKED,
     AUTHENTICATION_REQUIRED, CAPTCHA_DETECTED, ACTION_REQUIRES_CONFIRMATION, BROWSER_CONFIRMATION_INVALID,
     INVALID_ARGUMENT, INTERNAL_ERROR]"

lemma error_codes_rank: "error_codes ! error_rank c = c"
  by (cases c) (simp_all add: error_codes_def)

definition error_at :: "nat \<Rightarrow> error_code" where
  "error_at n = error_codes ! n"

declare error_rank.simps [code del]

lemma error_at_rank [code abstype]: "error_at (error_rank c) = c"
  by (simp add: error_at_def error_codes_rank)

lemmas error_rank_code [code abstract] = error_rank.simps

lemma error_rank_inject: "error_rank c = error_rank d \<longleftrightarrow> c = d"
  using error_codes_rank by metis

instantiation error_code :: equal
begin

definition equal_error_code :: "error_code \<Rightarrow> error_code \<Rightarrow> bool" where
  "equal_error_code c d \<longleftrightarrow> error_rank c = error_rank d"

instance
  by standard (simp add: equal_error_code_def error_rank_inject)

end

datatype exn =
    AppError error_code string
  | PlainError string
  | TypeError string
  | RangeError string
  | SchemaError

type_synonym instant = int

type_synonym 'a result = "exn + 'a"

definition is_ok :: "'a result \<Rightarrow> bool" where
  "is_ok r = (case r of Inl e \<Rightarrow> False | Inr x \<Rightarrow> True)"

lemma is_ok_simps [simp]: "\<not> is_ok (Inl e)" "is_ok (Inr x)"
  by (simp_all add: is_ok_def)

lemma is_ok_iff: "is_ok r \<longleftrightarrow> (\<exists>x. r = Inr x)"
  by (cases r) auto

text \<open>Running a result in sequence, as a throw aborts the rest of a function body.\<close>

definition bind_result :: "'a result \<Rightarrow> ('a \<Rightarrow> 'b result) \<Rightarrow> 'b result" where
  "bind_result r f = (case r of Inl e \<Rightarrow> Inl e | Inr x \<Rightarrow> f x)"

lemma bind_result_simps [simp]:
  "bind_result (Inl e) f = Inl e"
  "bind_result (Inr x) f = f x"
  by (simp_all add: bind_result_def)

lemma bind_result_Inr_iff:
  "bind_result r f = Inr y \<longleftrightarrow> (\<exists>x. r = Inr x \<and> f x = Inr y)"
  by (cases r) auto

text \<open>
  A sequence of method calls on one object: each operation gives an output and the next
  state.
\<close>

fun run_ops :: "('op \<Rightarrow> 's \<Rightarrow> 'out \<times> 's) \<Rightarrow> 'op list \<Rightarrow> 's \<Rightarrow> 'out list \<times> 's" where
  "run_ops step [] s = ([], s)"
| "run_ops step (p # ps) s =
     (case step p s of (o1, s1) \<Rightarrow>
        (case run_ops step ps s1 of (os, s2) \<Rightarrow> (o1 # os, s2)))"

lemma run_ops_append:
  "run_ops step (ps @ qs) s =
     (case run_ops step ps s of (os1, s1) \<Rightarrow>
        (case run_ops step qs s1 of (os2, s2) \<Rightarrow> (os1 @ os2, s2)))"
  by (induction ps arbitrary: s) (auto split: prod.splits)

text \<open>An invariant of every step is an invariant of every run.\<close>

lemma run_ops_invariant:
  assumes "\<And>p s. I s \<Longrightarrow> I (snd (step p s))" and "I s"
  shows "I (snd (run_ops step ps s))"
  using assms(2)
proof (induction ps arbitrary: s)
  case Nil
  then show ?case by simp
next
  case (Cons p ps)
  from Cons.prems have "I (snd (step p s))" by (rule assms(1))
  then have "I (snd (run_ops step ps (snd (step p s))))" by (rule Cons.IH)
  then show ?case by (simp add: case_prod_unfold)
qed

subsection \<open>JavaScript maps\<close>

type_synonym ('k, 'v) jsmap = "('k \<times> 'v) list"

abbreviation js_get :: "('k, 'v) jsmap \<Rightarrow> 'k \<Rightarrow> 'v option" where
  "js_get m k \<equiv> map_of m k"

abbreviation js_set :: "'k \<Rightarrow> 'v \<Rightarrow> ('k, 'v) jsmap \<Rightarrow> ('k, 'v) jsmap" where
  "js_set k v m \<equiv> AList.update k v m"

abbreviation js_delete :: "'k \<Rightarrow> ('k, 'v) jsmap \<Rightarrow> ('k, 'v) jsmap" where
  "js_delete k m \<equiv> AList.delete k m"

abbreviation js_has :: "('k, 'v) jsmap \<Rightarrow> 'k \<Rightarrow> bool" where
  "js_has m k \<equiv> map_of m k \<noteq> None"

abbreviation js_values :: "('k, 'v) jsmap \<Rightarrow> 'v list" where
  "js_values m \<equiv> map snd m"

definition js_wf :: "('k, 'v) jsmap \<Rightarrow> bool" where
  "js_wf m \<longleftrightarrow> distinct (map fst m)"

text \<open>The loop \<open>for (const [k, v] of map) if (p(v)) map.delete(k)\<close>.\<close>

definition js_delete_where :: "('v \<Rightarrow> bool) \<Rightarrow> ('k, 'v) jsmap \<Rightarrow> ('k, 'v) jsmap" where
  "js_delete_where p m = filter (\<lambda>(k, v). \<not> p v) m"

lemma js_get_set [js_map_simps, simp]:
  "js_get (js_set k v m) k' = (if k' = k then Some v else js_get m k')"
  by (simp add: update_conv)

lemma js_get_delete [js_map_simps, simp]:
  "js_get (js_delete k m) k' = (if k' = k then None else js_get m k')"
  by (simp add: delete_conv)

lemma js_get_delete_where:
  assumes "js_wf m"
  shows "js_get (js_delete_where p m) k =
     (case js_get m k of None \<Rightarrow> None | Some v \<Rightarrow> if p v then None else Some v)"
  using assms unfolding js_wf_def js_delete_where_def
proof (induction m)
  case Nil
  then show ?case by simp
next
  case (Cons kv m)
  obtain k0 v0 where kv: "kv = (k0, v0)" by (cases kv)
  have "map_of (filter (\<lambda>(k, v). \<not> p v) m) k0 = None"
    using Cons.prems kv by (force simp: map_of_eq_None_iff)
  with Cons kv show ?case by (auto split: option.splits)
qed

lemma js_wf_empty [js_wf_intros, simp]: "js_wf []"
  by (simp add: js_wf_def)

lemma js_wf_set [js_wf_intros]: "js_wf m \<Longrightarrow> js_wf (js_set k v m)"
  by (simp add: js_wf_def distinct_update)

lemma js_wf_delete [js_wf_intros]: "js_wf m \<Longrightarrow> js_wf (js_delete k m)"
  by (simp add: js_wf_def distinct_delete)

lemma js_wf_delete_where [js_wf_intros]: "js_wf m \<Longrightarrow> js_wf (js_delete_where p m)"
  by (auto simp: js_wf_def js_delete_where_def intro: distinct_map_filter)

lemma js_get_in_set: "js_get m k = Some v \<Longrightarrow> (k, v) \<in> set m"
  by (rule map_of_SomeD)

lemma js_in_set_get: "js_wf m \<Longrightarrow> (k, v) \<in> set m \<Longrightarrow> js_get m k = Some v"
  by (simp add: js_wf_def)

lemma js_values_iff:
  "js_wf m \<Longrightarrow> v \<in> set (js_values m) \<longleftrightarrow> (\<exists>k. js_get m k = Some v)"
  by (force simp: js_wf_def)

lemma js_set_length:
  "length (js_set k v m) = (if js_has m k then length m else Suc (length m))"
  by (induction m) (auto split: if_splits)

lemma js_delete_length_le: "length (js_delete k m) \<le> length m"
  by (simp add: AList.delete_eq)

lemma js_delete_length:
  assumes "js_wf m" and "js_has m k"
  shows "Suc (length (js_delete k m)) = length m"
proof -
  have "k \<in> set (map fst m)" using assms(2) by (auto simp: map_of_eq_None_iff)
  then show ?thesis
    using assms(1) unfolding js_wf_def
  proof (induction m)
    case Nil
    then show ?case by simp
  next
    case (Cons kv m)
    show ?case
    proof (cases "fst kv = k")
      case True
      with Cons.prems have "js_delete k m = m"
        by (intro delete_id) auto
      with True show ?thesis by (cases kv) simp
    next
      case False
      with Cons show ?thesis by (cases kv) auto
    qed
  qed
qed

subsection \<open>Strings\<close>

text \<open>White space of \<open>trim\<close> and of \<open>\s\<close> among the code units below 256.\<close>

definition js_space :: "char \<Rightarrow> bool" where
  "js_space c \<longleftrightarrow> (let n = (of_char c :: nat) in (9 \<le> n \<and> n \<le> 13) \<or> n = 32 \<or> n = 160)"

definition js_trim :: "string \<Rightarrow> string" where
  "js_trim s = rev (dropWhile js_space (rev (dropWhile js_space s)))"

lemma js_trim_empty_iff: "js_trim s = [] \<longleftrightarrow> list_all js_space s"
proof -
  have "js_trim s = [] \<longleftrightarrow> list_all js_space (dropWhile js_space s)"
    by (simp add: js_trim_def dropWhile_eq_Nil_conv list_all_iff)
  also have "\<dots> \<longleftrightarrow> list_all js_space s"
    by (induction s) auto
  finally show ?thesis .
qed

text \<open>\<open>toLowerCase\<close>: the letters A to Z, and the capital letters of the upper half.\<close>

definition js_lower_char :: "char \<Rightarrow> char" where
  "js_lower_char c = (let n = (of_char c :: nat) in
     if (65 \<le> n \<and> n \<le> 90) \<or> (192 \<le> n \<and> n \<le> 222 \<and> n \<noteq> 215) then char_of (n + 32) else c)"

definition js_lower :: "string \<Rightarrow> string" where
  "js_lower s = map js_lower_char s"

subsection \<open>Constant-time comparison\<close>

text \<open>
  \<open>Buffer.from(s)\<close>: the UTF-8 bytes of a string. \<open>safeEqual\<close> is
  \<open>a.length === b.length && timingSafeEqual(a, b)\<close> on the two buffers, the same helper in
  the three confirmation registries; \<open>timingSafeEqual\<close> compares byte by byte.
\<close>

definition utf8_char :: "char \<Rightarrow> nat list" where
  "utf8_char c = (let n = (of_char c :: nat) in
     if n < 128 then [n] else [192 + n div 64, 128 + n mod 64])"

definition buffer_from :: "string \<Rightarrow> nat list" where
  "buffer_from s = concat (map utf8_char s)"

definition safeEqual :: "string \<Rightarrow> string \<Rightarrow> bool" where
  "safeEqual left right \<longleftrightarrow>
     (let a = buffer_from left; b = buffer_from right in
      length a = length b \<and> (\<forall>i < length a. a ! i = b ! i))"

lemma buffer_from_simps [simp]:
  "buffer_from [] = []"
  "buffer_from (c # s) = utf8_char c @ buffer_from s"
  by (simp_all add: buffer_from_def)

lemma utf8_char_cases:
  "(\<exists>n < 128. utf8_char c = [n] \<and> n = of_char c) \<or>
   (\<exists>a b. 192 \<le> a \<and> utf8_char c = [a, b] \<and> of_char c = (a - 192) * 64 + (b - 128))"
proof (cases "(of_char c :: nat) < 128")
  case True
  then show ?thesis by (simp add: utf8_char_def)
next
  case False
  have "(of_char c :: nat) = (of_char c div 64) * 64 + of_char c mod 64" by simp
  with False show ?thesis by (auto simp: utf8_char_def Let_def)
qed

lemma utf8_char_append_inj:
  assumes "utf8_char c @ xs = utf8_char d @ ys"
  shows "c = d \<and> xs = ys"
proof -
  have "(of_char c :: nat) = of_char d \<and> xs = ys"
    using assms utf8_char_cases [of c] utf8_char_cases [of d]
    by (auto simp del: of_char_eq_iff)
  then show ?thesis by simp
qed

lemma buffer_from_inj: "buffer_from s = buffer_from t \<longleftrightarrow> s = t"
proof (induction s arbitrary: t)
  case Nil
  have "utf8_char c \<noteq> []" for c using utf8_char_cases [of c] by auto
  then show ?case by (cases t) auto
next
  case (Cons c s)
  have "utf8_char c \<noteq> []" using utf8_char_cases [of c] by auto
  with Cons.IH show ?case by (cases t) (auto dest: utf8_char_append_inj)
qed

lemma safeEqual_iff [simp]: "safeEqual left right \<longleftrightarrow> left = right"
  unfolding safeEqual_def Let_def
  by (simp add: list_eq_iff_nth_eq [symmetric] buffer_from_inj)

subsection \<open>Sorting and sets of values\<close>

text \<open>
  \<open>Array.prototype.sort\<close> is stable: with a comparator that is a total preorder it gives this
  insertion sort. \<open>le x y\<close> is \<open>compare(x, y) <= 0\<close>.
\<close>

primrec insert_by :: "('a \<Rightarrow> 'a \<Rightarrow> bool) \<Rightarrow> 'a \<Rightarrow> 'a list \<Rightarrow> 'a list" where
  "insert_by le x [] = [x]"
| "insert_by le x (y # ys) = (if le x y then x # y # ys else y # insert_by le x ys)"

definition js_sort :: "('a \<Rightarrow> 'a \<Rightarrow> bool) \<Rightarrow> 'a list \<Rightarrow> 'a list" where
  "js_sort le xs = foldr (insert_by le) xs []"

lemma set_insert_by [simp]: "set (insert_by le x ys) = insert x (set ys)"
  by (induction ys) auto

lemma length_insert_by [simp]: "length (insert_by le x ys) = Suc (length ys)"
  by (induction ys) auto

lemma distinct_insert_by: "distinct (insert_by le x ys) \<longleftrightarrow> x \<notin> set ys \<and> distinct ys"
  by (induction ys) auto

lemma set_js_sort [simp]: "set (js_sort le xs) = set xs"
  by (induction xs) (simp_all add: js_sort_def)

lemma length_js_sort [simp]: "length (js_sort le xs) = length xs"
  by (induction xs) (simp_all add: js_sort_def)

lemma distinct_js_sort [simp]: "distinct (js_sort le xs) = distinct xs"
proof (induction xs)
  case (Cons x xs)
  then show ?case using set_js_sort [of le xs] by (simp add: js_sort_def distinct_insert_by)
qed (simp add: js_sort_def)

lemma js_sort_empty_iff [simp]: "js_sort le xs = [] \<longleftrightarrow> xs = []"
  using length_js_sort [of le xs] by (metis length_0_conv)

lemma sorted_insert_by:
  assumes "\<And>a b. le a b \<or> le b a" and "\<And>a b c. le a b \<Longrightarrow> le b c \<Longrightarrow> le a c" and "sorted_wrt le ys"
  shows "sorted_wrt le (insert_by le x ys)"
  using assms(3)
proof (induction ys)
  case (Cons y ys)
  then show ?case using assms(1,2) by auto
qed simp

lemma sorted_js_sort:
  assumes "\<And>a b. le a b \<or> le b a" and "\<And>a b c. le a b \<Longrightarrow> le b c \<Longrightarrow> le a c"
  shows "sorted_wrt le (js_sort le xs)"
  by (induction xs) (simp_all add: js_sort_def sorted_insert_by [OF assms])

text \<open>\<open>[...new Set(xs)]\<close>: the first occurrences in order.\<close>

definition js_unique :: "'a list \<Rightarrow> 'a list" where
  "js_unique xs = rev (remdups (rev xs))"

lemma js_unique_props [simp]: "set (js_unique xs) = set xs" "distinct (js_unique xs)"
  by (simp_all add: js_unique_def)

end
