(* ===== verification/Confirmation_Spec.thy ===== *)
theory Confirmation_Spec
  imports Prelude
begin

text \<open>
  The contract of the three confirmation registries (browser actions, shell commands, typed
  source-control operations): a confirmation is issued for one binding, lives for a fixed
  time, and is redeemed at most once, for that very binding.

  \<open>spec_issue\<close> and \<open>spec_redeem\<close> are the abstract operations on a partial map from
  confirmation ids to (binding, expiry). The locale \<open>confirmation_registry\<close> is the
  interface: a concrete registry with an abstraction \<open>entry\<close> whose operations simulate the
  abstract ones. The trace theorem \<open>redeem_authorised\<close> is proved once, inside the locale,
  and every registry interprets it.
\<close>

type_synonym 'b pending_map = "string \<rightharpoonup> 'b \<times> instant"

text \<open>\<open>live n m\<close>: what \<open>pruneExpired\<close> leaves at clock reading \<open>n\<close>.\<close>

definition live :: "instant \<Rightarrow> 'b pending_map \<Rightarrow> 'b pending_map" where
  "live n m = (\<lambda>c. case m c of None \<Rightarrow> None | Some (b, e) \<Rightarrow> if e \<le> n then None else Some (b, e))"

definition spec_issue ::
  "int \<Rightarrow> instant \<Rightarrow> instant \<Rightarrow> string \<Rightarrow> 'b \<Rightarrow> 'b pending_map \<Rightarrow> 'b pending_map" where
  "spec_issue ttl n1 n2 c b m = (live n1 m)(c \<mapsto> (b, n2 + ttl))"

definition spec_redeem ::
  "instant \<Rightarrow> instant \<Rightarrow> string \<Rightarrow> 'b \<Rightarrow> 'b pending_map \<Rightarrow> bool \<times> 'b pending_map" where
  "spec_redeem n1 n2 c b m =
     (case live n1 m c of
        None \<Rightarrow> (False, live n1 m)
      | Some (b0, e) \<Rightarrow>
          if e \<le> n2 then (False, (live n1 m)(c := None))
          else if b0 \<noteq> b then (False, live n1 m)
          else (True, (live n1 m)(c := None)))"

datatype ('b, 'x) conf_op =
    Issue instant instant string 'b
  | Redeem instant instant string 'b
  | Discard 'x

text \<open>One call on a registry, with whether it returned normally.\<close>

fun conf_step ::
  "(instant \<Rightarrow> instant \<Rightarrow> string \<Rightarrow> 'b \<Rightarrow> 's \<Rightarrow> 'o result \<times> 's) \<Rightarrow>
   (instant \<Rightarrow> instant \<Rightarrow> string \<Rightarrow> 'b \<Rightarrow> 's \<Rightarrow> unit result \<times> 's) \<Rightarrow>
   ('x \<Rightarrow> 's \<Rightarrow> 's) \<Rightarrow> ('b, 'x) conf_op \<Rightarrow> 's \<Rightarrow> bool \<times> 's" where
  "conf_step issue redeem discard (Issue n1 n2 c b) s =
     (case issue n1 n2 c b s of (r, s') \<Rightarrow> (is_ok r, s'))"
| "conf_step issue redeem discard (Redeem n1 n2 c b) s =
     (case redeem n1 n2 c b s of (r, s') \<Rightarrow> (is_ok r, s'))"
| "conf_step issue redeem discard (Discard x) s = (True, discard x s)"

text \<open>The call, in a log of calls and outcomes, issued or consumed the id \<open>c\<close>.\<close>

fun settles :: "string \<Rightarrow> ('b, 'x) conf_op \<times> bool \<Rightarrow> bool" where
  "settles c (Issue n1 n2 c' b, ok) \<longleftrightarrow> c' = c \<and> ok"
| "settles c (Redeem n1 n2 c' b, ok) \<longleftrightarrow> c' = c \<and> ok"
| "settles c (Discard x, ok) \<longleftrightarrow> False"

text \<open>
  The log ends with an outstanding confirmation \<open>c\<close> for binding \<open>b\<close> that expires at \<open>e\<close>:
  it was issued for \<open>b\<close>, and since then neither consumed nor issued again.
\<close>

definition outstanding ::
  "int \<Rightarrow> (('b, 'x) conf_op \<times> bool) list \<Rightarrow> string \<Rightarrow> 'b \<Rightarrow> instant \<Rightarrow> bool" where
  "outstanding ttl log c b e \<longleftrightarrow>
     (\<exists>pre post n1 n2. log = pre @ (Issue n1 n2 c b, True) # post \<and> e = n2 + ttl \<and>
        (\<forall>x \<in> set post. \<not> settles c x))"

lemma outstanding_snoc:
  assumes "outstanding ttl log c b e" and "\<not> settles c x"
  shows "outstanding ttl (log @ [x]) c b e"
proof -
  from assms(1) obtain pre post n1 n2 where
    "log = pre @ (Issue n1 n2 c b, True) # post" "e = n2 + ttl" "\<forall>y \<in> set post. \<not> settles c y"
    unfolding outstanding_def by blast
  then have "log @ [x] = pre @ (Issue n1 n2 c b, True) # (post @ [x]) \<and> e = n2 + ttl \<and>
      (\<forall>y \<in> set (post @ [x]). \<not> settles c y)"
    using assms(2) by auto
  then show ?thesis unfolding outstanding_def by blast
qed

lemma outstanding_issue: "outstanding ttl (log @ [(Issue n1 n2 c b, True)]) c b (n2 + ttl)"
  unfolding outstanding_def by (intro exI [of _ log] exI [of _ "[]"]) auto

lemma live_Some:
  "live n m c = Some (b, e) \<longleftrightarrow> m c = Some (b, e) \<and> n < e"
  by (auto simp: live_def split: option.splits if_splits)

lemma live_None:
  "live n m c = None \<longleftrightarrow> (\<forall>b e. m c = Some (b, e) \<longrightarrow> e \<le> n)"
  by (auto simp: live_def split: option.splits if_splits)

lemma spec_redeem_True:
  "fst (spec_redeem n1 n2 c b m) \<longleftrightarrow> (\<exists>e. m c = Some (b, e) \<and> n1 < e \<and> n2 < e)"
  by (auto simp: spec_redeem_def live_Some live_None split: option.splits prod.splits)

lemma spec_redeem_entry:
  "snd (spec_redeem n1 n2 c b m) c' = Some (b', e') \<Longrightarrow>
     m c' = Some (b', e') \<and> (fst (spec_redeem n1 n2 c b m) \<longrightarrow> c' \<noteq> c)"
  by (auto simp: spec_redeem_def live_Some live_None split: option.splits prod.splits if_splits)

lemma spec_issue_entry:
  "spec_issue ttl n1 n2 c b m c' = Some (b', e') \<Longrightarrow>
     (c' = c \<and> b' = b \<and> e' = n2 + ttl) \<or> (c' \<noteq> c \<and> m c' = Some (b', e'))"
  by (auto simp: spec_issue_def live_Some split: if_splits)

subsection \<open>Registries kept in one map\<close>

text \<open>
  The shape the registries share: a map from ids to entries with a binding and an expiry.
  \<open>map_entry\<close> is its abstraction; \<open>map_consume\<close> is the body of \<open>consume\<close> with the two
  exceptions left open.
\<close>

definition map_entry ::
  "('p \<Rightarrow> 'b) \<Rightarrow> ('p \<Rightarrow> instant) \<Rightarrow> (string, 'p) jsmap \<Rightarrow> 'b pending_map" where
  "map_entry bind exp m = (\<lambda>c. map_option (\<lambda>p. (bind p, exp p)) (js_get m c))"

definition map_prune :: "('p \<Rightarrow> instant) \<Rightarrow> instant \<Rightarrow> (string, 'p) jsmap \<Rightarrow> (string, 'p) jsmap" where
  "map_prune exp now m = js_delete_where (\<lambda>p. exp p \<le> now) m"

definition map_consume ::
  "('p \<Rightarrow> 'b) \<Rightarrow> ('p \<Rightarrow> instant) \<Rightarrow> exn \<Rightarrow> exn \<Rightarrow> instant \<Rightarrow> instant \<Rightarrow> string \<Rightarrow> 'b \<Rightarrow>
   (string, 'p) jsmap \<Rightarrow> unit result \<times> (string, 'p) jsmap" where
  "map_consume bind exp missing mismatch n1 n2 c b m =
     (let m1 = map_prune exp n1 m in
      case js_get m1 c of
        None \<Rightarrow> (Inl missing, js_delete c m1)
      | Some p \<Rightarrow>
          if exp p \<le> n2 then (Inl missing, js_delete c m1)
          else if bind p \<noteq> b then (Inl mismatch, m1)
          else (Inr (), js_delete c m1))"

lemma map_prune_wf [simp]: "js_wf m \<Longrightarrow> js_wf (map_prune exp n m)"
  by (simp add: map_prune_def js_wf_intros)

lemma map_entry_prune:
  "js_wf m \<Longrightarrow> map_entry bind exp (map_prune exp n m) = live n (map_entry bind exp m)"
  by (auto simp: fun_eq_iff map_entry_def map_prune_def js_get_delete_where live_def
      split: option.splits)

lemma map_entry_set [simp]:
  "map_entry bind exp (js_set c p m) = (map_entry bind exp m)(c \<mapsto> (bind p, exp p))"
  by (auto simp: map_entry_def)

lemma map_entry_delete [simp]:
  "map_entry bind exp (js_delete c m) = (map_entry bind exp m)(c := None)"
  by (auto simp: map_entry_def)

lemma map_entry_delete_where:
  "js_wf m \<Longrightarrow> map_entry bind exp (js_delete_where p m) \<subseteq>\<^sub>m map_entry bind exp m"
  by (auto simp: map_le_def map_entry_def js_get_delete_where split: option.splits if_splits)

lemma map_consume_sim:
  assumes "js_wf m"
  shows "is_ok (fst (map_consume bind exp e1 e2 n1 n2 c b m)) =
      fst (spec_redeem n1 n2 c b (map_entry bind exp m))"
    and "map_entry bind exp (snd (map_consume bind exp e1 e2 n1 n2 c b m)) =
      snd (spec_redeem n1 n2 c b (map_entry bind exp m))"
    and "js_wf (snd (map_consume bind exp e1 e2 n1 n2 c b m))"
proof -
  note prune = map_entry_prune [OF assms, of bind exp n1, symmetric]
  have get: "map_entry bind exp (map_prune exp n1 m) c =
      map_option (\<lambda>p. (bind p, exp p)) (js_get (map_prune exp n1 m) c)"
    by (simp add: map_entry_def)
  show "is_ok (fst (map_consume bind exp e1 e2 n1 n2 c b m)) =
      fst (spec_redeem n1 n2 c b (map_entry bind exp m))"
    unfolding spec_redeem_def prune get
    by (auto simp: map_consume_def Let_def split: option.splits)
  show "map_entry bind exp (snd (map_consume bind exp e1 e2 n1 n2 c b m)) =
      snd (spec_redeem n1 n2 c b (map_entry bind exp m))"
    unfolding spec_redeem_def prune get
    by (auto simp: map_consume_def Let_def get split: option.splits)
  show "js_wf (snd (map_consume bind exp e1 e2 n1 n2 c b m))"
    using assms by (auto simp: map_consume_def Let_def intro: js_wf_intros split: option.splits)
qed

subsection \<open>The interface\<close>

locale confirmation_registry =
  fixes entry :: "'s \<Rightarrow> 'b pending_map"
    and inv :: "'s \<Rightarrow> bool"
    and ttl :: int
    and accepts :: "'b \<Rightarrow> bool"
    and issue :: "instant \<Rightarrow> instant \<Rightarrow> string \<Rightarrow> 'b \<Rightarrow> 's \<Rightarrow> 'o result \<times> 's"
    and redeem :: "instant \<Rightarrow> instant \<Rightarrow> string \<Rightarrow> 'b \<Rightarrow> 's \<Rightarrow> unit result \<times> 's"
    and discard :: "'x \<Rightarrow> 's \<Rightarrow> 's"
  assumes issue_ok: "inv s \<Longrightarrow> is_ok (fst (issue n1 n2 c b s)) \<longleftrightarrow> accepts b"
    and issue_sim: "inv s \<Longrightarrow> accepts b \<Longrightarrow>
      entry (snd (issue n1 n2 c b s)) = spec_issue ttl n1 n2 c b (entry s)"
    and issue_refused: "inv s \<Longrightarrow> \<not> accepts b \<Longrightarrow> snd (issue n1 n2 c b s) = s"
    and redeem_ok: "inv s \<Longrightarrow> is_ok (fst (redeem n1 n2 c b s)) \<longleftrightarrow>
      accepts b \<and> fst (spec_redeem n1 n2 c b (entry s))"
    and redeem_sim: "inv s \<Longrightarrow> accepts b \<Longrightarrow>
      entry (snd (redeem n1 n2 c b s)) = snd (spec_redeem n1 n2 c b (entry s))"
    and redeem_refused: "inv s \<Longrightarrow> \<not> accepts b \<Longrightarrow> snd (redeem n1 n2 c b s) = s"
    and discard_sub: "inv s \<Longrightarrow> entry (discard x s) \<subseteq>\<^sub>m entry s"
    and issue_inv: "inv s \<Longrightarrow> inv (snd (issue n1 n2 c b s))"
    and redeem_inv: "inv s \<Longrightarrow> inv (snd (redeem n1 n2 c b s))"
    and discard_inv: "inv s \<Longrightarrow> inv (discard x s)"
begin

lemma step_inv: "inv s \<Longrightarrow> inv (snd (conf_step issue redeem discard p s))"
  by (cases p) (auto simp: case_prod_unfold issue_inv redeem_inv discard_inv)

lemma run_inv: "inv s \<Longrightarrow> inv (snd (run_ops (conf_step issue redeem discard) ps s))"
  by (rule run_ops_invariant [where I = inv]) (rule step_inv)

text \<open>One step: an entry of the next state was there before, or has just been issued.\<close>

lemma step_entry:
  assumes "inv s" and "conf_step issue redeem discard p s = (ok, s')"
    and "entry s' c = Some (b, e)"
  shows "(entry s c = Some (b, e) \<and> \<not> settles c (p, ok)) \<or>
    (\<exists>n1 n2. p = Issue n1 n2 c b \<and> ok \<and> e = n2 + ttl)"
proof (cases p)
  case (Issue n1 n2 c0 b0)
  show ?thesis
  proof (cases "accepts b0")
    case True
    with assms Issue show ?thesis
      by (auto simp: case_prod_unfold issue_sim issue_ok dest!: spec_issue_entry)
  next
    case False
    with assms Issue show ?thesis
      by (auto simp: case_prod_unfold issue_refused issue_ok)
  qed
next
  case (Redeem n1 n2 c0 b0)
  show ?thesis
  proof (cases "accepts b0")
    case True
    with assms Redeem show ?thesis
      by (auto simp: case_prod_unfold redeem_sim redeem_ok dest!: spec_redeem_entry)
  next
    case False
    with assms Redeem show ?thesis
      by (auto simp: case_prod_unfold redeem_refused redeem_ok)
  qed
next
  case (Discard x)
  with assms discard_sub [OF assms(1), of x] show ?thesis
    by (auto simp: map_le_def dom_def)
qed

lemma entries_outstanding:
  assumes "inv s0" and "entry s0 = Map.empty"
  shows "run_ops (conf_step issue redeem discard) ps s0 = (oks, s) \<Longrightarrow>
    entry s c = Some (b, e) \<Longrightarrow> outstanding ttl (zip ps oks) c b e \<and> length oks = length ps"
proof (induction ps arbitrary: oks s b e rule: rev_induct)
  case Nil
  with assms show ?case by simp
next
  case (snoc p ps)
  obtain oks1 s1 where run: "run_ops (conf_step issue redeem discard) ps s0 = (oks1, s1)"
    by fastforce
  obtain ok s2 where step: "conf_step issue redeem discard p s1 = (ok, s2)"
    by fastforce
  have res: "oks = oks1 @ [ok]" "s = s2"
    using snoc.prems(1) run step by (simp_all add: run_ops_append)
  have len: "length oks1 = length ps"
    using run by (induction ps arbitrary: s0 oks1) (auto split: prod.splits)
  have inv1: "inv s1" using run_inv [OF assms(1), of ps] run by simp
  consider "entry s1 c = Some (b, e)" "\<not> settles c (p, ok)"
    | n1 n2 where "p = Issue n1 n2 c b" "ok" "e = n2 + ttl"
    using step_entry [OF inv1 step, of c b e] snoc.prems(2) res by blast
  then show ?case
  proof cases
    case 1
    from snoc.IH [OF run 1(1)] 1(2) show ?thesis
      by (simp add: res len outstanding_snoc)
  next
    case 2
    then show ?thesis by (simp add: res len outstanding_issue)
  qed
qed

text \<open>
  Every successful redemption in a run from an empty registry is backed by an earlier
  issue of the same id for the same binding, still unexpired, and not yet consumed.
\<close>

theorem redeem_authorised:
  assumes "inv s0" and "entry s0 = Map.empty"
    and "run_ops (conf_step issue redeem discard) (ps @ [Redeem n1 n2 c b]) s0 = (oks @ [True], s)"
    and "length oks = length ps"
  shows "\<exists>e. outstanding ttl (zip ps oks) c b e \<and> n1 < e \<and> n2 < e"
proof -
  obtain oks1 s1 where run: "run_ops (conf_step issue redeem discard) ps s0 = (oks1, s1)"
    by fastforce
  have eq: "oks1 = oks" and ok: "is_ok (fst (redeem n1 n2 c b s1))"
    using assms(3) run by (auto simp: run_ops_append case_prod_unfold)
  have inv1: "inv s1" using run_inv [OF assms(1), of ps] run by simp
  from ok redeem_ok [OF inv1, of n1 n2 c b] obtain e where
    e: "entry s1 c = Some (b, e)" "n1 < e" "n2 < e"
    by (auto simp: spec_redeem_True)
  with entries_outstanding [OF assms(1,2) run e(1)] eq show ?thesis by blast
qed

text \<open>Right after a success the same id redeems nothing, whatever the binding.\<close>

theorem redeem_once:
  assumes "inv s" and "redeem n1 n2 c b s = (Inr (), s')"
  shows "\<not> is_ok (fst (redeem n3 n4 c b' s'))"
proof -
  have inv': "inv s'" using redeem_inv [OF assms(1), of n1 n2 c b] assms(2) by simp
  have ok: "accepts b" "fst (spec_redeem n1 n2 c b (entry s))"
    using redeem_ok [OF assms(1), of n1 n2 c b] assms(2) by auto
  have "entry s' = snd (spec_redeem n1 n2 c b (entry s))"
    using redeem_sim [OF assms(1) ok(1), of n1 n2 c] assms(2) by simp
  then have "entry s' c = None"
    using ok(2) spec_redeem_entry [of n1 n2 c b "entry s" c] by (metis option.exhaust prod.exhaust)
  then show ?thesis
    using redeem_ok [OF inv', of n3 n4 c b'] by (simp add: spec_redeem_True)
qed

end

end
