(* ===== verification/Browser_Confirmations.thy ===== *)
theory Browser_Confirmations
  imports Confirmation_Spec
begin

text \<open>
  \<open>BrowserConfirmationRegistry\<close> of
  \<open>services/browser-worker/domain/confirmation-registry.ts\<close>: confirmations of sensitive
  browser actions. The state is the map \<open>pending\<close>; \<open>ttlMs\<close> is the constructor argument;
  the random confirmation id and each reading of the clock are arguments.
\<close>

datatype BrowserConfirmationCategory =
    Submit_form
  | Publish_content
  | Send_message
  | Delete_or_cancel
  | Purchase_or_payment
  | Change_credentials
  | Accept_terms_or_contract
  | Upload_file

record BrowserConfirmationBinding =
  bcb_tabId :: string
  bcb_origin :: string
  bcb_url :: string
  bcb_category :: BrowserConfirmationCategory
  bcb_action :: string
  bcb_target :: string

record BrowserPendingConfirmation =
  bpc_binding :: BrowserConfirmationBinding
  bpc_expiresAtMs :: instant

type_synonym browser_pending = "(string, BrowserPendingConfirmation) jsmap"

definition browser_DEFAULT_TTL_MS :: int where
  "browser_DEFAULT_TTL_MS = 10 * 60 * 1000"

definition browser_pruneExpired :: "instant \<Rightarrow> browser_pending \<Rightarrow> browser_pending" where
  "browser_pruneExpired now pending =
     js_delete_where (\<lambda>p. bpc_expiresAtMs p \<le> now) pending"

definition browser_create ::
  "int \<Rightarrow> instant \<Rightarrow> instant \<Rightarrow> string \<Rightarrow> BrowserConfirmationBinding \<Rightarrow> browser_pending \<Rightarrow>
   (string \<times> instant) result \<times> browser_pending" where
  "browser_create ttlMs now1 now2 confirmationId binding pending =
     (let pending1 = browser_pruneExpired now1 pending;
          expiresAtMs = now2 + ttlMs;
          pending2 = js_set confirmationId
            \<lparr>bpc_binding = binding, bpc_expiresAtMs = expiresAtMs\<rparr> pending1
      in (Inr (confirmationId, expiresAtMs), pending2))"

definition browser_clear :: "browser_pending \<Rightarrow> browser_pending" where
  "browser_clear pending = []"

definition browser_hasPendingTabs ::
  "instant \<Rightarrow> string list \<Rightarrow> browser_pending \<Rightarrow> bool \<times> browser_pending" where
  "browser_hasPendingTabs now tabIds pending =
     (let pending1 = browser_pruneExpired now pending
      in (list_ex (\<lambda>p. bcb_tabId (bpc_binding p) \<in> set tabIds) (js_values pending1), pending1))"

definition browser_discardTabs :: "string list \<Rightarrow> browser_pending \<Rightarrow> browser_pending" where
  "browser_discardTabs tabIds pending =
     js_delete_where (\<lambda>p. bcb_tabId (bpc_binding p) \<in> set tabIds) pending"

definition browser_sameBinding ::
  "BrowserConfirmationBinding \<Rightarrow> BrowserConfirmationBinding \<Rightarrow> bool" where
  "browser_sameBinding left right \<longleftrightarrow>
     safeEqual (bcb_tabId left) (bcb_tabId right) \<and>
     safeEqual (bcb_origin left) (bcb_origin right) \<and>
     safeEqual (bcb_url left) (bcb_url right) \<and>
     bcb_category left = bcb_category right \<and>
     safeEqual (bcb_action left) (bcb_action right) \<and>
     safeEqual (bcb_target left) (bcb_target right)"

definition browser_consume ::
  "instant \<Rightarrow> instant \<Rightarrow> string \<Rightarrow> BrowserConfirmationBinding \<Rightarrow> browser_pending \<Rightarrow>
   unit result \<times> browser_pending" where
  "browser_consume now1 now2 confirmationId binding pending =
     (let pending1 = browser_pruneExpired now1 pending;
          expired = (Inl (AppError BROWSER_CONFIRMATION_INVALID
            ''Browser confirmation is missing or expired.''), js_delete confirmationId pending1)
      in case js_get pending1 confirmationId of
           None \<Rightarrow> expired
         | Some p \<Rightarrow>
             if bpc_expiresAtMs p \<le> now2 then expired
             else if \<not> browser_sameBinding (bpc_binding p) binding then
               (Inl (AppError BROWSER_CONFIRMATION_INVALID
                  ''Browser confirmation does not match this action.''), pending1)
             else (Inr (), js_delete confirmationId pending1))"

text \<open>The calls that only remove confirmations.\<close>

datatype browser_discard_call =
    Clear
  | HasPendingTabs instant "string list"
  | DiscardTabs "string list"

fun browser_discard :: "browser_discard_call \<Rightarrow> browser_pending \<Rightarrow> browser_pending" where
  "browser_discard Clear pending = browser_clear pending"
| "browser_discard (HasPendingTabs now tabIds) pending =
     snd (browser_hasPendingTabs now tabIds pending)"
| "browser_discard (DiscardTabs tabIds) pending = browser_discardTabs tabIds pending"

subsection \<open>The registry implements the contract\<close>

abbreviation browser_entry :: "browser_pending \<Rightarrow> BrowserConfirmationBinding pending_map" where
  "browser_entry \<equiv> map_entry bpc_binding bpc_expiresAtMs"

lemma browser_sameBinding_iff [simp]: "browser_sameBinding l r \<longleftrightarrow> l = r"
  by (auto simp: browser_sameBinding_def)

lemma browser_pruneExpired_eq: "browser_pruneExpired = map_prune bpc_expiresAtMs"
  by (simp add: fun_eq_iff browser_pruneExpired_def map_prune_def)

lemma browser_consume_eq:
  "browser_consume = map_consume bpc_binding bpc_expiresAtMs
     (AppError BROWSER_CONFIRMATION_INVALID ''Browser confirmation is missing or expired.'')
     (AppError BROWSER_CONFIRMATION_INVALID ''Browser confirmation does not match this action.'')"
  by (simp add: fun_eq_iff browser_consume_def map_consume_def browser_pruneExpired_eq Let_def
      split: option.split)

lemma browser_create_entry:
  "js_wf m \<Longrightarrow> browser_entry (snd (browser_create ttlMs n1 n2 c b m)) =
     spec_issue ttlMs n1 n2 c b (browser_entry m)"
  by (simp add: browser_create_def browser_pruneExpired_eq Let_def map_entry_prune spec_issue_def)

lemma browser_create_wf:
  "js_wf m \<Longrightarrow> js_wf (snd (browser_create ttlMs n1 n2 c b m))"
  by (simp add: browser_create_def browser_pruneExpired_eq Let_def js_wf_set)

lemma browser_create_ok: "is_ok (fst (browser_create ttlMs n1 n2 c b m))"
  by (simp add: browser_create_def Let_def)

lemma browser_discard_le:
  assumes "js_wf m"
  shows "browser_entry (browser_discard x m) \<subseteq>\<^sub>m browser_entry m"
proof (cases x)
  case Clear
  then show ?thesis by (simp add: browser_clear_def map_entry_def map_le_def)
next
  case (HasPendingTabs now ids)
  then show ?thesis
    using assms
    by (simp add: browser_hasPendingTabs_def Let_def browser_pruneExpired_def
        map_entry_delete_where)
next
  case (DiscardTabs ids)
  then show ?thesis
    using assms by (simp add: browser_discardTabs_def map_entry_delete_where)
qed

lemma browser_discard_wf: "js_wf m \<Longrightarrow> js_wf (browser_discard x m)"
  by (cases x) (auto simp: browser_clear_def browser_hasPendingTabs_def browser_discardTabs_def
      browser_pruneExpired_def Let_def intro: js_wf_intros)

interpretation bc: confirmation_registry browser_entry js_wf ttlMs "\<lambda>_. True"
  "browser_create ttlMs" browser_consume browser_discard for ttlMs
  by unfold_locales
     (simp_all add: browser_create_ok browser_create_entry browser_create_wf browser_consume_eq
      map_consume_sim browser_discard_le browser_discard_wf)

subsection \<open>Properties\<close>

text \<open>
  In every sequence of calls (\<open>create\<close>, \<open>consume\<close>, \<open>clear\<close>, \<open>hasPendingTabs\<close>,
  \<open>discardTabs\<close>) on a fresh browser registry, a \<open>consume\<close> that succeeds is preceded by a
  \<open>create\<close> that returned the same id for exactly the same tab, origin, URL, category, action
  and target, unexpired at both clock readings, and not consumed since: a confirmation
  authorises one action, once.
\<close>

theorem browser_confirmation_authorised:
  assumes "run_ops (conf_step (browser_create ttlMs) browser_consume browser_discard)
      (ps @ [Redeem n1 n2 c b]) [] = (oks @ [True], s)"
    and "length oks = length ps"
  shows "\<exists>e. outstanding ttlMs (zip ps oks) c b e \<and> n1 < e \<and> n2 < e"
  by (rule bc.redeem_authorised [OF _ _ assms]) (simp_all add: map_entry_def)

definition example_browser_binding :: BrowserConfirmationBinding where
  "example_browser_binding = \<lparr>bcb_tabId = ''t1'', bcb_origin = ''https://a'', bcb_url = ''https://a/x'',
     bcb_category = Submit_form, bcb_action = ''click'', bcb_target = ''send''\<rparr>"

theorem browser_confirmation_authorised_witness:
  "\<exists>e. outstanding browser_DEFAULT_TTL_MS
     (zip [Issue 0 0 ''id'' example_browser_binding, Discard (DiscardTabs [''t2''])] [True, True])
     ''id'' example_browser_binding e \<and> 5 < e \<and> 6 < e"
proof -
  have "run_ops (conf_step (browser_create browser_DEFAULT_TTL_MS) browser_consume browser_discard)
      ([Issue 0 0 ''id'' example_browser_binding, Discard (DiscardTabs [''t2''])] @
       [Redeem 5 6 ''id'' example_browser_binding]) [] = ([True, True] @ [True], [])"
    by (simp add: browser_create_def browser_consume_def browser_discardTabs_def
        browser_pruneExpired_def browser_DEFAULT_TTL_MS_def example_browser_binding_def
        js_delete_where_def Let_def)
  from browser_confirmation_authorised [OF this] show ?thesis by simp
qed

end
