(* ===== verification/Command_Confirmations.thy ===== *)
theory Command_Confirmations
  imports Confirmation_Spec
begin

text \<open>
  \<open>CommandConfirmationRegistry\<close> of \<open>services/workspace-agent/src/shell/confirmation.ts\<close>:
  confirmations of shell commands, bound to workspace, shell, working directory, command
  text, execution context, operation and interactivity.
\<close>

datatype ShellName = Powershell | Pwsh | Cmd | Wsl | Git_bash

datatype ExecutionContext = Foreground | Background

record CommandConfirmationBinding =
  ccb_workspaceId :: string
  ccb_shell :: ShellName
  ccb_cwd :: string
  ccb_command :: string
  ccb_executionContext :: ExecutionContext
  ccb_operation :: string
  ccb_interactive :: "bool option"

record CommandPendingConfirmation =
  cpc_binding :: CommandConfirmationBinding
  cpc_expiresAtMs :: instant

type_synonym command_pending = "(string, CommandPendingConfirmation) jsmap"

definition command_DEFAULT_TTL_MS :: int where
  "command_DEFAULT_TTL_MS = 10 * 60 * 1000"

definition command_pruneExpired :: "instant \<Rightarrow> command_pending \<Rightarrow> command_pending" where
  "command_pruneExpired now pending =
     js_delete_where (\<lambda>p. cpc_expiresAtMs p \<le> now) pending"

definition command_create ::
  "int \<Rightarrow> instant \<Rightarrow> instant \<Rightarrow> string \<Rightarrow> CommandConfirmationBinding \<Rightarrow> command_pending \<Rightarrow>
   (string \<times> instant) result \<times> command_pending" where
  "command_create ttlMs now1 now2 confirmationId binding pending =
     (let pending1 = command_pruneExpired now1 pending;
          expiresAtMs = now2 + ttlMs;
          pending2 = js_set confirmationId
            \<lparr>cpc_binding = binding, cpc_expiresAtMs = expiresAtMs\<rparr> pending1
      in (Inr (confirmationId, expiresAtMs), pending2))"

definition command_sameBinding ::
  "CommandConfirmationBinding \<Rightarrow> CommandConfirmationBinding \<Rightarrow> bool" where
  "command_sameBinding left right \<longleftrightarrow>
     safeEqual (ccb_workspaceId left) (ccb_workspaceId right) \<and>
     ccb_shell left = ccb_shell right \<and>
     safeEqual (ccb_cwd left) (ccb_cwd right) \<and>
     safeEqual (ccb_command left) (ccb_command right) \<and>
     ccb_executionContext left = ccb_executionContext right \<and>
     safeEqual (ccb_operation left) (ccb_operation right) \<and>
     ccb_interactive left = ccb_interactive right"

definition command_consume ::
  "instant \<Rightarrow> instant \<Rightarrow> string \<Rightarrow> CommandConfirmationBinding \<Rightarrow> command_pending \<Rightarrow>
   unit result \<times> command_pending" where
  "command_consume now1 now2 confirmationId binding pending =
     (let pending1 = command_pruneExpired now1 pending;
          expired = (Inl (AppError COMMAND_CONFIRMATION_INVALID
            ''Command confirmation is missing or expired.''), js_delete confirmationId pending1)
      in case js_get pending1 confirmationId of
           None \<Rightarrow> expired
         | Some p \<Rightarrow>
             if cpc_expiresAtMs p \<le> now2 then expired
             else if \<not> command_sameBinding (cpc_binding p) binding then
               (Inl (AppError COMMAND_CONFIRMATION_INVALID
                  ''Command confirmation does not match this command.''), pending1)
             else (Inr (), js_delete confirmationId pending1))"

subsection \<open>The registry implements the contract\<close>

abbreviation command_entry :: "command_pending \<Rightarrow> CommandConfirmationBinding pending_map" where
  "command_entry \<equiv> map_entry cpc_binding cpc_expiresAtMs"

lemma command_sameBinding_iff [simp]: "command_sameBinding l r \<longleftrightarrow> l = r"
  by (auto simp: command_sameBinding_def)

lemma command_pruneExpired_eq: "command_pruneExpired = map_prune cpc_expiresAtMs"
  by (simp add: fun_eq_iff command_pruneExpired_def map_prune_def)

lemma command_consume_eq:
  "command_consume = map_consume cpc_binding cpc_expiresAtMs
     (AppError COMMAND_CONFIRMATION_INVALID ''Command confirmation is missing or expired.'')
     (AppError COMMAND_CONFIRMATION_INVALID ''Command confirmation does not match this command.'')"
  by (simp add: fun_eq_iff command_consume_def map_consume_def command_pruneExpired_eq Let_def
      split: option.split)

lemma command_create_entry:
  "js_wf m \<Longrightarrow> command_entry (snd (command_create ttlMs n1 n2 c b m)) =
     spec_issue ttlMs n1 n2 c b (command_entry m)"
  by (simp add: command_create_def command_pruneExpired_eq Let_def map_entry_prune spec_issue_def)

lemma command_create_wf:
  "js_wf m \<Longrightarrow> js_wf (snd (command_create ttlMs n1 n2 c b m))"
  by (simp add: command_create_def command_pruneExpired_eq Let_def js_wf_set)

lemma command_create_ok: "is_ok (fst (command_create ttlMs n1 n2 c b m))"
  by (simp add: command_create_def Let_def)

text \<open>The registry has no call that only discards.\<close>

definition command_discard :: "unit \<Rightarrow> command_pending \<Rightarrow> command_pending" where
  "command_discard u pending = pending"

interpretation cc: confirmation_registry command_entry js_wf ttlMs "\<lambda>_. True"
  "command_create ttlMs" command_consume command_discard for ttlMs
  by unfold_locales
     (simp_all add: command_create_ok command_create_entry command_create_wf command_consume_eq
      map_consume_sim command_discard_def)

subsection \<open>Properties\<close>

text \<open>
  In every sequence of calls on a fresh command registry, a \<open>consume\<close> that succeeds is
  preceded by a \<open>create\<close> that returned the same id for exactly the same workspace, shell,
  working directory, command text, execution context, operation and interactivity, unexpired
  at both clock readings, and not consumed since: confirmations of shell commands are
  one-shot and cannot be moved to another command.
\<close>

theorem command_confirmation_authorised:
  assumes "run_ops (conf_step (command_create ttlMs) command_consume command_discard)
      (ps @ [Redeem n1 n2 c b]) [] = (oks @ [True], s)"
    and "length oks = length ps"
  shows "\<exists>e. outstanding ttlMs (zip ps oks) c b e \<and> n1 < e \<and> n2 < e"
  by (rule cc.redeem_authorised [OF _ _ assms]) (simp_all add: map_entry_def)

definition example_command_binding :: CommandConfirmationBinding where
  "example_command_binding = \<lparr>ccb_workspaceId = ''ws'', ccb_shell = Pwsh, ccb_cwd = ''.'',
     ccb_command = ''git push'', ccb_executionContext = Foreground, ccb_operation = ''run'',
     ccb_interactive = None\<rparr>"

theorem command_confirmation_authorised_witness:
  "\<exists>e. outstanding command_DEFAULT_TTL_MS
     (zip [Issue 0 0 ''id'' example_command_binding :: (CommandConfirmationBinding, unit) conf_op] [True])
     ''id'' example_command_binding e \<and> 5 < e \<and> 6 < e"
proof -
  have "run_ops (conf_step (command_create command_DEFAULT_TTL_MS) command_consume command_discard)
      ([Issue 0 0 ''id'' example_command_binding] @ [Redeem 5 6 ''id'' example_command_binding]) [] =
      ([True] @ [True], [])"
    by (simp add: command_create_def command_consume_def command_pruneExpired_def
        command_DEFAULT_TTL_MS_def example_command_binding_def js_delete_where_def Let_def)
  from command_confirmation_authorised [OF this] show ?thesis by simp
qed

end
