(* ===== verification/Json.thy ===== *)
theory Json
  imports Prelude "HOL-Library.Char_ord" "HOL-Library.List_Lexorder" "HOL-Library.Multiset"
begin

text \<open>
  JavaScript data values, their canonical text (\<open>canonicalJson\<close> of
  \<open>packages/mcp-core/src/browser-idempotency.ts\<close>) and the digests built on it there and in
  \<open>packages/mcp-core/src/typed-confirmation.ts\<close>.

  A value is \<open>json\<close>: an object carries whether its prototype is \<open>Object.prototype\<close> or
  \<open>null\<close> (plain), and its own enumerable entries in order. \<open>JUnsupported\<close> is a value whose
  \<open>typeof\<close> is neither of the JSON kinds. Numbers are a type variable: \<open>num\<close> gives their
  \<open>JSON.stringify\<close> text, \<open>None\<close> when not finite. The SHA-256 hash is a parameter.
\<close>

datatype 'n json =
    JUndefined
  | JNull
  | JBool bool
  | JNumber 'n
  | JString string
  | JArray "'n json list"
  | JObject bool "(string \<times> 'n json) list"
  | JUnsupported string

subsection \<open>JSON text\<close>

definition hex_digit :: "nat \<Rightarrow> char" where
  "hex_digit n = ''0123456789abcdef'' ! n"

definition json_escape :: "char \<Rightarrow> string" where
  "json_escape c = (let n = (of_char c :: nat) in
     if n = 34 then [CHR 0x5C, CHR 0x22]
     else if n = 92 then [CHR 0x5C, CHR 0x5C]
     else if n = 8 then [CHR 0x5C, CHR 0x62]
     else if n = 9 then [CHR 0x5C, CHR 0x74]
     else if n = 10 then [CHR 0x5C, CHR 0x6E]
     else if n = 12 then [CHR 0x5C, CHR 0x66]
     else if n = 13 then [CHR 0x5C, CHR 0x72]
     else if n < 32 then [CHR 0x5C, CHR 0x75, CHR 0x30, CHR 0x30, hex_digit (n div 16), hex_digit (n mod 16)]
     else [c])"

definition json_quote :: "string \<Rightarrow> string" where
  "json_quote s = [CHR 0x22] @ concat (map json_escape s) @ [CHR 0x22]"

fun join_with :: "string \<Rightarrow> string list \<Rightarrow> string" where
  "join_with sep [] = []"
| "join_with sep [x] = x"
| "join_with sep (x # y # zs) = x @ sep @ join_with sep (y # zs)"

text \<open>Mapping with exceptions: the first exception in order is the one thrown.\<close>

fun collect :: "'a result list \<Rightarrow> 'a list result" where
  "collect [] = Inr []"
| "collect (Inl e # rs) = Inl e"
| "collect (Inr x # rs) = (case collect rs of Inl e \<Rightarrow> Inl e | Inr xs \<Rightarrow> Inr (x # xs))"

subsection \<open>canonicalJson\<close>

text \<open>
  The text of every entry is computed first and kept as a result, so that an exception is
  thrown in the order the code meets it: after filtering and sorting.
\<close>

fun canonicalJson :: "('n \<Rightarrow> string option) \<Rightarrow> 'n json \<Rightarrow> string result" where
  "canonicalJson num JNull = Inr ''null''"
| "canonicalJson num (JString s) = Inr (json_quote s)"
| "canonicalJson num (JBool b) = Inr (if b then ''true'' else ''false'')"
| "canonicalJson num (JNumber n) =
     (case num n of
        None \<Rightarrow> Inl (TypeError ''Canonical JSON does not support non-finite numbers.'')
      | Some t \<Rightarrow> Inr t)"
| "canonicalJson num JUndefined = Inr ''null''"
| "canonicalJson num (JArray xs) =
     (case collect (map (\<lambda>x. canonicalJson num x) xs) of
        Inl e \<Rightarrow> Inl e
      | Inr ts \<Rightarrow> Inr (''['' @ join_with '','' ts @ '']''))"
| "canonicalJson num (JObject plain es) =
     (let texts = map (\<lambda>(k, v). (k, v = JUndefined, canonicalJson num v)) es;
          kept = sort_key fst (filter (\<lambda>(k, undef, t). \<not> undef) texts)
      in case collect (map (\<lambda>(k, undef, t).
                case t of Inl e \<Rightarrow> Inl e | Inr x \<Rightarrow> Inr (json_quote k @ '':'' @ x)) kept) of
           Inl e \<Rightarrow> Inl e
         | Inr ts \<Rightarrow> Inr (''{'' @ join_with '','' ts @ ''}''))"
| "canonicalJson num (JUnsupported t) =
     Inl (TypeError (''Canonical JSON does not support '' @ t @ ''.''))"

definition createBrowserOperationFingerprint ::
  "(string \<Rightarrow> string) \<Rightarrow> ('n \<Rightarrow> string option) \<Rightarrow> string \<Rightarrow> 'n json \<Rightarrow> string result" where
  "createBrowserOperationFingerprint sha256 num operation input =
     (case canonicalJson num (JObject True [(''operation'', JString operation), (''input'', input)]) of
        Inl e \<Rightarrow> Inl e
      | Inr t \<Rightarrow> Inr (sha256 t))"

definition createBrowserIdempotencyKey ::
  "(string \<Rightarrow> string) \<Rightarrow> string \<Rightarrow> string \<Rightarrow> string" where
  "createBrowserIdempotencyKey sha256 invocationId fingerprint =
     sha256 (''browser-v2'' @ [CHR 0x00] @ invocationId @ [CHR 0x00] @ fingerprint)"

subsection \<open>Source-control arguments digest\<close>

definition normalizeSensitiveKey :: "string \<Rightarrow> string" where
  "normalizeSensitiveKey key =
     filter (\<lambda>c. (CHR ''a'' \<le> c \<and> c \<le> CHR ''z'') \<or> (CHR ''0'' \<le> c \<and> c \<le> CHR ''9''))
       (js_lower key)"

text \<open>\<open>key.includes(w)\<close> and \<open>key.endsWith(w)\<close>.\<close>

fun js_includes :: "string \<Rightarrow> string \<Rightarrow> bool" where
  "js_includes [] w \<longleftrightarrow> w = []"
| "js_includes (c # cs) w \<longleftrightarrow> take (length w) (c # cs) = w \<or> js_includes cs w"

definition js_startsWith :: "string \<Rightarrow> string \<Rightarrow> bool" where
  "js_startsWith s w \<longleftrightarrow> take (length w) s = w"

definition js_endsWith :: "string \<Rightarrow> string \<Rightarrow> bool" where
  "js_endsWith s w \<longleftrightarrow> length w \<le> length s \<and> drop (length s - length w) s = w"

definition isSensitiveFieldKey :: "string \<Rightarrow> bool" where
  "isSensitiveFieldKey key \<longleftrightarrow>
     js_includes key ''authorization'' \<or> key = ''token'' \<or> js_endsWith key ''token'' \<or>
     js_includes key ''credential'' \<or> js_includes key ''password'' \<or> js_includes key ''secret'' \<or>
     js_endsWith key ''apikey'' \<or> js_includes key ''privatekey''"

text \<open>
  The loop over the entries of an object. Writing \<open>result["__proto__"]\<close> on an object literal
  sets its prototype and adds no own property, so such an entry is lost after its value has
  been visited.
\<close>

definition visit_entry :: "string \<Rightarrow> 'n json result \<Rightarrow> (string \<times> 'n json) list result" where
  "visit_entry key visited =
     (if normalizeSensitiveKey key = ''confirmationid'' then Inr []
      else if isSensitiveFieldKey (normalizeSensitiveKey key) then
        Inl (TypeError
          (''Source-control canonical arguments contain sensitive credential field '' @
           [CHR 0x27] @ key @ [CHR 0x27] @ ''.''))
      else (case visited of
              Inl e \<Rightarrow> Inl e
            | Inr w \<Rightarrow> Inr (if key = ''__proto__'' then [] else [(key, w)])))"

fun removeEphemeralAndRejectSensitive :: "'n json \<Rightarrow> 'n json result" where
  "removeEphemeralAndRejectSensitive (JArray xs) =
     (case collect (map (\<lambda>x. removeEphemeralAndRejectSensitive x) xs) of
        Inl e \<Rightarrow> Inl e
      | Inr ys \<Rightarrow> Inr (JArray ys))"
| "removeEphemeralAndRejectSensitive (JObject plain es) =
     (if \<not> plain then
        Inl (TypeError ''Source-control canonical arguments must be JSON objects.'')
      else
        (case collect (map (\<lambda>(k, v). visit_entry k (removeEphemeralAndRejectSensitive v)) es) of
           Inl e \<Rightarrow> Inl e
         | Inr ess \<Rightarrow> Inr (JObject True (concat ess))))"
| "removeEphemeralAndRejectSensitive v = Inr v"

definition canonicalSourceControlArgumentsDigest ::
  "(string \<Rightarrow> string) \<Rightarrow> ('n \<Rightarrow> string option) \<Rightarrow> 'n json \<Rightarrow> string result" where
  "canonicalSourceControlArgumentsDigest sha256 num value =
     (case removeEphemeralAndRejectSensitive value of
        Inl e \<Rightarrow> Inl e
      | Inr v \<Rightarrow> (case canonicalJson num v of Inl e \<Rightarrow> Inl e | Inr t \<Rightarrow> Inr (sha256 t)))"

subsection \<open>Order of keys\<close>

text \<open>\<open>key_sorted v\<close>: \<open>v\<close> with the entries of every object sorted by key.\<close>

fun key_sorted :: "'n json \<Rightarrow> 'n json" where
  "key_sorted (JArray xs) = JArray (map (\<lambda>x. key_sorted x) xs)"
| "key_sorted (JObject plain es) = JObject plain (sort_key fst (map (\<lambda>(k, v). (k, key_sorted v)) es))"
| "key_sorted v = v"

text \<open>No object has two entries with the same key, as in JavaScript.\<close>

fun unique_keys :: "'n json \<Rightarrow> bool" where
  "unique_keys (JArray xs) \<longleftrightarrow> (\<forall>x \<in> set xs. unique_keys x)"
| "unique_keys (JObject plain es) \<longleftrightarrow> distinct (map fst es) \<and> (\<forall>(k, v) \<in> set es. unique_keys v)"
| "unique_keys v \<longleftrightarrow> True"

lemma sort_key_mset_eq:
  assumes "distinct (map f xs)" and "mset xs = mset ys"
  shows "sort_key f xs = sort_key f ys"
proof (rule properties_for_sort_key)
  show "mset (sort_key f ys) = mset xs" using assms(2) by simp
  show "sorted (map f (sort_key f ys))" by simp
  fix k assume "k \<in> set (sort_key f ys)"
  then have "k \<in> set xs" using assms(2) by (metis mset_eq_setD set_sort)
  then have one: "filter (\<lambda>x. f k = f x) zs = [k]" if "mset zs = mset xs" for zs
  proof -
    have "distinct (map f zs)" "k \<in> set zs"
      using that assms(1) \<open>k \<in> set xs\<close>
      by (metis mset_eq_imp_distinct_iff mset_map) (use that \<open>k \<in> set xs\<close> mset_eq_setD in blast)
    then show ?thesis
      by (induction zs) (auto simp: filter_empty_conv image_iff)
  qed
  from one [of "sort_key f ys"] one [of xs] assms(2)
  show "filter (\<lambda>x. f k = f x) (sort_key f ys) = filter (\<lambda>x. f k = f x) xs" by simp
qed

lemma key_sorted_undefined [simp]: "key_sorted v = JUndefined \<longleftrightarrow> v = JUndefined"
  by (cases v) auto

lemma canonicalJson_key_sorted: "unique_keys v \<Longrightarrow> canonicalJson num (key_sorted v) = canonicalJson num v"
proof (induction v rule: unique_keys.induct)
  case (1 xs)
  then have "\<forall>x \<in> set xs. canonicalJson num (key_sorted x) = canonicalJson num x"
    by simp
  then show ?case by (simp add: comp_def cong: map_cong)
next
  case (2 plain es)
  let ?f = "\<lambda>(k, v). (k, v = JUndefined, canonicalJson num v)"
  let ?sorted = "sort_key fst (map (\<lambda>(k, v). (k, key_sorted v)) es)"
  have "map ?f (map (\<lambda>(k, v). (k, key_sorted v)) es) = map ?f es"
    using 2 by auto
  moreover have "mset (map ?f ?sorted) = mset (map ?f (map (\<lambda>(k, v). (k, key_sorted v)) es))"
    by (simp only: mset_map mset_sort)
  ultimately have m: "mset (map ?f ?sorted) = mset (map ?f es)"
    by (simp only:)
  have "distinct (map fst (filter (\<lambda>(k, undef, t). \<not> undef) (map ?f es)))"
    using 2(2) by (auto intro!: distinct_map_filter simp: case_prod_unfold comp_def)
  moreover have "mset (filter (\<lambda>(k, undef, t). \<not> undef) (map ?f es)) =
      mset (filter (\<lambda>(k, undef, t). \<not> undef) (map ?f ?sorted))"
    using m by (simp add: mset_filter)
  ultimately have "sort_key fst (filter (\<lambda>(k, undef, t). \<not> undef) (map ?f es)) =
      sort_key fst (filter (\<lambda>(k, undef, t). \<not> undef) (map ?f ?sorted))"
    by (rule sort_key_mset_eq)
  then show ?case by (simp add: Let_def)
qed simp_all

subsection \<open>What the digest ignores and what it refuses\<close>

text \<open>A secret reachable by the walk: a sensitive key outside every \<open>confirmationId\<close>.\<close>

fun carries_secret :: "'n json \<Rightarrow> bool" where
  "carries_secret (JArray xs) \<longleftrightarrow> (\<exists>x \<in> set xs. carries_secret x)"
| "carries_secret (JObject plain es) \<longleftrightarrow>
     (\<exists>(k, v) \<in> set es. normalizeSensitiveKey k \<noteq> ''confirmationid'' \<and>
        (isSensitiveFieldKey (normalizeSensitiveKey k) \<or> carries_secret v))"
| "carries_secret v \<longleftrightarrow> False"

lemma collect_ok_iff: "is_ok (collect rs) \<longleftrightarrow> (\<forall>r \<in> set rs. is_ok r)"
  by (induction rs rule: collect.induct) (auto split: sum.splits)

lemma carries_secret_rejected:
  "carries_secret v \<Longrightarrow> \<not> is_ok (removeEphemeralAndRejectSensitive v)"
proof (induction v rule: carries_secret.induct)
  case (1 xs)
  then have "\<not> is_ok (collect (map (\<lambda>x. removeEphemeralAndRejectSensitive x) xs))"
    by (auto simp: collect_ok_iff)
  then show ?case by (auto split: sum.splits)
next
  case (2 plain es)
  show ?case
  proof (cases plain)
    case True
    let ?g = "\<lambda>(k, v). visit_entry k (removeEphemeralAndRejectSensitive v)"
    from "2.prems" obtain k v where kv: "(k, v) \<in> set es"
      "normalizeSensitiveKey k \<noteq> ''confirmationid''"
      "isSensitiveFieldKey (normalizeSensitiveKey k) \<or> carries_secret v"
      by auto
    have "\<not> is_ok (?g (k, v))"
      using kv "2.IH" [of "(k, v)" k v] by (auto simp: visit_entry_def split: sum.splits)
    moreover have "?g (k, v) \<in> set (map ?g es)"
      unfolding set_map using kv(1) by (rule imageI)
    ultimately have "\<not> is_ok (collect (map ?g es))"
      unfolding collect_ok_iff by blast
    with True show ?thesis by (auto split: sum.splits)
  qed simp
qed simp_all

text \<open>Entries whose visit contributes nothing can be left out of an object.\<close>

lemma collect_concat_filter:
  fixes f :: "'b list \<Rightarrow> 'c result" and g :: "'a \<Rightarrow> 'b list result"
  assumes "\<And>x. x \<in> set es \<Longrightarrow> \<not> p x \<Longrightarrow> g x = Inr []"
  shows "bind_result (collect (map g (filter p es))) (\<lambda>xss. f (concat xss)) =
    bind_result (collect (map g es)) (\<lambda>xss. f (concat xss))"
  using assms
proof (induction es arbitrary: f)
  case Nil
  then show ?case by simp
next
  case (Cons x es)
  have IH: "bind_result (collect (map g (filter p es))) (\<lambda>xss. h (concat xss)) =
      bind_result (collect (map g es)) (\<lambda>xss. h (concat xss))" for h :: "'b list \<Rightarrow> 'c result"
    by (rule Cons.IH) (use Cons.prems in auto)
  have step: "bind_result (collect (Inr y # rs)) (\<lambda>xss. f (concat xss)) =
      bind_result (collect rs) (\<lambda>xss. f (y @ concat xss))" for y and rs :: "'b list result list"
    by (cases "collect rs") auto
  show ?case
  proof (cases "g x")
    case (Inl e)
    with Cons.prems have "p x" by force
    with Inl show ?thesis by simp
  next
    case (Inr y)
    show ?thesis
    proof (cases "p x")
      case True
      with Inr IH [of "\<lambda>zs. f (y @ zs)"] show ?thesis by (simp add: step del: collect.simps)
    next
      case False
      with Cons.prems Inr have "y = []" by auto
      with Inr False IH [of f] show ?thesis by (simp add: step del: collect.simps)
    qed
  qed
qed

lemma removeEphemeral_object:
  "removeEphemeralAndRejectSensitive (JObject True es) =
     bind_result (collect (map (\<lambda>(k, v). visit_entry k (removeEphemeralAndRejectSensitive v)) es))
       (\<lambda>ess. Inr (JObject True (concat ess)))"
  by (simp add: bind_result_def)

end
