(* ===== verification/Typed_Confirmations.thy ===== *)
theory Typed_Confirmations
  imports Confirmation_Spec Json
begin

text \<open>
  \<open>TypedConfirmationRegistry\<close> of \<open>packages/mcp-core/src/typed-confirmation.ts\<close>:
  confirmations of typed source-control operations. Unlike the other two registries it
  validates a binding before it touches the state (\<open>parseBinding\<close>), and its constructor
  bounds the time to live.
\<close>

record TypedConfirmationBinding =
  tcb_workspaceId :: string
  tcb_operation :: string
  tcb_targetResource :: string
  tcb_canonicalArgumentsDigest :: string

record PendingTypedConfirmation =
  tpc_binding :: TypedConfirmationBinding
  tpc_expiresAtMs :: instant

type_synonym typed_pending = "(string, PendingTypedConfirmation) jsmap"

definition MAX_TYPED_CONFIRMATION_TTL_MS :: int where
  "MAX_TYPED_CONFIRMATION_TTL_MS = 10 * 60 * 1000"

text \<open>The constructor: the effective time to live, or the range error.\<close>

definition typed_new :: "int option \<Rightarrow> int result" where
  "typed_new option_ttlMs =
     (let ttlMs = (case option_ttlMs of None \<Rightarrow> MAX_TYPED_CONFIRMATION_TTL_MS | Some t \<Rightarrow> t) in
      if ttlMs \<le> 0 \<or> ttlMs > MAX_TYPED_CONFIRMATION_TTL_MS then
        Inl (RangeError ''Typed confirmation TTL must be an integer between 1 and 600000 ms (10 minutes).'')
      else Inr ttlMs)"

definition confirmableSourceControlOperationNames :: "string list" where
  "confirmableSourceControlOperationNames =
     [''git_push_branch'', ''github_create_repository'', ''github_create_pull_request'',
      ''github_merge_pull_request'']"

text \<open>The pattern of a SHA-256 digest: 64 lower-case hexadecimal digits.\<close>

definition is_sha256_hex :: "string \<Rightarrow> bool" where
  "is_sha256_hex s \<longleftrightarrow> length s = 64 \<and>
     list_all (\<lambda>c. (CHR ''a'' \<le> c \<and> c \<le> CHR ''f'') \<or> (CHR ''0'' \<le> c \<and> c \<le> CHR ''9'')) s"

definition parseBinding :: "TypedConfirmationBinding \<Rightarrow> TypedConfirmationBinding result" where
  "parseBinding binding =
     (if length (js_trim (tcb_workspaceId binding)) = 0 then
        Inl (TypeError ''Typed confirmation workspaceId cannot be blank.'')
      else if length (js_trim (tcb_targetResource binding)) = 0 then
        Inl (TypeError ''Typed confirmation targetResource cannot be blank.'')
      else if tcb_operation binding \<notin> set confirmableSourceControlOperationNames then
        Inl SchemaError
      else if \<not> is_sha256_hex (tcb_canonicalArgumentsDigest binding) then
        Inl (TypeError ''Typed confirmation canonicalArgumentsDigest must be SHA-256 hex.'')
      else Inr binding)"

definition typed_pruneExpired :: "instant \<Rightarrow> typed_pending \<Rightarrow> typed_pending" where
  "typed_pruneExpired now pending = js_delete_where (\<lambda>p. tpc_expiresAtMs p \<le> now) pending"

definition typed_create ::
  "int \<Rightarrow> instant \<Rightarrow> instant \<Rightarrow> string \<Rightarrow> TypedConfirmationBinding \<Rightarrow> typed_pending \<Rightarrow>
   (string \<times> instant) result \<times> typed_pending" where
  "typed_create ttlMs now1 now2 confirmationId binding pending =
     (case parseBinding binding of
        Inl e \<Rightarrow> (Inl e, pending)
      | Inr parsed \<Rightarrow>
          (let pending1 = typed_pruneExpired now1 pending;
               expiresAtMs = now2 + ttlMs;
               pending2 = js_set confirmationId
                 \<lparr>tpc_binding = parsed, tpc_expiresAtMs = expiresAtMs\<rparr> pending1
           in (Inr (confirmationId, expiresAtMs), pending2)))"

definition typed_sameBinding ::
  "TypedConfirmationBinding \<Rightarrow> TypedConfirmationBinding \<Rightarrow> bool" where
  "typed_sameBinding left right \<longleftrightarrow>
     safeEqual (tcb_workspaceId left) (tcb_workspaceId right) \<and>
     tcb_operation left = tcb_operation right \<and>
     safeEqual (tcb_targetResource left) (tcb_targetResource right) \<and>
     safeEqual (tcb_canonicalArgumentsDigest left) (tcb_canonicalArgumentsDigest right)"

definition invalidConfirmation :: "string \<Rightarrow> exn" where
  "invalidConfirmation message = AppError SOURCE_CONTROL_CONFIRMATION_INVALID message"

definition typed_consume ::
  "instant \<Rightarrow> instant \<Rightarrow> string \<Rightarrow> TypedConfirmationBinding \<Rightarrow> typed_pending \<Rightarrow>
   unit result \<times> typed_pending" where
  "typed_consume now1 now2 confirmationId binding pending =
     (case parseBinding binding of
        Inl e \<Rightarrow> (Inl e, pending)
      | Inr parsed \<Rightarrow>
          (let pending1 = typed_pruneExpired now1 pending;
               expired = (Inl (invalidConfirmation
                 ''Source-control confirmation is missing or expired.''),
                 js_delete confirmationId pending1)
           in case js_get pending1 confirmationId of
                None \<Rightarrow> expired
              | Some p \<Rightarrow>
                  if tpc_expiresAtMs p \<le> now2 then expired
                  else if \<not> typed_sameBinding (tpc_binding p) parsed then
                    (Inl (invalidConfirmation
                       ''Source-control confirmation does not match this typed operation.''), pending1)
                  else (Inr (), js_delete confirmationId pending1)))"

subsection \<open>The registry implements the contract\<close>

abbreviation typed_entry :: "typed_pending \<Rightarrow> TypedConfirmationBinding pending_map" where
  "typed_entry \<equiv> map_entry tpc_binding tpc_expiresAtMs"

definition typed_accepts :: "TypedConfirmationBinding \<Rightarrow> bool" where
  "typed_accepts b \<longleftrightarrow> is_ok (parseBinding b)"

definition typed_discard :: "unit \<Rightarrow> typed_pending \<Rightarrow> typed_pending" where
  "typed_discard u pending = pending"

lemma parseBinding_Inr: "parseBinding b = Inr b' \<Longrightarrow> b' = b"
  by (auto simp: parseBinding_def split: if_splits)

lemma parseBinding_accepts: "typed_accepts b \<Longrightarrow> parseBinding b = Inr b"
  by (auto simp: typed_accepts_def is_ok_iff dest: parseBinding_Inr)

lemma parseBinding_refuses: "\<not> typed_accepts b \<Longrightarrow> \<exists>e. parseBinding b = Inl e"
  by (cases "parseBinding b") (auto simp: typed_accepts_def)

lemma typed_sameBinding_iff [simp]: "typed_sameBinding l r \<longleftrightarrow> l = r"
  by (auto simp: typed_sameBinding_def)

lemma typed_pruneExpired_eq: "typed_pruneExpired = map_prune tpc_expiresAtMs"
  by (simp add: fun_eq_iff typed_pruneExpired_def map_prune_def)

lemma typed_consume_eq:
  "typed_accepts b \<Longrightarrow> typed_consume n1 n2 c b m = map_consume tpc_binding tpc_expiresAtMs
     (invalidConfirmation ''Source-control confirmation is missing or expired.'')
     (invalidConfirmation ''Source-control confirmation does not match this typed operation.'')
     n1 n2 c b m"
  by (simp add: typed_consume_def parseBinding_accepts map_consume_def typed_pruneExpired_eq Let_def
      split: option.split)

lemma typed_consume_refused:
  "\<not> typed_accepts b \<Longrightarrow> \<exists>e. typed_consume n1 n2 c b m = (Inl e, m)"
  using parseBinding_refuses [of b] by (auto simp: typed_consume_def)

lemma typed_create_refused:
  "\<not> typed_accepts b \<Longrightarrow> \<exists>e. typed_create ttlMs n1 n2 c b m = (Inl e, m)"
  using parseBinding_refuses [of b] by (auto simp: typed_create_def)

lemma typed_create_accepted:
  assumes "js_wf m" and "typed_accepts b"
  shows "is_ok (fst (typed_create ttlMs n1 n2 c b m))"
    and "typed_entry (snd (typed_create ttlMs n1 n2 c b m)) =
      spec_issue ttlMs n1 n2 c b (typed_entry m)"
    and "js_wf (snd (typed_create ttlMs n1 n2 c b m))"
  using assms
  by (simp_all add: typed_create_def parseBinding_accepts typed_pruneExpired_eq Let_def
      map_entry_prune spec_issue_def js_wf_set)

interpretation tc: confirmation_registry typed_entry js_wf ttlMs typed_accepts
  "typed_create ttlMs" typed_consume typed_discard for ttlMs
proof unfold_locales
  fix s :: typed_pending and n1 n2 c b
  assume wf: "js_wf s"
  show "is_ok (fst (typed_create ttlMs n1 n2 c b s)) = typed_accepts b"
    using wf typed_create_accepted typed_create_refused [of b ttlMs n1 n2 c s]
    by (cases "typed_accepts b") auto
  show "is_ok (fst (typed_consume n1 n2 c b s)) =
      (typed_accepts b \<and> fst (spec_redeem n1 n2 c b (typed_entry s)))"
    using wf typed_consume_refused [of b n1 n2 c s]
    by (cases "typed_accepts b") (auto simp: typed_consume_eq map_consume_sim)
  show "js_wf (snd (typed_create ttlMs n1 n2 c b s))"
    using wf typed_create_accepted typed_create_refused [of b ttlMs n1 n2 c s]
    by (cases "typed_accepts b") auto
  show "js_wf (snd (typed_consume n1 n2 c b s))"
    using wf typed_consume_refused [of b n1 n2 c s]
    by (cases "typed_accepts b") (auto simp: typed_consume_eq map_consume_sim)
next
  fix s :: typed_pending and n1 n2 c b
  assume "\<not> typed_accepts b"
  then show "snd (typed_create ttlMs n1 n2 c b s) = s" "snd (typed_consume n1 n2 c b s) = s"
    using typed_create_refused [of b ttlMs n1 n2 c s] typed_consume_refused [of b n1 n2 c s] by auto
qed (simp_all add: typed_create_accepted typed_consume_eq map_consume_sim typed_discard_def)

subsection \<open>Properties\<close>

text \<open>
  In every sequence of calls on a fresh typed registry, a \<open>consume\<close> that succeeds for an
  id and a binding is preceded by a \<open>create\<close> that returned this id for exactly this binding
  (workspace, operation, target, arguments digest), whose expiry is later than both clock
  readings of the \<open>consume\<close>, with no successful \<open>consume\<close> of the id in between.
\<close>

theorem typed_confirmation_authorised:
  assumes "run_ops (conf_step (typed_create ttlMs) typed_consume typed_discard)
      (ps @ [Redeem n1 n2 c b]) [] = (oks @ [True], s)"
    and "length oks = length ps"
  shows "\<exists>e. outstanding ttlMs (zip ps oks) c b e \<and> n1 < e \<and> n2 < e"
  by (rule tc.redeem_authorised [OF _ _ assms]) (simp_all add: map_entry_def)

definition example_digest :: string where
  "example_digest = replicate 64 (CHR ''a'')"

definition example_typed_binding :: TypedConfirmationBinding where
  "example_typed_binding = \<lparr>tcb_workspaceId = ''ws'', tcb_operation = ''git_push_branch'',
     tcb_targetResource = ''origin/main'', tcb_canonicalArgumentsDigest = example_digest\<rparr>"

lemma example_typed_binding_parses: "parseBinding example_typed_binding = Inr example_typed_binding"
  by (simp add: parseBinding_def example_typed_binding_def js_trim_def js_space_def Let_def
      confirmableSourceControlOperationNames_def is_sha256_hex_def example_digest_def list_all_iff
      less_eq_char_def)

theorem typed_confirmation_authorised_witness:
  "\<exists>e. outstanding 1000
     (zip [Issue 0 0 ''id'' example_typed_binding :: (TypedConfirmationBinding, unit) conf_op] [True])
     ''id'' example_typed_binding e \<and> 5 < e \<and> 6 < e"
proof -
  have "run_ops (conf_step (typed_create 1000) typed_consume typed_discard)
      ([Issue 0 0 ''id'' example_typed_binding] @ [Redeem 5 6 ''id'' example_typed_binding]) [] =
      ([True] @ [True], [])"
    by (simp add: typed_create_def typed_consume_def example_typed_binding_parses
        typed_pruneExpired_def js_delete_where_def Let_def)
  from typed_confirmation_authorised [OF this] show ?thesis by simp
qed

text \<open>
  The digest a typed confirmation is bound to is the same with and without the fields that
  carry the confirmation id itself (\<open>confirmationId\<close> in any spelling), so that the first call
  and the confirmed retry of one operation have the same binding.
\<close>

theorem digest_ignores_confirmation_id:
  "canonicalSourceControlArgumentsDigest sha256 num
     (JObject True (filter (\<lambda>(k, v). normalizeSensitiveKey k \<noteq> ''confirmationid'') es)) =
   canonicalSourceControlArgumentsDigest sha256 num (JObject True es)"
proof -
  have "removeEphemeralAndRejectSensitive
      (JObject True (filter (\<lambda>(k, v). normalizeSensitiveKey k \<noteq> ''confirmationid'') es)) =
    removeEphemeralAndRejectSensitive (JObject True es)"
    unfolding removeEphemeral_object
    by (rule collect_concat_filter [where f = "\<lambda>es. Inr (JObject True es)"])
      (auto simp: visit_entry_def)
  then show ?thesis by (simp only: canonicalSourceControlArgumentsDigest_def)
qed

text \<open>
  C19. No digest is computed over a credential: if some object of the arguments, at any depth
  outside a confirmation id field, has a key that normalises to a sensitive name
  (authorization, token, credential, password, secret, API key, private key), the digest
  function throws.
\<close>

theorem digest_refuses_secrets:
  assumes "carries_secret v"
  shows "\<exists>e. canonicalSourceControlArgumentsDigest sha256 num v = Inl e"
  using carries_secret_rejected [OF assms]
  by (auto simp: canonicalSourceControlArgumentsDigest_def is_ok_def split: sum.splits)

theorem digest_refuses_secrets_witness:
  "\<exists>e. canonicalSourceControlArgumentsDigest id (\<lambda>n :: nat. None)
     (JObject True [(''a'', JArray [JObject True [(''api_Key'', JNull)]])]) = Inl e"
proof -
  have "carries_secret (JObject True [(''a'', JArray [JObject True [(''api_Key'', JNull :: nat json)]])])"
    by code_simp
  from digest_refuses_secrets [OF this] show ?thesis .
qed

text \<open>
  A browser operation's idempotency fingerprint does not depend on the order of the keys in
  its input: inputs that agree after sorting every object by key have the same fingerprint,
  whatever the hash function.
\<close>

theorem fingerprint_ignores_key_order:
  assumes "unique_keys v" and "unique_keys w" and "key_sorted v = key_sorted w"
  shows "createBrowserOperationFingerprint sha256 num operation v =
    createBrowserOperationFingerprint sha256 num operation w"
proof -
  have "canonicalJson num v = canonicalJson num w"
    using assms canonicalJson_key_sorted [of v num] canonicalJson_key_sorted [of w num] by simp
  moreover have "(v = JUndefined) = (w = JUndefined)"
    using assms(3) key_sorted_undefined by metis
  ultimately have "canonicalJson num (JObject True [(''operation'', JString operation), (''input'', v)]) =
      canonicalJson num (JObject True [(''operation'', JString operation), (''input'', w)])"
    by (simp only: canonicalJson.simps list.map prod.case)
  then show ?thesis by (simp only: createBrowserOperationFingerprint_def)
qed

theorem fingerprint_ignores_key_order_witness:
  "createBrowserOperationFingerprint id (\<lambda>n :: nat. None) ''open''
     (JObject True [(''b'', JNull), (''a'', JObject True [(''d'', JNull), (''c'', JNull)])]) =
   createBrowserOperationFingerprint id (\<lambda>n :: nat. None) ''open''
     (JObject True [(''a'', JObject True [(''c'', JNull), (''d'', JNull)]), (''b'', JNull)])"
  by (rule fingerprint_ignores_key_order; code_simp)

end
