(* ===== verification/Confirmation_Refinement.thy ===== *)
theory Confirmation_Refinement
  imports Browser_Confirmations Command_Confirmations Typed_Confirmations
begin

text \<open>
  The three confirmation registries refine one abstract registry. The interface of
  \<open>Confirmation_Spec\<close> bounds what a discarding call may do; here every discarding call has an
  abstract counterpart, so that the abstraction commutes with every call.
\<close>

fun spec_step ::
  "int \<Rightarrow> ('b \<Rightarrow> bool) \<Rightarrow> ('x \<Rightarrow> 'b pending_map \<Rightarrow> 'b pending_map) \<Rightarrow> ('b, 'x) conf_op \<Rightarrow>
   'b pending_map \<Rightarrow> bool \<times> 'b pending_map" where
  "spec_step ttl accepts spec_discard (Issue n1 n2 c b) m =
     (if accepts b then (True, spec_issue ttl n1 n2 c b m) else (False, m))"
| "spec_step ttl accepts spec_discard (Redeem n1 n2 c b) m =
     (if accepts b then spec_redeem n1 n2 c b m else (False, m))"
| "spec_step ttl accepts spec_discard (Discard x) m = (True, spec_discard x m)"

locale exact_registry = confirmation_registry entry inv ttl accepts issue redeem discard
  for entry :: "'s \<Rightarrow> 'b pending_map" and inv and ttl and accepts and issue and redeem
    and discard :: "'x \<Rightarrow> 's \<Rightarrow> 's" +
  fixes spec_discard :: "'x \<Rightarrow> 'b pending_map \<Rightarrow> 'b pending_map"
  assumes discard_sim: "inv s \<Longrightarrow> entry (discard x s) = spec_discard x (entry s)"
begin

lemma step_refines:
  assumes "inv s"
  shows "spec_step ttl accepts spec_discard p (entry s) =
    (fst (conf_step issue redeem discard p s), entry (snd (conf_step issue redeem discard p s)))"
proof (cases p)
  case (Issue n1 n2 c b)
  with assms show ?thesis
    by (cases "accepts b") (simp_all add: case_prod_unfold issue_ok issue_sim issue_refused)
next
  case (Redeem n1 n2 c b)
  with assms show ?thesis
    by (cases "accepts b") (simp_all add: case_prod_unfold redeem_ok redeem_sim redeem_refused)
next
  case (Discard x)
  with assms show ?thesis by (simp add: discard_sim)
qed

lemma run_refines:
  "inv s \<Longrightarrow> run_ops (spec_step ttl accepts spec_discard) ps (entry s) =
     (let r = run_ops (conf_step issue redeem discard) ps s in (fst r, entry (snd r)))"
proof (induction ps arbitrary: s)
  case (Cons p ps)
  from step_inv [OF Cons.prems, of p]
  have "inv (snd (conf_step issue redeem discard p s))" .
  from Cons.IH [OF this] step_refines [OF Cons.prems, of p] show ?case
    by (simp add: Let_def case_prod_unfold)
qed simp

end

text \<open>The abstract counterparts of the browser registry's discarding calls.\<close>

fun browser_spec_discard ::
  "browser_discard_call \<Rightarrow> BrowserConfirmationBinding pending_map \<Rightarrow> BrowserConfirmationBinding pending_map" where
  "browser_spec_discard Clear m = Map.empty"
| "browser_spec_discard (HasPendingTabs now tabIds) m = live now m"
| "browser_spec_discard (DiscardTabs tabIds) m =
     (\<lambda>c. case m c of None \<Rightarrow> None | Some (b, e) \<Rightarrow> if bcb_tabId b \<in> set tabIds then None else Some (b, e))"

interpretation ccx: exact_registry command_entry js_wf ttlMs "\<lambda>_. True"
  "command_create ttlMs" command_consume command_discard "\<lambda>x m. m" for ttlMs
  by unfold_locales (simp add: command_discard_def)

interpretation tcx: exact_registry typed_entry js_wf ttlMs typed_accepts
  "typed_create ttlMs" typed_consume typed_discard "\<lambda>x m. m" for ttlMs
  by unfold_locales (simp add: typed_discard_def)

lemma browser_discard_sim:
  assumes "js_wf m"
  shows "browser_entry (browser_discard x m) = browser_spec_discard x (browser_entry m)"
proof (cases x)
  case Clear
  then show ?thesis by (simp add: browser_clear_def map_entry_def)
next
  case (HasPendingTabs now ids)
  with assms show ?thesis
    by (simp add: browser_hasPendingTabs_def Let_def browser_pruneExpired_eq map_entry_prune)
next
  case (DiscardTabs ids)
  with assms show ?thesis
    by (auto simp: browser_discardTabs_def map_entry_def js_get_delete_where fun_eq_iff split: option.splits)
qed

interpretation bcx: exact_registry browser_entry js_wf ttlMs "\<lambda>_. True"
  "browser_create ttlMs" browser_consume browser_discard browser_spec_discard for ttlMs
  by unfold_locales (rule browser_discard_sim)

subsection \<open>Properties\<close>

text \<open>
  C11. Each of the three registries refines the abstract registry, a partial map from ids to a
  binding and an expiry. For any sequence of calls on a well-formed registry, the outcomes are
  those of the abstract operations on the abstraction of its state, and the abstraction of the
  final state is the abstract final state: pruning, insertion order and the two error messages
  are invisible to the contract.\<close>

theorem confirmation_registries_refine:
  assumes "js_wf mc" and "js_wf mt" and "js_wf mb"
  shows "(let r = run_ops (conf_step (command_create ttlMs) command_consume command_discard) ps mc
     in run_ops (spec_step ttlMs (\<lambda>_. True) (\<lambda>x m. m)) ps (command_entry mc) = (fst r, command_entry (snd r))) \<and>
   (let r = run_ops (conf_step (typed_create ttlMs) typed_consume typed_discard) qs mt
     in run_ops (spec_step ttlMs typed_accepts (\<lambda>x m. m)) qs (typed_entry mt) = (fst r, typed_entry (snd r))) \<and>
   (let r = run_ops (conf_step (browser_create ttlMs) browser_consume browser_discard) rs mb
     in run_ops (spec_step ttlMs (\<lambda>_. True) browser_spec_discard) rs (browser_entry mb) =
          (fst r, browser_entry (snd r)))"
  using ccx.run_refines [OF assms(1)] tcx.run_refines [OF assms(2)] bcx.run_refines [OF assms(3)]
  by (simp add: Let_def)

theorem confirmation_registries_refine_witness:
  "run_ops (spec_step 100 (\<lambda>_. True) (\<lambda>x m. m))
     [Issue 0 0 ''id'' example_command_binding, Redeem 5 6 ''id'' (example_command_binding\<lparr>ccb_command := ''rm''\<rparr>),
      Redeem 7 8 ''id'' example_command_binding :: (CommandConfirmationBinding, unit) conf_op] Map.empty =
   ([True, False, True], Map.empty)"
proof -
  let ?ps = "[Issue 0 0 ''id'' example_command_binding,
      Redeem 5 6 ''id'' (example_command_binding\<lparr>ccb_command := ''rm''\<rparr>),
      Redeem 7 8 ''id'' example_command_binding :: (CommandConfirmationBinding, unit) conf_op]"
  have "run_ops (conf_step (command_create 100) command_consume command_discard) ?ps [] = ([True, False, True], [])"
    by (simp add: command_create_def command_consume_def command_pruneExpired_def
        example_command_binding_def js_delete_where_def Let_def)
  with confirmation_registries_refine [of "[]" "[]" "[]" 100 ?ps "[]" "[]"] show ?thesis
    by (simp add: map_entry_def del: run_ops.simps)
qed

end
