(* ===== verification/Command_Analysis.thy ===== *)
theory Command_Analysis
  imports Command_Confirmations Json
begin

text \<open>
  Analysis of a shell command before it is executed:
  \<open>services/workspace-agent/src/shell/command-analysis.ts\<close>. A command that needs no shell is
  turned into an executable and its arguments; anything else is left to the shell as a script,
  or (for PowerShell) to the full parser, which is the answer \<open>undefined\<close>.

  The loops over the characters are recursive functions that carry the local variables of the
  loop. The pattern \<open>\s\<close> is \<open>js_space\<close>, a metacharacter class is a predicate.
\<close>

datatype ShellCommandExecution = Argv string "string list" | Script string

record ShellCommandAnalysis =
  ca_shell :: ShellName
  ca_valid :: bool
  ca_execution :: "ShellCommandExecution option"
  ca_diagnostics :: "(string \<times> string) list"
  ca_usesShellFeatures :: bool

definition invalidAnalysis :: "ShellName \<Rightarrow> string \<Rightarrow> ShellCommandAnalysis" where
  "invalidAnalysis shell message =
     \<lparr>ca_shell = shell, ca_valid = False, ca_execution = None,
      ca_diagnostics = [(''syntax_error'', message)], ca_usesShellFeatures = True\<rparr>"

definition argv_analysis :: "ShellName \<Rightarrow> string \<Rightarrow> string list \<Rightarrow> ShellCommandAnalysis" where
  "argv_analysis shell executable argv =
     \<lparr>ca_shell = shell, ca_valid = True, ca_execution = Some (Argv executable argv),
      ca_diagnostics = [], ca_usesShellFeatures = False\<rparr>"

datatype quote = Single | Double
datatype grammar = Cmd_grammar | Posix_grammar

definition single_quote :: char where "single_quote = CHR 0x27"
definition double_quote :: char where "double_quote = CHR 0x22"
definition backslash :: char where "backslash = CHR 0x5C"

definition line_break :: "char \<Rightarrow> bool" where
  "line_break c \<longleftrightarrow> c = CHR 0x0D \<or> c = CHR 0x0A"

definition POWERSHELL_UNSUPPORTED_UNQUOTED :: "char \<Rightarrow> bool" where
  "POWERSHELL_UNSUPPORTED_UNQUOTED c \<longleftrightarrow>
     c \<in> set ''|&;<>'' \<or> c = CHR 0x60 \<or> c \<in> set ''$*?{}()[]#,@%'' \<or> line_break c"

definition cmd_metacharacter :: "char \<Rightarrow> bool" where
  "cmd_metacharacter c \<longleftrightarrow> c \<in> set ''&|<>^()%!'' \<or> line_break c"

definition posix_metacharacter :: "char \<Rightarrow> bool" where
  "posix_metacharacter c \<longleftrightarrow>
     c \<in> set ''|&;<>'' \<or> c = CHR 0x60 \<or> c \<in> set ''$*?{}()[]'' \<or> line_break c"

definition isTokenBoundary :: "char option \<Rightarrow> bool" where
  "isTokenBoundary character \<longleftrightarrow> (case character of None \<Rightarrow> True | Some c \<Rightarrow> js_space c)"

definition first_char :: "string \<Rightarrow> char option" where
  "first_char s = (case s of [] \<Rightarrow> None | c # _ \<Rightarrow> Some c)"

text \<open>\<open>flush\<close>: the tokens after pushing a started token.\<close>

definition flush :: "string list \<Rightarrow> string \<Rightarrow> bool \<Rightarrow> string list" where
  "flush tokens token tokenStarted = (if tokenStarted then tokens @ [token] else tokens)"

subsection \<open>PowerShell\<close>

datatype powershell_scan = Unsupported | Unterminated | Scanned "string list"

function scan_powershell ::
  "string \<Rightarrow> string list \<Rightarrow> string \<Rightarrow> bool \<Rightarrow> quote option \<Rightarrow> powershell_scan" where
  "scan_powershell [] tokens token started quote =
     (if quote \<noteq> None then Unterminated else Scanned (flush tokens token started))"
| "scan_powershell (c # cs) tokens token started quote =
     (if quote = Some Single then
        if c = single_quote then
          if first_char cs = Some single_quote then
            scan_powershell (tl cs) tokens (token @ [single_quote]) started quote
          else if \<not> isTokenBoundary (first_char cs) then Unsupported
          else scan_powershell cs tokens token started None
        else scan_powershell cs tokens (token @ [c]) started quote
      else if quote = Some Double then
        if c = double_quote then
          if \<not> isTokenBoundary (first_char cs) then Unsupported
          else scan_powershell cs tokens token started None
        else if c = CHR ''$'' \<or> c = CHR 0x60 then Unsupported
        else scan_powershell cs tokens (token @ [c]) started quote
      else if js_space c then
        scan_powershell cs (flush tokens token started) (if started then [] else token) False None
      else if c = single_quote \<or> c = double_quote then
        if started then Unsupported
        else scan_powershell cs tokens token True (Some (if c = single_quote then Single else Double))
      else if POWERSHELL_UNSUPPORTED_UNQUOTED c then Unsupported
      else scan_powershell cs tokens (token @ [c]) True None)"
  by pat_completeness auto

termination
  by (relation "measure (\<lambda>(cs, tokens, token, started, quote). length cs)")
    (auto simp: first_char_def split: list.splits)

definition analyzeSimplePowerShellCommand ::
  "ShellName \<Rightarrow> string \<Rightarrow> ShellCommandAnalysis option" where
  "analyzeSimplePowerShellCommand shell command =
     (let value = js_trim command in
      if length value = 0 then Some (invalidAnalysis shell ''Command must not be empty.'')
      else
        (case scan_powershell value [] [] False None of
           Unsupported \<Rightarrow> None
         | Unterminated \<Rightarrow>
             Some (invalidAnalysis shell ''PowerShell command contains an unterminated quote.'')
         | Scanned tokens \<Rightarrow>
             (case tokens of
                [] \<Rightarrow> Some (invalidAnalysis shell ''Command executable is missing.'')
              | executable # argv \<Rightarrow>
                  if executable = [] then Some (invalidAnalysis shell ''Command executable is missing.'')
                  else if executable = ''.'' then None
                  else Some (argv_analysis shell executable argv))))"

subsection \<open>Lexical grammars\<close>

fun containsUnquoted :: "(char \<Rightarrow> bool) \<Rightarrow> grammar \<Rightarrow> string \<Rightarrow> quote option \<Rightarrow> bool \<Rightarrow> bool" where
  "containsUnquoted pattern g [] quote escaped = False"
| "containsUnquoted pattern g (c # cs) quote escaped =
     (if escaped then containsUnquoted pattern g cs quote False
      else if g = Posix_grammar \<and> c = backslash \<and> quote \<noteq> Some Single then
        containsUnquoted pattern g cs quote True
      else if c = single_quote \<and> quote \<noteq> Some Double \<and> g = Posix_grammar then
        containsUnquoted pattern g cs (if quote = Some Single then None else Some Single) False
      else if c = double_quote \<and> quote \<noteq> Some Single then
        containsUnquoted pattern g cs (if quote = Some Double then None else Some Double) False
      else if quote = None \<and> pattern c then True
      else containsUnquoted pattern g cs quote False)"

text \<open>The tokens of a command, or \<open>None\<close> for an unterminated escape or quote.\<close>

fun tokenize ::
  "grammar \<Rightarrow> string \<Rightarrow> string list \<Rightarrow> string \<Rightarrow> bool \<Rightarrow> quote option \<Rightarrow> bool \<Rightarrow> string list option" where
  "tokenize g [] tokens token started quote escaped =
     (if escaped \<or> quote \<noteq> None then None else Some (flush tokens token started))"
| "tokenize g (c # cs) tokens token started quote escaped =
     (if escaped then tokenize g cs tokens (token @ [c]) True quote False
      else if g = Posix_grammar \<and> c = backslash \<and> quote \<noteq> Some Single then
        tokenize g cs tokens token True quote True
      else if g = Posix_grammar \<and> c = single_quote \<and> quote \<noteq> Some Double then
        tokenize g cs tokens token True (if quote = Some Single then None else Some Single) False
      else if c = double_quote \<and> quote \<noteq> Some Single then
        tokenize g cs tokens token True (if quote = Some Double then None else Some Double) False
      else if quote = None \<and> js_space c then
        tokenize g cs (flush tokens token started) (if started then [] else token) False quote False
      else tokenize g cs tokens (token @ [c]) True quote False)"

definition analyzeLexicalCommand ::
  "ShellName \<Rightarrow> string \<Rightarrow> (char \<Rightarrow> bool) \<Rightarrow> grammar \<Rightarrow> ShellCommandAnalysis" where
  "analyzeLexicalCommand shell command metacharacters g =
     (let trimmed = js_trim command in
      if length trimmed = 0 then invalidAnalysis shell ''Command must not be empty.''
      else
        (case tokenize g trimmed [] [] False None False of
           None \<Rightarrow> invalidAnalysis shell ''Command contains an unterminated escape or quote.''
         | Some tokens \<Rightarrow>
             if tokens = [] then invalidAnalysis shell ''Command syntax is invalid.''
             else if containsUnquoted metacharacters g trimmed None False then
               \<lparr>ca_shell = shell, ca_valid = True, ca_execution = Some (Script command),
                ca_diagnostics = [], ca_usesShellFeatures = True\<rparr>
             else if hd tokens = [] then invalidAnalysis shell ''Command executable is missing.''
             else argv_analysis shell (hd tokens) (tl tokens)))"

definition analyzeSimpleShellCommand :: "ShellName \<Rightarrow> string \<Rightarrow> ShellCommandAnalysis option" where
  "analyzeSimpleShellCommand shell command =
     (if shell = Powershell \<or> shell = Pwsh then analyzeSimplePowerShellCommand shell command
      else if shell = Cmd then
        Some (analyzeLexicalCommand shell command cmd_metacharacter Cmd_grammar)
      else Some (analyzeLexicalCommand shell command posix_metacharacter Posix_grammar))"

subsection \<open>Standard quoting\<close>

text \<open>
  The quoting rules of the two families of shells: a POSIX word in single quotes, with each inner
  quote written as quote, backslash, quote, quote; a PowerShell literal string, with each inner
  quote doubled.
\<close>

definition posix_quote :: "string \<Rightarrow> string" where
  "posix_quote s = [single_quote] @
     concat (map (\<lambda>c. if c = single_quote then [single_quote, backslash, single_quote, single_quote] else [c]) s) @
     [single_quote]"

definition powershell_quote :: "string \<Rightarrow> string" where
  "powershell_quote s = [single_quote] @
     concat (map (\<lambda>c. if c = single_quote then [single_quote, single_quote] else [c]) s) @ [single_quote]"

definition command_line :: "(string \<Rightarrow> string) \<Rightarrow> string list \<Rightarrow> string" where
  "command_line qt ws = join_with '' '' (map qt ws)"

lemma quote_chars [simp]:
  "single_quote \<noteq> backslash" "backslash \<noteq> single_quote" "single_quote \<noteq> double_quote"
  "double_quote \<noteq> single_quote" "backslash \<noteq> double_quote" "double_quote \<noteq> backslash"
  "\<not> js_space single_quote" "\<not> js_space double_quote" "\<not> js_space backslash" "js_space (CHR '' '')"
  by (simp_all add: single_quote_def double_quote_def backslash_def js_space_def)

lemma space_not_quote [simp]:
  "CHR '' '' \<noteq> single_quote" "CHR '' '' \<noteq> double_quote" "CHR '' '' \<noteq> backslash"
  by (simp_all add: single_quote_def double_quote_def backslash_def)

lemma js_trim_id:
  assumes "s \<noteq> []" and "\<not> js_space (hd s)" and "\<not> js_space (last s)"
  shows "js_trim s = s"
proof -
  have "dropWhile js_space s = s" using assms(1,2) by (cases s) auto
  moreover have "dropWhile js_space (rev s) = rev s"
    using assms(1,3) by (cases s rule: rev_exhaust) auto
  ultimately show ?thesis by (simp add: js_trim_def)
qed

lemma join_with_hd_last:
  assumes "xs \<noteq> []" and "\<And>x. x \<in> set xs \<Longrightarrow> x \<noteq> []"
  shows "join_with sep xs \<noteq> []" and "hd (join_with sep xs) = hd (hd xs)"
    and "last (join_with sep xs) = last (last xs)"
  using assms by (induction sep xs rule: join_with.induct) auto

lemma posix_quote_ends: "posix_quote s \<noteq> []" "hd (posix_quote s) = single_quote" "last (posix_quote s) = single_quote"
  by (simp_all add: posix_quote_def)

lemma powershell_quote_ends:
  "powershell_quote s \<noteq> []" "hd (powershell_quote s) = single_quote" "last (powershell_quote s) = single_quote"
  by (simp_all add: powershell_quote_def)

lemma command_line_trim:
  assumes "ws \<noteq> []" and "\<And>s. qt s \<noteq> []" and "\<And>s. hd (qt s) = single_quote" and "\<And>s. last (qt s) = single_quote"
  shows "js_trim (command_line qt ws) = command_line qt ws" and "command_line qt ws \<noteq> []"
proof -
  have ne: "map qt ws \<noteq> []" "\<And>x. x \<in> set (map qt ws) \<Longrightarrow> x \<noteq> []" using assms by auto
  note j = join_with_hd_last [OF ne, of "'' ''"]
  show "command_line qt ws \<noteq> []" using j(1) by (simp add: command_line_def)
  show "js_trim (command_line qt ws) = command_line qt ws"
    unfolding command_line_def
    by (rule js_trim_id) (use j assms in \<open>auto simp: hd_map last_map\<close>)
qed

subsection \<open>POSIX words come back\<close>

lemma tokenize_quoted_body:
  "tokenize Posix_grammar (concat (map (\<lambda>c. if c = single_quote then
       [single_quote, backslash, single_quote, single_quote] else [c]) s) @ rest)
     tokens token True (Some Single) False =
   tokenize Posix_grammar rest tokens (token @ s) True (Some Single) False"
  by (induction s arbitrary: token) auto

lemma tokenize_quoted:
  "tokenize Posix_grammar (posix_quote s @ rest) tokens token started None False =
   tokenize Posix_grammar rest tokens (token @ s) True None False"
  using tokenize_quoted_body [of s "single_quote # rest"] by (simp add: posix_quote_def)

lemma tokenize_command_line:
  "ws \<noteq> [] \<Longrightarrow> tokenize Posix_grammar (command_line posix_quote ws) tokens [] False None False = Some (tokens @ ws)"
  unfolding command_line_def
proof (induction ws arbitrary: tokens rule: induct_list012)
  case (2 x)
  then show ?case using tokenize_quoted [of x "[]"] by (simp add: flush_def)
next
  case (3 x y zs)
  then show ?case by (simp add: tokenize_quoted flush_def)
qed simp

lemma unquoted_quoted_body:
  "containsUnquoted p Posix_grammar (concat (map (\<lambda>c. if c = single_quote then
       [single_quote, backslash, single_quote, single_quote] else [c]) s) @ rest) (Some Single) False =
   containsUnquoted p Posix_grammar rest (Some Single) False"
  by (induction s) auto

lemma unquoted_quoted:
  "containsUnquoted p Posix_grammar (posix_quote s @ rest) None False =
   containsUnquoted p Posix_grammar rest None False"
  using unquoted_quoted_body [of p s "single_quote # rest"] by (simp add: posix_quote_def)

lemma unquoted_command_line:
  "\<not> p (CHR '' '') \<Longrightarrow> \<not> containsUnquoted p Posix_grammar (command_line posix_quote ws) None False"
  unfolding command_line_def
proof (induction ws rule: induct_list012)
  case (2 x)
  then show ?case using unquoted_quoted [of p x "[]"] by simp
qed (simp_all add: unquoted_quoted)

subsection \<open>PowerShell literals come back\<close>

lemma scan_quoted_body:
  assumes "isTokenBoundary (first_char rest)"
  shows "scan_powershell (concat (map (\<lambda>c. if c = single_quote then [single_quote, single_quote] else [c]) s) @
       single_quote # rest) tokens token started (Some Single) =
     scan_powershell rest tokens (token @ s) started None"
proof (induction s arbitrary: token)
  case Nil
  have "first_char rest \<noteq> Some single_quote" using assms by (auto simp: isTokenBoundary_def)
  then show ?case using assms by simp
next
  case (Cons c s)
  then show ?case by (auto simp: first_char_def)
qed

lemma scan_quoted:
  "isTokenBoundary (first_char rest) \<Longrightarrow>
   scan_powershell (powershell_quote s @ rest) tokens [] False None = scan_powershell rest tokens s True None"
  using scan_quoted_body [of rest s tokens "[]" True] by (simp add: powershell_quote_def)

lemma scan_command_line:
  "ws \<noteq> [] \<Longrightarrow> scan_powershell (command_line powershell_quote ws) tokens [] False None = Scanned (tokens @ ws)"
  unfolding command_line_def
proof (induction ws arbitrary: tokens rule: induct_list012)
  case (2 x)
  then show ?case using scan_quoted [of "[]" x tokens]
    by (simp add: flush_def first_char_def isTokenBoundary_def)
next
  case (3 x y zs)
  have "isTokenBoundary (first_char ('' '' @ t))" for t by (simp add: first_char_def isTokenBoundary_def)
  then show ?case using 3 by (simp add: scan_quoted flush_def)
qed simp

subsection \<open>Commands without quotes\<close>

definition quote_free :: "string \<Rightarrow> bool" where
  "quote_free s \<longleftrightarrow> single_quote \<notin> set s \<and> double_quote \<notin> set s \<and> backslash \<notin> set s"

lemma quote_free_Cons [simp]:
  "quote_free (c # s) \<longleftrightarrow> c \<noteq> single_quote \<and> c \<noteq> double_quote \<and> c \<noteq> backslash \<and> quote_free s"
  by (auto simp: quote_free_def)

lemma containsUnquoted_plain: "quote_free s \<Longrightarrow> containsUnquoted p g s None False = list_ex p s"
  by (induction s) auto

lemma scan_plain_unsupported:
  "quote_free s \<Longrightarrow> list_ex (\<lambda>c. POWERSHELL_UNSUPPORTED_UNQUOTED c \<and> \<not> js_space c) s \<Longrightarrow>
   scan_powershell s tokens token started None = Unsupported"
  by (induction s arbitrary: tokens token started) (auto simp: quote_free_def)

lemma set_js_trim: "set (js_trim s) \<subseteq> set s"
  by (auto simp: js_trim_def dest!: set_dropWhileD)

lemma quote_free_trim: "quote_free s \<Longrightarrow> quote_free (js_trim s)"
  using set_js_trim [of s] by (auto simp: quote_free_def)

lemma nonspace_in_trim: "c \<in> set s \<Longrightarrow> \<not> js_space c \<Longrightarrow> c \<in> set (js_trim s)"
proof -
  have keep: "c \<in> set (dropWhile js_space xs)" if "c \<in> set xs" "\<not> js_space c" for xs
    using that by (induction xs) auto
  assume "c \<in> set s" "\<not> js_space c"
  then show ?thesis using keep by (simp add: js_trim_def)
qed

lemma powershell_command_line_argv:
  assumes "executable \<noteq> []" and "executable \<noteq> ''.''" and "shell = Powershell \<or> shell = Pwsh"
  shows "analyzeSimpleShellCommand shell (command_line powershell_quote (executable # argv)) =
     Some (argv_analysis shell executable argv)"
proof -
  have ne: "executable # argv \<noteq> []" by simp
  note t = command_line_trim [OF ne, of powershell_quote, OF powershell_quote_ends]
  show ?thesis
    using t scan_command_line [OF ne, of "[]"] assms
    by (auto simp: analyzeSimpleShellCommand_def analyzeSimplePowerShellCommand_def Let_def)
qed

subsection \<open>Properties\<close>

text \<open>
  C26. POSIX round trip. For every non-empty list of words with a non-empty executable, the
  command line made of the words in standard single-quoting, whatever characters they hold, is
  analysed as exactly that executable with exactly those arguments, without the shell.\<close>

theorem posix_words_round_trip:
  assumes "executable \<noteq> []" and "shell = Wsl \<or> shell = Git_bash"
  shows "analyzeSimpleShellCommand shell (command_line posix_quote (executable # argv)) =
     Some (argv_analysis shell executable argv)"
proof -
  have sp: "\<not> posix_metacharacter (CHR '' '')" by code_simp
  have ne: "executable # argv \<noteq> []" by simp
  note t = command_line_trim [OF ne, of posix_quote, OF posix_quote_ends]
  have "analyzeLexicalCommand shell (command_line posix_quote (executable # argv)) posix_metacharacter Posix_grammar =
      argv_analysis shell executable argv"
    using t tokenize_command_line [OF ne, of "[]"] unquoted_command_line [of posix_metacharacter, OF sp] assms(1)
    by (simp add: analyzeLexicalCommand_def Let_def)
  then show ?thesis using assms(2) by (auto simp: analyzeSimpleShellCommand_def)
qed

theorem posix_words_round_trip_witness:
  "analyzeSimpleShellCommand Git_bash (command_line posix_quote [''git'', ''commit'', ''it'' @ [single_quote] @ ''s; rm -rf *'']) =
     Some (argv_analysis Git_bash ''git'' [''commit'', ''it'' @ [single_quote] @ ''s; rm -rf *''])"
  using posix_words_round_trip [of "''git''" Git_bash] by simp

text \<open>
  PowerShell round trip. The same for PowerShell literals: every list of words whose
  executable is neither empty nor the dot operator comes back from its quoted form.\<close>

theorem powershell_words_round_trip:
  assumes "executable \<noteq> []" and "executable \<noteq> ''.''" and "shell = Powershell \<or> shell = Pwsh"
  shows "analyzeSimpleShellCommand shell (command_line powershell_quote (executable # argv)) =
     Some (argv_analysis shell executable argv)"
  by (rule powershell_command_line_argv [OF assms])

theorem powershell_words_round_trip_witness:
  "analyzeSimpleShellCommand Pwsh (command_line powershell_quote [''echo'', ''$env:X; '' @ [single_quote]]) =
     Some (argv_analysis Pwsh ''echo'' [''$env:X; '' @ [single_quote]])"
  using powershell_words_round_trip [of "''echo''" Pwsh] by simp



text \<open>
  A line break does not separate PowerShell commands. The class of unsupported characters
  lists the carriage return and the line feed, but the scanner tests for white space first, so a
  script of two lines is taken for one command whose arguments are the words of the second
  line.\<close>

theorem powershell_line_break_joins:
  "analyzeSimpleShellCommand Powershell (''git status'' @ [CHR 0x0A] @ ''rm x'') =
     Some (argv_analysis Powershell ''git'' [''status'', ''rm'', ''x''])"
  by code_simp

end
