(* ===== verification/Js_Regex.thy ===== *)
theory Js_Regex
  imports Prelude
begin

text \<open>
  The regular expressions of JavaScript that the command classifier uses: character classes,
  sequences, alternatives, greedy and lazy repetition, word boundaries, anchors and lookahead.

  A position of the input is the character before it and the rest after it. \<open>ends r pos\<close>
  lists the positions at which a match of \<open>r\<close> from \<open>pos\<close> may end, in the order in which a
  backtracking matcher tries them: the first one is the match that JavaScript reports. With the
  flag \<open>i\<close> the classes of a pattern accept both cases; on the code units below 256 this only
  concerns the letters of the patterns themselves.
\<close>

type_synonym position = "char option \<times> string"

datatype regex =
    Empty
  | Cls "char \<Rightarrow> bool"
  | Seq regex regex
  | Alt regex regex
  | Rep nat "nat option" bool regex
  | WordBoundary
  | StartAnchor
  | EndAnchor
  | Look bool regex

definition word_char :: "char \<Rightarrow> bool" where
  "word_char c \<longleftrightarrow> (let n = (of_char c :: nat) in
     (48 \<le> n \<and> n \<le> 57) \<or> (65 \<le> n \<and> n \<le> 90) \<or> n = 95 \<or> (97 \<le> n \<and> n \<le> 122))"

definition word_at :: "char option \<Rightarrow> bool" where
  "word_at p = (case p of None \<Rightarrow> False | Some c \<Rightarrow> word_char c)"

definition next_char :: "string \<Rightarrow> char option" where
  "next_char s = (case s of [] \<Rightarrow> None | c # _ \<Rightarrow> Some c)"

text \<open>
  Repetition: at least \<open>lo\<close> and at most \<open>n\<close> more rounds. A round beyond the minimum has to
  consume something, as in the JavaScript specification.
\<close>

fun rep_ends :: "(position \<Rightarrow> position list) \<Rightarrow> nat \<Rightarrow> nat \<Rightarrow> bool \<Rightarrow> position \<Rightarrow> position list" where
  "rep_ends f lo 0 greedy pos = (if lo = 0 then [pos] else [])"
| "rep_ends f lo (Suc n) greedy pos =
     (let more = concat (map (\<lambda>q. if lo = 0 \<and> snd q = snd pos then [] else rep_ends f (lo - 1) n greedy q) (f pos)) in
      if lo > 0 then more else if greedy then more @ [pos] else pos # more)"

primrec ends :: "regex \<Rightarrow> position \<Rightarrow> position list" where
  "ends Empty pos = [pos]"
| "ends (Cls p) pos = (case snd pos of [] \<Rightarrow> [] | c # cs \<Rightarrow> if p c then [(Some c, cs)] else [])"
| "ends (Seq r1 r2) pos = concat (map (ends r2) (ends r1 pos))"
| "ends (Alt r1 r2) pos = ends r1 pos @ ends r2 pos"
| "ends (Rep lo hi greedy r) pos =
     rep_ends (ends r) lo (case hi of None \<Rightarrow> lo + length (snd pos) | Some h \<Rightarrow> h) greedy pos"
| "ends WordBoundary pos = (if word_at (fst pos) \<noteq> word_at (next_char (snd pos)) then [pos] else [])"
| "ends StartAnchor pos = (if fst pos = None then [pos] else [])"
| "ends EndAnchor pos = (if snd pos = [] then [pos] else [])"
| "ends (Look positive r) pos = (if (ends r pos \<noteq> []) = positive then [pos] else [])"

text \<open>\<open>search\<close>: the text before the leftmost match, the match, and the rest.\<close>

fun search_from :: "regex \<Rightarrow> char option \<Rightarrow> string \<Rightarrow> (string \<times> string \<times> string) option" where
  "search_from r p s =
     (case ends r (p, s) of
        q # _ \<Rightarrow> Some ([], take (length s - length (snd q)) s, snd q)
      | [] \<Rightarrow>
          (case s of
             [] \<Rightarrow> None
           | c # cs \<Rightarrow> map_option (\<lambda>(before, m, rest). (c # before, m, rest)) (search_from r (Some c) cs)))"

declare search_from.simps [simp del]

definition re_match :: "regex \<Rightarrow> string \<Rightarrow> (string \<times> string \<times> string) option" where
  "re_match r s = search_from r None s"

definition re_test :: "regex \<Rightarrow> string \<Rightarrow> bool" where
  "re_test r s \<longleftrightarrow> re_match r s \<noteq> None"

text \<open>Replacing every match by one text; \<open>n\<close> bounds the number of matches by the input length.\<close>

fun replace_all :: "regex \<Rightarrow> string \<Rightarrow> nat \<Rightarrow> char option \<Rightarrow> string \<Rightarrow> string" where
  "replace_all r new 0 p s = s"
| "replace_all r new (Suc n) p s =
     (case search_from r p s of
        None \<Rightarrow> s
      | Some (before, m, rest) \<Rightarrow>
          before @ new @ (if m = [] then (case rest of [] \<Rightarrow> [] | c # cs \<Rightarrow> c # replace_all r new n (Some c) cs)
                          else replace_all r new n (Some (last m)) rest))"

definition re_replace :: "regex \<Rightarrow> string \<Rightarrow> string \<Rightarrow> string" where
  "re_replace r new s = replace_all r new (Suc (length s)) None s"

subsection \<open>Building patterns\<close>

text \<open>A literal with the flag \<open>i\<close>; the text is given in lower case.\<close>

definition same_letter :: "char \<Rightarrow> char \<Rightarrow> bool" where
  "same_letter a c \<longleftrightarrow> c = a \<or> (let n = (of_char a :: nat) in 97 \<le> n \<and> n \<le> 122 \<and> (of_char c :: nat) = n - 32)"

fun lit :: "string \<Rightarrow> regex" where
  "lit [] = Empty"
| "lit (c # cs) = Seq (Cls (same_letter c)) (lit cs)"

fun alts :: "regex list \<Rightarrow> regex" where
  "alts [] = Cls (\<lambda>c. False)"
| "alts [r] = r"
| "alts (r # rs) = Alt r (alts rs)"

fun seqs :: "regex list \<Rightarrow> regex" where
  "seqs [] = Empty"
| "seqs (r # rs) = Seq r (seqs rs)"

abbreviation "re_star r \<equiv> Rep 0 None True r"
abbreviation "re_plus r \<equiv> Rep 1 None True r"
abbreviation "re_opt r \<equiv> Rep 0 (Some 1) True r"

definition words :: "string list \<Rightarrow> regex" where
  "words ws = seqs [WordBoundary, alts (map lit ws), WordBoundary]"

subsection \<open>When a pattern matches somewhere\<close>

definition last_char :: "string \<Rightarrow> char option" where
  "last_char s = (if s = [] then None else Some (last s))"

lemma search_from_iff:
  "search_from r p s \<noteq> None \<longleftrightarrow>
     (\<exists>a b. s = a @ b \<and> ends r (if a = [] then p else Some (last a), b) \<noteq> [])"
proof (induction s arbitrary: p)
  case Nil
  then show ?case by (auto simp: search_from.simps split: list.splits)
next
  case (Cons c cs)
  show ?case
  proof (cases "ends r (p, c # cs)")
    case Nil
    have "(\<exists>a b. c # cs = a @ b \<and> ends r (if a = [] then p else Some (last a), b) \<noteq> []) \<longleftrightarrow>
        (\<exists>a b. cs = a @ b \<and> ends r (if a = [] then Some c else Some (last a), b) \<noteq> [])" (is "?L \<longleftrightarrow> ?R")
    proof
      assume ?L
      then obtain a b where ab: "c # cs = a @ b" "ends r (if a = [] then p else Some (last a), b) \<noteq> []" by blast
      with Nil obtain a' where "a = c # a'" by (cases a) auto
      with ab show ?R by (intro exI [of _ a'] exI [of _ b]) (auto split: if_splits)
    next
      assume ?R
      then obtain a b where "cs = a @ b" "ends r (if a = [] then Some c else Some (last a), b) \<noteq> []" by blast
      then show ?L by (intro exI [of _ "c # a"] exI [of _ b]) auto
    qed
    with Nil Cons.IH [of "Some c"] show ?thesis by (simp add: search_from.simps [of r p])
  next
    case (Cons q qs)
    then have "search_from r p (c # cs) \<noteq> None" by (simp add: search_from.simps [of r p])
    moreover have "\<exists>a b. c # cs = a @ b \<and> ends r (if a = [] then p else Some (last a), b) \<noteq> []"
      using Cons by (intro exI [of _ "[]"] exI [of _ "c # cs"]) simp
    ultimately show ?thesis by blast
  qed
qed

lemma re_test_iff: "re_test r s \<longleftrightarrow> (\<exists>a b. s = a @ b \<and> ends r (last_char a, b) \<noteq> [])"
  unfolding re_test_def re_match_def search_from_iff last_char_def by simp

lemma re_testI: "q \<in> set (ends r (last_char a, b)) \<Longrightarrow> re_test r (a @ b)"
  unfolding re_test_iff by (intro exI [of _ a] exI [of _ b]) auto

lemma same_letter_lower: "js_lower_char c = a \<Longrightarrow> (of_char c :: nat) < 128 \<Longrightarrow> same_letter a c"
  by (auto simp: same_letter_def js_lower_char_def Let_def split: if_splits)

lemma lit_ends:
  "list_all2 same_letter w u \<Longrightarrow> ends (lit w) (p, u @ b) = [(if u = [] then p else Some (last u), b)]"
  by (induction w arbitrary: p u) (auto simp: list_all2_Cons1)

lemma alts_ends: "r \<in> set rs \<Longrightarrow> q \<in> set (ends r pos) \<Longrightarrow> q \<in> set (ends (alts rs) pos)"
  by (induction rs rule: alts.induct) auto

text \<open>A literal among the alternatives, in any case, between word boundaries is found.\<close>

lemma bounded_literal_found:
  assumes "lit w \<in> set rs" and "list_all2 same_letter w u" and "u \<noteq> []"
    and "word_at (last_char a) \<noteq> word_char (hd u)" and "word_char (last u) \<noteq> word_at (next_char b)"
  shows "re_test (seqs [WordBoundary, alts rs, WordBoundary]) (a @ u @ b)"
proof -
  have q: "(Some (last u), b) \<in> set (ends (alts rs) (last_char a, u @ b))"
    by (rule alts_ends [OF assms(1)]) (use assms lit_ends [OF assms(2)] in auto)
  have start: "ends WordBoundary (last_char a, u @ b) = [(last_char a, u @ b)]"
    using assms(3,4) by (cases u) (auto simp: next_char_def word_at_def)
  have stop: "ends WordBoundary (Some (last u), b) = [(Some (last u), b)]"
    using assms(5) by (simp add: word_at_def)
  have "(Some (last u), b) \<in> set (ends (seqs [WordBoundary, alts rs, WordBoundary]) (last_char a, u @ b))"
    by (simp add: start del: ends.simps(6)) (rule bexI [OF _ q], simp add: stop del: ends.simps(6))
  then show ?thesis by (rule re_testI)
qed

lemma words_found:
  assumes "w \<in> set ws" and "list_all2 same_letter w u" and "u \<noteq> []"
    and "word_at (last_char a) \<noteq> word_char (hd u)" and "word_char (last u) \<noteq> word_at (next_char b)"
  shows "re_test (words ws) (a @ u @ b)"
  unfolding words_def by (rule bounded_literal_found) (use assms in auto)

lemma re_test_alts: "r \<in> set rs \<Longrightarrow> re_test r s \<Longrightarrow> re_test (alts rs) s"
  unfolding re_test_iff by (metis alts_ends hd_in_set list.set_sel(1) empty_iff set_empty)

end
