(* ===== verification/Command_Risk.thy ===== *)
theory Command_Risk
  imports Command_Analysis Js_Regex
begin

text \<open>
  The risk of a shell command: \<open>services/workspace-agent/src/shell/command-risk.ts\<close>. A command
  with a reason needs a confirmation before it runs. The patterns are terms of \<open>Js_Regex\<close>;
  \<open>toLocaleLowerCase("en-US")\<close> is \<open>js_lower\<close>.
\<close>

record CommandRisk =
  cr_destructive :: bool
  cr_reasons :: "string list"

record GitPushIntent =
  gp_isPush :: bool
  gp_targetsMain :: bool
  gp_usesGitC :: bool
  gp_usesMirror :: bool

abbreviation "DELETE_REASON \<equiv> ''delete, remove or force-clean operation''"
abbreviation "WRITE_REASON \<equiv> ''move, overwrite or direct file write operation''"
abbreviation "REGISTRY_REASON \<equiv> ''registry modification or system configuration''"
abbreviation "SERVICE_REASON \<equiv> ''service or process control''"
abbreviation "GIT_REASON \<equiv> ''destructive git operation''"
abbreviation "PUSH_REASON \<equiv> ''git push requires explicit user confirmation''"
abbreviation "DOCKER_REASON \<equiv> ''docker cleanup or volume-removing operation''"
abbreviation "PUBLISH_REASON \<equiv> ''publish, install or migration operation''"
abbreviation "REMOTE_REASON \<equiv> ''remote download execution or encoded command''"
abbreviation "PERMISSION_REASON \<equiv> ''permission or ownership change''"
abbreviation "DYNAMIC_REASON \<equiv> ''dynamic PowerShell call operator''"

definition DISK_BOOT_VOLUME_REASON :: string where
  "DISK_BOOT_VOLUME_REASON = ''disk, boot or volume operation''"

definition EXTERNAL_PACKAGE_EXECUTION_REASON :: string where
  "EXTERNAL_PACKAGE_EXECUTION_REASON = ''external package execution''"

definition EXTERNAL_DEPLOYMENT_REASON :: string where
  "EXTERNAL_DEPLOYMENT_REASON = ''external deployment operation''"

subsection \<open>Executables\<close>

definition FORMAT_EXECUTABLES :: "string list" where
  "FORMAT_EXECUTABLES = [''format'', ''format.com'', ''format.exe'', ''format-volume'']"

definition DELETE_EXECUTABLES :: "string list" where
  "DELETE_EXECUTABLES = [''remove-item'', ''ri'', ''rm'', ''del'', ''erase'', ''rd'', ''rmdir'', ''unlink'', ''shred'']"

definition WRITE_EXECUTABLES :: "string list" where
  "WRITE_EXECUTABLES = [''move-item'', ''mi'', ''move'', ''mv'', ''set-content'', ''sc'', ''out-file'', ''new-item'',
     ''ni'', ''copy-item'', ''copy'', ''cp'', ''cpi'', ''tee'', ''truncate'']"

definition REGISTRY_EXECUTABLES :: "string list" where
  "REGISTRY_EXECUTABLES = [''reg'', ''regedit'', ''set-itemproperty'', ''sp'', ''new-itemproperty'',
     ''remove-itemproperty'', ''rp'']"

definition SERVICE_EXECUTABLES :: "string list" where
  "SERVICE_EXECUTABLES = [''stop-service'', ''spsv'', ''restart-service'', ''rsv'', ''set-service'', ''stop-process'',
     ''spps'', ''kill'', ''taskkill'']"

definition PERMISSION_EXECUTABLES :: "string list" where
  "PERMISSION_EXECUTABLES = [''chmod'', ''chown'', ''icacls'', ''takeown'', ''set-acl'']"

definition NESTED_SHELL_EXECUTABLES :: "string list" where
  "NESTED_SHELL_EXECUTABLES = [''powershell'', ''powershell.exe'', ''pwsh'', ''pwsh.exe'', ''cmd'', ''cmd.exe'',
     ''wsl'', ''wsl.exe'', ''bash'', ''sh'']"

definition normalizeRiskExecutable :: "string \<Rightarrow> string" where
  "normalizeRiskExecutable v =
     (let normalized = map (\<lambda>c. if c = backslash then CHR ''/'' else c) v in
      js_lower (rev (takeWhile (\<lambda>c. c \<noteq> CHR ''/'') (rev normalized))))"

definition normalizeExternalExecutable :: "string \<Rightarrow> string" where
  "normalizeExternalExecutable v =
     (let n = normalizeRiskExecutable v in
      if js_endsWith n ''.cmd'' \<or> js_endsWith n ''.bat'' \<or> js_endsWith n ''.exe'' then take (length n - 4) n else n)"

subsection \<open>Normalisation\<close>

text \<open>The two replacements and the trim of \<open>normalizeForRisk\<close>.\<close>

fun join_continuations :: "string \<Rightarrow> string" where
  "join_continuations (c # d # cs) =
     (if c = CHR 0x60 \<and> line_break d then CHR '' '' # join_continuations cs else c # join_continuations (d # cs))"
| "join_continuations cs = cs"

fun collapse_spaces :: "bool \<Rightarrow> string \<Rightarrow> string" where
  "collapse_spaces after_space [] = []"
| "collapse_spaces after_space (c # cs) =
     (if js_space c then (if after_space then collapse_spaces True cs else CHR '' '' # collapse_spaces True cs)
      else c # collapse_spaces False cs)"

definition normalizeForRisk :: "ShellName \<Rightarrow> string \<Rightarrow> string" where
  "normalizeForRisk shell command =
     (let normalized = js_trim (collapse_spaces False (join_continuations command)) in
      if shell = Cmd then filter (\<lambda>c. c \<noteq> CHR ''^'') normalized else normalized)"

subsection \<open>Inert PowerShell literals\<close>

text \<open>A single-quoted literal from after its quote: its length and whether it is closed.\<close>

fun single_literal :: "string \<Rightarrow> nat \<times> bool" where
  "single_literal [] = (0, False)"
| "single_literal [c] = (1, c = single_quote)"
| "single_literal (c # d # cs) =
     (if c \<noteq> single_quote then (case single_literal (d # cs) of (n, closed) \<Rightarrow> (Suc n, closed))
      else if d = single_quote then (case single_literal cs of (n, closed) \<Rightarrow> (Suc (Suc n), closed))
      else (1, True))"

text \<open>A double-quoted one: also whether it holds no backtick and no dollar sign.\<close>

fun double_literal :: "string \<Rightarrow> nat \<times> bool \<times> bool" where
  "double_literal [] = (0, False, True)"
| "double_literal (c # cs) =
     (if c = CHR 0x60 then
        (case cs of
           [] \<Rightarrow> (1, False, False)
         | d # ds \<Rightarrow> (case double_literal ds of (n, closed, inert) \<Rightarrow> (Suc (Suc n), closed, False)))
      else if c = CHR ''$'' then (case double_literal cs of (n, closed, inert) \<Rightarrow> (Suc n, closed, False))
      else if c = double_quote then (1, True, True)
      else (case double_literal cs of (n, closed, inert) \<Rightarrow> (Suc n, closed, inert)))"

function mask_literals :: "string \<Rightarrow> string" where
  "mask_literals [] = []"
| "mask_literals (c # cs) =
     (if c = single_quote then
        (case single_literal cs of (n, closed) \<Rightarrow>
           (if closed then replicate (Suc n) (CHR '' '') else c # take n cs) @ mask_literals (drop n cs))
      else if c = double_quote then
        (case double_literal cs of (n, closed, inert) \<Rightarrow>
           (if closed \<and> inert then replicate (Suc n) (CHR '' '') else c # take n cs) @ mask_literals (drop n cs))
      else c # mask_literals cs)"
  by pat_completeness auto

termination
  by (relation "measure length") auto

definition maskPowerShellInertQuotedLiterals :: "ShellName \<Rightarrow> string \<Rightarrow> string" where
  "maskPowerShellInertQuotedLiterals shell v =
     (if shell \<noteq> Powershell \<and> shell \<noteq> Pwsh then v else mask_literals v)"

subsection \<open>Patterns\<close>

abbreviation "wspace \<equiv> Cls js_space"
abbreviation "any_char \<equiv> Cls (\<lambda>c. \<not> line_break c)"
abbreviation "chr c \<equiv> Cls (\<lambda>d. d = c)"

definition in_segment :: regex where
  "in_segment = Cls (\<lambda>c. c \<notin> set '';&|'' \<and> \<not> line_break c)"

definition exe_suffix :: regex where
  "exe_suffix = re_opt (lit ''.exe'')"

text \<open>Some words within \<open>n\<close> characters of the same segment.\<close>

definition followed_by :: "nat \<Rightarrow> regex \<Rightarrow> regex" where
  "followed_by n r = Look True (seqs [Rep 0 (Some n) True in_segment, WordBoundary, r, WordBoundary])"

definition segment_start :: regex where
  "segment_start = alts [StartAnchor,
     seqs [alts [lit ''&&'', lit ''||'', Cls (\<lambda>c. c \<in> set '';|'')], re_star wspace]]"

definition call_operator :: regex where
  "call_operator = re_opt (seqs [chr (CHR ''&''), re_star wspace])"

definition docker_verbs :: "regex \<Rightarrow> regex" where
  "docker_verbs gap = alts [seqs [lit ''system'', re_plus wspace, lit ''prune''], seqs [lit ''volume'', re_plus wspace, lit ''prune''],
     seqs [lit ''image'', re_plus wspace, lit ''prune''], seqs [lit ''container'', re_plus wspace, lit ''prune''], lit ''rm'', lit ''rmi'',
     seqs [lit ''compose'', re_plus wspace, lit ''down'', WordBoundary, re_star gap, wspace, lit ''-v'']]"

definition install_verbs :: regex where
  "install_verbs = alts [lit ''install'', lit ''i'', lit ''add'', lit ''remove'', lit ''publish'',
     seqs [lit ''audit'', re_plus wspace, lit ''fix'']]"

definition database_update :: regex where
  "database_update = seqs [lit ''ef'', re_plus wspace, lit ''database'', re_plus wspace, lit ''update'']"

definition git_verbs :: "string list" where
  "git_verbs = [''reset'', ''clean'', ''checkout'', ''restore'', ''switch'', ''rebase'']"

definition RISK_PATTERNS :: "(string \<times> regex) list" where
  "RISK_PATTERNS = [
     (DELETE_REASON, words DELETE_EXECUTABLES),
     (WRITE_REASON, words WRITE_EXECUTABLES),
     (REGISTRY_REASON, alts [words REGISTRY_EXECUTABLES, seqs [WordBoundary, lit ''hklm:''], seqs [WordBoundary, lit ''hkcu:'']]),
     (DISK_BOOT_VOLUME_REASON,
       seqs [WordBoundary, alts [lit ''diskpart'', lit ''bcdedit'', lit ''mountvol'', lit ''manage-bde'',
         seqs [lit ''chkdsk'', re_plus wspace, re_star any_char, lit ''/f''], seqs [lit ''dd'', re_plus wspace, lit ''if='']], WordBoundary]),
     (SERVICE_REASON,
       seqs [WordBoundary, alts (map lit SERVICE_EXECUTABLES @
         [seqs [lit ''sc'', exe_suffix, re_plus wspace, alts [lit ''delete'', lit ''stop'', lit ''config'']],
          seqs [lit ''net'', re_plus wspace, alts [lit ''stop'', lit ''start'']]]), WordBoundary]),
     (GIT_REASON, seqs [WordBoundary, lit ''git'', exe_suffix, WordBoundary, followed_by 240 (alts (map lit git_verbs))]),
     (PUSH_REASON, seqs [segment_start, call_operator, lit ''git'', exe_suffix, WordBoundary, followed_by 240 (lit ''push'')]),
     (DOCKER_REASON, seqs [WordBoundary, lit ''docker'', exe_suffix, WordBoundary, followed_by 240 (docker_verbs in_segment)]),
     (PUBLISH_REASON, alts [
       seqs [words [''npm'', ''pnpm'', ''yarn''], followed_by 200 install_verbs],
       seqs [words [''pip'', ''pipx''], followed_by 160 (lit ''install'')],
       seqs [words [''prisma'', ''sequelize'', ''typeorm''], followed_by 160 (lit ''migrate'')],
       seqs [words [''dotnet''], followed_by 200 database_update]]),
     (REMOTE_REASON, alts [words [''invoke-expression'', ''iex'', ''encodedcommand''],
       seqs [words [''curl'', ''wget'', ''invoke-webrequest'', ''iwr''], re_star any_char, Cls (\<lambda>c. c \<in> set ''|;''),
         re_star any_char, words [''sh'', ''bash'', ''powershell'', ''pwsh'', ''cmd'']]]),
     (PERMISSION_REASON, words PERMISSION_EXECUTABLES),
     (DYNAMIC_REASON, seqs [alts [StartAnchor, seqs [Cls (\<lambda>c. c \<in> set '';|''), re_star wspace]], chr (CHR ''&''), re_star wspace,
       alts [chr (CHR ''$''), Cls (\<lambda>c. c = single_quote \<or> c = double_quote),
         seqs [re_opt (chr (CHR ''.'')), Cls (\<lambda>c. c = backslash \<or> c = CHR ''/'')]]])]"

definition digit :: regex where
  "digit = Cls (\<lambda>c. CHR ''0'' \<le> c \<and> c \<le> CHR ''9'')"

definition redirect :: regex where
  "redirect = seqs [alts [StartAnchor, wspace], re_opt digit, Rep 1 (Some 2) True (chr (CHR ''>'')), re_star wspace]"

definition FILE_REDIRECTION_PATTERN :: regex where
  "FILE_REDIRECTION_PATTERN =
     seqs [redirect, Look False (seqs [chr (CHR ''&''), digit]), Look True (Cls (\<lambda>c. \<not> js_space c))]"

definition NULL_DEVICE_REDIRECTION_PATTERN :: regex where
  "NULL_DEVICE_REDIRECTION_PATTERN =
     seqs [redirect, alts [lit ''$null'', lit ''nul'', lit ''/dev/null''],
       Look True (alts [wspace, EndAnchor, Cls (\<lambda>c. c \<in> set '';&|'')])]"

definition GIT_PUSH_SEGMENT_PATTERN :: regex where
  "GIT_PUSH_SEGMENT_PATTERN =
     seqs [segment_start, call_operator, lit ''git'', exe_suffix, WordBoundary, Rep 0 (Some 1000) False in_segment,
       WordBoundary, lit ''push'', WordBoundary, re_star in_segment]"

definition MAIN_REF_PATTERN :: regex where
  "MAIN_REF_PATTERN =
     seqs [alts [StartAnchor, Cls (\<lambda>c. js_space c \<or> c \<in> set '':+'')], re_opt (lit ''refs/heads/''), lit ''main'',
       Look True (alts [EndAnchor, Cls (\<lambda>c. js_space c \<or> c = CHR '':'')])]"

definition format_suffix :: regex where
  "format_suffix = re_opt (alts [lit ''.com'', lit ''.exe''])"

definition FORMAT_COMMAND_TEXT_PATTERN :: regex where
  "FORMAT_COMMAND_TEXT_PATTERN =
     alts [seqs [WordBoundary, lit ''format-volume'', WordBoundary],
       seqs [WordBoundary, lit ''format'', format_suffix, Look True (alts [wspace, EndAnchor])]]"

definition POWERSHELL_FORMAT_SEGMENT_PATTERN :: regex where
  "POWERSHELL_FORMAT_SEGMENT_PATTERN =
     seqs [alts [StartAnchor, Cls line_break, seqs [alts [lit ''&&'', lit ''||'', Cls (\<lambda>c. c \<in> set '';|'')], re_star wspace]],
       call_operator, alts [lit ''format-volume'', seqs [lit ''format'', format_suffix]], Look True (alts [wspace, EndAnchor])]"

subsection \<open>Simple PowerShell commands\<close>

text \<open>The executable and arguments of an analysis that needs no shell.\<close>

definition argv_of :: "ShellCommandAnalysis option \<Rightarrow> (string \<times> string list) option" where
  "argv_of a =
     (case a of
        None \<Rightarrow> None
      | Some analysis \<Rightarrow>
          if \<not> ca_valid analysis then None
          else (case ca_execution analysis of Some (Argv executable argv) \<Rightarrow> Some (executable, argv) | _ \<Rightarrow> None))"

definition powershell_argv_reasons :: "string \<Rightarrow> string list \<Rightarrow> string list" where
  "powershell_argv_reasons executable argv =
     (let args = join_with '' '' argv in
      (if executable \<in> set DELETE_EXECUTABLES then [DELETE_REASON] else []) @
      (if executable \<in> set WRITE_EXECUTABLES then [WRITE_REASON] else []) @
      (if executable \<in> set REGISTRY_EXECUTABLES then [REGISTRY_REASON] else []) @
      (if executable \<in> set SERVICE_EXECUTABLES then [SERVICE_REASON] else []) @
      (if executable \<in> set PERMISSION_EXECUTABLES then [PERMISSION_REASON] else []) @
      (if executable \<in> {''git'', ''git.exe''} then
         (if re_test (words git_verbs) args then [GIT_REASON] else []) @
         (if re_test (words [''push'']) args then [PUSH_REASON] else [])
       else []) @
      (if executable \<in> {''docker'', ''docker.exe''} \<and>
          re_test (seqs [WordBoundary, docker_verbs any_char, WordBoundary]) args then [DOCKER_REASON] else []) @
      (if executable \<in> {''npm'', ''pnpm'', ''yarn''} \<and>
          re_test (seqs [WordBoundary, install_verbs, WordBoundary]) args then [PUBLISH_REASON] else []) @
      (if executable \<in> {''pip'', ''pipx''} \<and> re_test (words [''install'']) args then [PUBLISH_REASON] else []) @
      (if executable \<in> {''prisma'', ''sequelize'', ''typeorm''} \<and> re_test (words [''migrate'']) args
       then [PUBLISH_REASON] else []) @
      (if executable = ''dotnet'' \<and> re_test (seqs [WordBoundary, database_update, WordBoundary]) args
       then [PUBLISH_REASON] else []) @
      (if executable \<in> {''invoke-expression'', ''iex'', ''encodedcommand''} then [REMOTE_REASON] else []))"

definition classifySimplePowerShellRisk :: "ShellName \<Rightarrow> string \<Rightarrow> string list option" where
  "classifySimplePowerShellRisk shell command =
     (if shell \<noteq> Powershell \<and> shell \<noteq> Pwsh then None
      else
        (case argv_of (analyzeSimplePowerShellCommand shell command) of
           None \<Rightarrow> None
         | Some (raw, argv) \<Rightarrow>
             (let executable = normalizeRiskExecutable raw in
              if executable \<in> set NESTED_SHELL_EXECUTABLES then None
              else Some (powershell_argv_reasons executable argv))))"

subsection \<open>External packages and deployments\<close>

record PackageRunnerAnalysis =
  pk_hasPackageTarget :: bool
  pk_invocation :: "(string \<times> string list) option"

definition PACKAGE_RUNNER_OPTIONS_WITH_VALUE :: "string list" where
  "PACKAGE_RUNNER_OPTIONS_WITH_VALUE =
     [''--cache'', ''--call'', ''--node-options'', ''--registry'', ''--shell'', ''--userconfig'', ''-c'']"

definition stripArgumentSeparator :: "string list \<Rightarrow> string list" where
  "stripArgumentSeparator argv = (case argv of a # as \<Rightarrow> if a = ''--'' then as else argv | [] \<Rightarrow> argv)"

function runner_tail :: "string list \<Rightarrow> bool \<Rightarrow> PackageRunnerAnalysis" where
  "runner_tail [] explicit = \<lparr>pk_hasPackageTarget = explicit, pk_invocation = None\<rparr>"
| "runner_tail (token # rest) explicit =
     (let lower = js_lower token in
      if token = ''--'' then runner_tail rest explicit
      else if lower = ''--package'' \<or> lower = ''-p'' then
        (if rest \<noteq> [] then runner_tail (tl rest) True else runner_tail rest explicit)
      else if js_startsWith lower ''--package='' \<or> js_startsWith lower ''-p='' then runner_tail rest True
      else if lower \<in> set PACKAGE_RUNNER_OPTIONS_WITH_VALUE then runner_tail (tl rest) explicit
      else if js_startsWith token ''-'' then runner_tail rest explicit
      else \<lparr>pk_hasPackageTarget = True, pk_invocation = Some (token, stripArgumentSeparator rest)\<rparr>)"
  by pat_completeness auto

termination
  by (relation "measure (\<lambda>(argv, explicit). length argv)") auto

definition analyzePackageRunnerTail :: "string list \<Rightarrow> PackageRunnerAnalysis" where
  "analyzePackageRunnerTail argv = runner_tail argv False"

text \<open>The arguments after the first occurrence of the verb.\<close>

definition after_runner_verb :: "string list \<Rightarrow> string \<Rightarrow> string list option" where
  "after_runner_verb argv verb =
     (case dropWhile (\<lambda>v. js_lower v \<noteq> verb) argv of [] \<Rightarrow> None | _ # rest \<Rightarrow> Some rest)"

definition analyzePackageRunner :: "string \<Rightarrow> string list \<Rightarrow> PackageRunnerAnalysis option" where
  "analyzePackageRunner executable argv =
     (if executable \<in> {''npx'', ''pnpx'', ''bunx''} then Some (analyzePackageRunnerTail argv)
      else if executable = ''npm'' then map_option analyzePackageRunnerTail (after_runner_verb argv ''exec'')
      else if executable = ''pnpm'' \<or> executable = ''yarn'' then
        map_option analyzePackageRunnerTail (after_runner_verb argv ''dlx'')
      else None)"

definition isExternalDeploymentMutation :: "string \<Rightarrow> string list \<Rightarrow> bool" where
  "isExternalDeploymentMutation raw argv =
     (let executable = normalizeExternalExecutable raw;
          lowerArgs = map js_lower argv;
          positionals = filter (\<lambda>v. v \<noteq> ''--'' \<and> \<not> js_startsWith v ''-'') lowerArgs
      in if executable = ''vercel'' then
           length argv = 0 \<or> ''--prod'' \<in> set lowerArgs \<or> ''deploy'' \<in> set positionals
         else if executable = ''wrangler'' then ''deploy'' \<in> set positionals \<or> ''publish'' \<in> set positionals
         else if executable \<in> {''netlify'', ''firebase'', ''fly''} then ''deploy'' \<in> set positionals
         else if executable = ''railway'' then ''up'' \<in> set positionals \<or> ''deploy'' \<in> set positionals
         else if executable = ''supabase'' then
           ''functions'' \<in> set positionals \<and>
           ''deploy'' \<in> set (dropWhile (\<lambda>v. v \<noteq> ''functions'') positionals) \<and>
           ''deploy'' \<notin> set (takeWhile (\<lambda>v. v \<noteq> ''functions'') positionals)
         else False)"

definition classifyExternalExecutionArgv :: "string \<Rightarrow> string list \<Rightarrow> string list" where
  "classifyExternalExecutionArgv raw argv =
     (if normalizeRiskExecutable raw \<in> set NESTED_SHELL_EXECUTABLES then []
      else
        (case analyzePackageRunner (normalizeExternalExecutable raw) argv of
           Some runner \<Rightarrow>
             (if pk_hasPackageTarget runner then [EXTERNAL_PACKAGE_EXECUTION_REASON] else []) @
             (case pk_invocation runner of
                None \<Rightarrow> []
              | Some (e, as) \<Rightarrow> if isExternalDeploymentMutation e as then [EXTERNAL_DEPLOYMENT_REASON] else [])
         | None \<Rightarrow>
             if isExternalDeploymentMutation (normalizeExternalExecutable raw) argv
             then [EXTERNAL_DEPLOYMENT_REASON] else []))"

text \<open>\<open>flush\<close> of \<open>splitCommandSegments\<close>: the trimmed segment, unless empty.\<close>

definition flush_segment :: "string \<Rightarrow> string list" where
  "flush_segment segment = (let v = js_trim segment in if v = [] then [] else [v])"

definition escape_character :: "ShellName \<Rightarrow> char" where
  "escape_character shell =
     (if shell = Powershell \<or> shell = Pwsh then CHR 0x60 else if shell = Cmd then CHR ''^'' else backslash)"

function split_segments :: "ShellName \<Rightarrow> string \<Rightarrow> string \<Rightarrow> quote option \<Rightarrow> bool \<Rightarrow> string list" where
  "split_segments shell [] segment quote escaped = flush_segment segment"
| "split_segments shell (c # cs) segment quote escaped =
     (if escaped then split_segments shell cs (segment @ [c]) quote False
      else if c = escape_character shell \<and> quote \<noteq> Some Single then
        split_segments shell cs (segment @ [c]) quote True
      else if c = double_quote \<and> quote \<noteq> Some Single then
        split_segments shell cs (segment @ [c]) (if quote = Some Double then None else Some Double) False
      else if c = single_quote \<and> shell \<noteq> Cmd \<and> quote \<noteq> Some Double then
        split_segments shell cs (segment @ [c]) (if quote = Some Single then None else Some Single) False
      else if quote = None \<and> line_break c then flush_segment segment @ split_segments shell cs [] quote False
      else if quote = None \<and> c \<in> set ''&|'' \<and> first_char cs = Some c then
        flush_segment segment @ split_segments shell (tl cs) [] quote False
      else if quote = None \<and> c \<in> set ''&|'' then flush_segment segment @ split_segments shell cs [] quote False
      else if quote = None \<and> c = CHR '';'' \<and> shell \<noteq> Cmd then
        flush_segment segment @ split_segments shell cs [] quote False
      else split_segments shell cs (segment @ [c]) quote False)"
  by pat_completeness auto

termination
  by (relation "measure (\<lambda>(shell, cs, segment, quote, escaped). length cs)") auto

definition splitCommandSegments :: "ShellName \<Rightarrow> string \<Rightarrow> string list" where
  "splitCommandSegments shell command = split_segments shell command [] None False"

text \<open>\<open>segment.trim().split(/\s+/u).filter(Boolean)\<close>.\<close>

fun split_spaces :: "string \<Rightarrow> string \<Rightarrow> string list" where
  "split_spaces [] token = (if token = [] then [] else [token])"
| "split_spaces (c # cs) token =
     (if js_space c then (if token = [] then [] else [token]) @ split_spaces cs []
      else split_spaces cs (token @ [c]))"

definition segment_reasons :: "ShellName \<Rightarrow> string \<Rightarrow> string list" where
  "segment_reasons shell segment =
     (case argv_of (analyzeSimpleShellCommand shell segment) of
        Some (executable, argv) \<Rightarrow> classifyExternalExecutionArgv executable argv
      | None \<Rightarrow>
          (case split_spaces (js_trim segment) [] of
             [] \<Rightarrow> []
           | executable # argv \<Rightarrow> classifyExternalExecutionArgv executable argv))"

definition classifyExternalExecutionRisk :: "ShellName \<Rightarrow> string \<Rightarrow> string list" where
  "classifyExternalExecutionRisk shell command =
     (case argv_of (analyzeSimpleShellCommand shell command) of
        Some (executable, argv) \<Rightarrow> classifyExternalExecutionArgv executable argv
      | None \<Rightarrow> concat (map (segment_reasons shell) (splitCommandSegments shell command)))"

subsection \<open>Disk formatting\<close>

definition commandAfterOption :: "string list \<Rightarrow> string list \<Rightarrow> string option" where
  "commandAfterOption argv options =
     (case dropWhile (\<lambda>v. js_lower v \<notin> set options) argv of
        [] \<Rightarrow> None
      | _ # rest \<Rightarrow> if rest = [] then None else Some (join_with '' '' rest))"

text \<open>
  \<open>powerShellArgvExecutesDiskFormat\<close> and the helper for a nested PowerShell: an answer, or the
  shell and the nested command whose answer it is.
\<close>

definition powerShellArgvExecutesDiskFormat :: "string \<Rightarrow> string list \<Rightarrow> bool + ShellName \<times> string" where
  "powerShellArgvExecutesDiskFormat executable argv =
     (let e = normalizeRiskExecutable executable;
          nested = (\<lambda>shell. case commandAfterOption argv [''-command'', ''-c''] of
                      None \<Rightarrow> Inl False
                    | Some command \<Rightarrow> if command = [] then Inl False else Inr (shell, command))
      in if e \<in> set FORMAT_EXECUTABLES then Inl True
         else if e \<in> {''powershell'', ''powershell.exe''} then nested Powershell
         else if e \<in> {''pwsh'', ''pwsh.exe''} then nested Pwsh
         else if e \<in> {''cmd'', ''cmd.exe''} then
           Inl (case commandAfterOption argv [''/c'', ''/k''] of
                  None \<Rightarrow> False
                | Some command \<Rightarrow> command \<noteq> [] \<and> re_test FORMAT_COMMAND_TEXT_PATTERN command)
         else if e \<in> {''bash'', ''sh'', ''wsl'', ''wsl.exe''} then
           Inl (list_ex (re_test FORMAT_COMMAND_TEXT_PATTERN) argv)
         else Inl False)"

text \<open>The words of a scanned command are together no longer than the command.\<close>

definition token_weight :: "string list \<Rightarrow> nat" where
  "token_weight ts = sum_list (map (\<lambda>t. Suc (length t)) ts)"

lemma token_weight_simps [simp]:
  "token_weight [] = 0" "token_weight (t # ts) = Suc (length t) + token_weight ts"
  "token_weight (xs @ ys) = token_weight xs + token_weight ys"
  by (simp_all add: token_weight_def)

lemma join_with_space_length: "ts \<noteq> [] \<Longrightarrow> Suc (length (join_with '' '' ts)) = token_weight ts"
  by (induction "'' ''" ts rule: join_with.induct) auto

lemma scan_weight:
  assumes "scan_powershell cs tokens token started quote = Scanned ts" and "\<not> started \<longrightarrow> token = [] \<and> quote = None"
  shows "token_weight ts \<le> token_weight tokens + length token + length cs + 1"
  using assms
  by (induction cs tokens token started quote rule: scan_powershell.induct)
    (auto simp: flush_def first_char_def split: if_splits list.splits)

lemma scanned_argv_weight:
  assumes "argv_of (analyzeSimplePowerShellCommand shell command) = Some (executable, argv)"
  shows "token_weight argv < length command"
proof -
  have "\<exists>ts. scan_powershell (js_trim command) [] [] False None = Scanned ts \<and> ts = executable # argv \<and> executable \<noteq> []"
    using assms
    by (auto simp: argv_of_def analyzeSimplePowerShellCommand_def Let_def invalidAnalysis_def argv_analysis_def
        split: option.splits if_splits powershell_scan.splits list.splits)
  then obtain ts where ts: "scan_powershell (js_trim command) [] [] False None = Scanned ts" "ts = executable # argv"
    "executable \<noteq> []" by blast
  have "token_weight ts \<le> length (js_trim command) + 1"
    using scan_weight [OF ts(1)] by simp
  moreover have "length (js_trim command) \<le> length command"
    by (simp add: js_trim_def) (metis length_dropWhile_le length_rev order_trans)
  ultimately show ?thesis using ts(2,3) by (cases executable) auto
qed

lemma nested_command_shorter:
  assumes "argv_of (analyzeSimplePowerShellCommand shell command) = Some (executable, argv)"
    and "powerShellArgvExecutesDiskFormat executable argv = Inr (shell', command')"
  shows "length command' < length command"
proof -
  obtain option where "commandAfterOption argv option = Some command'"
    using assms(2) by (auto simp: powerShellArgvExecutesDiskFormat_def Let_def split: if_splits option.splits)
  then obtain v rest where rest: "dropWhile (\<lambda>v. js_lower v \<notin> set option) argv = v # rest" "rest \<noteq> []"
    "command' = join_with '' '' rest"
    by (auto simp: commandAfterOption_def split: list.splits if_splits)
  have "token_weight (v # rest) \<le> token_weight argv"
    by (metis rest(1) le_add2 takeWhile_dropWhile_id token_weight_simps(3))
  with join_with_space_length [OF rest(2)] rest(3) scanned_argv_weight [OF assms(1)] show ?thesis
    by simp
qed

function containsDiskFormatCommand :: "ShellName \<Rightarrow> string \<Rightarrow> bool" where
  "containsDiskFormatCommand shell command =
     (if \<not> re_test FORMAT_COMMAND_TEXT_PATTERN (normalizeForRisk shell command) then False
      else if shell \<noteq> Powershell \<and> shell \<noteq> Pwsh then True
      else
        (case argv_of (analyzeSimplePowerShellCommand shell command) of
           Some (executable, argv) \<Rightarrow>
             (case powerShellArgvExecutesDiskFormat executable argv of
                Inl answer \<Rightarrow> answer
              | Inr (shell', command') \<Rightarrow> containsDiskFormatCommand shell' command')
         | None \<Rightarrow>
             re_test POWERSHELL_FORMAT_SEGMENT_PATTERN command \<or> list_ex (\<lambda>c. c \<in> set ''{}()'') command))"
  by pat_completeness auto

termination
  by (relation "measure (\<lambda>(shell, command). length command)") (auto intro: nested_command_shorter)

declare containsDiskFormatCommand.simps [simp del]

subsection \<open>The classification\<close>

definition containsFileRedirection :: "string \<Rightarrow> bool" where
  "containsFileRedirection normalized =
     re_test FILE_REDIRECTION_PATTERN (re_replace NULL_DEVICE_REDIRECTION_PATTERN '' '' normalized)"

definition unique_reasons :: "string list \<Rightarrow> string list" where
  "unique_reasons rs = fold (\<lambda>r seen. if r \<in> set seen then seen else seen @ [r]) rs []"

definition command_reasons :: "ShellName \<Rightarrow> string \<Rightarrow> string list" where
  "command_reasons shell command =
     (let lexicalRiskText = normalizeForRisk shell (maskPowerShellInertQuotedLiterals shell command) in
      (case classifySimplePowerShellRisk shell command of
         Some reasons \<Rightarrow> reasons
       | None \<Rightarrow> map fst (filter (\<lambda>(reason, pattern). re_test pattern lexicalRiskText) RISK_PATTERNS)) @
      classifyExternalExecutionRisk shell command @
      (if containsDiskFormatCommand shell command then [DISK_BOOT_VOLUME_REASON] else []) @
      (if containsFileRedirection lexicalRiskText then [WRITE_REASON] else []))"

definition classifyCommandRisk :: "ShellName \<Rightarrow> string \<Rightarrow> CommandRisk" where
  "classifyCommandRisk shell command =
     (let reasons = command_reasons shell command in
      \<lparr>cr_destructive = (length reasons > 0), cr_reasons = unique_reasons reasons\<rparr>)"

subsection \<open>Git pushes\<close>

definition case_sensitive_C :: regex where
  "case_sensitive_C = seqs [alts [StartAnchor, wspace], chr (CHR ''-''), chr (CHR ''C''), alts [chr (CHR ''=''), wspace]]"

definition push_option :: "string \<Rightarrow> regex" where
  "push_option name = seqs [alts [StartAnchor, wspace], lit name, Look True (alts [EndAnchor, wspace])]"

definition classifyGitPushIntent :: "ShellName \<Rightarrow> string \<Rightarrow> GitPushIntent" where
  "classifyGitPushIntent shell command =
     (case re_match GIT_PUSH_SEGMENT_PATTERN (normalizeForRisk shell command) of
        None \<Rightarrow> \<lparr>gp_isPush = False, gp_targetsMain = False, gp_usesGitC = False, gp_usesMirror = False\<rparr>
      | Some (before, segment, after) \<Rightarrow>
          (let (beforePush, pushArgs) =
             (case re_match (words [''push'']) segment of
                None \<Rightarrow> (butlast segment, drop 3 segment)
              | Some (beforePush, push, pushArgs) \<Rightarrow> (beforePush, pushArgs))
           in \<lparr>gp_isPush = True,
               gp_targetsMain = (re_test (push_option ''--all'') pushArgs \<or> re_test MAIN_REF_PATTERN pushArgs),
               gp_usesGitC = re_test case_sensitive_C beforePush,
               gp_usesMirror = re_test (push_option ''--mirror'') pushArgs\<rparr>))"

definition protectedGitPushReason :: "GitPushIntent \<Rightarrow> string option" where
  "protectedGitPushReason intent =
     (if \<not> gp_isPush intent then None
      else if gp_usesGitC intent then
        Some ''git push with -C is blocked; use the command cwd so protected-branch policy can be enforced.''
      else if gp_usesMirror intent then
        Some ''git push --mirror is blocked because it can mutate multiple remote refs outside the explicit branch contract.''
      else None)"

subsection \<open>Facts about the classification\<close>

lemma set_unique_reasons [simp]: "set (unique_reasons rs) = set rs"
proof -
  have "set (fold (\<lambda>r seen. if r \<in> set seen then seen else seen @ [r]) rs seen) = set seen \<union> set rs" for seen
    by (induction rs arbitrary: seen) auto
  then show ?thesis by (simp add: unique_reasons_def)
qed

lemma risk_reasons_iff:
  "r \<in> set (cr_reasons (classifyCommandRisk shell command)) \<longleftrightarrow> r \<in> set (command_reasons shell command)"
  "cr_destructive (classifyCommandRisk shell command) \<longleftrightarrow> command_reasons shell command \<noteq> []"
  by (simp_all add: classifyCommandRisk_def Let_def)

text \<open>The classes of dangerous executables that have both a word list and a lexical pattern.\<close>

definition dangerous_classes :: "(string \<times> string list) list" where
  "dangerous_classes = [(DELETE_REASON, DELETE_EXECUTABLES), (WRITE_REASON, WRITE_EXECUTABLES),
     (REGISTRY_REASON, REGISTRY_EXECUTABLES), (SERVICE_REASON, SERVICE_EXECUTABLES),
     (PERMISSION_REASON, PERMISSION_EXECUTABLES)]"

definition registry_pattern :: regex where
  "registry_pattern =
     alts [words REGISTRY_EXECUTABLES, seqs [WordBoundary, lit ''hklm:''], seqs [WordBoundary, lit ''hkcu:'']]"

definition service_alternatives :: "regex list" where
  "service_alternatives = map lit SERVICE_EXECUTABLES @
     [seqs [lit ''sc'', exe_suffix, re_plus wspace, alts [lit ''delete'', lit ''stop'', lit ''config'']],
      seqs [lit ''net'', re_plus wspace, alts [lit ''stop'', lit ''start'']]]"

lemma risk_patterns_nth:
  "RISK_PATTERNS ! 0 = (DELETE_REASON, words DELETE_EXECUTABLES)"
  "RISK_PATTERNS ! 1 = (WRITE_REASON, words WRITE_EXECUTABLES)"
  "RISK_PATTERNS ! 2 = (REGISTRY_REASON, registry_pattern)"
  "RISK_PATTERNS ! 4 = (SERVICE_REASON, seqs [WordBoundary, alts service_alternatives, WordBoundary])"
  "RISK_PATTERNS ! 10 = (PERMISSION_REASON, words PERMISSION_EXECUTABLES)"
  "length RISK_PATTERNS = 12"
  unfolding RISK_PATTERNS_def registry_pattern_def service_alternatives_def
  by (simp_all only: nth_Cons_0 nth_Cons_numeral list.size One_nat_def nth_Cons_Suc) simp_all

lemma dangerous_pattern:
  assumes "(reason, ws) \<in> set dangerous_classes" and "w \<in> set ws" and "list_all2 same_letter w u" and "u \<noteq> []"
    and "word_at (last_char a) \<noteq> word_char (hd u)" and "word_char (last u) \<noteq> word_at (next_char b)"
  shows "\<exists>p. (reason, p) \<in> set RISK_PATTERNS \<and> re_test p (a @ u @ b)"
proof -
  note found = words_found [OF assms(2-6)]
  have nth: "p \<in> set RISK_PATTERNS" if "RISK_PATTERNS ! i = p" "i < 12" for i p
    using that nth_mem [of i RISK_PATTERNS] by (simp add: risk_patterns_nth)
  have registry: "re_test registry_pattern (a @ u @ b)" if "ws = REGISTRY_EXECUTABLES"
    unfolding registry_pattern_def
    by (rule re_test_alts [of "words REGISTRY_EXECUTABLES"]) (use found that in simp_all)
  have service: "re_test (seqs [WordBoundary, alts service_alternatives, WordBoundary]) (a @ u @ b)"
    if "ws = SERVICE_EXECUTABLES"
    by (rule bounded_literal_found [of w]) (use assms that in \<open>auto simp: service_alternatives_def\<close>)
  consider "reason = DELETE_REASON" "ws = DELETE_EXECUTABLES" | "reason = WRITE_REASON" "ws = WRITE_EXECUTABLES"
    | "reason = REGISTRY_REASON" "ws = REGISTRY_EXECUTABLES" | "reason = SERVICE_REASON" "ws = SERVICE_EXECUTABLES"
    | "reason = PERMISSION_REASON" "ws = PERMISSION_EXECUTABLES"
    using assms(1) unfolding dangerous_classes_def list.set insert_iff empty_iff prod.inject by metis
  then show ?thesis
  proof cases
    case 1
    have "(reason, words ws) \<in> set RISK_PATTERNS" unfolding 1 by (rule nth [OF risk_patterns_nth(1)]) simp
    with found show ?thesis by blast
  next
    case 2
    have "(reason, words ws) \<in> set RISK_PATTERNS" unfolding 2 by (rule nth [OF risk_patterns_nth(2)]) simp
    with found show ?thesis by blast
  next
    case 3
    have "(reason, registry_pattern) \<in> set RISK_PATTERNS" unfolding 3 by (rule nth [OF risk_patterns_nth(3)]) simp
    with registry [OF 3(2)] show ?thesis by blast
  next
    case 4
    have "(reason, seqs [WordBoundary, alts service_alternatives, WordBoundary]) \<in> set RISK_PATTERNS"
      unfolding 4 by (rule nth [OF risk_patterns_nth(4)]) simp
    with service [OF 4(2)] show ?thesis by blast
  next
    case 5
    have "(reason, words ws) \<in> set RISK_PATTERNS" unfolding 5 by (rule nth [OF risk_patterns_nth(5)]) simp
    with found show ?thesis by blast
  qed
qed

lemma lexical_shell_reasons:
  assumes "shell \<notin> {Powershell, Pwsh}" and "(reason, p) \<in> set RISK_PATTERNS"
    and "re_test p (normalizeForRisk shell command)"
  shows "reason \<in> set (command_reasons shell command)"
proof -
  have "(reason, p) \<in> set (filter (\<lambda>(reason, pattern). re_test pattern (normalizeForRisk shell command)) RISK_PATTERNS)"
    using assms(2,3) by simp
  then have "reason \<in> set (map fst (filter (\<lambda>(reason, pattern). re_test pattern (normalizeForRisk shell command)) RISK_PATTERNS))"
    by (metis fst_conv image_eqI list.set_map)
  moreover have "classifySimplePowerShellRisk shell command = None"
    "maskPowerShellInertQuotedLiterals shell command = command"
    using assms(1) by (simp_all add: classifySimplePowerShellRisk_def maskPowerShellInertQuotedLiterals_def)
  ultimately show ?thesis by (simp add: command_reasons_def Let_def)
qed

lemma powershell_words_argv_of:
  assumes "executable \<noteq> []" and "executable \<noteq> ''.''" and "shell = Powershell \<or> shell = Pwsh"
  shows "argv_of (analyzeSimplePowerShellCommand shell (command_line powershell_quote (executable # argv))) =
     Some (executable, argv)"
  using powershell_command_line_argv [OF assms, of argv] assms(3)
  by (auto simp: analyzeSimpleShellCommand_def argv_of_def argv_analysis_def)

lemma dangerous_not_nested:
  assumes "(reason, ws) \<in> set dangerous_classes" and "e \<in> set ws"
  shows "e \<notin> set NESTED_SHELL_EXECUTABLES"
proof -
  have "list_all (\<lambda>(reason, ws). list_all (\<lambda>e. e \<notin> set NESTED_SHELL_EXECUTABLES) ws) dangerous_classes"
    by code_simp
  with assms show ?thesis by (auto simp: list_all_iff)
qed

lemma dangerous_argv_reason:
  "(reason, ws) \<in> set dangerous_classes \<Longrightarrow> e \<in> set ws \<Longrightarrow> reason \<in> set (powershell_argv_reasons e argv)"
  by (auto simp: dangerous_classes_def powershell_argv_reasons_def Let_def)

subsection \<open>Properties\<close>

text \<open>
  C31. Dangerous words are never overlooked outside PowerShell. When the normalised text of a cmd,
  WSL or Git Bash command holds, anywhere and in any letter case, a word of the delete, write,
  registry, service or permission lists between word boundaries, the command is destructive
  and the reason is reported: quoting, separators and nesting do not hide it.\<close>

theorem dangerous_word_flagged:
  assumes "shell \<notin> {Powershell, Pwsh}"
    and "(reason, ws) \<in> set dangerous_classes" and "w \<in> set ws" and "list_all2 same_letter w u" and "u \<noteq> []"
    and "normalizeForRisk shell command = a @ u @ b"
    and "word_at (last_char a) \<noteq> word_char (hd u)" and "word_char (last u) \<noteq> word_at (next_char b)"
  shows "cr_destructive (classifyCommandRisk shell command) \<and>
     reason \<in> set (cr_reasons (classifyCommandRisk shell command))"
proof -
  obtain p where "(reason, p) \<in> set RISK_PATTERNS" "re_test p (normalizeForRisk shell command)"
    using dangerous_pattern [OF assms(2-5,7,8)] assms(6) by auto
  from lexical_shell_reasons [OF assms(1) this] show ?thesis
    by (auto simp: risk_reasons_iff)
qed

theorem dangerous_word_flagged_witness:
  "cr_destructive (classifyCommandRisk Git_bash ''ls && RM -rf x'')"
proof -
  have "normalizeForRisk Git_bash ''ls && RM -rf x'' = ''ls && '' @ ''RM'' @ '' -rf x''"
    and "list_all2 same_letter ''rm'' ''RM''" and "''rm'' \<in> set DELETE_EXECUTABLES"
    and "word_at (last_char ''ls && '') \<noteq> word_char (hd ''RM'')"
    and "word_char (last ''RM'') \<noteq> word_at (next_char '' -rf x'')"
    by code_simp+
  then show ?thesis
    using dangerous_word_flagged [of Git_bash DELETE_REASON DELETE_EXECUTABLES "''rm''" "''RM''" _ "''ls && ''" "'' -rf x''"]
    by (simp add: dangerous_classes_def)
qed

text \<open>
  Dangerous PowerShell commands are recognised by their executable. A PowerShell command line
  of quoted words whose executable, without its directory and in any case, is in one of the
  delete, write, registry, service or permission lists is destructive, with the reason of its
  list, whatever its arguments are.\<close>

theorem powershell_executable_flagged:
  assumes "shell \<in> {Powershell, Pwsh}"
    and "(reason, ws) \<in> set dangerous_classes" and "normalizeRiskExecutable executable \<in> set ws"
    and "executable \<noteq> []" and "executable \<noteq> ''.''"
  shows "cr_destructive (classifyCommandRisk shell (command_line powershell_quote (executable # argv))) \<and>
     reason \<in> set (cr_reasons (classifyCommandRisk shell (command_line powershell_quote (executable # argv))))"
proof -
  let ?command = "command_line powershell_quote (executable # argv)"
  have shell: "shell = Powershell \<or> shell = Pwsh" using assms(1) by auto
  have "classifySimplePowerShellRisk shell ?command =
      Some (powershell_argv_reasons (normalizeRiskExecutable executable) argv)"
    using shell powershell_words_argv_of [OF assms(4,5) shell] dangerous_not_nested [OF assms(2,3)]
    by (auto simp: classifySimplePowerShellRisk_def Let_def)
  then have "reason \<in> set (command_reasons shell ?command)"
    using dangerous_argv_reason [OF assms(2,3), of argv] by (simp add: command_reasons_def Let_def)
  then show ?thesis by (auto simp: risk_reasons_iff)
qed

theorem powershell_executable_flagged_witness:
  "DELETE_REASON \<in> set (cr_reasons (classifyCommandRisk Pwsh
     (command_line powershell_quote [''C:/tools/Remove-Item'', ''x'', ''-Recurse''])))"
proof -
  have "normalizeRiskExecutable ''C:/tools/Remove-Item'' \<in> set DELETE_EXECUTABLES" by code_simp
  then show ?thesis
    using powershell_executable_flagged [of Pwsh DELETE_REASON DELETE_EXECUTABLES "''C:/tools/Remove-Item''"]
    by (simp add: dangerous_classes_def)
qed

text \<open>
  The second line of a PowerShell script is not classified. A script of two lines whose
  second line deletes files has no reason and is not destructive, because the scanner takes the
  line break for white space and the second line for arguments of the first; the same second
  line alone is destructive. The script is passed to PowerShell unchanged, so it runs without
  a confirmation.\<close>

theorem powershell_second_line_unclassified:
  "classifyCommandRisk Powershell (''Write-Output a'' @ [CHR 0x0A] @ ''Remove-Item x'') =
     \<lparr>cr_destructive = False, cr_reasons = []\<rparr> \<and>
   classifyCommandRisk Powershell ''Remove-Item x'' = \<lparr>cr_destructive = True, cr_reasons = [DELETE_REASON]\<rparr>"
proof -
  have no_format: "\<not> containsDiskFormatCommand Powershell c"
    if "\<not> re_test FORMAT_COMMAND_TEXT_PATTERN (normalizeForRisk Powershell c)" for c
    using that by (simp add: containsDiskFormatCommand.simps)
  have "\<not> containsDiskFormatCommand Powershell (''Write-Output a'' @ [CHR 0x0A] @ ''Remove-Item x'')"
    by (rule no_format) code_simp
  moreover have "\<not> containsDiskFormatCommand Powershell ''Remove-Item x''"
    by (rule no_format) code_simp
  moreover have "classifySimplePowerShellRisk Powershell (''Write-Output a'' @ [CHR 0x0A] @ ''Remove-Item x'') = Some []"
    "classifyExternalExecutionRisk Powershell (''Write-Output a'' @ [CHR 0x0A] @ ''Remove-Item x'') = []"
    "\<not> containsFileRedirection (normalizeForRisk Powershell
        (maskPowerShellInertQuotedLiterals Powershell (''Write-Output a'' @ [CHR 0x0A] @ ''Remove-Item x'')))"
    "classifySimplePowerShellRisk Powershell ''Remove-Item x'' = Some [DELETE_REASON]"
    "classifyExternalExecutionRisk Powershell ''Remove-Item x'' = []"
    "\<not> containsFileRedirection (normalizeForRisk Powershell
        (maskPowerShellInertQuotedLiterals Powershell ''Remove-Item x''))"
    by code_simp+
  ultimately show ?thesis
    by (simp add: classifyCommandRisk_def command_reasons_def unique_reasons_def Let_def)
qed

end
