(* ===== verification/Source_Control_Policy.thy ===== *)
theory Source_Control_Policy
  imports Prelude "HOL-Library.Sublist"
begin

text \<open>
  Authorisation of source-control operations:
  \<open>packages/mcp-core/src/source-control-policy.ts\<close>, with the enumerations of
  \<open>packages/mcp-core/src/policy.ts\<close> it reads. An input object with optional fields is a list of
  arguments with options.
\<close>

datatype PermissionProfile =
    Planning_readonly
  | Planning_handoff
  | Builder_review
  | Restricted_area
  | Full_repo_readonly
  | Full_repo_write

datatype ConfirmationMode = Standard | Trusted_workspace

record SourceControlPolicy =
  sp_capabilities :: "string list"
  sp_accountOwners :: "string list"
  sp_additionalRepositories :: "string list"

record ResolvedWorkspace =
  rw_id :: string
  rw_permissionProfile :: PermissionProfile
  rw_confirmationMode :: ConfirmationMode
  rw_sourceControl :: "SourceControlPolicy option"

definition normalizeTarget :: "string \<Rightarrow> string" where
  "normalizeTarget value = js_lower value"

text \<open>\<open>addUniqueIssues\<close>: the indices whose normalised value was seen before.\<close>

fun addUniqueIssues :: "string list \<Rightarrow> nat \<Rightarrow> string set \<Rightarrow> nat list" where
  "addUniqueIssues [] index seen = []"
| "addUniqueIssues (v # vs) index seen =
     (if normalizeTarget v \<in> seen then [index] else []) @
     addUniqueIssues vs (Suc index) (insert (normalizeTarget v) seen)"

definition sourceControlPolicy_unique :: "SourceControlPolicy \<Rightarrow> bool" where
  "sourceControlPolicy_unique p \<longleftrightarrow>
     addUniqueIssues (sp_capabilities p) 0 {} = [] \<and>
     addUniqueIssues (sp_accountOwners p) 0 {} = [] \<and>
     addUniqueIssues (sp_additionalRepositories p) 0 {} = []"

definition denySourceControl :: "string \<Rightarrow> exn" where
  "denySourceControl message = AppError SOURCE_CONTROL_CAPABILITY_DENIED message"

definition assertSourceControlCapability ::
  "ResolvedWorkspace \<Rightarrow> string \<Rightarrow> string option \<Rightarrow> string option \<Rightarrow> string option \<Rightarrow> bool \<Rightarrow> unit result" where
  "assertSourceControlCapability policy capability repository canonicalRepository accountOwner mutation =
     (case rw_sourceControl policy of
        None \<Rightarrow> Inl (denySourceControl ''Source-control capability is not authorized for this workspace.'')
      | Some configured \<Rightarrow>
          if capability \<notin> set (sp_capabilities configured) then
            Inl (denySourceControl ''Source-control capability is not authorized for this workspace.'')
          else if mutation \<and> rw_permissionProfile policy \<noteq> Full_repo_write then
            Inl (denySourceControl ''Workspace policy does not allow source-control mutation.'')
          else if capability = ''github.repository.create'' \<and> accountOwner = None then
            Inl (denySourceControl ''GitHub account owner is required for repository creation authorization.'')
          else if prefix ''github.'' capability \<and> capability \<noteq> ''github.repository.create'' \<and>
                  repository = None then
            Inl (denySourceControl ''GitHub repository target is required for source-control authorization.'')
          else if (case repository of
                     None \<Rightarrow> False
                   | Some r \<Rightarrow>
                       Some (normalizeTarget r) \<noteq> map_option normalizeTarget canonicalRepository \<and>
                       normalizeTarget r \<notin> set (map normalizeTarget (sp_additionalRepositories configured))) then
            Inl (denySourceControl ''Source-control repository target is not authorized.'')
          else if (case accountOwner of
                     None \<Rightarrow> False
                   | Some a \<Rightarrow>
                       normalizeTarget a \<notin> set (map normalizeTarget (sp_accountOwners configured))) then
            Inl (denySourceControl ''GitHub account owner is not authorized for repository creation.'')
          else Inr ())"

definition isProtectedMain :: "string option \<Rightarrow> bool" where
  "isProtectedMain value \<longleftrightarrow> (case value of None \<Rightarrow> False | Some v \<Rightarrow> js_lower v = ''main'')"

definition assertTypedGitBranchMutationAllowed :: "string \<Rightarrow> string option \<Rightarrow> unit result" where
  "assertTypedGitBranchMutationAllowed operation currentBranch =
     (let currentIsMain = isProtectedMain currentBranch in
      if (operation = ''git_commit'' \<and> currentIsMain) \<or> (operation = ''git_merge_branch'' \<and> currentIsMain)
      then Inl (AppError GIT_PROTECTED_BRANCH
        ''The protected main branch cannot be mutated by this typed Git operation.'')
      else Inr ())"

subsection \<open>Properties\<close>

text \<open>The issues are empty exactly when the values are distinct up to case.\<close>

lemma addUniqueIssues_empty_iff:
  "addUniqueIssues vs i seen = [] \<longleftrightarrow>
     distinct (map normalizeTarget vs) \<and> set (map normalizeTarget vs) \<inter> seen = {}"
  by (induction vs i seen rule: addUniqueIssues.induct) auto

text \<open>
  C23. Soundness and completeness of the authorisation. A source-control operation is allowed
  exactly when the workspace lists the capability, mutations come from a full-write profile,
  the GitHub target is given where one is needed, the repository is the canonical one or listed,
  and the account owner is listed; every refusal is \<open>SOURCE_CONTROL_CAPABILITY_DENIED\<close>.\<close>

theorem source_control_authorised_iff:
  "(assertSourceControlCapability ws cap repo canon owner mutation = Inr () \<longleftrightarrow>
     (\<exists>p. rw_sourceControl ws = Some p \<and> cap \<in> set (sp_capabilities p) \<and>
        (mutation \<longrightarrow> rw_permissionProfile ws = Full_repo_write) \<and>
        (cap = ''github.repository.create'' \<longrightarrow> owner \<noteq> None) \<and>
        (prefix ''github.'' cap \<and> cap \<noteq> ''github.repository.create'' \<longrightarrow> repo \<noteq> None) \<and>
        (\<forall>r. repo = Some r \<longrightarrow> map_option js_lower canon = Some (js_lower r) \<or>
           (\<exists>a \<in> set (sp_additionalRepositories p). js_lower a = js_lower r)) \<and>
        (\<forall>o1. owner = Some o1 \<longrightarrow> (\<exists>a \<in> set (sp_accountOwners p). js_lower a = js_lower o1)))) \<and>
   (\<forall>e. assertSourceControlCapability ws cap repo canon owner mutation = Inl e \<longrightarrow>
      (\<exists>m. e = AppError SOURCE_CONTROL_CAPABILITY_DENIED m))"
proof (cases "rw_sourceControl ws")
  case None
  then show ?thesis by (simp add: assertSourceControlCapability_def denySourceControl_def)
next
  case (Some p)
  have r: "normalizeTarget x \<notin> set (map normalizeTarget xs) \<longleftrightarrow> \<not> (\<exists>a \<in> set xs. js_lower a = js_lower x)"
    for x xs by (simp add: normalizeTarget_def image_iff) metis
  have n: "normalizeTarget = js_lower" by (rule ext) (simp add: normalizeTarget_def)
  show ?thesis
    by (cases repo; cases owner; cases canon)
      (auto simp: assertSourceControlCapability_def Some denySourceControl_def r [unfolded n] n
        simp del: set_map)
qed

theorem source_control_authorised_iff_witness:
  "assertSourceControlCapability
     \<lparr>rw_id = ''w'', rw_permissionProfile = Full_repo_write, rw_confirmationMode = Standard,
      rw_sourceControl = Some \<lparr>sp_capabilities = [''github.pull_request.merge''],
        sp_accountOwners = [], sp_additionalRepositories = [''Acme/Repo'']\<rparr>\<rparr>
     ''github.pull_request.merge'' (Some ''acme/repo'') None None True = Inr ()"
proof -
  have low: "js_lower ''Acme/Repo'' = js_lower ''acme/repo''" by code_simp
  show ?thesis
    by (subst source_control_authorised_iff [THEN conjunct1]) (simp add: low)
qed

end
