(* ===== verification/Workspace_Policy.thy ===== *)
theory Workspace_Policy
  imports Source_Control_Policy Command_Confirmations
begin

text \<open>
  Policies of workspaces: the schema of \<open>packages/mcp-core/src/policy.ts\<close>, the automatic write
  access of \<open>project-write-policy.ts\<close>, the merge of explicit policies with discovered folders of
  \<open>policy-merge.ts\<close> and the catalog state of \<open>workspace-catalog.ts\<close>.

  Parsing with a schema trims the strings and checks them; the types of the fields are those of
  the records. \<open>windows\<close> is \<open>process.platform === "win32"\<close>, \<open>sha256\<close> the hexadecimal digest and
  \<open>le\<close> the order of \<open>localeCompare\<close>. A limit that a caller overrides may be any number: a whole one
  or one strictly between \<open>n\<close> and \<open>n + 1\<close>; one that is not finite is left out, which the source
  treats like an absent one.
\<close>

datatype WorkspaceKind = Repository | Aggregate

record WorkspaceLimits =
  wl_maxFileBytes :: int
  wl_maxSearchResults :: int
  wl_maxSearchSnippetBytes :: int
  wl_maxDiffBytes :: int
  wl_maxListedFiles :: int
  wl_maxDiscoveryDirectories :: "int option"
  wl_maxDiscoveryEntries :: "int option"
  wl_maxDiscoveryDurationMs :: "int option"

record WorkspacePolicy =
  wp_id :: string
  wp_name :: string
  wp_rootPath :: string
  wp_workspaceKind :: "WorkspaceKind option"
  wp_enabled :: bool
  wp_permissionProfile :: PermissionProfile
  wp_confirmationMode :: ConfirmationMode
  wp_allowedRoots :: "string list"
  wp_blockedGlobs :: "string list"
  wp_limits :: WorkspaceLimits
  wp_allowWrites :: "string list"
  wp_allowShell :: "string list"
  wp_allowedShells :: "ShellName list"
  wp_sourceControl :: "SourceControlPolicy option"

record PolicyFile =
  pf_workspaces :: "WorkspacePolicy list"

definition supportedShells :: "ShellName list" where
  "supportedShells = [Powershell, Pwsh, Cmd, Wsl, Git_bash]"

definition mandatoryBlockedGlobs :: "string list" where
  "mandatoryBlockedGlobs = [
     ''**/.env'', ''**/.env.!(example|sample|template)'', ''**/*.pem'', ''**/*.key'', ''**/*.pfx'', ''**/*.crt'',
     ''**/secrets.*'', ''**/credentials.*'', ''**/id_rsa'', ''**/id_dsa'', ''**/.git/**'', ''**/.runtime-private'',
     ''**/.runtime-private/**'', ''**/node_modules/**'', ''**/bin/**'', ''**/obj/**'', ''**/dist/**'', ''**/build/**'',
     ''**/coverage/**'']"

subsection \<open>Schemas\<close>

definition ascii_digit :: "char \<Rightarrow> bool" where
  "ascii_digit c \<longleftrightarrow> (let n = (of_char c :: nat) in 48 \<le> n \<and> n \<le> 57)"

definition ascii_lower :: "char \<Rightarrow> bool" where
  "ascii_lower c \<longleftrightarrow> (let n = (of_char c :: nat) in 97 \<le> n \<and> n \<le> 122)"

definition ascii_alnum :: "char \<Rightarrow> bool" where
  "ascii_alnum c \<longleftrightarrow> ascii_digit c \<or> ascii_lower c \<or> (let n = (of_char c :: nat) in 65 \<le> n \<and> n \<le> 90)"

definition id_char :: "char \<Rightarrow> bool" where
  "id_char c \<longleftrightarrow> ascii_alnum c \<or> c = CHR ''.'' \<or> c = CHR ''_'' \<or> c = CHR ''-''"

definition workspace_id_valid :: "string \<Rightarrow> bool" where
  "workspace_id_valid s \<longleftrightarrow> (case s of [] \<Rightarrow> False | c # cs \<Rightarrow> ascii_alnum c \<and> list_all id_char cs)"

definition optional_ok :: "('a \<Rightarrow> bool) \<Rightarrow> 'a option \<Rightarrow> bool" where
  "optional_ok P v \<longleftrightarrow> (case v of None \<Rightarrow> True | Some x \<Rightarrow> P x)"

definition limits_valid :: "WorkspaceLimits \<Rightarrow> bool" where
  "limits_valid l \<longleftrightarrow>
     0 < wl_maxFileBytes l \<and> 0 < wl_maxSearchResults l \<and> 0 < wl_maxSearchSnippetBytes l \<and>
     0 < wl_maxDiffBytes l \<and> 0 < wl_maxListedFiles l \<and>
     optional_ok (\<lambda>n. 0 < n) (wl_maxDiscoveryDirectories l) \<and> optional_ok (\<lambda>n. 0 < n) (wl_maxDiscoveryEntries l) \<and>
     optional_ok (\<lambda>n. 0 < n) (wl_maxDiscoveryDurationMs l)"

text \<open>\<open>z.string().trim().min(1)\<close> on every element.\<close>

definition trim_all :: "string list \<Rightarrow> string list option" where
  "trim_all xs = (let ts = map js_trim xs in if [] \<in> set ts then None else Some ts)"

definition workspacePolicySchema :: "WorkspacePolicy \<Rightarrow> WorkspacePolicy option" where
  "workspacePolicySchema w =
     (let i = js_trim (wp_id w); n = js_trim (wp_name w); r = js_trim (wp_rootPath w) in
      case (trim_all (wp_allowedRoots w), trim_all (wp_blockedGlobs w), trim_all (wp_allowWrites w), trim_all (wp_allowShell w)) of
        (Some roots, Some globs, Some writes, Some shells) \<Rightarrow>
          if workspace_id_valid i \<and> n \<noteq> [] \<and> r \<noteq> [] \<and> roots \<noteq> [] \<and> limits_valid (wp_limits w) \<and>
             optional_ok sourceControlPolicy_unique (wp_sourceControl w) \<and>
             \<not> (wp_confirmationMode w = Trusted_workspace \<and> wp_permissionProfile w \<noteq> Full_repo_write)
          then Some (w\<lparr>wp_id := i, wp_name := n, wp_rootPath := r, wp_allowedRoots := roots, wp_blockedGlobs := globs,
                       wp_allowWrites := writes, wp_allowShell := shells\<rparr>)
          else None
      | _ \<Rightarrow> None)"

definition parse_workspaces :: "WorkspacePolicy list \<Rightarrow> WorkspacePolicy list option" where
  "parse_workspaces ws = those (map workspacePolicySchema ws)"

text \<open>\<open>refineUniqueWorkspaceIds\<close>: no issue is raised exactly when the ids are distinct.\<close>

fun refineUniqueWorkspaceIds :: "WorkspacePolicy list \<Rightarrow> string list \<Rightarrow> nat \<Rightarrow> nat list" where
  "refineUniqueWorkspaceIds [] ids index = []"
| "refineUniqueWorkspaceIds (w # ws) ids index =
     (if wp_id w \<in> set ids then [index] else []) @ refineUniqueWorkspaceIds ws (wp_id w # ids) (Suc index)"

definition loopbackBasePolicySchema :: "PolicyFile \<Rightarrow> PolicyFile option" where
  "loopbackBasePolicySchema p =
     (case parse_workspaces (pf_workspaces p) of
        None \<Rightarrow> None
      | Some ws \<Rightarrow> if refineUniqueWorkspaceIds ws [] 0 = [] then Some \<lparr>pf_workspaces = ws\<rparr> else None)"

definition policyFileSchema :: "PolicyFile \<Rightarrow> PolicyFile option" where
  "policyFileSchema p =
     (case parse_workspaces (pf_workspaces p) of
        None \<Rightarrow> None
      | Some ws \<Rightarrow> if ws \<noteq> [] \<and> refineUniqueWorkspaceIds ws [] 0 = [] then Some \<lparr>pf_workspaces = ws\<rparr> else None)"

subsection \<open>Automatic write access\<close>

datatype limit_number = Whole int | Between int

record merge_options =
  mo_includeOpenWorkspaces :: "bool option"
  mo_alwaysExposeExplicit :: "bool option"
  mo_requireTrustedWorkspace :: "bool option"
  mo_discoveredLimitsOverride :: "(string \<times> limit_number) list option"
  mo_enableProjectWrites :: "bool option"
  mo_projectRootPath :: "string option"
  mo_enableDevelopmentWrites :: "bool option"
  mo_developmentRootPath :: "string option"

definition strip_slashes :: "string \<Rightarrow> string" where
  "strip_slashes s = rev (dropWhile (\<lambda>c. c = CHR ''/'') (rev s))"

definition forward_slashes :: "string \<Rightarrow> string" where
  "forward_slashes s = map (\<lambda>c. if c = CHR 0x5C then CHR ''/'' else c) s"

definition normalizePathKey :: "bool \<Rightarrow> string \<Rightarrow> string" where
  "normalizePathKey windows filePath =
     (let normalized = strip_slashes (forward_slashes filePath) in if windows then js_lower normalized else normalized)"

definition canonicalPathKey :: "bool \<Rightarrow> string \<Rightarrow> string" where
  "canonicalPathKey windows filePath = normalizePathKey windows filePath"

definition isUnderConfiguredRoot :: "bool \<Rightarrow> string \<Rightarrow> string \<Rightarrow> bool" where
  "isUnderConfiguredRoot windows canonicalRootPath rootPath \<longleftrightarrow>
     (let rootKey = canonicalPathKey windows rootPath; pathKey = canonicalPathKey windows canonicalRootPath in
      pathKey = rootKey \<or> prefix (rootKey @ ''/'') pathKey)"

definition root_enabled :: "bool option \<Rightarrow> string option \<Rightarrow> (string \<Rightarrow> bool) \<Rightarrow> bool" where
  "root_enabled enable root test \<longleftrightarrow>
     enable = Some True \<and> (case root of None \<Rightarrow> False | Some r \<Rightarrow> r \<noteq> [] \<and> test r)"

definition isAutoWriteEligible :: "bool \<Rightarrow> string \<Rightarrow> merge_options \<Rightarrow> bool" where
  "isAutoWriteEligible windows canonicalRootPath options \<longleftrightarrow>
     root_enabled (mo_enableProjectWrites options) (mo_projectRootPath options) (isUnderConfiguredRoot windows canonicalRootPath) \<or>
     root_enabled (mo_enableDevelopmentWrites options) (mo_developmentRootPath options) (isUnderConfiguredRoot windows canonicalRootPath)"

definition isConfiguredProjectRoot :: "bool \<Rightarrow> string \<Rightarrow> merge_options \<Rightarrow> bool" where
  "isConfiguredProjectRoot windows canonicalRootPath options \<longleftrightarrow>
     root_enabled (mo_enableProjectWrites options) (mo_projectRootPath options)
       (\<lambda>r. canonicalPathKey windows canonicalRootPath = canonicalPathKey windows r)"

definition withAutoWriteAccess :: "bool \<Rightarrow> WorkspacePolicy \<Rightarrow> string \<Rightarrow> merge_options \<Rightarrow> WorkspacePolicy" where
  "withAutoWriteAccess windows workspace canonicalRootPath options =
     (if \<not> isAutoWriteEligible windows canonicalRootPath options then workspace
      else workspace
        \<lparr>wp_workspaceKind := (if isConfiguredProjectRoot windows canonicalRootPath options then Some Aggregate
           else wp_workspaceKind workspace),
         wp_permissionProfile := Full_repo_write, wp_allowWrites := [''.''], wp_allowShell := [''.''],
         wp_allowedShells := supportedShells\<rparr>)"

subsection \<open>Discovered workspaces\<close>

record DiscoveredWorkspaceCandidate =
  dc_name :: string
  dc_rootPath :: string
  dc_canonicalRootPath :: string
  dc_trusted :: bool

datatype WorkspaceCatalogSource = Explicit_source | Discovered_source | Deny_index_source

record WorkspaceCatalogEntryMeta =
  ce_source :: WorkspaceCatalogSource
  ce_id :: string
  ce_name :: string
  ce_rootPath :: string
  ce_canonicalRootPath :: string
  ce_trusted :: bool
  ce_enabled :: bool

definition DISCOVERED_WORKSPACE_LIMIT_CEILINGS :: WorkspaceLimits where
  "DISCOVERED_WORKSPACE_LIMIT_CEILINGS =
     \<lparr>wl_maxFileBytes = 64000, wl_maxSearchResults = 100, wl_maxSearchSnippetBytes = 20000, wl_maxDiffBytes = 500000,
      wl_maxListedFiles = 500, wl_maxDiscoveryDirectories = None, wl_maxDiscoveryEntries = None,
      wl_maxDiscoveryDurationMs = None\<rparr>"

definition IMPLICIT_TECHNICAL_WORKSPACE_NAMES :: "string list" where
  "IMPLICIT_TECHNICAL_WORKSPACE_NAMES = [''build'', ''coverage'', ''dist'', ''docker'', ''node_modules'', ''releases'',
     ''runtime'', ''test'', ''tests'', ''temp'', ''tmp'']"

definition clamp_limit :: "(string \<times> limit_number) list \<Rightarrow> string \<Rightarrow> int \<Rightarrow> limit_number" where
  "clamp_limit override key ceiling =
     (case map_of override key of
        Some (Whole n) \<Rightarrow> Whole (if n > 0 then min n ceiling else ceiling)
      | Some (Between n) \<Rightarrow> if n \<ge> 0 \<and> n < ceiling then Between n else Whole ceiling
      | None \<Rightarrow> Whole ceiling)"

text \<open>\<open>z.number().int().positive()\<close>\<close>

definition positive_integer :: "limit_number \<Rightarrow> int option" where
  "positive_integer r = (case r of Whole n \<Rightarrow> if n > 0 then Some n else None | Between n \<Rightarrow> None)"

definition clampDiscoveredLimits :: "(string \<times> limit_number) list option \<Rightarrow> WorkspaceLimits result" where
  "clampDiscoveredLimits override =
     (let c = DISCOVERED_WORKSPACE_LIMIT_CEILINGS in
      case override of
        None \<Rightarrow> Inr c
      | Some o' \<Rightarrow>
          (case (positive_integer (clamp_limit o' ''maxFileBytes'' (wl_maxFileBytes c)),
                 positive_integer (clamp_limit o' ''maxSearchResults'' (wl_maxSearchResults c)),
                 positive_integer (clamp_limit o' ''maxSearchSnippetBytes'' (wl_maxSearchSnippetBytes c)),
                 positive_integer (clamp_limit o' ''maxDiffBytes'' (wl_maxDiffBytes c)),
                 positive_integer (clamp_limit o' ''maxListedFiles'' (wl_maxListedFiles c))) of
             (Some a, Some b, Some d, Some e, Some f) \<Rightarrow>
               Inr (c\<lparr>wl_maxFileBytes := a, wl_maxSearchResults := b, wl_maxSearchSnippetBytes := d,
                      wl_maxDiffBytes := e, wl_maxListedFiles := f\<rparr>)
           | _ \<Rightarrow> Inl SchemaError))"

text \<open>\<open>replace(/[^a-z0-9]+/g, "-")\<close>\<close>

fun dash_runs :: "bool \<Rightarrow> string \<Rightarrow> string" where
  "dash_runs after_dash [] = []"
| "dash_runs after_dash (c # cs) =
     (if ascii_lower c \<or> ascii_digit c then c # dash_runs False cs
      else if after_dash then dash_runs True cs else CHR ''-'' # dash_runs True cs)"

definition strip_dashes :: "string \<Rightarrow> string" where
  "strip_dashes s = rev (dropWhile (\<lambda>c. c = CHR ''-'') (rev (dropWhile (\<lambda>c. c = CHR ''-'') s)))"

definition slugify :: "string \<Rightarrow> string" where
  "slugify v = (let slug = take 32 (strip_dashes (dash_runs False (js_lower (js_trim v)))) in
     if slug = [] then ''workspace'' else slug)"

definition shortHash :: "(string \<Rightarrow> string) \<Rightarrow> string \<Rightarrow> string" where
  "shortHash sha256 v = take 8 (sha256 v)"

definition buildDiscoveredId :: "(string \<Rightarrow> string) \<Rightarrow> DiscoveredWorkspaceCandidate \<Rightarrow> string" where
  "buildDiscoveredId sha256 candidate =
     map (\<lambda>c. if id_char c then c else CHR ''-'')
       (slugify (dc_name candidate) @ ''-'' @ shortHash sha256 (dc_canonicalRootPath candidate))"

definition leafName :: "string \<Rightarrow> string" where
  "leafName filePath = rev (takeWhile (\<lambda>c. c \<noteq> CHR ''/'') (rev (strip_slashes (forward_slashes filePath))))"

definition isImplicitTechnicalWorkspaceCandidate :: "DiscoveredWorkspaceCandidate \<Rightarrow> bool" where
  "isImplicitTechnicalWorkspaceCandidate candidate \<longleftrightarrow>
     list_ex (\<lambda>name. prefix ''.'' name \<or> name \<in> set IMPLICIT_TECHNICAL_WORKSPACE_NAMES)
       (map (\<lambda>v. js_lower (js_trim v))
         [dc_name candidate, leafName (dc_rootPath candidate), leafName (dc_canonicalRootPath candidate)])"

definition createDiscoveredWorkspace ::
  "(string \<Rightarrow> string) \<Rightarrow> DiscoveredWorkspaceCandidate \<Rightarrow> WorkspaceLimits \<Rightarrow> string list \<Rightarrow> WorkspacePolicy \<times> string list" where
  "createDiscoveredWorkspace sha256 candidate limits usedIds =
     (let id0 = buildDiscoveredId sha256 candidate;
          i = (if id0 \<in> set usedIds then id0 @ ''-'' @ shortHash sha256 (dc_canonicalRootPath candidate @ '':collision'') else id0) in
      (\<lparr>wp_id = i, wp_name = dc_name candidate, wp_rootPath = dc_rootPath candidate, wp_workspaceKind = Some Repository,
        wp_enabled = True, wp_permissionProfile = Planning_readonly, wp_confirmationMode = Standard,
        wp_allowedRoots = [''.''], wp_blockedGlobs = [], wp_limits = limits, wp_allowWrites = [], wp_allowShell = [],
        wp_allowedShells = [Powershell], wp_sourceControl = None\<rparr>, i # usedIds))"

subsection \<open>The merge\<close>

record ExplicitPolicyInput =
  ep_workspace :: WorkspacePolicy
  ep_canonicalRootPath :: string

record merge_env =
  me_windows :: bool
  me_sha256 :: "string \<Rightarrow> string"
  me_le :: "string \<Rightarrow> string \<Rightarrow> bool"

text \<open>The local variables of the function that its loops change.\<close>

record merge_state =
  ms_explicitByPath :: "(string, WorkspacePolicy) jsmap"
  ms_denyPaths :: "string list"
  ms_catalog :: "WorkspaceCatalogEntryMeta list"
  ms_usedIds :: "string list"
  ms_merged :: "(string, WorkspacePolicy) jsmap"

definition catalog_entry ::
  "WorkspaceCatalogSource \<Rightarrow> WorkspacePolicy \<Rightarrow> string \<Rightarrow> bool \<Rightarrow> bool \<Rightarrow> WorkspaceCatalogEntryMeta" where
  "catalog_entry source workspace canonicalRootPath trusted enabled =
     \<lparr>ce_source = source, ce_id = wp_id workspace, ce_name = wp_name workspace, ce_rootPath = wp_rootPath workspace,
      ce_canonicalRootPath = canonicalRootPath, ce_trusted = trusted, ce_enabled = enabled\<rparr>"

definition index_entry :: "merge_env \<Rightarrow> ExplicitPolicyInput \<Rightarrow> merge_state \<Rightarrow> merge_state" where
  "index_entry env entry s =
     (let workspace = ep_workspace entry; key = canonicalPathKey (me_windows env) (ep_canonicalRootPath entry);
          s1 = s\<lparr>ms_explicitByPath := js_set key workspace (ms_explicitByPath s), ms_usedIds := wp_id workspace # ms_usedIds s\<rparr> in
      if wp_enabled workspace then s1
      else s1\<lparr>ms_denyPaths := key # ms_denyPaths s1,
              ms_catalog := ms_catalog s1 @ [catalog_entry Deny_index_source workspace (ep_canonicalRootPath entry) True False]\<rparr>)"

definition merge_candidate ::
  "merge_env \<Rightarrow> merge_options \<Rightarrow> WorkspaceLimits \<Rightarrow> bool \<Rightarrow> DiscoveredWorkspaceCandidate \<Rightarrow> merge_state \<Rightarrow> merge_state" where
  "merge_candidate env options limits requireTrusted candidate s =
     (let root = dc_canonicalRootPath candidate; key = canonicalPathKey (me_windows env) root in
      if requireTrusted \<and> \<not> dc_trusted candidate then s
      else if key \<in> set (ms_denyPaths s) then s
      else
        (case js_get (ms_explicitByPath s) key of
           Some explicit \<Rightarrow>
             if wp_enabled explicit then
               s\<lparr>ms_merged := js_set key (withAutoWriteAccess (me_windows env) explicit root options) (ms_merged s),
                 ms_catalog := ms_catalog s @ [catalog_entry Explicit_source explicit root (dc_trusted candidate) True]\<rparr>
             else s
         | None \<Rightarrow>
             if isImplicitTechnicalWorkspaceCandidate candidate then s
             else
               (case createDiscoveredWorkspace (me_sha256 env) candidate limits (ms_usedIds s) of (created, usedIds) \<Rightarrow>
                let workspace = withAutoWriteAccess (me_windows env) created root options in
                s\<lparr>ms_usedIds := usedIds, ms_merged := js_set key workspace (ms_merged s),
                  ms_catalog := ms_catalog s @ [catalog_entry Discovered_source workspace root (dc_trusted candidate) True]\<rparr>)))"

definition expose_entry :: "merge_env \<Rightarrow> merge_options \<Rightarrow> ExplicitPolicyInput \<Rightarrow> merge_state \<Rightarrow> merge_state" where
  "expose_entry env options entry s =
     (let workspace = ep_workspace entry; root = ep_canonicalRootPath entry; key = canonicalPathKey (me_windows env) root in
      if \<not> wp_enabled workspace then s
      else if js_has (ms_merged s) key then s
      else s\<lparr>ms_merged := js_set key (withAutoWriteAccess (me_windows env) workspace root options) (ms_merged s),
             ms_catalog := ms_catalog s @ [catalog_entry Explicit_source workspace root True True]\<rparr>)"

definition merge_initial :: merge_state where
  "merge_initial = \<lparr>ms_explicitByPath = [], ms_denyPaths = [], ms_catalog = [], ms_usedIds = [], ms_merged = []\<rparr>"

definition merge_loops ::
  "merge_env \<Rightarrow> ExplicitPolicyInput list \<Rightarrow> DiscoveredWorkspaceCandidate list \<Rightarrow> merge_options \<Rightarrow> WorkspaceLimits \<Rightarrow> merge_state" where
  "merge_loops env entries discovered options limits =
     (let includeOpen = (case mo_includeOpenWorkspaces options of None \<Rightarrow> True | Some b \<Rightarrow> b);
          alwaysExpose = (case mo_alwaysExposeExplicit options of None \<Rightarrow> False | Some b \<Rightarrow> b);
          requireTrusted = (case mo_requireTrustedWorkspace options of None \<Rightarrow> True | Some b \<Rightarrow> b);
          s1 = fold (index_entry env) entries merge_initial;
          s2 = (if includeOpen then fold (merge_candidate env options limits requireTrusted) discovered s1 else s1) in
      if alwaysExpose then fold (expose_entry env options) entries s2 else s2)"

definition mergeWorkspacePolicies ::
  "merge_env \<Rightarrow> ExplicitPolicyInput list \<Rightarrow> DiscoveredWorkspaceCandidate list \<Rightarrow> merge_options \<Rightarrow>
   (PolicyFile \<times> WorkspaceCatalogEntryMeta list) result" where
  "mergeWorkspacePolicies env entries discovered options =
     bind_result (clampDiscoveredLimits (mo_discoveredLimitsOverride options)) (\<lambda>limits.
     let s = merge_loops env entries discovered options limits;
         workspaces = js_sort (\<lambda>l r. me_le env (wp_id l) (wp_id r)) (js_values (ms_merged s)) in
     if workspaces = [] then Inl (PlainError ''MERGE_EMPTY_POLICY: no workspaces available after merge'')
     else Inr (\<lparr>pf_workspaces = workspaces\<rparr>, ms_catalog s))"

subsection \<open>The catalog\<close>

record WorkspaceCatalogSnapshot =
  sn_version :: int
  sn_policy :: PolicyFile
  sn_catalog :: "WorkspaceCatalogEntryMeta list"
  sn_degraded :: bool
  sn_updatedAt :: instant
  sn_errorMessage :: "string option"

record catalog_state =
  ct_current :: "WorkspaceCatalogSnapshot option"
  ct_lastKnownGood :: "WorkspaceCatalogSnapshot option"

definition createEmptyCatalogState :: catalog_state where
  "createEmptyCatalogState = \<lparr>ct_current = None, ct_lastKnownGood = None\<rparr>"

definition applyCatalogSnapshot :: "WorkspaceCatalogSnapshot \<Rightarrow> catalog_state \<Rightarrow> catalog_state" where
  "applyCatalogSnapshot snapshot state =
     (let s = state\<lparr>ct_current := Some snapshot\<rparr> in
      if sn_degraded snapshot then s else s\<lparr>ct_lastKnownGood := Some snapshot\<rparr>)"

definition markCatalogDegraded :: "instant \<Rightarrow> string \<Rightarrow> catalog_state \<Rightarrow> catalog_state" where
  "markCatalogDegraded now errorMessage state =
     (case (case ct_lastKnownGood state of Some g \<Rightarrow> Some g | None \<Rightarrow> ct_current state) of
        None \<Rightarrow> state\<lparr>ct_current := Some \<lparr>sn_version = 0, sn_policy = \<lparr>pf_workspaces = []\<rparr>, sn_catalog = [],
          sn_degraded = True, sn_updatedAt = now, sn_errorMessage = Some errorMessage\<rparr>\<rparr>
      | Some fallback \<Rightarrow> state\<lparr>ct_current := Some (fallback\<lparr>sn_degraded := True, sn_updatedAt := now,
          sn_errorMessage := Some errorMessage\<rparr>)\<rparr>)"

subsection \<open>Schemas and limits\<close>

lemma refineUniqueWorkspaceIds_iff:
  "refineUniqueWorkspaceIds ws ids i = [] \<longleftrightarrow> distinct (map wp_id ws) \<and> set (map wp_id ws) \<inter> set ids = {}"
  by (induction ws ids i rule: refineUniqueWorkspaceIds.induct) auto

lemma trim_all_Some: "trim_all xs = Some ys \<longleftrightarrow> ys = map js_trim xs \<and> [] \<notin> set ys"
  by (auto simp: trim_all_def Let_def)

lemma workspacePolicySchema_Some:
  assumes "workspacePolicySchema w = Some v"
  shows "workspace_id_valid (wp_id v)" "wp_allowedRoots v \<noteq> []" "[] \<notin> set (wp_blockedGlobs v)" "limits_valid (wp_limits v)"
    "wp_confirmationMode v = Trusted_workspace \<Longrightarrow> wp_permissionProfile v = Full_repo_write"
  using assms
  by (auto simp: workspacePolicySchema_def Let_def trim_all_Some split: option.split_asm if_split_asm)

lemma those_Some: "those xs = Some ys \<longleftrightarrow> xs = map Some ys"
  by (induction xs arbitrary: ys) (auto split: option.splits)

lemma parse_workspaces_Some:
  "parse_workspaces ws = Some vs \<Longrightarrow> v \<in> set vs \<Longrightarrow> \<exists>w \<in> set ws. workspacePolicySchema w = Some v"
  unfolding parse_workspaces_def those_Some by (metis (no_types, lifting) image_eqI image_iff list.set_map)

definition limits_within :: "WorkspaceLimits \<Rightarrow> WorkspaceLimits \<Rightarrow> bool" where
  "limits_within l c \<longleftrightarrow> limits_valid l \<and>
     wl_maxFileBytes l \<le> wl_maxFileBytes c \<and> wl_maxSearchResults l \<le> wl_maxSearchResults c \<and>
     wl_maxSearchSnippetBytes l \<le> wl_maxSearchSnippetBytes c \<and> wl_maxDiffBytes l \<le> wl_maxDiffBytes c \<and>
     wl_maxListedFiles l \<le> wl_maxListedFiles c"

lemma positive_clamp: "positive_integer (clamp_limit ov key ceiling) = Some n \<Longrightarrow> 0 < n \<and> n \<le> ceiling"
  by (auto simp: positive_integer_def clamp_limit_def split: option.split_asm limit_number.split_asm if_split_asm)

lemma clampDiscoveredLimits_within:
  assumes "clampDiscoveredLimits ov = Inr l"
  shows "limits_within l DISCOVERED_WORKSPACE_LIMIT_CEILINGS"
proof (cases ov)
  case None
  with assms show ?thesis
    by (auto simp: clampDiscoveredLimits_def limits_within_def limits_valid_def optional_ok_def DISCOVERED_WORKSPACE_LIMIT_CEILINGS_def)
next
  case (Some given)
  let ?c = DISCOVERED_WORKSPACE_LIMIT_CEILINGS
  from assms Some obtain a b d e f where clamped:
    "positive_integer (clamp_limit given ''maxFileBytes'' (wl_maxFileBytes ?c)) = Some a"
    "positive_integer (clamp_limit given ''maxSearchResults'' (wl_maxSearchResults ?c)) = Some b"
    "positive_integer (clamp_limit given ''maxSearchSnippetBytes'' (wl_maxSearchSnippetBytes ?c)) = Some d"
    "positive_integer (clamp_limit given ''maxDiffBytes'' (wl_maxDiffBytes ?c)) = Some e"
    "positive_integer (clamp_limit given ''maxListedFiles'' (wl_maxListedFiles ?c)) = Some f"
    and l: "l = ?c\<lparr>wl_maxFileBytes := a, wl_maxSearchResults := b, wl_maxSearchSnippetBytes := d,
        wl_maxDiffBytes := e, wl_maxListedFiles := f\<rparr>"
    by (auto simp: clampDiscoveredLimits_def Let_def split: option.split_asm)
  from clamped [THEN positive_clamp] l show ?thesis
    by (auto simp: limits_within_def limits_valid_def optional_ok_def DISCOVERED_WORKSPACE_LIMIT_CEILINGS_def)
qed

subsection \<open>What the merge exposes\<close>

definition from_explicit :: "merge_env \<Rightarrow> merge_options \<Rightarrow> ExplicitPolicyInput list \<Rightarrow> string \<Rightarrow> WorkspacePolicy \<Rightarrow> bool" where
  "from_explicit env options entries key w \<longleftrightarrow>
     (\<exists>e \<in> set entries. \<exists>path. wp_enabled (ep_workspace e) \<and>
        canonicalPathKey (me_windows env) (ep_canonicalRootPath e) = key \<and> canonicalPathKey (me_windows env) path = key \<and>
        w = withAutoWriteAccess (me_windows env) (ep_workspace e) path options)"

definition from_discovered ::
  "merge_env \<Rightarrow> merge_options \<Rightarrow> WorkspaceLimits \<Rightarrow> bool \<Rightarrow> ExplicitPolicyInput list \<Rightarrow> DiscoveredWorkspaceCandidate list \<Rightarrow>
   string \<Rightarrow> WorkspacePolicy \<Rightarrow> bool" where
  "from_discovered env options limits requireTrusted entries discovered key w \<longleftrightarrow>
     (\<exists>c \<in> set discovered. \<exists>usedIds. (requireTrusted \<longrightarrow> dc_trusted c) \<and>
        canonicalPathKey (me_windows env) (dc_canonicalRootPath c) = key \<and>
        (\<forall>e \<in> set entries. canonicalPathKey (me_windows env) (ep_canonicalRootPath e) \<noteq> key) \<and>
        \<not> isImplicitTechnicalWorkspaceCandidate c \<and>
        w = withAutoWriteAccess (me_windows env) (fst (createDiscoveredWorkspace (me_sha256 env) c limits usedIds))
              (dc_canonicalRootPath c) options)"

text \<open>The index of the explicit entries.\<close>

definition indexed :: "merge_env \<Rightarrow> ExplicitPolicyInput list \<Rightarrow> merge_state \<Rightarrow> bool" where
  "indexed env entries s \<longleftrightarrow>
     (\<forall>key w. js_get (ms_explicitByPath s) key = Some w \<longrightarrow>
        (\<exists>e \<in> set entries. ep_workspace e = w \<and> canonicalPathKey (me_windows env) (ep_canonicalRootPath e) = key)) \<and>
     (\<forall>e \<in> set entries. js_has (ms_explicitByPath s) (canonicalPathKey (me_windows env) (ep_canonicalRootPath e)))"

lemma index_entry_fields [simp]:
  "ms_explicitByPath (index_entry env e s) =
     js_set (canonicalPathKey (me_windows env) (ep_canonicalRootPath e)) (ep_workspace e) (ms_explicitByPath s)"
  "ms_merged (index_entry env e s) = ms_merged s"
  by (simp_all add: index_entry_def Let_def)

lemma index_entries:
  "indexed env done s \<Longrightarrow> indexed env (done @ entries) (fold (index_entry env) entries s) \<and>
   ms_merged (fold (index_entry env) entries s) = ms_merged s"
proof (induction entries arbitrary: "done" s)
  case (Cons e entries)
  have "indexed env (done @ [e]) (index_entry env e s)"
    using Cons.prems unfolding indexed_def by (auto simp: js_map_simps split: if_splits)
  from Cons.IH [OF this] show ?case by simp
qed simp

lemma merge_candidate_keeps:
  "ms_explicitByPath (merge_candidate env options limits requireTrusted c s) = ms_explicitByPath s"
  by (auto simp: merge_candidate_def Let_def split: option.split prod.split)

lemma merge_candidate_merged:
  assumes "indexed env entries s"
    and "js_get (ms_merged (merge_candidate env options limits requireTrusted c s)) key = Some w"
  shows "js_get (ms_merged s) key = Some w \<or> from_explicit env options entries key w \<or>
    from_discovered env options limits requireTrusted entries [c] key w"
proof (cases "js_get (ms_explicitByPath s) (canonicalPathKey (me_windows env) (dc_canonicalRootPath c))")
  case (Some x)
  with assms(1) obtain e where e: "e \<in> set entries" "ep_workspace e = x"
    "canonicalPathKey (me_windows env) (ep_canonicalRootPath e) = canonicalPathKey (me_windows env) (dc_canonicalRootPath c)"
    unfolding indexed_def by blast
  with assms(2) Some show ?thesis
    by (auto simp: merge_candidate_def Let_def js_map_simps from_explicit_def split: if_split_asm)
next
  case None
  with assms(1) have fresh: "canonicalPathKey (me_windows env) (ep_canonicalRootPath e) \<noteq>
      canonicalPathKey (me_windows env) (dc_canonicalRootPath c)" if "e \<in> set entries" for e
    using that unfolding indexed_def by (metis (no_types, lifting))
  let ?new = "withAutoWriteAccess (me_windows env)
      (fst (createDiscoveredWorkspace (me_sha256 env) c limits (ms_usedIds s))) (dc_canonicalRootPath c) options"
  have "js_get (ms_merged s) key = Some w \<or>
      (key = canonicalPathKey (me_windows env) (dc_canonicalRootPath c) \<and> w = ?new \<and>
       (requireTrusted \<longrightarrow> dc_trusted c) \<and> \<not> isImplicitTechnicalWorkspaceCandidate c)"
    using assms(2) None by (auto simp: merge_candidate_def Let_def js_map_simps split: if_split_asm prod.split_asm)
  with fresh show ?thesis unfolding from_discovered_def by auto
qed

lemma from_discovered_mono:
  "set cs \<subseteq> set ds \<Longrightarrow> from_discovered env options limits r entries cs key w \<Longrightarrow> from_discovered env options limits r entries ds key w"
  unfolding from_discovered_def by blast

lemma merge_candidates:
  assumes "indexed env entries s"
    and "js_get (ms_merged (fold (merge_candidate env options limits requireTrusted) cs s)) key = Some w"
  shows "js_get (ms_merged s) key = Some w \<or> from_explicit env options entries key w \<or>
    from_discovered env options limits requireTrusted entries cs key w"
  using assms
proof (induction cs arbitrary: s)
  case (Cons c cs)
  have "indexed env entries (merge_candidate env options limits requireTrusted c s)"
    using Cons.prems(1) by (simp add: indexed_def merge_candidate_keeps)
  note later = Cons.IH [OF this]
  have mono: "from_discovered env options limits requireTrusted entries [c] key w \<or>
      from_discovered env options limits requireTrusted entries cs key w \<Longrightarrow>
      from_discovered env options limits requireTrusted entries (c # cs) key w"
    using from_discovered_mono [of "[c]" "c # cs"] from_discovered_mono [of cs "c # cs"] by fastforce
  from Cons.prems(2) have "js_get (ms_merged (fold (merge_candidate env options limits requireTrusted) cs
      (merge_candidate env options limits requireTrusted c s))) key = Some w" by simp
  from later [OF this] mono merge_candidate_merged [OF Cons.prems(1)] show ?case by blast
qed simp

lemma expose_entries:
  assumes "js_get (ms_merged (fold (expose_entry env options) es s)) key = Some w" and "set es \<subseteq> set entries"
  shows "js_get (ms_merged s) key = Some w \<or> from_explicit env options entries key w"
  using assms
proof (induction es arbitrary: s)
  case (Cons e es)
  then consider "js_get (ms_merged (expose_entry env options e s)) key = Some w" | "from_explicit env options entries key w"
    by auto
  then show ?case
  proof cases
    case 1
    with Cons.prems(2) show ?thesis
      by (auto simp: expose_entry_def Let_def js_map_simps from_explicit_def split: if_split_asm)
  qed simp
qed simp

lemma step_keeps:
  "js_wf (ms_merged s) \<Longrightarrow> js_wf (ms_merged (expose_entry env options e s))"
  "js_wf (ms_merged s) \<Longrightarrow> js_wf (ms_merged (merge_candidate env options limits r c s))"
  by (auto simp: expose_entry_def merge_candidate_def Let_def intro: js_wf_intros split: option.split prod.split)

lemma expose_keeps: "js_wf (ms_merged s) \<Longrightarrow> js_wf (ms_merged (fold (expose_entry env options) es s))"
  by (induction es arbitrary: s) (simp_all add: step_keeps)

lemma candidates_keep: "js_wf (ms_merged s) \<Longrightarrow> js_wf (ms_merged (fold (merge_candidate env options limits r) cs s))"
  by (induction cs arbitrary: s) (simp_all add: step_keeps)

lemma merge_loops_merged:
  assumes "(key, w) \<in> set (ms_merged (merge_loops env entries discovered options limits))"
  shows "from_explicit env options entries key w \<or>
    mo_includeOpenWorkspaces options \<noteq> Some False \<and>
    from_discovered env options limits (mo_requireTrustedWorkspace options \<noteq> Some False) entries discovered key w"
proof -
  let ?r = "case mo_requireTrustedWorkspace options of None \<Rightarrow> True | Some b \<Rightarrow> b"
  define s1 where "s1 = fold (index_entry env) entries merge_initial"
  define s2 where "s2 = (if mo_includeOpenWorkspaces options \<noteq> Some False
      then fold (merge_candidate env options limits ?r) discovered s1 else s1)"
  have r: "?r = (mo_requireTrustedWorkspace options \<noteq> Some False)" by (auto split: option.split)
  have "indexed env [] merge_initial" by (simp add: indexed_def merge_initial_def)
  from index_entries [OF this, of entries] have idx: "indexed env entries s1" "ms_merged s1 = []"
    by (simp_all add: s1_def) (simp add: merge_initial_def)
  then have wf2: "js_wf (ms_merged s2)" using candidates_keep [of s1] by (simp add: s2_def)
  have loops: "merge_loops env entries discovered options limits =
      (if mo_alwaysExposeExplicit options = Some True then fold (expose_entry env options) entries s2 else s2)"
    by (auto simp: merge_loops_def Let_def s1_def s2_def split: option.split)
  have wf: "js_wf (ms_merged (merge_loops env entries discovered options limits))"
    using wf2 expose_keeps by (simp add: loops)
  then have get: "js_get (ms_merged (merge_loops env entries discovered options limits)) key = Some w"
    using assms js_in_set_get by fast
  have from2: "from_explicit env options entries key w \<or> mo_includeOpenWorkspaces options \<noteq> Some False \<and>
      from_discovered env options limits ?r entries discovered key w" if "js_get (ms_merged s2) key = Some w"
    using that merge_candidates [OF idx(1), of options limits ?r discovered key w] idx(2)
    by (simp add: s2_def split: if_split_asm)
  show ?thesis
    using get from2 expose_entries [of env options entries s2 key w entries] unfolding r by (auto simp: loops split: if_split_asm)
qed

lemma withAutoWriteAccess_keeps [simp]:
  "wp_rootPath (withAutoWriteAccess windows w p options) = wp_rootPath w"
  "wp_limits (withAutoWriteAccess windows w p options) = wp_limits w"
  "wp_allowedRoots (withAutoWriteAccess windows w p options) = wp_allowedRoots w"
  "wp_blockedGlobs (withAutoWriteAccess windows w p options) = wp_blockedGlobs w"
  "wp_enabled (withAutoWriteAccess windows w p options) = wp_enabled w"
  "wp_confirmationMode (withAutoWriteAccess windows w p options) = wp_confirmationMode w"
  "\<not> isAutoWriteEligible windows p options \<Longrightarrow> withAutoWriteAccess windows w p options = w"
  by (simp_all add: withAutoWriteAccess_def)

lemma created_fields [simp]:
  "wp_rootPath (fst (createDiscoveredWorkspace sha c l ids)) = dc_rootPath c"
  "wp_limits (fst (createDiscoveredWorkspace sha c l ids)) = l"
  "wp_allowedRoots (fst (createDiscoveredWorkspace sha c l ids)) = [''.'']"
  "wp_permissionProfile (fst (createDiscoveredWorkspace sha c l ids)) = Planning_readonly"
  "wp_allowWrites (fst (createDiscoveredWorkspace sha c l ids)) = []"
  "wp_allowShell (fst (createDiscoveredWorkspace sha c l ids)) = []"
  by (simp_all add: createDiscoveredWorkspace_def Let_def)

subsection \<open>Properties\<close>


definition demo_limits_policy :: WorkspacePolicy where
  "demo_limits_policy =
     \<lparr>wp_id = ''a'', wp_name = ''a'', wp_rootPath = ''/r'', wp_workspaceKind = None, wp_enabled = False,
      wp_permissionProfile = Restricted_area, wp_confirmationMode = Standard, wp_allowedRoots = [''docs''],
      wp_blockedGlobs = [], wp_limits = DISCOVERED_WORKSPACE_LIMIT_CEILINGS, wp_allowWrites = [], wp_allowShell = [],
      wp_allowedShells = [Powershell], wp_sourceControl = None\<rparr>"

definition demo_merge_env :: merge_env where
  "demo_merge_env = \<lparr>me_windows = False, me_sha256 = (\<lambda>v. ''0123456789''), me_le = (\<lambda>x y. True)\<rparr>"

definition demo_options :: merge_options where
  "demo_options = \<lparr>mo_includeOpenWorkspaces = None, mo_alwaysExposeExplicit = None, mo_requireTrustedWorkspace = None,
     mo_discoveredLimitsOverride = Some [(''maxFileBytes'', Whole 1000000)], mo_enableProjectWrites = None, mo_projectRootPath = None,
     mo_enableDevelopmentWrites = None, mo_developmentRootPath = None\<rparr>"

definition demo_candidate :: "string \<Rightarrow> DiscoveredWorkspaceCandidate" where
  "demo_candidate path = \<lparr>dc_name = ''app'', dc_rootPath = path, dc_canonicalRootPath = path, dc_trusted = True\<rparr>"


text \<open>
  A deny does not always win. With \<open>alwaysExposeExplicit\<close> the last loop looks at the enabled entries
  and not at the index of denied paths: where one explicit entry disables a path and another
  enables the same path, the second one is exposed.\<close>

theorem denied_path_exposed:
  "map_sum id (\<lambda>(policy, catalog). (map wp_id (pf_workspaces policy), map (\<lambda>c. (ce_source c, ce_id c)) catalog))
     (mergeWorkspacePolicies demo_merge_env
       [\<lparr>ep_workspace = demo_limits_policy, ep_canonicalRootPath = ''/r''\<rparr>,
        \<lparr>ep_workspace = demo_limits_policy\<lparr>wp_id := ''b'', wp_enabled := True\<rparr>, ep_canonicalRootPath = ''/r''\<rparr>] []
       (demo_options\<lparr>mo_alwaysExposeExplicit := Some True\<rparr>)) =
   Inr ([''b''], [(Deny_index_source, ''a''), (Explicit_source, ''b'')])"
  by code_simp

end
