(* ===== verification/Path_Security.thy ===== *)
theory Path_Security
  imports Workspace_Policy Json
begin

text \<open>
  Path authorisation of the workspace agent: \<open>services/workspace-agent/src/path-security.ts\<close>,
  with the workspace of \<open>internal-types.ts\<close> and the profiles of \<open>permission-profile.ts\<close>.

  A logical path is a string relative to the workspace. A native absolute path is the list of
  its segments, the drive first on Windows; \<open>path.relative\<close> and \<open>path.resolve\<close> are defined on
  such lists. \<open>windows\<close> is \<open>process.platform === "win32"\<close>: there segments are compared without
  case, in logical paths by \<open>comparisonValue\<close> and in native ones by \<open>path.relative\<close>. Between two
  drives \<open>path.relative\<close> is an absolute path in Node and starts with \<open>..\<close> here; \<open>isContained\<close>
  refuses both. \<open>realpath\<close> and \<open>stat\<close> are the file system (\<open>None\<close> when they throw) and
  \<open>glob_match\<close> is the matcher of the package minimatch.
\<close>

type_synonym native_path = "string list"

datatype path_kind = FileKind | DirectoryKind

datatype stat_result = Is_file | Is_directory | Is_other

record ResolvedAllowedRoot =
  ar_logicalPath :: string
  ar_absolutePath :: native_path
  ar_canonicalPath :: native_path
  ar_kind :: path_kind

record ResolvedWorkspace =
  ws_id :: string
  ws_name :: string
  ws_rootPath :: native_path
  ws_workspaceKind :: WorkspaceKind
  ws_canonicalRootPath :: native_path
  ws_enabled :: bool
  ws_permissionProfile :: PermissionProfile
  ws_confirmationMode :: ConfirmationMode
  ws_allowedRoots :: "ResolvedAllowedRoot list"
  ws_blockedGlobs :: "string list"
  ws_limits :: WorkspaceLimits
  ws_allowWrites :: "string list"
  ws_allowShell :: "string list"
  ws_allowedShells :: "ShellName list"
  ws_sourceControl :: "SourceControlPolicy option"

abbreviation ws_maxListedFiles :: "ResolvedWorkspace \<Rightarrow> nat" where
  "ws_maxListedFiles workspace \<equiv> nat (wl_maxListedFiles (ws_limits workspace))"

record AuthorizedPath =
  ap_logicalPath :: string
  ap_absolutePath :: native_path
  ap_canonicalPath :: native_path
  ap_canonicalRelativePath :: string
  ap_kind :: path_kind

record AuthorizedWritePath =
  aw_logicalPath :: string
  aw_absolutePath :: native_path
  aw_created :: bool

record path_env =
  pe_windows :: bool
  pe_realpath :: "native_path \<Rightarrow> native_path option"
  pe_stat :: "native_path \<Rightarrow> stat_result option"
  pe_glob_match :: "string \<Rightarrow> string \<Rightarrow> bool"

subsection \<open>Strings and native paths\<close>

definition comparisonValue :: "bool \<Rightarrow> string \<Rightarrow> string" where
  "comparisonValue windows v = (if windows then js_lower v else v)"

fun js_split :: "char \<Rightarrow> string \<Rightarrow> string list" where
  "js_split sep [] = [[]]"
| "js_split sep (c # cs) =
     (if c = sep then [] # js_split sep cs
      else (case js_split sep cs of [] \<Rightarrow> [[c]] | w # ws \<Rightarrow> (c # w) # ws))"

abbreviation slash :: char where "slash \<equiv> CHR ''/''"
abbreviation back_slash :: char where "back_slash \<equiv> CHR 0x5C"

definition is_letter :: "char \<Rightarrow> bool" where
  "is_letter c \<longleftrightarrow> (let n = (of_char c :: nat) in (65 \<le> n \<and> n \<le> 90) \<or> (97 \<le> n \<and> n \<le> 122))"

definition posix_isAbsolute :: "string \<Rightarrow> bool" where
  "posix_isAbsolute s \<longleftrightarrow> js_startsWith s ''/''"

definition drive_prefix :: "string \<Rightarrow> bool" where
  "drive_prefix s \<longleftrightarrow> (case s of c # d # _ \<Rightarrow> is_letter c \<and> d = CHR '':'' | _ \<Rightarrow> False)"

definition win32_isAbsolute :: "string \<Rightarrow> bool" where
  "win32_isAbsolute s \<longleftrightarrow>
     (case s of
        [] \<Rightarrow> False
      | c # cs \<Rightarrow> c = slash \<or> c = back_slash \<or>
          (drive_prefix s \<and> (\<exists>e. s ! 2 = e \<and> length s > 2 \<and> (e = slash \<or> e = back_slash))))"

fun common_prefix_length :: "'a list \<Rightarrow> 'a list \<Rightarrow> nat" where
  "common_prefix_length (x # xs) (y # ys) = (if x = y then Suc (common_prefix_length xs ys) else 0)"
| "common_prefix_length _ _ = 0"

definition path_relative :: "bool \<Rightarrow> native_path \<Rightarrow> native_path \<Rightarrow> string list" where
  "path_relative windows base target =
     (let n = common_prefix_length (map (comparisonValue windows) base) (map (comparisonValue windows) target) in replicate (length base - n) ''..'' @ drop n target)"

definition path_resolve :: "native_path \<Rightarrow> string list \<Rightarrow> native_path" where
  "path_resolve root segments =
     fold (\<lambda>s p. if s = [] \<or> s = ''.'' then p else if s = ''..'' then butlast p else p @ [s]) segments root"

definition isContained :: "bool \<Rightarrow> native_path \<Rightarrow> native_path \<Rightarrow> bool" where
  "isContained windows basePath targetPath \<longleftrightarrow>
     (let relative = join_with ''/'' (path_relative windows basePath targetPath) in
      relative = [] \<or>
      (\<not> js_startsWith relative ''../'' \<and> relative \<noteq> ''..'' \<and> \<not> posix_isAbsolute relative))"

subsection \<open>Logical paths\<close>

definition logicalContains :: "bool \<Rightarrow> string \<Rightarrow> string \<Rightarrow> bool" where
  "logicalContains windows basePath targetPath \<longleftrightarrow>
     (if basePath = ''.'' then True
      else (let base = comparisonValue windows basePath; target = comparisonValue windows targetPath in
            target = base \<or> js_startsWith target (base @ ''/'')))"

definition invalid_path :: "string \<Rightarrow> exn" where
  "invalid_path message = AppError INVALID_PATH message"

fun normalize_segments :: "bool \<Rightarrow> string list \<Rightarrow> string list \<Rightarrow> string list result" where
  "normalize_segments windows [] output = Inr output"
| "normalize_segments windows (segment # rest) output =
     (if segment = [] \<or> segment = ''.'' then normalize_segments windows rest output
      else if segment = ''..'' then Inl (invalid_path ''Path traversal is not allowed.'')
      else if windows \<and> (CHR '':'' \<in> set segment \<or> last segment \<in> set ''. '') then
        Inl (invalid_path ''Path contains an invalid Windows segment.'')
      else normalize_segments windows rest (output @ [segment]))"

definition normalizeRelativePath :: "bool \<Rightarrow> bool \<Rightarrow> string \<Rightarrow> string result" where
  "normalizeRelativePath windows allowDot input =
     (if input = [] \<or> CHR 0x00 \<in> set input then Inl (invalid_path ''Path must be a non-empty relative path.'')
      else if posix_isAbsolute input \<or> win32_isAbsolute input \<or>
              js_startsWith input [back_slash, back_slash] \<or> drive_prefix input then
        Inl (invalid_path ''Absolute paths are not allowed.'')
      else
        (let portable = map (\<lambda>c. if c = back_slash then slash else c) input in
         if js_startsWith portable ''//'' then Inl (invalid_path ''UNC paths are not allowed.'')
         else
           bind_result (normalize_segments windows (js_split slash portable) []) (\<lambda>output.
           if output = [] then
             (if allowDot then Inr ''.'' else Inl (invalid_path ''Path must identify a file or directory.''))
           else Inr (join_with ''/'' output))))"

definition toNativeAbsolute :: "native_path \<Rightarrow> string \<Rightarrow> native_path" where
  "toNativeAbsolute rootPath relativePath =
     (if relativePath = ''.'' then rootPath else path_resolve rootPath (js_split slash relativePath))"

subsection \<open>The class PathSecurity\<close>

definition matchedBlockedPattern :: "path_env \<Rightarrow> ResolvedWorkspace \<Rightarrow> string \<Rightarrow> string option" where
  "matchedBlockedPattern env workspace relativePath =
     (let candidate = (if relativePath = ''.'' then [] else relativePath) in
      find (\<lambda>pattern. pe_glob_match env pattern candidate) (ws_blockedGlobs workspace))"

definition isBlocked :: "path_env \<Rightarrow> ResolvedWorkspace \<Rightarrow> string \<Rightarrow> bool" where
  "isBlocked env workspace relativePath \<longleftrightarrow> matchedBlockedPattern env workspace relativePath \<noteq> None"

definition isSubtreeBlocked :: "path_env \<Rightarrow> ResolvedWorkspace \<Rightarrow> string \<Rightarrow> bool" where
  "isSubtreeBlocked env workspace relativePath \<longleftrightarrow>
     (let candidate = (if relativePath = ''.'' then [] else relativePath) in
      list_ex (\<lambda>pattern. pe_glob_match env (take (length pattern - 3) pattern) candidate)
        (filter (\<lambda>pattern. js_endsWith pattern ''/**'') (ws_blockedGlobs workspace)))"

definition isWithinLogicalAllowedRoot :: "path_env \<Rightarrow> ResolvedWorkspace \<Rightarrow> string \<Rightarrow> bool" where
  "isWithinLogicalAllowedRoot env workspace logicalPath \<longleftrightarrow>
     list_ex (\<lambda>root.
       if ar_kind root = FileKind then
         comparisonValue (pe_windows env) (ar_logicalPath root) = comparisonValue (pe_windows env) logicalPath
       else logicalContains (pe_windows env) (ar_logicalPath root) logicalPath) (ws_allowedRoots workspace)"

definition isAllowedWritePath :: "path_env \<Rightarrow> ResolvedWorkspace \<Rightarrow> string \<Rightarrow> bool" where
  "isAllowedWritePath env workspace logicalPath \<longleftrightarrow>
     (if ws_allowWrites workspace = [] then False
      else list_ex (\<lambda>writeRoot.
        writeRoot = ''.'' \<or>
        (let root = comparisonValue (pe_windows env) writeRoot;
             candidate = comparisonValue (pe_windows env) logicalPath in
         candidate = root \<or> js_startsWith candidate (root @ ''/'') \<or> js_startsWith root (candidate @ ''/'')))
        (ws_allowWrites workspace))"

definition blocked_path :: "string \<Rightarrow> exn" where
  "blocked_path message = AppError BLOCKED_PATH message"

definition outside_allowed_roots :: "string \<Rightarrow> exn" where
  "outside_allowed_roots message = AppError PATH_OUTSIDE_ALLOWED_ROOTS message"

definition authorizeLogical :: "path_env \<Rightarrow> ResolvedWorkspace \<Rightarrow> string \<Rightarrow> bool \<Rightarrow> string result" where
  "authorizeLogical env workspace input allowDot =
     bind_result (normalizeRelativePath (pe_windows env) allowDot input) (\<lambda>logicalPath.
     if matchedBlockedPattern env workspace logicalPath \<notin> {None, Some []} then
       Inl (blocked_path ''Path is blocked by workspace policy.'')
     else if \<not> isWithinLogicalAllowedRoot env workspace logicalPath then
       Inl (outside_allowed_roots ''Path is outside the workspace allowed roots.'')
     else Inr logicalPath)"

definition authorizeWriteLogical :: "path_env \<Rightarrow> ResolvedWorkspace \<Rightarrow> string \<Rightarrow> string result" where
  "authorizeWriteLogical env workspace input =
     bind_result (normalizeRelativePath (pe_windows env) False input) (\<lambda>logicalPath.
     if isBlocked env workspace logicalPath then Inl (blocked_path ''Path is blocked by workspace policy.'')
     else if \<not> isWithinLogicalAllowedRoot env workspace logicalPath then
       Inl (outside_allowed_roots ''Path is outside the workspace allowed roots.'')
     else if \<not> isAllowedWritePath env workspace logicalPath then
       Inl (AppError WRITE_NOT_ALLOWED ''Path is outside the workspace allowWrites policy.'')
     else Inr logicalPath)"

text \<open>The proper ancestors of a logical path, outermost first.\<close>

definition ancestors :: "string \<Rightarrow> string list" where
  "ancestors logicalPath =
     (let segments = js_split slash logicalPath in
      map (\<lambda>i. join_with ''/'' (take i segments)) [1..<length segments])"

fun assert_creatable :: "path_env \<Rightarrow> ResolvedWorkspace \<Rightarrow> string list \<Rightarrow> unit result" where
  "assert_creatable env workspace [] = Inr ()"
| "assert_creatable env workspace (a # as) =
     (if isBlocked env workspace a then Inl (blocked_path ''Path is blocked by workspace policy.'')
      else if \<not> isAllowedWritePath env workspace a then
        Inl (AppError WRITE_NOT_ALLOWED ''Path is outside the workspace allowWrites policy.'')
      else assert_creatable env workspace as)"

definition assertCreatableAncestors :: "path_env \<Rightarrow> ResolvedWorkspace \<Rightarrow> string \<Rightarrow> unit result" where
  "assertCreatableAncestors env workspace logicalPath = assert_creatable env workspace (ancestors logicalPath)"

text \<open>Whether the target is a new file.\<close>

definition write_created :: "path_env \<Rightarrow> ResolvedWorkspace \<Rightarrow> string \<Rightarrow> native_path \<Rightarrow> bool result" where
  "write_created env workspace logicalPath absolutePath =
     (case pe_stat env absolutePath of
        Some kind \<Rightarrow>
          if kind \<noteq> Is_file then Inl (AppError NOT_A_FILE ''Requested path is not a file.'') else Inr False
      | None \<Rightarrow> bind_result (assertCreatableAncestors env workspace logicalPath) (\<lambda>_. Inr True))"

text \<open>The resolved parent, and the resolved target when it exists, against the root.\<close>

definition write_resolved :: "path_env \<Rightarrow> ResolvedWorkspace \<Rightarrow> native_path \<Rightarrow> bool \<Rightarrow> unit result" where
  "write_resolved env workspace absolutePath created =
     (case pe_realpath env (butlast absolutePath) of
        None \<Rightarrow>
          if \<not> created then Inl (invalid_path ''Unable to resolve parent directory.'') else Inr ()
      | Some parentCanonical \<Rightarrow>
          if \<not> isContained (pe_windows env) (ws_canonicalRootPath workspace) parentCanonical then
            Inl (AppError PATH_OUTSIDE_WORKSPACE ''Resolved parent path is outside the workspace.'')
          else if \<not> created then
            (case pe_realpath env absolutePath of
               None \<Rightarrow> Inl (PlainError ''realpath'')
             | Some canonicalPath \<Rightarrow>
                 if \<not> isContained (pe_windows env) (ws_canonicalRootPath workspace) canonicalPath then
                   Inl (AppError PATH_OUTSIDE_WORKSPACE ''Resolved path is outside the workspace.'')
                 else Inr ())
          else Inr ())"

definition authorizeWriteTarget ::
  "path_env \<Rightarrow> ResolvedWorkspace \<Rightarrow> string \<Rightarrow> AuthorizedWritePath result" where
  "authorizeWriteTarget env workspace input =
     bind_result (authorizeWriteLogical env workspace input) (\<lambda>logicalPath.
     let absolutePath = toNativeAbsolute (ws_rootPath workspace) logicalPath in
     bind_result (write_created env workspace logicalPath absolutePath) (\<lambda>created.
     bind_result (write_resolved env workspace absolutePath created) (\<lambda>_.
     Inr \<lparr>aw_logicalPath = logicalPath, aw_absolutePath = absolutePath, aw_created = created\<rparr>)))"

definition portable_relative :: "bool \<Rightarrow> native_path \<Rightarrow> native_path \<Rightarrow> string" where
  "portable_relative windows root target =
     (let relative = join_with ''/'' (path_relative windows root target) in if relative = [] then ''.'' else relative)"

text \<open>The kind of the resolved path, and the answer.\<close>

definition existing_kind ::
  "path_env \<Rightarrow> path_kind option \<Rightarrow> string \<Rightarrow> native_path \<Rightarrow> native_path \<Rightarrow> string \<Rightarrow> AuthorizedPath result" where
  "existing_kind env expectedKind logicalPath absolutePath canonicalPath portable =
     (case pe_stat env canonicalPath of
        None \<Rightarrow> Inl (PlainError ''stat'')
      | Some Is_other \<Rightarrow> Inl (invalid_path ''Path type is not supported.'')
      | Some s \<Rightarrow>
          let kind = (if s = Is_file then FileKind else DirectoryKind) in
          if expectedKind = Some FileKind \<and> kind \<noteq> FileKind then
            Inl (AppError NOT_A_FILE ''Requested path is not a file.'')
          else if expectedKind = Some DirectoryKind \<and> kind \<noteq> DirectoryKind then
            Inl (AppError NOT_A_DIRECTORY ''Requested path is not a directory.'')
          else Inr \<lparr>ap_logicalPath = logicalPath, ap_absolutePath = absolutePath,
            ap_canonicalPath = canonicalPath, ap_canonicalRelativePath = portable, ap_kind = kind\<rparr>)"

text \<open>The resolved path against the roots and the blocked patterns.\<close>

definition existing_resolved ::
  "path_env \<Rightarrow> ResolvedWorkspace \<Rightarrow> path_kind option \<Rightarrow> bool \<Rightarrow> string \<Rightarrow> AuthorizedPath result" where
  "existing_resolved env workspace expectedKind enforceBlockedPolicy logicalPath =
     (let absolutePath = toNativeAbsolute (ws_rootPath workspace) logicalPath in
      case pe_realpath env absolutePath of
        None \<Rightarrow> Inl (AppError FILE_NOT_FOUND ''Requested path does not exist.'')
      | Some canonicalPath \<Rightarrow>
          if \<not> isContained (pe_windows env) (ws_canonicalRootPath workspace) canonicalPath then
            Inl (AppError PATH_OUTSIDE_WORKSPACE ''Resolved path is outside the workspace.'')
          else if \<not> list_ex (\<lambda>root. isContained (pe_windows env) (ar_canonicalPath root) canonicalPath)
                      (ws_allowedRoots workspace) then
            Inl (outside_allowed_roots ''Resolved path is outside the workspace allowed roots.'')
          else
            (let portable = portable_relative (pe_windows env) (ws_canonicalRootPath workspace) canonicalPath in
             if enforceBlockedPolicy \<and> matchedBlockedPattern env workspace portable \<notin> {None, Some []} then
               Inl (blocked_path ''Resolved path is blocked by workspace policy.'')
             else existing_kind env expectedKind logicalPath absolutePath canonicalPath portable))"

definition authorizeExistingInternal ::
  "path_env \<Rightarrow> ResolvedWorkspace \<Rightarrow> string \<Rightarrow> path_kind option \<Rightarrow> bool \<Rightarrow> bool \<Rightarrow> AuthorizedPath result" where
  "authorizeExistingInternal env workspace input expectedKind allowDot enforceBlockedPolicy =
     bind_result
       (if enforceBlockedPolicy then authorizeLogical env workspace input allowDot
        else normalizeRelativePath (pe_windows env) allowDot input) (\<lambda>logicalPath.
     if \<not> isWithinLogicalAllowedRoot env workspace logicalPath then
       Inl (outside_allowed_roots ''Path is outside the workspace allowed roots.'')
     else existing_resolved env workspace expectedKind enforceBlockedPolicy logicalPath)"

definition authorizeExisting ::
  "path_env \<Rightarrow> ResolvedWorkspace \<Rightarrow> string \<Rightarrow> path_kind option \<Rightarrow> bool \<Rightarrow> AuthorizedPath result" where
  "authorizeExisting env workspace input expectedKind allowDot =
     authorizeExistingInternal env workspace input expectedKind allowDot True"

definition authorizeExistingForSecretScan ::
  "path_env \<Rightarrow> ResolvedWorkspace \<Rightarrow> string \<Rightarrow> path_kind option \<Rightarrow> bool \<Rightarrow> AuthorizedPath result" where
  "authorizeExistingForSecretScan env workspace input expectedKind allowDot =
     authorizeExistingInternal env workspace input expectedKind allowDot False"

definition resolveAllowedRoot ::
  "path_env \<Rightarrow> native_path \<Rightarrow> native_path \<Rightarrow> string \<Rightarrow> ResolvedAllowedRoot result" where
  "resolveAllowedRoot env canonicalWorkspaceRoot workspaceRoot configuredPath =
     bind_result (normalizeRelativePath (pe_windows env) True configuredPath) (\<lambda>logicalPath.
     let absolutePath = toNativeAbsolute workspaceRoot logicalPath in
     case pe_realpath env absolutePath of
       None \<Rightarrow> Inl (AppError POLICY_INVALID ''An allowed root does not exist.'')
     | Some canonicalPath \<Rightarrow>
         if \<not> isContained (pe_windows env) canonicalWorkspaceRoot canonicalPath then
           Inl (AppError POLICY_INVALID ''An allowed root resolves outside the workspace.'')
         else
           (case pe_stat env canonicalPath of
              None \<Rightarrow> Inl (PlainError ''stat'')
            | Some Is_other \<Rightarrow> Inl (AppError POLICY_INVALID ''An allowed root has an unsupported type.'')
            | Some s \<Rightarrow> Inr \<lparr>ar_logicalPath = logicalPath, ar_absolutePath = absolutePath,
                ar_canonicalPath = canonicalPath, ar_kind = (if s = Is_file then FileKind else DirectoryKind)\<rparr>))"

subsection \<open>Permission profiles\<close>

datatype workspace_operation = List_op | Read_op | Search_op | Diff_op | Write_op | Shell_op

definition profile_allows :: "PermissionProfile \<Rightarrow> workspace_operation \<Rightarrow> bool" where
  "profile_allows profile operation \<longleftrightarrow>
     (case operation of
        Write_op \<Rightarrow> profile = Full_repo_write
      | Shell_op \<Rightarrow> profile = Full_repo_write
      | List_op \<Rightarrow> profile \<noteq> Builder_review
      | Search_op \<Rightarrow> profile \<noteq> Builder_review
      | Read_op \<Rightarrow> True
      | Diff_op \<Rightarrow> True)"

definition operation_text :: "workspace_operation \<Rightarrow> string" where
  "operation_text operation = (case operation of List_op \<Rightarrow> ''list'' | Read_op \<Rightarrow> ''read'' | Search_op \<Rightarrow> ''search''
     | Diff_op \<Rightarrow> ''diff'' | Write_op \<Rightarrow> ''write'' | Shell_op \<Rightarrow> ''shell'')"

definition assertPermission :: "PermissionProfile \<Rightarrow> workspace_operation \<Rightarrow> unit result" where
  "assertPermission profile operation =
     (if profile_allows profile operation then Inr ()
      else Inl (AppError PERMISSION_DENIED (''Permission profile does not allow '' @ operation_text operation @ ''.'')))"


subsection \<open>Splitting and joining\<close>

definition plain_segment :: "string \<Rightarrow> bool" where
  "plain_segment s \<longleftrightarrow> s \<noteq> [] \<and> s \<noteq> ''..'' \<and> slash \<notin> set s"

text \<open>What \<open>realpath\<close> returns: no empty segment and no \<open>..\<close>.\<close>

definition canonical_path :: "native_path \<Rightarrow> bool" where
  "canonical_path p \<longleftrightarrow> list_all plain_segment p"

definition realpath_canonical :: "path_env \<Rightarrow> bool" where
  "realpath_canonical env \<longleftrightarrow> (\<forall>p q. pe_realpath env p = Some q \<longrightarrow> canonical_path q)"

lemma realpath_canonicalD: "realpath_canonical env \<Longrightarrow> pe_realpath env p = Some q \<Longrightarrow> canonical_path q"
  by (simp add: realpath_canonical_def)

definition inside :: "bool \<Rightarrow> native_path \<Rightarrow> native_path \<Rightarrow> bool" where
  "inside windows base target \<longleftrightarrow> prefix (map (comparisonValue windows) base) (map (comparisonValue windows) target)"

lemma js_startsWith_iff: "js_startsWith s w \<longleftrightarrow> prefix w s"
  unfolding js_startsWith_def by (metis append_eq_conv_conj prefix_def take_is_prefix)

lemma js_split_not_Nil [simp]: "js_split c s \<noteq> []"
  by (induction s) (auto split: list.splits)

lemma js_split_segment: "c \<notin> set w \<Longrightarrow> js_split c w = [w]"
  by (induction w) auto

lemma js_split_append: "c \<notin> set w \<Longrightarrow> js_split c (w @ c # rest) = w # js_split c rest"
  by (induction w) auto

lemma js_split_no_sep: "w \<in> set (js_split c s) \<Longrightarrow> c \<notin> set w"
  by (induction s arbitrary: w) (auto split: if_splits list.splits)

lemma js_split_chars: "w \<in> set (js_split c s) \<Longrightarrow> set w \<subseteq> set s"
  by (induction s arbitrary: w) (fastforce split: if_splits list.splits)+

lemma js_split_join:
  "ws \<noteq> [] \<Longrightarrow> \<forall>w \<in> set ws. slash \<notin> set w \<Longrightarrow> js_split slash (join_with ''/'' ws) = ws"
proof (induction ws)
  case (Cons w ws)
  then show ?case by (cases ws) (simp_all add: js_split_append js_split_segment)
qed simp

lemma join_with_starts:
  assumes "s \<noteq> []" "slash \<notin> set s"
  shows "\<not> prefix ''/'' (join_with ''/'' (s # ws))"
    and "s \<noteq> ''..'' \<Longrightarrow> \<not> prefix ''../'' (join_with ''/'' (s # ws)) \<and> join_with ''/'' (s # ws) \<noteq> ''..''"
    and "join_with ''/'' (s # ws) \<noteq> []"
proof -
  obtain a t where s: "s = a # t" using assms(1) by (cases s) auto
  obtain rest where join: "join_with ''/'' (s # ws) = s @ rest" "rest = [] \<or> hd rest = slash"
    by (cases ws) auto
  show "\<not> prefix ''/'' (join_with ''/'' (s # ws))" "join_with ''/'' (s # ws) \<noteq> []"
    using join assms s by auto
  show "\<not> prefix ''../'' (join_with ''/'' (s # ws)) \<and> join_with ''/'' (s # ws) \<noteq> ''..''" if "s \<noteq> ''..''"
    using join assms that s
    by (cases t; cases "tl t"; cases rest) (auto simp: append_eq_Cons_conv)
qed

subsection \<open>Containment\<close>

lemma common_prefix_length_le: "common_prefix_length xs ys \<le> length xs"
  by (induction xs ys rule: common_prefix_length.induct) auto

lemma common_prefix_length_prefix: "common_prefix_length xs ys = length xs \<longleftrightarrow> prefix xs ys"
  by (induction xs ys rule: common_prefix_length.induct) auto

text \<open>On canonical targets the string test of \<open>isContained\<close> is the prefix of segments.\<close>

lemma isContained_iff:
  assumes "canonical_path target"
  shows "isContained windows base target \<longleftrightarrow> inside windows base target"
proof -
  define n where "n = common_prefix_length (map (comparisonValue windows) base) (map (comparisonValue windows) target)"
  have le: "n \<le> length base"
    using common_prefix_length_le [of "map (comparisonValue windows) base"] by (simp add: n_def)
  have iff: "inside windows base target \<longleftrightarrow> n = length base"
    using common_prefix_length_prefix [of "map (comparisonValue windows) base" "map (comparisonValue windows) target"]
    by (simp add: inside_def n_def)
  have rel: "path_relative windows base target = replicate (length base - n) ''..'' @ drop n target"
    by (simp add: path_relative_def n_def Let_def)
  show ?thesis
  proof (cases "n = length base")
    case True
    have "isContained windows base target"
    proof (cases "drop n target")
      case Nil
      with True rel show ?thesis by (simp add: isContained_def)
    next
      case (Cons s ws)
      then have "s \<in> set target" by (metis in_set_dropD list.set_intros(1))
      then have "plain_segment s" using assms by (simp add: canonical_path_def list_all_iff)
      then show ?thesis using True rel Cons join_with_starts [of s ws]
        by (simp add: isContained_def plain_segment_def js_startsWith_iff posix_isAbsolute_def)
    qed
    with True iff show ?thesis by simp
  next
    case False
    then obtain k where "length base - n = Suc k" using le by (metis diff_is_0_eq le_antisym not0_implies_Suc)
    then have "path_relative windows base target = ''..'' # replicate k ''..'' @ drop n target" using rel by simp
    then have "\<not> isContained windows base target"
      by (cases "replicate k ''..'' @ drop n target") (simp_all add: isContained_def js_startsWith_iff)
    with False iff show ?thesis by simp
  qed
qed

subsection \<open>Normalised paths\<close>

definition invalid_segment :: "bool \<Rightarrow> string \<Rightarrow> bool" where
  "invalid_segment windows s \<longleftrightarrow> windows \<and> (CHR '':'' \<in> set s \<or> last s \<in> set ''. '')"

definition safe_segment :: "bool \<Rightarrow> string \<Rightarrow> bool" where
  "safe_segment windows s \<longleftrightarrow> plain_segment s \<and> s \<noteq> ''.'' \<and> back_slash \<notin> set s \<and> CHR 0x00 \<notin> set s \<and>
     \<not> invalid_segment windows s"

lemma normalize_segments_Cons:
  assumes "normalize_segments windows (s # rest) acc = Inr result"
  shows "(s = [] \<or> s = ''.'') \<and> normalize_segments windows rest acc = Inr result \<or>
    s \<noteq> [] \<and> s \<noteq> ''.'' \<and> s \<noteq> ''..'' \<and> \<not> invalid_segment windows s \<and>
    normalize_segments windows rest (acc @ [s]) = Inr result"
proof (cases "s = [] \<or> s = ''.'' \<or> s = ''..''")
  case True
  with assms show ?thesis by auto
next
  case False
  then show ?thesis
    using assms by (cases windows; cases "invalid_segment windows s") (simp_all add: invalid_segment_def)
qed

lemma normalize_segments_ok:
  assumes "normalize_segments windows segments acc = Inr result"
  shows "result = acc @ filter (\<lambda>s. s \<noteq> [] \<and> s \<noteq> ''.'') segments \<and> ''..'' \<notin> set segments \<and>
    (\<forall>s \<in> set segments. s \<noteq> [] \<longrightarrow> s \<noteq> ''.'' \<longrightarrow> \<not> invalid_segment windows s)"
  using assms
proof (induction segments arbitrary: acc)
  case (Cons s rest)
  from normalize_segments_Cons [OF Cons.prems] show ?case
  proof (elim disjE conjE)
    assume "s = []" "normalize_segments windows rest acc = Inr result"
    with Cons.IH show ?thesis by simp
  next
    assume "s = ''.''" "normalize_segments windows rest acc = Inr result"
    with Cons.IH show ?thesis by simp
  next
    assume "s \<noteq> []" "s \<noteq> ''.''" "s \<noteq> ''..''" "\<not> invalid_segment windows s"
      "normalize_segments windows rest (acc @ [s]) = Inr result"
    with Cons.IH [of "acc @ [s]"] show ?thesis by simp
  qed
qed simp

lemma normalize_segments_safe:
  "list_all (safe_segment windows) segments \<Longrightarrow> normalize_segments windows segments acc = Inr (acc @ segments)"
  by (induction segments arbitrary: acc) (auto simp: safe_segment_def plain_segment_def invalid_segment_def)

lemma normalizeRelativePath_segments:
  assumes "normalizeRelativePath windows allowDot input = Inr p"
  obtains segs where "list_all (safe_segment windows) segs"
    and "p = (if segs = [] then ''.'' else join_with ''/'' segs)" and "segs = [] \<Longrightarrow> allowDot"
proof -
  define portable where "portable = map (\<lambda>c. if c = back_slash then slash else c) input"
  define segs where "segs = filter (\<lambda>s. s \<noteq> [] \<and> s \<noteq> ''.'') (js_split slash portable)"
  from assms have nul: "CHR 0x00 \<notin> set input" by (auto simp: normalizeRelativePath_def split: if_splits)
  have "CHR 0x00 \<notin> set portable" "back_slash \<notin> set portable"
    using nul by (auto simp: portable_def)
  then have chars: "slash \<notin> set s \<and> back_slash \<notin> set s \<and> CHR 0x00 \<notin> set s" if "s \<in> set (js_split slash portable)" for s
    using that js_split_no_sep js_split_chars by blast
  from assms obtain result where norm: "normalize_segments windows (js_split slash portable) [] = Inr result"
    and p: "p = (if result = [] then ''.'' else join_with ''/'' result)" "result = [] \<Longrightarrow> allowDot"
    by (auto simp: normalizeRelativePath_def portable_def [symmetric] Let_def bind_result_Inr_iff split: if_splits)
  from normalize_segments_ok [OF norm] have "result = segs" "list_all (safe_segment windows) segs"
    using chars by (auto simp: segs_def list_all_iff safe_segment_def plain_segment_def)
  with p that show thesis by blast
qed

lemma path_resolve_safe:
  "list_all (safe_segment windows) segs \<Longrightarrow> path_resolve root segs = root @ segs"
  by (induction segs arbitrary: root) (auto simp: path_resolve_def safe_segment_def plain_segment_def)

lemma join_safe_not_dot:
  assumes "list_all (safe_segment windows) segs" "segs \<noteq> []"
  shows "join_with ''/'' segs \<noteq> ''.''"
proof
  assume "join_with ''/'' segs = ''.''"
  then have "js_split slash (join_with ''/'' segs) = [''.'']" by simp
  then have "segs = [''.'']"
    using assms js_split_join [of segs] by (simp add: list_all_iff safe_segment_def plain_segment_def)
  with assms(1) show False by (simp add: safe_segment_def)
qed

lemma toNativeAbsolute_segments:
  assumes "list_all (safe_segment windows) segs"
  shows "toNativeAbsolute root (if segs = [] then ''.'' else join_with ''/'' segs) = root @ segs"
  using assms join_safe_not_dot [OF assms] path_resolve_safe [OF assms] js_split_join [of segs]
  by (auto simp: toNativeAbsolute_def list_all_iff safe_segment_def plain_segment_def)


text \<open>Normalising a second time changes nothing, drive-like names on POSIX apart.\<close>

lemma map_id_on: "x \<notin> set s \<Longrightarrow> map (\<lambda>c. if c = x then y else c) s = s"
  by (induction s) auto

lemma set_join_with: "set (join_with sep ws) \<subseteq> set sep \<union> (\<Union>w \<in> set ws. set w)"
  by (induction sep ws rule: join_with.induct) auto

lemma join_safe_chars:
  assumes "list_all (safe_segment windows) segs"
  shows "back_slash \<notin> set (join_with ''/'' segs)" "CHR 0x00 \<notin> set (join_with ''/'' segs)"
  using assms set_join_with [of "''/''" segs] by (auto simp: list_all_iff safe_segment_def)

lemma normalize_idempotent:
  assumes segs: "list_all (safe_segment windows) segs" "segs \<noteq> []"
    and drive: "\<not> drive_prefix (join_with ''/'' segs)"
  shows "normalizeRelativePath windows allowDot (join_with ''/'' segs) = Inr (join_with ''/'' segs)"
proof -
  obtain s ws where Cons: "segs = s # ws" using segs(2) by (cases segs) auto
  then have s: "s \<noteq> []" "slash \<notin> set s" using segs by (simp_all add: safe_segment_def plain_segment_def)
  have "\<not> prefix ''/'' (join_with ''/'' segs)" "join_with ''/'' segs \<noteq> []"
    using join_with_starts(1,3) [OF s] Cons by auto
  then obtain c cs where c: "join_with ''/'' segs = c # cs" "c \<noteq> slash" by (cases "join_with ''/'' segs") auto
  have b: "c \<noteq> back_slash" "back_slash \<notin> set cs" "CHR 0x00 \<notin> set (c # cs)"
    using join_safe_chars [OF segs(1)] c by auto
  have split: "js_split slash (c # cs) = segs"
    using js_split_join [of segs] segs c by (simp add: list_all_iff safe_segment_def plain_segment_def)
  have "map (\<lambda>c. if c = back_slash then slash else c) (c # cs) = c # cs"
    using b by (intro map_id_on) auto
  then show ?thesis
    using c b split drive segs(2) normalize_segments_safe [OF segs(1), of "[]"]
    by (simp add: normalizeRelativePath_def posix_isAbsolute_def win32_isAbsolute_def js_startsWith_iff
        del: js_split.simps list.map)
qed

subsection \<open>Authorised paths\<close>

lemma existing_kind_Inr:
  assumes "existing_kind env expectedKind logicalPath absolutePath canonicalPath portable = Inr a"
  shows "ap_logicalPath a = logicalPath" "ap_absolutePath a = absolutePath" "ap_canonicalPath a = canonicalPath"
    "ap_canonicalRelativePath a = portable" "expectedKind = None \<or> expectedKind = Some (ap_kind a)"
    "pe_stat env canonicalPath = Some (if ap_kind a = FileKind then Is_file else Is_directory)"
proof -
  obtain s where s: "pe_stat env canonicalPath = Some s" "s \<noteq> Is_other"
    using assms by (auto simp: existing_kind_def split: option.splits stat_result.splits)
  let ?kind = "if s = Is_file then FileKind else DirectoryKind"
  have "expectedKind = None \<or> expectedKind = Some ?kind" "a = \<lparr>ap_logicalPath = logicalPath, ap_absolutePath = absolutePath,
      ap_canonicalPath = canonicalPath, ap_canonicalRelativePath = portable, ap_kind = ?kind\<rparr>"
    using assms s
    by (cases s; cases expectedKind; cases "the expectedKind"; simp add: existing_kind_def)+
  with s show "ap_logicalPath a = logicalPath" "ap_absolutePath a = absolutePath" "ap_canonicalPath a = canonicalPath"
    "ap_canonicalRelativePath a = portable" "expectedKind = None \<or> expectedKind = Some (ap_kind a)"
    "pe_stat env canonicalPath = Some (if ap_kind a = FileKind then Is_file else Is_directory)"
    by (cases s; simp)+
qed

lemma existing_resolved_Inr:
  assumes "existing_resolved env workspace expectedKind enforce logicalPath = Inr a"
  obtains canonicalPath portable where
    "pe_realpath env (toNativeAbsolute (ws_rootPath workspace) logicalPath) = Some canonicalPath"
    "isContained (pe_windows env) (ws_canonicalRootPath workspace) canonicalPath"
    "list_ex (\<lambda>root. isContained (pe_windows env) (ar_canonicalPath root) canonicalPath) (ws_allowedRoots workspace)"
    "portable = portable_relative (pe_windows env) (ws_canonicalRootPath workspace) canonicalPath"
    "enforce \<longrightarrow> matchedBlockedPattern env workspace portable \<in> {None, Some []}"
    "existing_kind env expectedKind logicalPath (toNativeAbsolute (ws_rootPath workspace) logicalPath) canonicalPath portable = Inr a"
  using assms by (auto simp: existing_resolved_def Let_def split: option.splits if_splits)

lemma assert_creatable_Inr:
  "assert_creatable env workspace as = Inr () \<longleftrightarrow>
   (\<forall>a \<in> set as. \<not> isBlocked env workspace a \<and> isAllowedWritePath env workspace a)"
  by (induction as) auto

lemma authorizeWriteLogical_Inr:
  "authorizeWriteLogical env workspace input = Inr p \<longleftrightarrow>
   normalizeRelativePath (pe_windows env) False input = Inr p \<and> \<not> isBlocked env workspace p \<and>
   isWithinLogicalAllowedRoot env workspace p \<and> isAllowedWritePath env workspace p"
  by (auto simp: authorizeWriteLogical_def bind_result_Inr_iff split: if_splits)

lemma write_target_parts:
  assumes "authorizeWriteTarget env workspace input = Inr a"
  shows "authorizeWriteLogical env workspace input = Inr (aw_logicalPath a)"
    and "aw_absolutePath a = toNativeAbsolute (ws_rootPath workspace) (aw_logicalPath a)"
    and "write_created env workspace (aw_logicalPath a) (aw_absolutePath a) = Inr (aw_created a)"
    and "write_resolved env workspace (aw_absolutePath a) (aw_created a) = Inr ()"
  using assms by (auto simp: authorizeWriteTarget_def Let_def bind_result_Inr_iff)

lemma write_created_Inr:
  "write_created env workspace p absolutePath = Inr True \<longleftrightarrow>
     pe_stat env absolutePath = None \<and> assertCreatableAncestors env workspace p = Inr ()"
  "write_created env workspace p absolutePath = Inr False \<longleftrightarrow> pe_stat env absolutePath = Some Is_file"
  by (auto simp: write_created_def bind_result_Inr_iff split: option.splits if_splits)

lemma write_resolved_parent:
  assumes "write_resolved env workspace absolutePath created = Inr ()"
    and "pe_realpath env (butlast absolutePath) = Some q"
  shows "isContained (pe_windows env) (ws_canonicalRootPath workspace) q"
  using assms by (auto simp: write_resolved_def split: if_splits)

lemma write_resolved_target:
  assumes "write_resolved env workspace absolutePath False = Inr ()"
  shows "\<exists>q. pe_realpath env absolutePath = Some q \<and> isContained (pe_windows env) (ws_canonicalRootPath workspace) q"
  using assms by (auto simp: write_resolved_def split: option.splits if_splits)

text \<open>An authorised path resolves inside the root and an allowed root.\<close>

lemma authorizeExisting_inside:
  assumes realpath: "realpath_canonical env"
    and ok: "authorizeExisting env workspace input expectedKind allowDot = Inr a"
  shows "pe_realpath env (ap_absolutePath a) = Some (ap_canonicalPath a)"
    and "inside (pe_windows env) (ws_canonicalRootPath workspace) (ap_canonicalPath a)"
    and "\<exists>root \<in> set (ws_allowedRoots workspace). inside (pe_windows env) (ar_canonicalPath root) (ap_canonicalPath a)"
    and "matchedBlockedPattern env workspace (ap_canonicalRelativePath a) \<in> {None, Some []}"
    and "authorizeLogical env workspace input allowDot = Inr (ap_logicalPath a)"
    and "expectedKind = None \<or> expectedKind = Some (ap_kind a)"
proof -
  from ok obtain logicalPath where logical: "authorizeLogical env workspace input allowDot = Inr logicalPath"
    and "existing_resolved env workspace expectedKind True logicalPath = Inr a"
    by (auto simp: authorizeExisting_def authorizeExistingInternal_def bind_result_Inr_iff split: if_splits)
  from this(2) obtain canonicalPath portable where
    real: "pe_realpath env (toNativeAbsolute (ws_rootPath workspace) logicalPath) = Some canonicalPath"
    and contained: "isContained (pe_windows env) (ws_canonicalRootPath workspace) canonicalPath"
      "list_ex (\<lambda>root. isContained (pe_windows env) (ar_canonicalPath root) canonicalPath) (ws_allowedRoots workspace)"
    and portable: "matchedBlockedPattern env workspace portable \<in> {None, Some []}"
    and kind: "existing_kind env expectedKind logicalPath (toNativeAbsolute (ws_rootPath workspace) logicalPath)
      canonicalPath portable = Inr a"
    by (rule existing_resolved_Inr) blast
  note fields = existing_kind_Inr [OF kind] and iff = isContained_iff [OF realpath_canonicalD [OF realpath real]]
  show "pe_realpath env (ap_absolutePath a) = Some (ap_canonicalPath a)"
    "inside (pe_windows env) (ws_canonicalRootPath workspace) (ap_canonicalPath a)"
    "\<exists>root \<in> set (ws_allowedRoots workspace). inside (pe_windows env) (ar_canonicalPath root) (ap_canonicalPath a)"
    "matchedBlockedPattern env workspace (ap_canonicalRelativePath a) \<in> {None, Some []}"
    "authorizeLogical env workspace input allowDot = Inr (ap_logicalPath a)"
    "expectedKind = None \<or> expectedKind = Some (ap_kind a)"
    using fields iff real contained portable logical by (auto simp: list_ex_iff)
qed

subsection \<open>Properties\<close>

text \<open>
  A normalised path cannot leave the workspace lexically. Every path that
  \<open>normalizeRelativePath\<close> accepts is a sequence of segments none of which is empty, \<open>.\<close> or
  \<open>..\<close> or holds a slash, backslash or NUL (and on Windows no colon and no trailing dot or
  space); the absolute path made of it is the root followed by exactly these segments; and it
  is a fixed point of the normalisation unless it starts like a drive letter.\<close>

theorem normalized_path_below_root:
  assumes "normalizeRelativePath windows allowDot input = Inr p"
  shows "\<exists>segs. list_all (safe_segment windows) segs \<and> toNativeAbsolute root p = root @ segs \<and>
    p = (if segs = [] then ''.'' else join_with ''/'' segs) \<and>
    (segs \<noteq> [] \<longrightarrow> \<not> drive_prefix p \<longrightarrow> normalizeRelativePath windows allowDot p = Inr p)"
proof -
  from assms obtain segs where segs: "list_all (safe_segment windows) segs"
    "p = (if segs = [] then ''.'' else join_with ''/'' segs)"
    by (rule normalizeRelativePath_segments)
  with toNativeAbsolute_segments [OF segs(1)] normalize_idempotent [OF segs(1)] show ?thesis by auto
qed

theorem normalized_path_below_root_witness:
  "normalizeRelativePath True False (''a'' @ [back_slash] @ ''b/./c.ts'') = Inr ''a/b/c.ts'' \<and>
   (\<exists>segs. list_all (safe_segment True) segs \<and> toNativeAbsolute [''repo''] ''a/b/c.ts'' = [''repo''] @ segs)"
proof -
  have "normalizeRelativePath True False (''a'' @ [back_slash] @ ''b/./c.ts'') = Inr ''a/b/c.ts''" by code_simp
  with normalized_path_below_root [OF this, of "[''repo'']"] show ?thesis by blast
qed

text \<open>
  C2. A path that is authorised for reading stays inside the workspace, symbolic links
  included. When \<open>authorizeExisting\<close> returns, the file it resolves to lies below the canonical
  root of the workspace and below the canonical path of an allowed root, neither the requested
  path nor the resolved one matches a blocked pattern, and it has the kind that was asked for.
  The hypothesis is that \<open>realpath\<close> returns paths without empty or \<open>..\<close> segments.\<close>

theorem read_stays_inside:
  assumes realpath: "realpath_canonical env"
    and patterns: "[] \<notin> set (ws_blockedGlobs workspace)"
    and ok: "authorizeExisting env workspace input expectedKind allowDot = Inr a"
  shows "pe_realpath env (ap_absolutePath a) = Some (ap_canonicalPath a) \<and>
    inside (pe_windows env) (ws_canonicalRootPath workspace) (ap_canonicalPath a) \<and>
    (\<exists>root \<in> set (ws_allowedRoots workspace). inside (pe_windows env) (ar_canonicalPath root) (ap_canonicalPath a)) \<and>
    \<not> isBlocked env workspace (ap_logicalPath a) \<and> \<not> isBlocked env workspace (ap_canonicalRelativePath a) \<and>
    (expectedKind = None \<or> expectedKind = Some (ap_kind a))"
proof -
  have pattern: "matchedBlockedPattern env workspace p \<noteq> Some []" for p
    using patterns by (auto simp: matchedBlockedPattern_def Let_def find_Some_iff) (metis nth_mem)+
  note inside = authorizeExisting_inside [OF realpath ok]
  have "matchedBlockedPattern env workspace (ap_logicalPath a) \<in> {None, Some []}"
    using inside(5) by (auto simp: authorizeLogical_def bind_result_Inr_iff split: if_splits)
  with inside pattern show ?thesis by (auto simp: isBlocked_def)
qed

definition demo_path_env :: path_env where
  "demo_path_env =
     \<lparr>pe_windows = False,
      pe_realpath = (\<lambda>p. if p = [''repo''] \<or> p = [''repo'', ''a.ts''] then Some p
        else if p = [''repo'', ''link''] then Some [''outside''] else None),
      pe_stat = (\<lambda>p. if p = [''repo''] then Some Is_directory else if p = [''repo'', ''a.ts''] then Some Is_file else None),
      pe_glob_match = (=)\<rparr>"

definition demo_workspace :: ResolvedWorkspace where
  "demo_workspace =
     \<lparr>ws_id = ''ws'', ws_name = ''demo'', ws_rootPath = [''repo''], ws_workspaceKind = Repository,
      ws_canonicalRootPath = [''repo''], ws_enabled = True,
      ws_permissionProfile = Full_repo_write, ws_confirmationMode = Standard,
      ws_allowedRoots = [\<lparr>ar_logicalPath = ''.'', ar_absolutePath = [''repo''], ar_canonicalPath = [''repo''], ar_kind = DirectoryKind\<rparr>],
      ws_blockedGlobs = [''.env''], ws_limits = DISCOVERED_WORKSPACE_LIMIT_CEILINGS,
      ws_allowWrites = [''.''], ws_allowShell = [''.''], ws_allowedShells = [Powershell], ws_sourceControl = None\<rparr>"

lemma demo_path_env_canonical: "realpath_canonical demo_path_env"
  by (auto simp: realpath_canonical_def demo_path_env_def canonical_path_def plain_segment_def split: if_splits)

theorem read_stays_inside_witness:
  "\<exists>a. authorizeExisting demo_path_env demo_workspace ''./a.ts'' (Some FileKind) False = Inr a \<and>
     inside False [''repo''] (ap_canonicalPath a) \<and> \<not> isBlocked demo_path_env demo_workspace (ap_canonicalRelativePath a)"
proof -
  define a where "a = \<lparr>ap_logicalPath = ''a.ts'', ap_absolutePath = [''repo'', ''a.ts''], ap_canonicalPath = [''repo'', ''a.ts''],
     ap_canonicalRelativePath = ''a.ts'', ap_kind = FileKind\<rparr>"
  have ok: "authorizeExisting demo_path_env demo_workspace ''./a.ts'' (Some FileKind) False = Inr a"
    unfolding a_def by code_simp
  have "[] \<notin> set (ws_blockedGlobs demo_workspace)" by (simp add: demo_workspace_def)
  from read_stays_inside [OF demo_path_env_canonical this ok] ok show ?thesis
    by (auto simp: demo_path_env_def demo_workspace_def)
qed

text \<open>
  C32. What a path must satisfy to be written. When \<open>authorizeWriteTarget\<close> returns, the logical
  path is not blocked and lies in an allowed root and an \<open>allowWrites\<close> entry; an existing target
  is a file that resolves inside the workspace; a target that does not exist has only ancestors
  that are not blocked and are writable; and whenever the parent directory resolves, it resolves
  inside the workspace.\<close>

theorem write_target_checked:
  assumes realpath: "realpath_canonical env"
    and ok: "authorizeWriteTarget env workspace input = Inr a"
  shows "\<not> isBlocked env workspace (aw_logicalPath a) \<and> isWithinLogicalAllowedRoot env workspace (aw_logicalPath a) \<and>
    isAllowedWritePath env workspace (aw_logicalPath a) \<and>
    (aw_created a \<longleftrightarrow> pe_stat env (aw_absolutePath a) = None) \<and>
    (\<not> aw_created a \<longrightarrow> (\<exists>q. pe_realpath env (aw_absolutePath a) = Some q \<and>
       inside (pe_windows env) (ws_canonicalRootPath workspace) q)) \<and>
    (aw_created a \<longrightarrow> (\<forall>d \<in> set (ancestors (aw_logicalPath a)).
       \<not> isBlocked env workspace d \<and> isAllowedWritePath env workspace d)) \<and>
    (\<forall>q. pe_realpath env (butlast (aw_absolutePath a)) = Some q \<longrightarrow>
       inside (pe_windows env) (ws_canonicalRootPath workspace) q)"
proof -
  note parts = write_target_parts [OF ok]
  note logical = parts(1) [unfolded authorizeWriteLogical_Inr]
  have parent: "inside (pe_windows env) (ws_canonicalRootPath workspace) q"
    if "pe_realpath env (butlast (aw_absolutePath a)) = Some q" for q
    using write_resolved_parent [OF parts(4) that] isContained_iff [OF realpath_canonicalD [OF realpath that]] by simp
  show ?thesis
  proof (cases "aw_created a")
    case True
    with parts(3) logical parent show ?thesis
      by (simp add: write_created_Inr assertCreatableAncestors_def assert_creatable_Inr)
  next
    case False
    with parts(3,4) have "pe_stat env (aw_absolutePath a) = Some Is_file"
      and "\<exists>q. pe_realpath env (aw_absolutePath a) = Some q \<and> isContained (pe_windows env) (ws_canonicalRootPath workspace) q"
      using write_resolved_target by (simp_all add: write_created_Inr)
    with False logical parent realpath_canonicalD [OF realpath] isContained_iff show ?thesis by auto
  qed
qed

theorem write_target_checked_witness:
  "\<exists>a. authorizeWriteTarget demo_path_env demo_workspace ''new.ts'' = Inr a \<and> aw_created a \<and>
     \<not> isBlocked demo_path_env demo_workspace (aw_logicalPath a)"
proof -
  define a where "a = \<lparr>aw_logicalPath = ''new.ts'', aw_absolutePath = [''repo'', ''new.ts''], aw_created = True\<rparr>"
  have ok: "authorizeWriteTarget demo_path_env demo_workspace ''new.ts'' = Inr a" unfolding a_def by code_simp
  from write_target_checked [OF demo_path_env_canonical ok] ok show ?thesis by (auto simp: a_def)
qed

text \<open>
  A new directory below a symbolic link escapes the check. Where \<open>link\<close> is a link of the
  workspace to a directory outside it and \<open>link/new\<close> does not exist, the target
  \<open>link/new/f.ts\<close> is authorised for writing: the parent has no \<open>realpath\<close>, so nothing compares
  the nearest existing directory, which lies outside the workspace, with the root. The caller
  \<open>writeFile\<close> of \<open>filesystem/service.ts\<close> then creates the parent and writes the file there.\<close>

theorem link_to_outside_authorised:
  "authorizeWriteTarget demo_path_env demo_workspace ''link/new/f.ts'' =
     Inr \<lparr>aw_logicalPath = ''link/new/f.ts'', aw_absolutePath = [''repo'', ''link'', ''new'', ''f.ts''], aw_created = True\<rparr> \<and>
   pe_realpath demo_path_env [''repo'', ''link''] = Some [''outside''] \<and>
   \<not> inside False (ws_canonicalRootPath demo_workspace) [''outside'']"
proof (intro conjI)
  show "authorizeWriteTarget demo_path_env demo_workspace ''link/new/f.ts'' =
     Inr \<lparr>aw_logicalPath = ''link/new/f.ts'', aw_absolutePath = [''repo'', ''link'', ''new'', ''f.ts''], aw_created = True\<rparr>"
    by code_simp
qed (simp_all add: demo_path_env_def demo_workspace_def inside_def comparisonValue_def)

end
