(* ===== verification/Trusted_Workspace.thy ===== *)
theory Trusted_Workspace
  imports Command_Risk Path_Security
begin

text \<open>
  Commands that a trusted workspace may run without a confirmation:
  \<open>services/workspace-agent/src/shell/trusted-workspace-authorization.ts\<close>.

  The first part refuses critical commands (scheduled tasks, elevation, credentials, installers,
  services, Docker, nested shells, inline interpreters). The second part accepts a destructive
  command only when it is one of a few file or Git operations and every path it names is proved
  to be writable and inside the workspace.

  An exception of the source is an \<open>Inl\<close>, an early \<open>return confirmation(input)\<close> is the decision
  \<open>Confirmation_required\<close>. The environment holds the file system (\<open>lstat\<close>, \<open>readdir\<close>, \<open>None\<close>
  when they throw), the events of a Git process and the directory of the agent's own process. The
  file system does not change during one authorisation.
\<close>

datatype authorization_decision =
    Execute string
  | Confirmation_required "string list"
  | Blocked error_code string

record TrustedWorkspaceAuthorizationInput =
  ti_workspace :: ResolvedWorkspace
  ti_shell :: ShellName
  ti_command :: string
  ti_logicalCwd :: string
  ti_absoluteCwd :: native_path
  ti_fallbackReasons :: "string list"

record MutablePath =
  mp_logicalPath :: string
  mp_kind :: "path_kind option"
  mp_canonicalPath :: "native_path option"

datatype git_event = Git_data string | Git_error | Git_close "int option" | Git_timeout

text \<open>A directory entry: its name and whether it is a symbolic link.\<close>

type_synonym dir_entry = "string \<times> bool"

record trusted_env =
  te_paths :: path_env
  te_lstat_link :: "native_path \<Rightarrow> bool option"
  te_readdir :: "native_path \<Rightarrow> dir_entry list option"
  te_git :: "native_path \<Rightarrow> string list \<Rightarrow> git_event list option"
  te_processCwd :: native_path

abbreviation te_windows :: "trusted_env \<Rightarrow> bool" where
  "te_windows env \<equiv> pe_windows (te_paths env)"

definition MAX_GIT_PREFLIGHT_BYTES :: nat where
  "MAX_GIT_PREFLIGHT_BYTES = 1000000"

definition TRUSTED_FALLBACK_REASON :: string where
  "TRUSTED_FALLBACK_REASON = ''trusted-workspace could not prove that every command effect is local and authorized''"

definition SCRIPT_EXTENSIONS :: "string list" where
  "SCRIPT_EXTENSIONS = [''ps1'', ''cmd'', ''bat'', ''sh'', ''py'', ''rb'', ''pl'']"

definition TRUSTED_CRITICAL_CANDIDATE_PATTERN :: regex where
  "TRUSTED_CRITICAL_CANDIDATE_PATTERN = alts [
     words [''schtasks'', ''scheduledtask'', ''runas'', ''sudo'', ''start-process'', ''cmdkey'', ''vaultcmd'', ''certutil'',
       ''certreq'', ''import-pfxcertificate'', ''winget'', ''choco'', ''scoop'', ''msiexec'', ''start-service'',
       ''restart-service'', ''stop-service'', ''set-service'', ''powershell'', ''pwsh'', ''cmd'', ''wsl'', ''bash'', ''sh'',
       ''node'', ''python3'', ''python'', ''perl'', ''ruby'', ''docker''],
     seqs [lit ''.'', alts (map lit SCRIPT_EXTENSIONS), alts [wspace, EndAnchor]]]"

subsection \<open>Names of executables\<close>

text \<open>\<open>path.basename\<close> of Node on either platform.\<close>

definition path_basename :: "bool \<Rightarrow> string \<Rightarrow> string" where
  "path_basename windows s =
     (let body = (if windows \<and> drive_prefix s then drop 2 s else s);
          separator = (\<lambda>c. c = slash \<or> (windows \<and> c = back_slash)) in
      rev (takeWhile (\<lambda>c. \<not> separator c) (dropWhile separator (rev body))))"

definition normalizeExecutable :: "bool \<Rightarrow> string \<Rightarrow> string" where
  "normalizeExecutable windows v =
     (let base = js_lower (path_basename windows v) in
      if js_endsWith base ''.exe'' \<or> js_endsWith base ''.cmd'' then take (length base - 4) base else base)"

text \<open>The executable and arguments of a command that needs no shell.\<close>

definition trusted_argv :: "ShellName \<Rightarrow> string \<Rightarrow> (string \<times> string list) option" where
  "trusted_argv shell command =
     (case analyzeSimpleShellCommand shell command of
        None \<Rightarrow> None
      | Some analysis \<Rightarrow>
          if \<not> ca_valid analysis \<or> ca_usesShellFeatures analysis then None
          else (case ca_execution analysis of Some (Argv executable argv) \<Rightarrow> Some (executable, argv) | _ \<Rightarrow> None))"

subsection \<open>Docker\<close>

text \<open>
  The next argument that is neither an option nor the value of one, with the arguments after it.
\<close>

fun nextDockerPositional :: "string list \<Rightarrow> string list \<Rightarrow> (string \<times> string list) option" where
  "nextDockerPositional valueOptions [] = None"
| "nextDockerPositional valueOptions (v # vs) =
     (if v \<in> set valueOptions then (case vs of [] \<Rightarrow> None | _ # rest \<Rightarrow> nextDockerPositional valueOptions rest)
      else if js_startsWith v ''-'' then nextDockerPositional valueOptions vs
      else Some (v, vs))"

definition docker_globalValueOptions :: "string list" where
  "docker_globalValueOptions = [''--config'', ''--context'', ''-c'', ''--host'', ''-h'', ''--log-level'', ''-l'',
     ''--tlscacert'', ''--tlscert'', ''--tlskey'']"

definition docker_directMutations :: "string list" where
  "docker_directMutations = [''build'', ''commit'', ''cp'', ''create'', ''exec'', ''export'', ''import'', ''kill'', ''load'',
     ''login'', ''logout'', ''pause'', ''pull'', ''push'', ''rename'', ''restart'', ''rm'', ''rmi'', ''run'', ''save'',
     ''start'', ''stop'', ''tag'', ''unpause'', ''update'']"

definition docker_namespaceMutations :: "(string \<times> string list) list" where
  "docker_namespaceMutations = [
     (''system'', [''prune'']),
     (''volume'', [''create'', ''prune'', ''rm'']),
     (''network'', [''connect'', ''create'', ''disconnect'', ''prune'', ''rm'']),
     (''image'', [''build'', ''import'', ''load'', ''prune'', ''pull'', ''push'', ''rm'', ''tag'']),
     (''container'', [''attach'', ''commit'', ''cp'', ''create'', ''exec'', ''export'', ''kill'', ''pause'', ''prune'',
       ''rename'', ''restart'', ''rm'', ''run'', ''start'', ''stop'', ''unpause'', ''update'']),
     (''compose'', [''build'', ''create'', ''down'', ''exec'', ''kill'', ''pause'', ''pull'', ''push'', ''restart'', ''rm'',
       ''run'', ''start'', ''stop'', ''unpause'', ''up'']),
     (''context'', [''create'', ''import'', ''rm'', ''update'', ''use''])]"

definition docker_composeValueOptions :: "string list" where
  "docker_composeValueOptions = [''-f'', ''--file'', ''-p'', ''--project-name'', ''--profile'', ''--env-file'',
     ''--project-directory'', ''--parallel'']"

text \<open>
  The table of namespaces is an object literal: the two lower-case names that every object
  inherits, \<open>constructor\<close> and \<open>__proto__\<close>, are found in it, and what is found has no \<open>has\<close>.
\<close>

definition inherited_members :: "string list" where
  "inherited_members = [''constructor'', ''__proto__'']"

definition isDockerMutation :: "string list \<Rightarrow> bool result" where
  "isDockerMutation argv =
     (let vs = map js_lower argv in
      case nextDockerPositional docker_globalValueOptions vs of
        None \<Rightarrow> Inr False
      | Some (primary, rest) \<Rightarrow>
          if primary \<in> set docker_directMutations then Inr True
          else if primary \<in> set inherited_members then
            (case nextDockerPositional [] rest of
               None \<Rightarrow> Inr False
             | Some _ \<Rightarrow> Inl (TypeError ''mutations.has is not a function''))
          else
            (case map_of docker_namespaceMutations primary of
               None \<Rightarrow> Inr False
             | Some mutations \<Rightarrow>
                 (case nextDockerPositional (if primary = ''compose'' then docker_composeValueOptions else []) rest of
                    None \<Rightarrow> Inr False
                  | Some (secondary, _) \<Rightarrow> Inr (secondary \<in> set mutations))))"

subsection \<open>Critical commands\<close>

definition SCHEDULED_TASK_REASON :: string where
  "SCHEDULED_TASK_REASON = ''Scheduled Task mutation requires explicit confirmation''"

definition ELEVATION_REASON :: string where
  "ELEVATION_REASON = ''elevation or UAC operation requires explicit confirmation''"

definition CREDENTIAL_REASON :: string where
  "CREDENTIAL_REASON = ''credential or certificate operation requires explicit confirmation''"

definition INSTALL_REASON :: string where
  "INSTALL_REASON = ''machine-wide install or uninstall operation requires explicit confirmation''"

definition WINDOWS_SERVICE_REASON :: string where
  "WINDOWS_SERVICE_REASON = ''Windows service mutation requires explicit confirmation''"

definition DOCKER_MUTATION_REASON :: string where
  "DOCKER_MUTATION_REASON = ''Docker mutation is outside trusted-workspace authorization''"

definition NESTED_SHELL_REASON :: string where
  "NESTED_SHELL_REASON = ''nested shell execution cannot inherit trusted-workspace authorization''"

definition SCRIPT_REASON :: string where
  "SCRIPT_REASON = ''script execution cannot inherit trusted-workspace authorization''"

definition INTERPRETER_REASON :: string where
  "INTERPRETER_REASON = ''inline interpreter execution cannot inherit trusted-workspace authorization''"

text \<open>The command text with continuations and white space collapsed.\<close>

definition critical_text :: "string \<Rightarrow> string" where
  "critical_text command = js_trim (collapse_spaces False (join_continuations command))"

definition command_boundary :: regex where
  "command_boundary =
     seqs [alts [StartAnchor, seqs [Cls (\<lambda>c. c \<in> set '';&|''), re_star wspace]],
       re_opt (seqs [chr (CHR ''&''), re_star wspace])]"

definition same_command :: "nat \<Rightarrow> regex" where
  "same_command n = Rep 0 (Some n) True (Cls (\<lambda>c. c \<notin> set '';&|''))"

definition docker_namespace_verbs :: "(string \<times> string list) list \<Rightarrow> regex" where
  "docker_namespace_verbs table =
     alts (map (\<lambda>(name, verbs). seqs [lit name, re_plus wspace, alts (map lit verbs)]) table)"

definition CRITICAL_TEXT_PATTERNS :: "(string \<times> regex) list" where
  "CRITICAL_TEXT_PATTERNS = [
     (SCHEDULED_TASK_REASON, seqs [command_boundary, alts [
        seqs [lit ''schtasks'', exe_suffix, WordBoundary, same_command 240, lit ''/'',
          alts (map lit [''create'', ''delete'', ''change'', ''run'', ''end'']), WordBoundary],
        seqs [alts (map lit [''register'', ''unregister'', ''set'', ''start'', ''stop'', ''enable'', ''disable'']),
          lit ''-scheduledtask'', WordBoundary]]]),
     (ELEVATION_REASON, seqs [command_boundary, alts [
        seqs [lit ''runas'', exe_suffix], lit ''sudo'',
        seqs [lit ''start-process'', WordBoundary, same_command 240, wspace, lit ''-verb'', re_plus wspace, lit ''runas'',
          WordBoundary]]]),
     (CREDENTIAL_REASON, seqs [command_boundary,
        alts (map lit [''cmdkey'', ''vaultcmd'', ''certutil'', ''certreq'', ''import-pfxcertificate'']), WordBoundary]),
     (INSTALL_REASON, seqs [command_boundary, alts [
        seqs [alts [lit ''winget'', lit ''choco''], WordBoundary, same_command 240, WordBoundary,
          alts (map lit [''install'', ''uninstall'', ''upgrade'']), WordBoundary],
        seqs [lit ''scoop'', WordBoundary, same_command 240, WordBoundary,
          alts (map lit [''install'', ''uninstall'', ''update'']), WordBoundary],
        seqs [lit ''msiexec'', WordBoundary, same_command 240, lit ''/'',
          alts (map lit [''i'', ''x'', ''package'', ''uninstall'']), WordBoundary]]]),
     (DOCKER_MUTATION_REASON, alts [
        seqs [command_boundary, lit ''docker'', exe_suffix, WordBoundary, same_command 320, WordBoundary,
          alts (map lit docker_directMutations), WordBoundary],
        seqs [command_boundary, lit ''docker'', exe_suffix, WordBoundary, same_command 320, WordBoundary,
          docker_namespace_verbs docker_namespaceMutations, WordBoundary]]),
     (WINDOWS_SERVICE_REASON, seqs [command_boundary,
        alts (map lit [''start-service'', ''restart-service'', ''stop-service'', ''set-service'']), WordBoundary]),
     (NESTED_SHELL_REASON, seqs [command_boundary, alts (map lit [''powershell'', ''pwsh'', ''cmd'', ''wsl'', ''bash'', ''sh'']),
        exe_suffix, WordBoundary, same_command 240, alts (map lit [''-command'', ''-c'', ''/c'', ''--exec'']), WordBoundary]),
     (SCRIPT_REASON, seqs [command_boundary, re_plus (Cls (\<lambda>c. \<not> js_space c \<and> c \<notin> set '';&|'')), lit ''.'',
        alts (map lit SCRIPT_EXTENSIONS), WordBoundary]),
     (INTERPRETER_REASON, seqs [command_boundary, alts (map lit [''node'', ''python3'', ''python'', ''perl'', ''ruby'']), exe_suffix,
        WordBoundary, same_command 240, alts (map lit [''-e'', ''--eval'', ''-c'']), WordBoundary])]"

definition criticalReasonFromCommandText :: "string \<Rightarrow> string option" where
  "criticalReasonFromCommandText command =
     map_option fst (find (\<lambda>(reason, pattern). re_test pattern (critical_text command)) CRITICAL_TEXT_PATTERNS)"

definition is_script :: "string \<Rightarrow> bool" where
  "is_script executable \<longleftrightarrow> list_ex (\<lambda>ext. js_endsWith (js_lower executable) (''.'' @ ext)) SCRIPT_EXTENSIONS"

fun verb_runas :: "string list \<Rightarrow> bool" where
  "verb_runas (a # b # rest) = ((a = ''-verb'' \<and> b = ''runas'') \<or> verb_runas (b # rest))"
| "verb_runas _ = False"

definition installs :: "string \<Rightarrow> string list \<Rightarrow> bool" where
  "installs executable argv \<longleftrightarrow>
     (let first = (case argv of [] \<Rightarrow> [] | v # _ \<Rightarrow> v) in
      (executable = ''winget'' \<and> first \<in> set [''install'', ''uninstall'', ''upgrade'']) \<or>
      (executable = ''choco'' \<and> first \<in> set [''install'', ''uninstall'', ''upgrade'']) \<or>
      (executable = ''scoop'' \<and> first \<in> set [''install'', ''uninstall'', ''update'']) \<or>
      (executable = ''msiexec'' \<and> list_ex (\<lambda>v. v \<in> set [''/i'', ''/x'', ''/package'', ''/uninstall'']) argv))"

definition critical_argv :: "bool \<Rightarrow> string \<Rightarrow> string list \<Rightarrow> string option result" where
  "critical_argv windows rawExecutable rawArgv =
     (let executable = normalizeExecutable windows rawExecutable; argv = map js_lower rawArgv in
      if is_script rawExecutable then Inr (Some SCRIPT_REASON)
      else if executable = ''schtasks'' \<and>
          list_ex (\<lambda>v. v \<in> set [''/create'', ''/delete'', ''/change'', ''/run'', ''/end'']) argv then Inr (Some SCHEDULED_TASK_REASON)
      else if executable \<in> set [''register-scheduledtask'', ''unregister-scheduledtask'', ''set-scheduledtask'',
          ''start-scheduledtask'', ''stop-scheduledtask'', ''enable-scheduledtask'', ''disable-scheduledtask''] then
        Inr (Some SCHEDULED_TASK_REASON)
      else if executable = ''runas'' \<or> executable = ''sudo'' \<or> (executable = ''start-process'' \<and> verb_runas argv) then
        Inr (Some ELEVATION_REASON)
      else if executable \<in> set [''cmdkey'', ''vaultcmd'', ''certutil'', ''certreq'', ''import-pfxcertificate''] then
        Inr (Some CREDENTIAL_REASON)
      else if installs executable argv then Inr (Some INSTALL_REASON)
      else if executable \<in> set [''start-service'', ''restart-service'', ''stop-service'', ''set-service''] then
        Inr (Some WINDOWS_SERVICE_REASON)
      else
        bind_result (if executable = ''docker'' then isDockerMutation argv else Inr False) (\<lambda>docker.
        if docker then Inr (Some DOCKER_MUTATION_REASON)
        else if executable \<in> set [''powershell'', ''pwsh'', ''cmd'', ''wsl'', ''bash'', ''sh''] \<and>
            list_ex (\<lambda>v. v \<in> set [''-command'', ''-c'', ''/c'', ''--exec'']) argv then Inr (Some NESTED_SHELL_REASON)
        else if executable \<in> set [''node'', ''python'', ''python3'', ''perl'', ''ruby''] \<and>
            list_ex (\<lambda>v. v \<in> set [''-e'', ''--eval'', ''-c'']) argv then Inr (Some INTERPRETER_REASON)
        else Inr None))"

definition trustedWorkspaceCriticalReason :: "bool \<Rightarrow> ShellName \<Rightarrow> string \<Rightarrow> string option result" where
  "trustedWorkspaceCriticalReason windows shell command =
     (if \<not> re_test TRUSTED_CRITICAL_CANDIDATE_PATTERN command then Inr None
      else (case trusted_argv shell command of
              None \<Rightarrow> Inr (criticalReasonFromCommandText command)
            | Some (rawExecutable, argv) \<Rightarrow> critical_argv windows rawExecutable argv))"

subsection \<open>Decisions\<close>

definition trustedExecute :: authorization_decision where
  "trustedExecute = Execute ''trusted-workspace''"

definition confirmation :: "TrustedWorkspaceAuthorizationInput \<Rightarrow> authorization_decision" where
  "confirmation input =
     Confirmation_required (if ti_fallbackReasons input \<noteq> [] then ti_fallbackReasons input else [TRUSTED_FALLBACK_REASON])"

definition decisionFromAuthorizationError :: "TrustedWorkspaceAuthorizationInput \<Rightarrow> exn \<Rightarrow> authorization_decision" where
  "decisionFromAuthorizationError input error =
     (case error of
        AppError code message \<Rightarrow>
          if code \<in> set [BLOCKED_PATH, PATH_OUTSIDE_WORKSPACE, PATH_OUTSIDE_ALLOWED_ROOTS, WRITE_NOT_ALLOWED, INVALID_PATH]
          then Blocked code message else confirmation input
      | _ \<Rightarrow> confirmation input)"

subsection \<open>Operands\<close>

definition portable :: "string \<Rightarrow> string" where
  "portable s = map (\<lambda>c. if c = back_slash then slash else c) s"

definition isLiteralRelativeOperand :: "bool \<Rightarrow> string \<Rightarrow> bool" where
  "isLiteralRelativeOperand windows v \<longleftrightarrow>
     \<not> (length v = 0 \<or> js_startsWith v ''~'' \<or> js_startsWith v '':'') \<and>
     \<not> ((if windows then win32_isAbsolute v else posix_isAbsolute v) \<or> win32_isAbsolute v \<or> posix_isAbsolute v \<or>
        js_startsWith v [back_slash, back_slash] \<or> drive_prefix v) \<and>
     ''..'' \<notin> set (js_split slash (portable v)) \<and>
     \<not> list_ex (\<lambda>c. c \<in> set ''?*[]'') (portable v)"

definition resolveLiteralLogical :: "bool \<Rightarrow> string \<Rightarrow> string \<Rightarrow> bool \<Rightarrow> string option" where
  "resolveLiteralLogical windows logicalCwd operand allowDot =
     (if \<not> isLiteralRelativeOperand windows operand \<and> \<not> (allowDot \<and> operand = ''.'') then None
      else
        (let combined = (if logicalCwd = ''.'' then portable operand else logicalCwd @ ''/'' @ portable operand) in
         case normalizeRelativePath windows allowDot combined of Inl e \<Rightarrow> None | Inr p \<Rightarrow> Some p))"

definition isSymbolicLink :: "trusted_env \<Rightarrow> ResolvedWorkspace \<Rightarrow> string \<Rightarrow> bool result" where
  "isSymbolicLink env workspace input =
     bind_result (normalizeRelativePath (te_windows env) True input) (\<lambda>logicalPath.
     case te_lstat_link env (toNativeAbsolute (ws_rootPath workspace) logicalPath) of
       None \<Rightarrow> Inl (PlainError ''lstat'')
     | Some link \<Rightarrow> Inr link)"

definition authorizeExistingMutablePath ::
  "trusted_env \<Rightarrow> TrustedWorkspaceAuthorizationInput \<Rightarrow> string \<Rightarrow> MutablePath option result" where
  "authorizeExistingMutablePath env input operand =
     (let workspace = ti_workspace input in
      case resolveLiteralLogical (te_windows env) (ti_logicalCwd input) operand False of
        None \<Rightarrow> Inr None
      | Some logicalPath \<Rightarrow>
          bind_result (authorizeWriteLogical (te_paths env) workspace logicalPath) (\<lambda>_.
          if isSubtreeBlocked (te_paths env) workspace logicalPath then
            Inl (blocked_path ''Target subtree is blocked by workspace policy.'')
          else
            bind_result (isSymbolicLink env workspace logicalPath) (\<lambda>link.
            if link then Inr None
            else
              bind_result (authorizeExisting (te_paths env) workspace logicalPath None False) (\<lambda>authorized.
              Inr (Some \<lparr>mp_logicalPath = logicalPath, mp_kind = Some (ap_kind authorized),
                         mp_canonicalPath = Some (ap_canonicalPath authorized)\<rparr>)))))"

text \<open>\<open>path.posix.dirname\<close> of a normalised path.\<close>

definition posix_dirname :: "string \<Rightarrow> string" where
  "posix_dirname p =
     (let segments = js_split slash p in if length segments \<le> 1 then ''.'' else join_with ''/'' (butlast segments))"

text \<open>The \<open>try\<close> block of \<open>authorizeMutableTarget\<close>; \<open>None\<close> in the result is \<open>undefined\<close>.\<close>

definition mutable_existing ::
  "trusted_env \<Rightarrow> ResolvedWorkspace \<Rightarrow> string \<Rightarrow> MutablePath option result" where
  "mutable_existing env workspace logicalPath =
     bind_result (authorizeExisting (te_paths env) workspace logicalPath None False) (\<lambda>existing.
     bind_result (isSymbolicLink env workspace logicalPath) (\<lambda>link.
     Inr (if link then None
          else Some \<lparr>mp_logicalPath = logicalPath, mp_kind = Some (ap_kind existing),
                     mp_canonicalPath = Some (ap_canonicalPath existing)\<rparr>)))"

definition is_not_found :: "exn \<Rightarrow> bool" where
  "is_not_found error \<longleftrightarrow> (case error of AppError code message \<Rightarrow> code = FILE_NOT_FOUND | _ \<Rightarrow> False)"

definition authorizeMutableTarget ::
  "trusted_env \<Rightarrow> TrustedWorkspaceAuthorizationInput \<Rightarrow> string \<Rightarrow> MutablePath option result" where
  "authorizeMutableTarget env input operand =
     (let workspace = ti_workspace input in
      case resolveLiteralLogical (te_windows env) (ti_logicalCwd input) operand False of
        None \<Rightarrow> Inr None
      | Some logicalPath \<Rightarrow>
          bind_result (authorizeWriteLogical (te_paths env) workspace logicalPath) (\<lambda>_.
          if isSubtreeBlocked (te_paths env) workspace logicalPath then
            Inl (blocked_path ''Target subtree is blocked by workspace policy.'')
          else
            (case mutable_existing env workspace logicalPath of
               Inr answer \<Rightarrow> Inr answer
             | Inl error \<Rightarrow>
                 if \<not> is_not_found error then Inl error
                 else
                   bind_result (authorizeExisting (te_paths env) workspace (posix_dirname logicalPath) (Some DirectoryKind) True) (\<lambda>_.
                   Inr (Some \<lparr>mp_logicalPath = logicalPath, mp_kind = None, mp_canonicalPath = None\<rparr>)))))"

subsection \<open>Trees\<close>

text \<open>
  The loop over the entries of one directory: the new count and stack, or \<open>None\<close> when the whole
  walk returns \<open>false\<close>. An element of the stack is a directory's logical and canonical path; the
  top of the stack is the head of the list.
\<close>

fun tree_entries ::
  "trusted_env \<Rightarrow> ResolvedWorkspace \<Rightarrow> string \<Rightarrow> dir_entry list \<Rightarrow> nat \<Rightarrow> (string \<times> native_path) list \<Rightarrow>
   (nat \<times> (string \<times> native_path) list) option result" where
  "tree_entries env workspace current [] seen stack = Inr (Some (seen, stack))"
| "tree_entries env workspace current ((name, link) # entries) seen stack =
     (if Suc seen > ws_maxListedFiles workspace then Inr None
      else
        (let logicalPath = current @ ''/'' @ name in
         bind_result (authorizeWriteLogical (te_paths env) workspace logicalPath) (\<lambda>_.
         if isSubtreeBlocked (te_paths env) workspace logicalPath then
           Inl (blocked_path ''Directory subtree is blocked by workspace policy.'')
         else if link then Inr None
         else
           bind_result (authorizeExisting (te_paths env) workspace logicalPath None False) (\<lambda>authorized.
           tree_entries env workspace current entries (Suc seen)
             (if ap_kind authorized = DirectoryKind then (logicalPath, ap_canonicalPath authorized) # stack else stack)))))"

lemma tree_entries_bounds:
  assumes "tree_entries env workspace current entries seen stack = Inr (Some (seen', stack'))"
  shows "seen' = seen + length entries" and "length stack' \<le> length stack + length entries"
    and "entries \<noteq> [] \<Longrightarrow> seen' \<le> ws_maxListedFiles workspace"
proof -
  have "seen' = seen + length entries \<and> length stack' \<le> length stack + length entries \<and>
    (entries \<noteq> [] \<longrightarrow> seen' \<le> ws_maxListedFiles workspace)"
    using assms
  proof (induction entries arbitrary: seen stack)
    case (Cons e entries)
    obtain name link where e: "e = (name, link)" by fastforce
    from Cons.prems e obtain stack1 where
      rest: "tree_entries env workspace current entries (Suc seen) stack1 = Inr (Some (seen', stack'))"
      and stack1: "length stack1 \<le> Suc (length stack)" and le: "Suc seen \<le> ws_maxListedFiles workspace"
      by (auto simp: Let_def bind_result_Inr_iff split: if_splits)
    from Cons.IH [OF rest] stack1 le rest show ?case by (cases entries) auto
  qed simp
  then show "seen' = seen + length entries" "length stack' \<le> length stack + length entries"
    "entries \<noteq> [] \<Longrightarrow> seen' \<le> ws_maxListedFiles workspace" by auto
qed

text \<open>The walk ends: every directory on the stack has used up one of the entries it may list.\<close>

function tree_loop ::
  "trusted_env \<Rightarrow> ResolvedWorkspace \<Rightarrow> nat \<Rightarrow> (string \<times> native_path) list \<Rightarrow> bool result" where
  "tree_loop env workspace seen [] = Inr True"
| "tree_loop env workspace seen ((logicalPath, canonicalPath) # stack) =
     (case te_readdir env canonicalPath of
        None \<Rightarrow> Inl (PlainError ''readdir'')
      | Some entries \<Rightarrow>
          (case tree_entries env workspace logicalPath entries seen stack of
             Inl e \<Rightarrow> Inl e
           | Inr None \<Rightarrow> Inr False
           | Inr (Some (seen', stack')) \<Rightarrow> tree_loop env workspace seen' stack'))"
  by pat_completeness auto

termination
proof (relation "measure (\<lambda>(env, workspace, seen, stack). length stack + (ws_maxListedFiles workspace - seen))")
  fix env :: trusted_env and workspace :: ResolvedWorkspace and seen :: nat
    and logicalPath :: string and canonicalPath :: native_path and stack :: "(string \<times> native_path) list"
    and entries :: "dir_entry list" and b :: "(nat \<times> (string \<times> native_path) list) option"
    and a :: "nat \<times> (string \<times> native_path) list" and seen' stack'
  assume "tree_entries env workspace logicalPath entries seen stack = Inr b" "b = Some a" "(seen', stack') = a"
  then have ok: "tree_entries env workspace logicalPath entries seen stack = Inr (Some (seen', stack'))" by simp
  show "((env, workspace, seen', stack'), env, workspace, seen, (logicalPath, canonicalPath) # stack)
      \<in> measure (\<lambda>(env, workspace, seen, stack). length stack + (ws_maxListedFiles workspace - seen))"
    using tree_entries_bounds [OF ok] by (cases entries) auto
qed simp

definition authorizeMutableTree :: "trusted_env \<Rightarrow> ResolvedWorkspace \<Rightarrow> MutablePath \<Rightarrow> bool result" where
  "authorizeMutableTree env workspace root =
     (if mp_kind root \<noteq> Some DirectoryKind then Inr False
      else (case mp_canonicalPath root of
              None \<Rightarrow> Inr False
            | Some canonicalPath \<Rightarrow> tree_loop env workspace 0 [(mp_logicalPath root, canonicalPath)]))"

text \<open>\<open>(await readdir(path)).length > 0\<close>\<close>

definition directory_occupied :: "trusted_env \<Rightarrow> MutablePath \<Rightarrow> bool result" where
  "directory_occupied env target =
     (case mp_canonicalPath target of
        None \<Rightarrow> Inl (TypeError ''readdir'')
      | Some canonicalPath \<Rightarrow>
          (case te_readdir env canonicalPath of None \<Rightarrow> Inl (PlainError ''readdir'') | Some entries \<Rightarrow> Inr (entries \<noteq> [])))"

subsection \<open>PowerShell\<close>

type_synonym trusted_decision = "authorization_decision result"

definition truthy_text :: "string option \<Rightarrow> bool" where
  "truthy_text v \<longleftrightarrow> v \<noteq> None \<and> v \<noteq> Some []"

definition path_option :: "string \<Rightarrow> bool" where
  "path_option lower \<longleftrightarrow> lower = ''-literalpath'' \<or> lower = ''-path''"

text \<open>The loops over the arguments; \<open>None\<close> is \<open>return confirmation(input)\<close>.\<close>

fun remove_arguments :: "string list \<Rightarrow> string option \<Rightarrow> bool \<Rightarrow> (string option \<times> bool) option" where
  "remove_arguments [] target recurse = Some (target, recurse)"
| "remove_arguments (token # rest) target recurse =
     (let lower = js_lower token in
      if path_option lower then
        (case rest of
           [] \<Rightarrow> None
         | v # rest' \<Rightarrow> if target \<noteq> None then None else remove_arguments rest' (Some v) recurse)
      else if lower = ''-force'' then remove_arguments rest target recurse
      else if lower = ''-recurse'' then remove_arguments rest target True
      else if js_startsWith token ''-'' then None
      else if target \<noteq> None then None
      else remove_arguments rest (Some token) recurse)"

definition remove_target :: "trusted_env \<Rightarrow> TrustedWorkspaceAuthorizationInput \<Rightarrow> bool \<Rightarrow> MutablePath \<Rightarrow> trusted_decision" where
  "remove_target env input recurse resolved =
     (if mp_kind resolved \<noteq> Some DirectoryKind then Inr trustedExecute
      else if isSubtreeBlocked (te_paths env) (ti_workspace input) (mp_logicalPath resolved) then
        Inl (blocked_path ''Directory subtree is blocked by workspace policy.'')
      else if recurse then
        bind_result (authorizeMutableTree env (ti_workspace input) resolved) (\<lambda>safeTree.
        Inr (if safeTree then trustedExecute else confirmation input))
      else
        bind_result (directory_occupied env resolved) (\<lambda>occupied.
        Inr (if occupied then confirmation input else trustedExecute)))"

definition authorizePowerShellRemove ::
  "trusted_env \<Rightarrow> TrustedWorkspaceAuthorizationInput \<Rightarrow> string list \<Rightarrow> trusted_decision" where
  "authorizePowerShellRemove env input argv =
     (case remove_arguments argv None False of
        Some (Some target, recurse) \<Rightarrow>
          if target = [] then Inr (confirmation input)
          else
            bind_result (authorizeExistingMutablePath env input target) (\<lambda>resolved.
            case resolved of
              None \<Rightarrow> Inr (confirmation input)
            | Some r \<Rightarrow> remove_target env input recurse r)
      | _ \<Rightarrow> Inr (confirmation input))"

fun source_destination_arguments ::
  "string list \<Rightarrow> string list \<Rightarrow> string option \<Rightarrow> string option \<Rightarrow> string list \<Rightarrow>
   (string option \<times> string option \<times> string list) option" where
  "source_destination_arguments allowedSwitches [] source destination positionals = Some (source, destination, positionals)"
| "source_destination_arguments allowedSwitches (token # rest) source destination positionals =
     (let lower = js_lower token in
      if path_option lower then
        (case rest of
           [] \<Rightarrow> None
         | v # rest' \<Rightarrow> if source \<noteq> None then None
             else source_destination_arguments allowedSwitches rest' (Some v) destination positionals)
      else if lower = ''-destination'' then
        (case rest of
           [] \<Rightarrow> None
         | v # rest' \<Rightarrow> if destination \<noteq> None then None
             else source_destination_arguments allowedSwitches rest' source (Some v) positionals)
      else if lower \<in> set allowedSwitches then
        source_destination_arguments allowedSwitches rest source destination positionals
      else if js_startsWith token ''-'' then None
      else source_destination_arguments allowedSwitches rest source destination (positionals @ [token]))"

text \<open>\<open>value ??= positionals.shift()\<close>\<close>

definition or_shift :: "string option \<Rightarrow> string list \<Rightarrow> string option \<times> string list" where
  "or_shift v positionals =
     (case v of
        Some x \<Rightarrow> (Some x, positionals)
      | None \<Rightarrow> (case positionals of [] \<Rightarrow> (None, []) | p # ps \<Rightarrow> (Some p, ps)))"

definition parseSourceDestination :: "string list \<Rightarrow> string list \<Rightarrow> (string \<times> string) option" where
  "parseSourceDestination argv allowedSwitches =
     (case source_destination_arguments allowedSwitches argv None None [] of
        None \<Rightarrow> None
      | Some (source0, destination0, positionals0) \<Rightarrow>
          (case or_shift source0 positionals0 of (source, positionals1) \<Rightarrow>
           case or_shift destination0 positionals1 of (destination, positionals) \<Rightarrow>
             if \<not> truthy_text source \<or> \<not> truthy_text destination \<or> positionals \<noteq> [] then None
             else Some (the source, the destination)))"

definition authorizeMoveLike ::
  "trusted_env \<Rightarrow> TrustedWorkspaceAuthorizationInput \<Rightarrow> string \<Rightarrow> string \<Rightarrow> bool \<Rightarrow> trusted_decision" where
  "authorizeMoveLike env input sourceOperand destinationOperand copy =
     bind_result (authorizeExistingMutablePath env input sourceOperand) (\<lambda>found.
     case found of
       None \<Rightarrow> Inr (confirmation input)
     | Some source \<Rightarrow>
         bind_result
           (if mp_kind source \<noteq> Some DirectoryKind then Inr True
            else if isSubtreeBlocked (te_paths env) (ti_workspace input) (mp_logicalPath source) then
              Inl (blocked_path ''Directory subtree is blocked by workspace policy.'')
            else authorizeMutableTree env (ti_workspace input) source) (\<lambda>safeTree.
         if \<not> safeTree then Inr (confirmation input)
         else
           bind_result (authorizeMutableTarget env input destinationOperand) (\<lambda>target.
           case target of
             None \<Rightarrow> Inr (confirmation input)
           | Some destination \<Rightarrow>
               if mp_kind destination = Some DirectoryKind then Inr (confirmation input)
               else if mp_kind source = Some DirectoryKind \<and> mp_kind destination = Some FileKind then Inr (confirmation input)
               else if \<not> copy \<and> mp_logicalPath source = mp_logicalPath destination then Inr (confirmation input)
               else Inr trustedExecute)))"

definition authorizePowerShellMove ::
  "trusted_env \<Rightarrow> TrustedWorkspaceAuthorizationInput \<Rightarrow> string list \<Rightarrow> trusted_decision" where
  "authorizePowerShellMove env input argv =
     (case parseSourceDestination argv [''-force''] of
        None \<Rightarrow> Inr (confirmation input)
      | Some (source, destination) \<Rightarrow> authorizeMoveLike env input source destination False)"

definition authorizePowerShellCopy ::
  "trusted_env \<Rightarrow> TrustedWorkspaceAuthorizationInput \<Rightarrow> string list \<Rightarrow> trusted_decision" where
  "authorizePowerShellCopy env input argv =
     (case parseSourceDestination argv [''-force''] of
        None \<Rightarrow> Inr (confirmation input)
      | Some (source, destination) \<Rightarrow> authorizeMoveLike env input source destination True)"

fun set_content_arguments ::
  "string list \<Rightarrow> string option \<Rightarrow> string option \<Rightarrow> bool \<Rightarrow> (string option \<times> string option) option" where
  "set_content_arguments [] target positionalTarget sawValue = Some (target, positionalTarget)"
| "set_content_arguments (token # rest) target positionalTarget sawValue =
     (let lower = js_lower token in
      if path_option lower then
        (case rest of
           [] \<Rightarrow> None
         | v # rest' \<Rightarrow> if target \<noteq> None then None else set_content_arguments rest' (Some v) positionalTarget sawValue)
      else if lower = ''-value'' \<or> lower = ''-encoding'' then
        (case rest of
           [] \<Rightarrow> None
         | _ # rest' \<Rightarrow> set_content_arguments rest' target positionalTarget (sawValue \<or> lower = ''-value''))
      else if lower = ''-force'' \<or> lower = ''-nonewline'' then set_content_arguments rest target positionalTarget sawValue
      else if js_startsWith token ''-'' then None
      else if \<not> truthy_text target \<and> \<not> truthy_text positionalTarget then set_content_arguments rest target (Some token) sawValue
      else set_content_arguments rest target positionalTarget True)"

definition authorizePowerShellSetContent ::
  "trusted_env \<Rightarrow> TrustedWorkspaceAuthorizationInput \<Rightarrow> string list \<Rightarrow> trusted_decision" where
  "authorizePowerShellSetContent env input argv =
     (case set_content_arguments argv None None False of
        None \<Rightarrow> Inr (confirmation input)
      | Some (target0, positionalTarget) \<Rightarrow>
          (case (if target0 = None then positionalTarget else target0) of
             None \<Rightarrow> Inr (confirmation input)
           | Some target \<Rightarrow>
               if target = [] then Inr (confirmation input)
               else
                 bind_result (authorizeMutableTarget env input target) (\<lambda>found.
                 case found of
                   None \<Rightarrow> Inr (confirmation input)
                 | Some destination \<Rightarrow>
                     Inr (if mp_kind destination = Some DirectoryKind then confirmation input else trustedExecute))))"

fun new_item_arguments ::
  "string list \<Rightarrow> string option \<Rightarrow> string option \<Rightarrow> (string option \<times> string option) option" where
  "new_item_arguments [] target itemType = Some (target, itemType)"
| "new_item_arguments (token # rest) target itemType =
     (let lower = js_lower token in
      if path_option lower then
        (case rest of
           [] \<Rightarrow> None
         | v # rest' \<Rightarrow> if target \<noteq> None then None else new_item_arguments rest' (Some v) itemType)
      else if lower = ''-itemtype'' then
        (case rest of [] \<Rightarrow> None | v # rest' \<Rightarrow> new_item_arguments rest' target (Some (js_lower v)))
      else if lower = ''-value'' then
        (case rest of [] \<Rightarrow> None | _ # rest' \<Rightarrow> new_item_arguments rest' target itemType)
      else if lower = ''-force'' then new_item_arguments rest target itemType
      else if js_startsWith token ''-'' then None
      else if target \<noteq> None then None
      else new_item_arguments rest (Some token) itemType)"

definition item_kind :: "string option \<Rightarrow> path_kind option" where
  "item_kind itemType =
     (if itemType = Some ''file'' then Some FileKind else if itemType = Some ''directory'' then Some DirectoryKind else None)"

definition authorizePowerShellNewItem ::
  "trusted_env \<Rightarrow> TrustedWorkspaceAuthorizationInput \<Rightarrow> string list \<Rightarrow> trusted_decision" where
  "authorizePowerShellNewItem env input argv =
     (case new_item_arguments argv None None of
        Some (Some target, itemType) \<Rightarrow>
          if target = [] \<or> item_kind itemType = None then Inr (confirmation input)
          else
            bind_result (authorizeMutableTarget env input target) (\<lambda>found.
            case found of
              None \<Rightarrow> Inr (confirmation input)
            | Some destination \<Rightarrow>
                if item_kind itemType = Some DirectoryKind \<and>
                   isSubtreeBlocked (te_paths env) (ti_workspace input) (mp_logicalPath destination) then
                  Inl (blocked_path ''Directory subtree is blocked by workspace policy.'')
                else
                  Inr (if mp_kind destination \<noteq> None \<and> mp_kind destination \<noteq> item_kind itemType
                       then confirmation input else trustedExecute))
      | _ \<Rightarrow> Inr (confirmation input))"

definition isPowerShellCommand :: "string \<Rightarrow> string \<Rightarrow> string list \<Rightarrow> bool" where
  "isPowerShellCommand rawExecutable canonical aliases \<longleftrightarrow> rawExecutable = canonical \<or> rawExecutable \<in> set aliases"

definition authorizePowerShellMutation ::
  "trusted_env \<Rightarrow> TrustedWorkspaceAuthorizationInput \<Rightarrow> string \<Rightarrow> string list \<Rightarrow> trusted_decision" where
  "authorizePowerShellMutation env input rawExecutable argv =
     (let command = js_lower rawExecutable in
      if isPowerShellCommand command ''remove-item'' [''ri'', ''rm''] then authorizePowerShellRemove env input argv
      else if isPowerShellCommand command ''move-item'' [''mi'', ''mv''] then authorizePowerShellMove env input argv
      else if isPowerShellCommand command ''copy-item'' [''cpi'', ''cp''] then authorizePowerShellCopy env input argv
      else if command = ''set-content'' \<or> (ti_shell input = Powershell \<and> command = ''sc'') then
        authorizePowerShellSetContent env input argv
      else if isPowerShellCommand command ''new-item'' [''ni''] then authorizePowerShellNewItem env input argv
      else Inr (confirmation input))"

subsection \<open>cmd and POSIX shells\<close>

definition without :: "string list \<Rightarrow> string list \<Rightarrow> string list" where
  "without switches argv = filter (\<lambda>v. js_lower v \<notin> set switches) argv"

definition delete_file :: "trusted_env \<Rightarrow> TrustedWorkspaceAuthorizationInput \<Rightarrow> string \<Rightarrow> trusted_decision" where
  "delete_file env input operand =
     bind_result (authorizeExistingMutablePath env input operand) (\<lambda>target.
     Inr (case target of
            None \<Rightarrow> confirmation input
          | Some t \<Rightarrow> if mp_kind t = Some FileKind then trustedExecute else confirmation input))"

definition delete_directory ::
  "trusted_env \<Rightarrow> TrustedWorkspaceAuthorizationInput \<Rightarrow> bool \<Rightarrow> string \<Rightarrow> trusted_decision" where
  "delete_directory env input recurse operand =
     bind_result (authorizeExistingMutablePath env input operand) (\<lambda>target.
     case target of
       None \<Rightarrow> Inr (confirmation input)
     | Some t \<Rightarrow>
         if mp_kind t \<noteq> Some DirectoryKind then Inr (confirmation input)
         else if recurse then
           bind_result (authorizeMutableTree env (ti_workspace input) t) (\<lambda>safeTree.
           Inr (if safeTree then trustedExecute else confirmation input))
         else
           bind_result (directory_occupied env t) (\<lambda>occupied.
           Inr (if occupied then confirmation input else trustedExecute)))"

definition authorizeCmdMutation ::
  "trusted_env \<Rightarrow> TrustedWorkspaceAuthorizationInput \<Rightarrow> string \<Rightarrow> string list \<Rightarrow> trusted_decision" where
  "authorizeCmdMutation env input executable argv =
     (if executable = ''del'' \<or> executable = ''erase'' then
        (case without [''/q''] argv of
           [operand] \<Rightarrow> if js_startsWith operand ''/'' then Inr (confirmation input) else delete_file env input operand
         | _ \<Rightarrow> Inr (confirmation input))
      else if executable = ''move'' \<or> executable = ''ren'' \<or> executable = ''rename'' then
        (case without [''/y''] argv of
           [source, destination] \<Rightarrow> authorizeMoveLike env input source destination False
         | _ \<Rightarrow> Inr (confirmation input))
      else if executable = ''copy'' then
        (case without [''/y''] argv of
           [source, destination] \<Rightarrow> authorizeMoveLike env input source destination True
         | _ \<Rightarrow> Inr (confirmation input))
      else if executable = ''rd'' \<or> executable = ''rmdir'' then
        (case without [''/s'', ''/q''] argv of
           [operand] \<Rightarrow> delete_directory env input (list_ex (\<lambda>v. js_lower v = ''/s'') argv) operand
         | _ \<Rightarrow> Inr (confirmation input))
      else Inr (confirmation input))"

text \<open>\<open>/^-[a-z]*r[a-z]*$/i\<close> and \<open>/^-[fRr]+$/\<close>.\<close>

definition recursive_flag :: "string \<Rightarrow> bool" where
  "recursive_flag token \<longleftrightarrow>
     (case token of
        c # letters \<Rightarrow> c = CHR ''-'' \<and> list_all is_letter letters \<and> list_ex (\<lambda>d. d \<in> set ''rR'') letters
      | [] \<Rightarrow> False)"

definition plain_remove_flag :: "string \<Rightarrow> bool" where
  "plain_remove_flag token \<longleftrightarrow>
     (case token of c # d # letters \<Rightarrow> c = CHR ''-'' \<and> list_all (\<lambda>e. e \<in> set ''fRr'') (d # letters) | _ \<Rightarrow> False)"

fun rm_arguments :: "string list \<Rightarrow> bool \<Rightarrow> string list \<Rightarrow> (bool \<times> string list) option" where
  "rm_arguments [] recurse paths = Some (recurse, paths)"
| "rm_arguments (token # rest) recurse paths =
     (if recursive_flag token then
        (if plain_remove_flag token then rm_arguments rest True paths else None)
      else if token = ''-f'' \<or> token = ''--'' then rm_arguments rest recurse paths
      else if js_startsWith token ''-'' then None
      else rm_arguments rest recurse (paths @ [token]))"

definition remove_any ::
  "trusted_env \<Rightarrow> TrustedWorkspaceAuthorizationInput \<Rightarrow> bool \<Rightarrow> string \<Rightarrow> trusted_decision" where
  "remove_any env input recurse operand =
     bind_result (authorizeExistingMutablePath env input operand) (\<lambda>target.
     case target of
       None \<Rightarrow> Inr (confirmation input)
     | Some t \<Rightarrow>
         if mp_kind t \<noteq> Some DirectoryKind then Inr trustedExecute
         else if \<not> recurse then Inr (confirmation input)
         else
           bind_result (authorizeMutableTree env (ti_workspace input) t) (\<lambda>safeTree.
           Inr (if safeTree then trustedExecute else confirmation input)))"

definition authorizePosixMutation ::
  "trusted_env \<Rightarrow> TrustedWorkspaceAuthorizationInput \<Rightarrow> string \<Rightarrow> string list \<Rightarrow> trusted_decision" where
  "authorizePosixMutation env input executable argv =
     (if executable = ''rm'' then
        (case rm_arguments argv False [] of
           Some (recurse, [operand]) \<Rightarrow> remove_any env input recurse operand
         | _ \<Rightarrow> Inr (confirmation input))
      else if executable = ''rmdir'' then
        (case argv of
           [operand] \<Rightarrow> delete_directory env input False operand
         | _ \<Rightarrow> Inr (confirmation input))
      else if executable = ''mv'' \<or> executable = ''cp'' then
        (case filter (\<lambda>v. v \<noteq> ''--'' \<and> v \<noteq> ''-f'') argv of
           [source, destination] \<Rightarrow>
             if js_startsWith source ''-'' \<or> js_startsWith destination ''-'' then Inr (confirmation input)
             else authorizeMoveLike env input source destination (executable = ''cp'')
         | _ \<Rightarrow> Inr (confirmation input))
      else Inr (confirmation input))"

subsection \<open>Git\<close>

definition utf8_bytes :: "string \<Rightarrow> nat" where
  "utf8_bytes s = sum_list (map (\<lambda>c. if (of_char c :: nat) < 128 then 1 else 2) s)"

text \<open>
  \<open>runGit\<close>: the first event that settles the promise decides. The timer is the last event at
  the latest, so the promise always settles.
\<close>

fun settle_git :: "string \<Rightarrow> git_event list \<Rightarrow> string option" where
  "settle_git stdout [] = None"
| "settle_git stdout (Git_data chunk # events) =
     (let collected = stdout @ chunk in
      if utf8_bytes collected > MAX_GIT_PREFLIGHT_BYTES then None else settle_git collected events)"
| "settle_git stdout (Git_error # events) = None"
| "settle_git stdout (Git_close code # events) = (if code = Some 0 then Some stdout else None)"
| "settle_git stdout (Git_timeout # events) = None"

definition runGit :: "trusted_env \<Rightarrow> native_path \<Rightarrow> string list \<Rightarrow> string option" where
  "runGit env cwd args =
     (case te_git env cwd args of None \<Rightarrow> None | Some events \<Rightarrow> settle_git [] (events @ [Git_timeout]))"

text \<open>
  \<open>path.resolve\<close> on the text that Git prints: an absolute path, with a drive on Windows; anything
  else is taken from the directory of the process.
\<close>

definition resolve_text :: "trusted_env \<Rightarrow> string \<Rightarrow> native_path" where
  "resolve_text env s =
     (let segments = js_split slash (if te_windows env then portable s else s) in
      if te_windows env \<and> drive_prefix s then take 2 s # path_resolve [] (js_split slash (portable (drop 2 s)))
      else if posix_isAbsolute s \<or> (te_windows env \<and> js_startsWith s [back_slash]) then
        path_resolve (if te_windows env then take 1 (te_processCwd env) else []) segments
      else path_resolve (te_processCwd env) segments)"

definition resolveGitRepository ::
  "trusted_env \<Rightarrow> TrustedWorkspaceAuthorizationInput \<Rightarrow> string option result" where
  "resolveGitRepository env input =
     (case runGit env (ti_absoluteCwd input) [''rev-parse'', ''--show-toplevel''] of
        None \<Rightarrow> Inr None
      | Some answer \<Rightarrow>
          let canonicalTop = resolve_text env (js_trim answer); root = ws_canonicalRootPath (ti_workspace input) in
          if \<not> isContained (te_windows env) root canonicalTop then
            Inl (AppError PATH_OUTSIDE_WORKSPACE ''Git repository root resolves outside the trusted workspace.'')
          else Inr (Some (portable_relative (te_windows env) root canonicalTop)))"

fun git_outputs :: "trusted_env \<Rightarrow> native_path \<Rightarrow> string list list \<Rightarrow> string list option" where
  "git_outputs env cwd [] = Some []"
| "git_outputs env cwd (args # commands) =
     (case runGit env cwd args of
        None \<Rightarrow> None
      | Some answer \<Rightarrow> map_option ((#) answer) (git_outputs env cwd commands))"

definition collectGitPaths :: "trusted_env \<Rightarrow> native_path \<Rightarrow> string list list \<Rightarrow> string list option" where
  "collectGitPaths env cwd commands =
     map_option (\<lambda>answers. unique_reasons (concat (map (\<lambda>answer.
       map portable (filter (\<lambda>v. v \<noteq> []) (js_split (CHR 0x00) answer))) answers)))
       (git_outputs env cwd commands)"

text \<open>The checks of one affected path; the \<open>try\<close> block covers the last two.\<close>

definition affected_existing :: "trusted_env \<Rightarrow> ResolvedWorkspace \<Rightarrow> string \<Rightarrow> unit result" where
  "affected_existing env workspace logical =
     bind_result (authorizeExisting (te_paths env) workspace logical None False) (\<lambda>_.
     bind_result (isSymbolicLink env workspace logical) (\<lambda>link.
     if link then Inl (invalid_path ''Git target is a symbolic link.'') else Inr ()))"

fun authorizeGitAffectedPaths ::
  "trusted_env \<Rightarrow> ResolvedWorkspace \<Rightarrow> string \<Rightarrow> bool \<Rightarrow> string list \<Rightarrow> unit result" where
  "authorizeGitAffectedPaths env workspace repoLogicalRoot requireExisting [] = Inr ()"
| "authorizeGitAffectedPaths env workspace repoLogicalRoot requireExisting (relative # paths) =
     (case resolveLiteralLogical (te_windows env) repoLogicalRoot relative False of
        None \<Rightarrow> Inl (invalid_path ''Git preflight returned an ambiguous path.'')
      | Some logical \<Rightarrow>
          bind_result (authorizeWriteLogical (te_paths env) workspace logical) (\<lambda>_.
          if isSubtreeBlocked (te_paths env) workspace logical then
            Inl (blocked_path ''Git target subtree is blocked by workspace policy.'')
          else
            (case affected_existing env workspace logical of
               Inl error \<Rightarrow>
                 if \<not> requireExisting \<and> is_not_found error
                 then authorizeGitAffectedPaths env workspace repoLogicalRoot requireExisting paths
                 else Inl error
             | Inr _ \<Rightarrow> authorizeGitAffectedPaths env workspace repoLogicalRoot requireExisting paths)))"

definition validateLiteralGitPathspecs :: "bool \<Rightarrow> string list \<Rightarrow> bool \<Rightarrow> bool" where
  "validateLiteralGitPathspecs windows pathspecs allowDot \<longleftrightarrow>
     pathspecs \<noteq> [] \<and> list_all (\<lambda>v. if v = ''.'' then allowDot else isLiteralRelativeOperand windows v) pathspecs"

text \<open>The arguments before and after the first \<open>--\<close>, if there is one.\<close>

definition at_separator :: "string list \<Rightarrow> (string list \<times> string list) option" where
  "at_separator args =
     (if ''--'' \<in> set args
      then Some (takeWhile (\<lambda>v. v \<noteq> ''--'') args, tl (dropWhile (\<lambda>v. v \<noteq> ''--'') args))
      else None)"

definition parseGitPathspecs :: "bool \<Rightarrow> string list \<Rightarrow> bool \<Rightarrow> string list \<Rightarrow> string list option" where
  "parseGitPathspecs windows args allowDot allowedOptions =
     (case (case at_separator args of
              Some (flags, pathspecs) \<Rightarrow> if list_ex (\<lambda>v. v \<notin> set allowedOptions) flags then None else Some pathspecs
            | None \<Rightarrow> if list_ex (\<lambda>v. js_startsWith v ''-'') args then None else Some args) of
        None \<Rightarrow> None
      | Some pathspecs \<Rightarrow> if validateLiteralGitPathspecs windows pathspecs allowDot then Some pathspecs else None)"

definition gitAffectedSetIsExplicit :: "string list \<Rightarrow> string list \<Rightarrow> bool" where
  "gitAffectedSetIsExplicit pathspecs affected \<longleftrightarrow>
     (if affected = [] then True else list_all (\<lambda>v. v \<in> set (map portable pathspecs)) affected)"

definition diff_command :: "bool \<Rightarrow> string list \<Rightarrow> string list" where
  "diff_command cached pathspecs =
     [''diff''] @ (if cached then [''--cached''] else []) @ [''--name-only'', ''-z'', ''--no-relative'', ''--''] @ pathspecs"

definition untracked_command :: "string list \<Rightarrow> string list" where
  "untracked_command pathspecs = [''ls-files'', ''--others'', ''--exclude-standard'', ''--full-name'', ''-z'', ''--''] @ pathspecs"

text \<open>
  Collecting the affected paths and checking them, then the test that \<open>restore\<close> and \<open>reset\<close>
  make of them.
\<close>

definition authorize_affected ::
  "trusted_env \<Rightarrow> TrustedWorkspaceAuthorizationInput \<Rightarrow> string \<Rightarrow> bool \<Rightarrow> string list list \<Rightarrow>
   (string list \<Rightarrow> bool) \<Rightarrow> trusted_decision" where
  "authorize_affected env input logicalRoot requireExisting commands explicit =
     (case collectGitPaths env (ti_absoluteCwd input) commands of
        None \<Rightarrow> Inr (confirmation input)
      | Some affected \<Rightarrow>
          bind_result (authorizeGitAffectedPaths env (ti_workspace input) logicalRoot requireExisting affected) (\<lambda>_.
          Inr (if explicit affected then trustedExecute else confirmation input)))"

definition git_add :: "trusted_env \<Rightarrow> TrustedWorkspaceAuthorizationInput \<Rightarrow> string \<Rightarrow> string list \<Rightarrow> trusted_decision" where
  "git_add env input logicalRoot args =
     (case parseGitPathspecs (te_windows env) args True [] of
        None \<Rightarrow> Inr (confirmation input)
      | Some pathspecs \<Rightarrow>
          authorize_affected env input logicalRoot False [diff_command False pathspecs, untracked_command pathspecs] (\<lambda>_. True))"

definition git_restore :: "trusted_env \<Rightarrow> TrustedWorkspaceAuthorizationInput \<Rightarrow> string \<Rightarrow> string list \<Rightarrow> trusted_decision" where
  "git_restore env input logicalRoot args =
     (let staged = (''--staged'' \<in> set args) in
      if list_ex (\<lambda>v. v = ''--worktree'' \<or> js_startsWith v ''--source'') args then Inr (confirmation input)
      else
        (case parseGitPathspecs (te_windows env) (filter (\<lambda>v. v \<noteq> ''--staged'') args) staged [] of
           None \<Rightarrow> Inr (confirmation input)
         | Some pathspecs \<Rightarrow>
             if \<not> staged \<and> ''.'' \<in> set pathspecs then Inr (confirmation input)
             else authorize_affected env input logicalRoot False [diff_command staged pathspecs]
                    (\<lambda>affected. staged \<or> gitAffectedSetIsExplicit pathspecs affected)))"

definition git_reset :: "trusted_env \<Rightarrow> TrustedWorkspaceAuthorizationInput \<Rightarrow> string \<Rightarrow> string list \<Rightarrow> trusted_decision" where
  "git_reset env input logicalRoot args =
     (if list_ex (\<lambda>v. v \<in> set [''--hard'', ''--soft'', ''--merge'', ''--keep'']) args then Inr (confirmation input)
      else
        (case at_separator args of
           None \<Rightarrow> Inr (confirmation input)
         | Some (before, pathspecs) \<Rightarrow>
             if list_ex (\<lambda>v. v \<notin> set [''HEAD'', ''--mixed'', ''-q'']) before \<or>
                \<not> validateLiteralGitPathspecs (te_windows env) pathspecs False then Inr (confirmation input)
             else authorize_affected env input logicalRoot False [diff_command True pathspecs]
                    (gitAffectedSetIsExplicit pathspecs)))"

text \<open>\<open>/^-[fdn]+$/\<close>\<close>

definition plain_clean_flag :: "string \<Rightarrow> bool" where
  "plain_clean_flag v \<longleftrightarrow>
     (case v of c # d # letters \<Rightarrow> c = CHR ''-'' \<and> list_all (\<lambda>e. e \<in> set ''fdn'') (d # letters) | _ \<Rightarrow> False)"

text \<open>
  The body of the \<open>try\<close> block for one pathspec of \<open>git clean\<close>: whether the loop goes on.
\<close>

definition clean_existing :: "trusted_env \<Rightarrow> ResolvedWorkspace \<Rightarrow> string \<Rightarrow> bool result" where
  "clean_existing env workspace logical =
     bind_result (authorizeExisting (te_paths env) workspace logical None False) (\<lambda>existing.
     bind_result (isSymbolicLink env workspace logical) (\<lambda>link.
     if link then Inr False
     else if ap_kind existing = DirectoryKind then
       authorizeMutableTree env workspace
         \<lparr>mp_logicalPath = ap_logicalPath existing, mp_kind = Some (ap_kind existing),
          mp_canonicalPath = Some (ap_canonicalPath existing)\<rparr>
     else Inr True))"

fun clean_pathspecs ::
  "trusted_env \<Rightarrow> TrustedWorkspaceAuthorizationInput \<Rightarrow> string list \<Rightarrow> trusted_decision" where
  "clean_pathspecs env input [] = Inr trustedExecute"
| "clean_pathspecs env input (pathspec # pathspecs) =
     (case resolveLiteralLogical (te_windows env) (ti_logicalCwd input) pathspec False of
        None \<Rightarrow> Inr (confirmation input)
      | Some logical \<Rightarrow>
          bind_result (authorizeWriteLogical (te_paths env) (ti_workspace input) logical) (\<lambda>_.
          case clean_existing env (ti_workspace input) logical of
            Inl error \<Rightarrow> if is_not_found error then clean_pathspecs env input pathspecs else Inl error
          | Inr ok \<Rightarrow> if ok then clean_pathspecs env input pathspecs else Inr (confirmation input)))"

definition git_clean :: "trusted_env \<Rightarrow> TrustedWorkspaceAuthorizationInput \<Rightarrow> string \<Rightarrow> string list \<Rightarrow> trusted_decision" where
  "git_clean env input logicalRoot args =
     (case at_separator args of
        None \<Rightarrow> Inr (confirmation input)
      | Some (flags, pathspecs) \<Rightarrow>
          if \<not> list_ex (\<lambda>v. CHR ''f'' \<in> set v) flags \<or> list_ex (\<lambda>v. CHR ''x'' \<in> set v \<or> CHR ''X'' \<in> set v) flags \<or>
             list_ex (\<lambda>v. \<not> plain_clean_flag v) flags \<or> \<not> validateLiteralGitPathspecs (te_windows env) pathspecs False then
            Inr (confirmation input)
          else
            (case collectGitPaths env (ti_absoluteCwd input) [untracked_command pathspecs] of
               None \<Rightarrow> Inr (confirmation input)
             | Some affected \<Rightarrow>
                 bind_result (authorizeGitAffectedPaths env (ti_workspace input) logicalRoot True affected) (\<lambda>_.
                 clean_pathspecs env input pathspecs)))"

definition authorizeGitMutation ::
  "trusted_env \<Rightarrow> TrustedWorkspaceAuthorizationInput \<Rightarrow> string list \<Rightarrow> trusted_decision" where
  "authorizeGitMutation env input argv =
     (case argv of
        [] \<Rightarrow> Inr (confirmation input)
      | first # args \<Rightarrow>
          if js_startsWith first ''-'' then Inr (confirmation input)
          else
            bind_result (resolveGitRepository env input) (\<lambda>repo.
            case repo of
              None \<Rightarrow> Inr (confirmation input)
            | Some logicalRoot \<Rightarrow>
                let subcommand = js_lower first in
                if subcommand = ''add'' then git_add env input logicalRoot args
                else if subcommand = ''restore'' then git_restore env input logicalRoot args
                else if subcommand = ''reset'' then git_reset env input logicalRoot args
                else if subcommand = ''clean'' then git_clean env input logicalRoot args
                else Inr (confirmation input)))"

subsection \<open>The decision\<close>

definition isTrustedWindowsGitInvocation :: "ShellName \<Rightarrow> string \<Rightarrow> bool" where
  "isTrustedWindowsGitInvocation shell rawExecutable \<longleftrightarrow>
     shell \<in> set [Powershell, Pwsh, Cmd] \<and> js_lower rawExecutable \<in> set [''git'', ''git.exe'']"

definition trusted_dispatch ::
  "trusted_env \<Rightarrow> TrustedWorkspaceAuthorizationInput \<Rightarrow> string \<Rightarrow> string list \<Rightarrow> trusted_decision" where
  "trusted_dispatch env input rawExecutable argv =
     (let executable = normalizeExecutable (te_windows env) rawExecutable in
      if executable = ''git'' then
        (if \<not> isTrustedWindowsGitInvocation (ti_shell input) rawExecutable then Inr (confirmation input)
         else authorizeGitMutation env input argv)
      else
        (case ti_shell input of
           Powershell \<Rightarrow> authorizePowerShellMutation env input rawExecutable argv
         | Pwsh \<Rightarrow> authorizePowerShellMutation env input rawExecutable argv
         | Cmd \<Rightarrow> authorizeCmdMutation env input executable argv
         | Wsl \<Rightarrow> authorizePosixMutation env input executable argv
         | Git_bash \<Rightarrow> authorizePosixMutation env input executable argv))"

definition authorizeTrustedWorkspaceCommand ::
  "trusted_env \<Rightarrow> TrustedWorkspaceAuthorizationInput \<Rightarrow> authorization_decision" where
  "authorizeTrustedWorkspaceCommand env input =
     (case trusted_argv (ti_shell input) (ti_command input) of
        None \<Rightarrow> confirmation input
      | Some (rawExecutable, argv) \<Rightarrow>
          (case trusted_dispatch env input rawExecutable argv of
             Inl error \<Rightarrow> decisionFromAuthorizationError input error
           | Inr decision \<Rightarrow> decision))"

subsection \<open>What a checked path satisfies\<close>

text \<open>
  A logical path that the policy lets the agent write: not blocked, in an allowed root and an
  \<open>allowWrites\<close> entry. When it exists it resolves inside the workspace and is no symbolic link;
  otherwise its parent directory resolves inside the workspace.
\<close>

definition writable_path :: "trusted_env \<Rightarrow> ResolvedWorkspace \<Rightarrow> string \<Rightarrow> bool" where
  "writable_path env workspace p \<longleftrightarrow>
     \<not> isBlocked (te_paths env) workspace p \<and> \<not> isSubtreeBlocked (te_paths env) workspace p \<and>
     isWithinLogicalAllowedRoot (te_paths env) workspace p \<and> isAllowedWritePath (te_paths env) workspace p"

definition resolves_inside :: "trusted_env \<Rightarrow> ResolvedWorkspace \<Rightarrow> string \<Rightarrow> bool" where
  "resolves_inside env workspace p \<longleftrightarrow>
     (case pe_realpath (te_paths env) (toNativeAbsolute (ws_rootPath workspace) p) of
        None \<Rightarrow> False
      | Some q \<Rightarrow> inside (te_windows env) (ws_canonicalRootPath workspace) q)"

definition no_link :: "trusted_env \<Rightarrow> ResolvedWorkspace \<Rightarrow> string \<Rightarrow> bool" where
  "no_link env workspace p \<longleftrightarrow> te_lstat_link env (toNativeAbsolute (ws_rootPath workspace) p) = Some False"

definition checked_path :: "trusted_env \<Rightarrow> ResolvedWorkspace \<Rightarrow> string \<Rightarrow> bool" where
  "checked_path env workspace p \<longleftrightarrow> writable_path env workspace p \<and>
     (resolves_inside env workspace p \<and> no_link env workspace p \<or>
      pe_realpath (te_paths env) (toNativeAbsolute (ws_rootPath workspace) p) = None \<and>
      resolves_inside env workspace (posix_dirname p))"

definition checked_operand :: "trusted_env \<Rightarrow> TrustedWorkspaceAuthorizationInput \<Rightarrow> string \<Rightarrow> bool" where
  "checked_operand env input operand \<longleftrightarrow>
     (\<exists>p. resolveLiteralLogical (te_windows env) (ti_logicalCwd input) operand False = Some p \<and>
          checked_path env (ti_workspace input) p)"

text \<open>Normalising a normalised path again returns the same path or fails.\<close>

lemma normalize_again:
  assumes "normalizeRelativePath windows dot input = Inr p" and "p \<noteq> ''.''"
    and "normalizeRelativePath windows dot' p = Inr q"
  shows "q = p"
proof -
  from assms(1) obtain segs where segs: "list_all (safe_segment windows) segs"
    "p = (if segs = [] then ''.'' else join_with ''/'' segs)"
    by (rule normalizeRelativePath_segments)
  with assms(2) have p: "p = join_with ''/'' segs" "segs \<noteq> []" by (auto split: if_splits)
  have "\<not> drive_prefix p" using assms(3) by (auto simp: normalizeRelativePath_def split: if_splits)
  with normalize_idempotent [OF segs(1) p(2)] p(1) assms(3) show ?thesis by simp
qed

lemma normalized_not_dot:
  assumes "normalizeRelativePath windows False input = Inr p"
  shows "p \<noteq> ''.''"
proof -
  from assms obtain segs where segs: "list_all (safe_segment windows) segs"
    "p = (if segs = [] then ''.'' else join_with ''/'' segs)" "segs = [] \<Longrightarrow> False"
    by (rule normalizeRelativePath_segments) blast
  then show ?thesis using join_safe_not_dot [OF segs(1)] by auto
qed

lemma write_again:
  assumes "normalizeRelativePath (te_windows env) False input = Inr p"
    and "authorizeWriteLogical (te_paths env) workspace p = Inr q" and "\<not> isSubtreeBlocked (te_paths env) workspace p"
  shows "writable_path env workspace p"
proof -
  note w = assms(2) [unfolded authorizeWriteLogical_Inr]
  have "q = p" using normalize_again [OF assms(1) normalized_not_dot [OF assms(1)]] w by blast
  with w assms(3) show ?thesis by (simp add: writable_path_def)
qed

lemma resolveLiteralLogical_normalized:
  assumes "resolveLiteralLogical windows cwd operand False = Some p"
  obtains input where "normalizeRelativePath windows False input = Inr p"
  using assms by (auto simp: resolveLiteralLogical_def Let_def split: if_splits sum.splits)

text \<open>Likewise for the parent of a normalised path, which may be the root.\<close>

definition stable :: "bool \<Rightarrow> string \<Rightarrow> bool" where
  "stable windows p \<longleftrightarrow> (\<forall>dot q. normalizeRelativePath windows dot p = Inr q \<longrightarrow> q = p)"

lemma stable_normalized:
  "normalizeRelativePath windows False input = Inr p \<Longrightarrow> stable windows p"
  using normalize_again normalized_not_dot unfolding stable_def by blast

lemma stable_dirname:
  assumes "normalizeRelativePath windows False input = Inr p"
  shows "stable windows (posix_dirname p)"
proof -
  from assms obtain segs where segs: "list_all (safe_segment windows) segs"
    "p = (if segs = [] then ''.'' else join_with ''/'' segs)" "segs = [] \<Longrightarrow> False"
    by (rule normalizeRelativePath_segments) blast
  then have split: "js_split slash p = segs"
    using js_split_join [of segs] by (auto simp: list_all_iff safe_segment_def plain_segment_def)
  show ?thesis
  proof (cases "length segs \<le> 1")
    case True
    have "normalizeRelativePath windows dot ''.'' = Inr q \<Longrightarrow> q = ''.''" for dot q
      by (cases dot) (simp_all add: normalizeRelativePath_def posix_isAbsolute_def win32_isAbsolute_def js_startsWith_def
          drive_prefix_def)
    with True split show ?thesis by (auto simp: posix_dirname_def stable_def)
  next
    case False
    then have parent: "posix_dirname p = join_with ''/'' (butlast segs)"
      using split by (simp add: posix_dirname_def)
    have ne: "butlast segs \<noteq> []" using False by (cases segs rule: rev_cases) auto
    have safe: "list_all (safe_segment windows) (butlast segs)"
      using segs(1) by (auto simp: list_all_iff dest: in_set_butlastD)
    have "\<not> drive_prefix (posix_dirname p)" if "normalizeRelativePath windows dot (posix_dirname p) = Inr q" for dot q
      using that by (auto simp: normalizeRelativePath_def split: if_splits)
    with normalize_idempotent [OF safe ne] parent show ?thesis by (auto simp: stable_def)
  qed
qed

lemma existing_inside:
  assumes "realpath_canonical (te_paths env)" and stable: "stable (te_windows env) p"
    and ok: "authorizeExisting (te_paths env) workspace p kind dot = Inr a"
  shows "resolves_inside env workspace p"
proof -
  note facts = authorizeExisting_inside [OF assms(1) ok]
  have "normalizeRelativePath (te_windows env) dot p = Inr (ap_logicalPath a)"
    using facts(5) by (auto simp: authorizeLogical_def bind_result_Inr_iff split: if_splits)
  then have logical: "ap_logicalPath a = p" using stable unfolding stable_def by blast
  have "ap_absolutePath a = toNativeAbsolute (ws_rootPath workspace) (ap_logicalPath a)"
    using ok existing_kind_Inr
    by (auto simp: authorizeExisting_def authorizeExistingInternal_def bind_result_Inr_iff existing_resolved_def Let_def
        split: if_splits option.splits)
  with facts(1,2) logical show ?thesis by (simp add: resolves_inside_def)
qed

lemma isSymbolicLink_no_link:
  assumes "normalizeRelativePath (te_windows env) dot input = Inr p" "p \<noteq> ''.''"
    and "isSymbolicLink env workspace p = Inr False"
  shows "no_link env workspace p"
proof -
  from assms(3) obtain q where "normalizeRelativePath (te_windows env) True p = Inr q"
    "te_lstat_link env (toNativeAbsolute (ws_rootPath workspace) q) = Some False"
    by (auto simp: isSymbolicLink_def bind_result_Inr_iff split: option.splits)
  with normalize_again [OF assms(1,2)] show ?thesis by (auto simp: no_link_def)
qed

lemma not_found_iff: "is_not_found e \<longleftrightarrow> (\<exists>m. e = AppError FILE_NOT_FOUND m)"
  by (cases e) (auto simp: is_not_found_def)

lemma bind_result_Inl_iff: "bind_result r f = Inl e \<longleftrightarrow> r = Inl e \<or> (\<exists>x. r = Inr x \<and> f x = Inl e)"
  by (cases r) auto

lemma normalize_segments_error: "normalize_segments windows segs acc = Inl e \<Longrightarrow> \<exists>m. e = AppError INVALID_PATH m"
  by (induction windows segs acc rule: normalize_segments.induct) (auto simp: invalid_path_def split: if_splits)

lemma normalize_error: "normalizeRelativePath windows dot input = Inl e \<Longrightarrow> \<not> is_not_found e"
  by (auto simp: normalizeRelativePath_def Let_def invalid_path_def not_found_iff bind_result_Inl_iff
      dest: normalize_segments_error split: if_splits)

lemma authorizeLogical_error: "authorizeLogical env workspace input dot = Inl e \<Longrightarrow> \<not> is_not_found e"
  by (auto simp: authorizeLogical_def bind_result_Inl_iff blocked_path_def outside_allowed_roots_def not_found_iff
      dest: normalize_error split: if_splits)

lemma existing_kind_error: "existing_kind env kind p a c r = Inl e \<Longrightarrow> \<not> is_not_found e"
  by (auto simp: existing_kind_def Let_def invalid_path_def not_found_iff split: option.splits stat_result.splits if_splits)

text \<open>The error \<open>FILE_NOT_FOUND\<close> means that the path has no \<open>realpath\<close>.\<close>

lemma existing_not_found:
  assumes "normalizeRelativePath (pe_windows env) dot input = Inr p" "p \<noteq> ''.''"
    and "authorizeExisting env workspace p kind dot' = Inl e" "is_not_found e"
  shows "pe_realpath env (toNativeAbsolute (ws_rootPath workspace) p) = None"
proof -
  have "authorizeLogical env workspace p dot' \<noteq> Inl e" using authorizeLogical_error assms(4) by blast
  then obtain q where "authorizeLogical env workspace p dot' = Inr q"
    and resolved: "existing_resolved env workspace kind True q = Inl e"
    using assms(3,4)
    by (auto simp: authorizeExisting_def authorizeExistingInternal_def bind_result_Inl_iff outside_allowed_roots_def
        not_found_iff split: if_splits)
  then have "normalizeRelativePath (pe_windows env) dot' p = Inr q"
    by (auto simp: authorizeLogical_def bind_result_Inr_iff split: if_splits)
  then have q: "q = p" using normalize_again [OF assms(1,2)] by blast
  show ?thesis
  proof (cases "pe_realpath env (toNativeAbsolute (ws_rootPath workspace) p)")
    case (Some c)
    then have "\<not> is_not_found e"
      using resolved q existing_kind_error
      by (auto simp: existing_resolved_def Let_def outside_allowed_roots_def blocked_path_def not_found_iff split: if_splits)
    with assms(4) show ?thesis by simp
  qed simp
qed

subsection \<open>Existing and new targets\<close>

lemma existing_mutable_checked:
  assumes real: "realpath_canonical (te_paths env)"
    and ok: "authorizeExistingMutablePath env input operand = Inr (Some t)"
  shows "checked_operand env input operand"
    and "resolveLiteralLogical (te_windows env) (ti_logicalCwd input) operand False = Some (mp_logicalPath t)"
    and "\<exists>a. authorizeExisting (te_paths env) (ti_workspace input) (mp_logicalPath t) None False = Inr a \<and>
      mp_kind t = Some (ap_kind a) \<and> mp_canonicalPath t = Some (ap_canonicalPath a)"
proof -
  from ok obtain p q a where p: "resolveLiteralLogical (te_windows env) (ti_logicalCwd input) operand False = Some p"
    and w: "authorizeWriteLogical (te_paths env) (ti_workspace input) p = Inr q" "\<not> isSubtreeBlocked (te_paths env) (ti_workspace input) p"
    and link: "isSymbolicLink env (ti_workspace input) p = Inr False"
    and a: "authorizeExisting (te_paths env) (ti_workspace input) p None False = Inr a"
    and t: "t = \<lparr>mp_logicalPath = p, mp_kind = Some (ap_kind a), mp_canonicalPath = Some (ap_canonicalPath a)\<rparr>"
    by (auto simp: authorizeExistingMutablePath_def Let_def bind_result_Inr_iff split: option.splits if_splits)
  from p obtain i where norm: "normalizeRelativePath (te_windows env) False i = Inr p" by (rule resolveLiteralLogical_normalized)
  note dot = normalized_not_dot [OF norm]
  have "checked_path env (ti_workspace input) p"
    using write_again [OF norm w] existing_inside [OF real stable_normalized [OF norm] a] isSymbolicLink_no_link [OF norm dot link]
    by (simp add: checked_path_def)
  with p show "checked_operand env input operand" by (auto simp: checked_operand_def)
  show "resolveLiteralLogical (te_windows env) (ti_logicalCwd input) operand False = Some (mp_logicalPath t)"
    using p t by simp
  show "\<exists>a. authorizeExisting (te_paths env) (ti_workspace input) (mp_logicalPath t) None False = Inr a \<and>
      mp_kind t = Some (ap_kind a) \<and> mp_canonicalPath t = Some (ap_canonicalPath a)"
    using a t by auto
qed

lemma mutable_existing_Inr:
  assumes real: "realpath_canonical (te_paths env)"
    and norm: "normalizeRelativePath (te_windows env) False i = Inr p"
    and ok: "mutable_existing env workspace p = Inr (Some t)"
  shows "resolves_inside env workspace p" and "no_link env workspace p"
proof -
  from ok obtain a where a: "authorizeExisting (te_paths env) workspace p None False = Inr a"
    and link: "isSymbolicLink env workspace p = Inr False"
    by (auto simp: mutable_existing_def bind_result_Inr_iff split: if_splits)
  note dot = normalized_not_dot [OF norm]
  show "resolves_inside env workspace p" "no_link env workspace p"
    using existing_inside [OF real stable_normalized [OF norm] a] isSymbolicLink_no_link [OF norm dot link] by simp_all
qed

lemma mutable_existing_not_found:
  assumes norm: "normalizeRelativePath (te_windows env) False i = Inr p"
    and err: "mutable_existing env workspace p = Inl e" "is_not_found e"
  shows "pe_realpath (te_paths env) (toNativeAbsolute (ws_rootPath workspace) p) = None"
proof -
  have "\<not> is_not_found e" if "isSymbolicLink env workspace p = Inl e"
    using that by (auto simp: isSymbolicLink_def bind_result_Inl_iff not_found_iff dest: normalize_error split: option.splits)
  with err have "authorizeExisting (te_paths env) workspace p None False = Inl e"
    by (auto simp: mutable_existing_def bind_result_Inl_iff split: if_splits)
  with existing_not_found [OF norm normalized_not_dot [OF norm]] err(2) show ?thesis by blast
qed

lemma mutable_target_checked:
  assumes real: "realpath_canonical (te_paths env)"
    and ok: "authorizeMutableTarget env input operand = Inr (Some t)"
  shows "checked_operand env input operand"
    and "resolveLiteralLogical (te_windows env) (ti_logicalCwd input) operand False = Some (mp_logicalPath t)"
proof -
  let ?w = "ti_workspace input"
  from ok obtain p q where p: "resolveLiteralLogical (te_windows env) (ti_logicalCwd input) operand False = Some p"
    and w: "authorizeWriteLogical (te_paths env) ?w p = Inr q" "\<not> isSubtreeBlocked (te_paths env) ?w p"
    by (auto simp: authorizeMutableTarget_def Let_def bind_result_Inr_iff split: option.splits if_splits)
  from p obtain i where norm: "normalizeRelativePath (te_windows env) False i = Inr p" by (rule resolveLiteralLogical_normalized)
  consider "mutable_existing env ?w p = Inr (Some t)"
    | e a where "mutable_existing env ?w p = Inl e" "is_not_found e"
        "authorizeExisting (te_paths env) ?w (posix_dirname p) (Some DirectoryKind) True = Inr a" "mp_logicalPath t = p"
    using ok p w by (auto simp: authorizeMutableTarget_def Let_def bind_result_Inr_iff split: sum.splits if_splits)
  then have "checked_path env ?w p \<and> mp_logicalPath t = p"
  proof cases
    case 1
    then have "mp_logicalPath t = p" by (auto simp: mutable_existing_def bind_result_Inr_iff split: if_splits)
    with mutable_existing_Inr [OF real norm 1] write_again [OF norm w] show ?thesis by (simp add: checked_path_def)
  next
    case 2
    with mutable_existing_not_found [OF norm 2(1,2)] existing_inside [OF real stable_dirname [OF norm] 2(3)]
      write_again [OF norm w] show ?thesis by (simp add: checked_path_def)
  qed
  with p show "checked_operand env input operand"
    and "resolveLiteralLogical (te_windows env) (ti_logicalCwd input) operand False = Some (mp_logicalPath t)"
    by (auto simp: checked_operand_def)
qed

subsection \<open>Arguments\<close>

definition trusted_switch :: "string \<Rightarrow> bool" where
  "trusted_switch token \<longleftrightarrow>
     js_lower token \<in> set [''-literalpath'', ''-path'', ''-destination'', ''-force'', ''-recurse'', ''/q'', ''/y'', ''/s''] \<or>
     token = ''--'' \<or> token = ''-f'' \<or> plain_remove_flag token"

lemma rm_arguments_operands:
  "rm_arguments argv recurse paths = Some (recurse', paths') \<Longrightarrow> set paths' \<subseteq> set paths \<union> set argv"
  by (induction argv recurse paths rule: rm_arguments.induct) (auto split: if_splits)

lemma trusted_switchI:
  "path_option (js_lower t) \<Longrightarrow> trusted_switch t"
  "js_lower t = ''-force'' \<Longrightarrow> trusted_switch t" "js_lower t = ''-recurse'' \<Longrightarrow> trusted_switch t"
  "js_lower t = ''-destination'' \<Longrightarrow> trusted_switch t"
  "js_lower t \<in> set [''-force''] \<Longrightarrow> trusted_switch t"
  by (auto simp: trusted_switch_def path_option_def)

lemma remove_arguments_covers:
  assumes "remove_arguments argv target recurse = Some (target', recurse')"
  shows "(\<forall>t \<in> set argv. trusted_switch t \<or> target' = Some t) \<and> (target \<noteq> None \<longrightarrow> target' = target)"
  using assms
proof (induction argv target recurse rule: remove_arguments.induct)
  case (2 token rest target recurse)
  consider "path_option (js_lower token)" | "\<not> path_option (js_lower token)" "js_lower token = ''-force''"
    | "\<not> path_option (js_lower token)" "js_lower token \<noteq> ''-force''" "js_lower token = ''-recurse''"
    | "\<not> path_option (js_lower token)" "js_lower token \<noteq> ''-force''" "js_lower token \<noteq> ''-recurse''" by blast
  then show ?case
  proof cases
    case 1
    with "2.prems" obtain v rest' where "rest = v # rest'" "target = None" "remove_arguments rest' (Some v) recurse = Some (target', recurse')"
      by (auto simp: Let_def split: list.splits if_splits)
    with "2.IH"(1) 1 show ?thesis by (simp add: trusted_switchI(1))
  next
    case 2
    with "2.prems" "2.IH"(2) show ?thesis by (simp add: trusted_switchI(2) Let_def)
  next
    case 3
    with "2.prems" "2.IH"(3) show ?thesis by (simp add: trusted_switchI(3) Let_def)
  next
    case 4
    with "2.prems" "2.IH"(4) show ?thesis by (auto simp: Let_def split: if_splits)
  qed
qed simp

lemma remove_arguments_target:
  assumes "remove_arguments argv None recurse = Some (Some target, recurse')"
  shows "target \<in> set argv"
proof -
  have "target' \<in> insert t (Some ` set argv)" if "remove_arguments argv t recurse = Some (target', recurse')" for t target'
    using that by (induction argv t recurse rule: remove_arguments.induct) (auto simp: Let_def split: if_splits list.splits)
  from this [OF assms] show ?thesis by auto
qed

text \<open>What the loop leaves of the arguments: nothing but switches is lost and nothing is made up.\<close>

definition arguments_cover ::
  "string list \<Rightarrow> string option \<Rightarrow> string option \<Rightarrow> string list \<Rightarrow> string option \<Rightarrow> string option \<Rightarrow> string list \<Rightarrow> bool" where
  "arguments_cover argv source destination positionals source' destination' positionals' \<longleftrightarrow>
     (\<forall>t \<in> set argv. trusted_switch t \<or> source' = Some t \<or> destination' = Some t \<or> t \<in> set positionals') \<and>
     (source \<noteq> None \<longrightarrow> source' = source) \<and> (destination \<noteq> None \<longrightarrow> destination' = destination) \<and>
     set positionals \<subseteq> set positionals' \<and>
     set_option source' \<union> set_option destination' \<union> set positionals' \<subseteq>
       set argv \<union> set_option source \<union> set_option destination \<union> set positionals"

lemma arguments_cover_steps:
  "arguments_cover [] s d ps s d ps"
  "trusted_switch t \<Longrightarrow> arguments_cover rest s d ps s' d' ps' \<Longrightarrow> arguments_cover (t # rest) s d ps s' d' ps'"
  "trusted_switch t \<Longrightarrow> arguments_cover rest (Some v) d ps s' d' ps' \<Longrightarrow> arguments_cover (t # v # rest) None d ps s' d' ps'"
  "trusted_switch t \<Longrightarrow> arguments_cover rest s (Some v) ps s' d' ps' \<Longrightarrow> arguments_cover (t # v # rest) s None ps s' d' ps'"
  "arguments_cover rest s d (ps @ [t]) s' d' ps' \<Longrightarrow> arguments_cover (t # rest) s d ps s' d' ps'"
  unfolding arguments_cover_def by auto

lemma source_destination_covers:
  assumes "source_destination_arguments [''-force''] argv source destination positionals =
    Some (source', destination', positionals')"
  shows "arguments_cover argv source destination positionals source' destination' positionals'"
  using assms
proof (induction "[''-force'']" argv source destination positionals rule: source_destination_arguments.induct)
  case (1 source destination positionals)
  then show ?case by (simp add: arguments_cover_steps)
next
  case (2 token rest source destination positionals)
  consider "path_option (js_lower token)" | "\<not> path_option (js_lower token)" "js_lower token = ''-destination''"
    | "\<not> path_option (js_lower token)" "js_lower token \<noteq> ''-destination''" "js_lower token \<in> set [''-force'']"
    | "\<not> path_option (js_lower token)" "js_lower token \<noteq> ''-destination''" "js_lower token \<notin> set [''-force'']" by blast
  then show ?case
  proof cases
    case 1
    with "2.prems" obtain v rest' where "rest = v # rest'" "source = None"
      "source_destination_arguments [''-force''] rest' (Some v) destination positionals = Some (source', destination', positionals')"
      by (auto simp: Let_def split: list.splits if_splits)
    with "2.hyps"(1) 1 show ?thesis by (simp add: trusted_switchI(1) arguments_cover_steps)
  next
    case 2
    with "2.prems" obtain v rest' where "rest = v # rest'" "destination = None"
      "source_destination_arguments [''-force''] rest' source (Some v) positionals = Some (source', destination', positionals')"
      by (auto simp: Let_def split: list.splits if_splits)
    with "2.hyps"(2) 2 show ?thesis by (simp add: trusted_switchI(4) arguments_cover_steps)
  next
    case 3
    then have "source_destination_arguments [''-force''] rest source destination positionals = Some (source', destination', positionals')"
      using "2.prems" by (simp add: Let_def)
    with "2.hyps"(3) 3 show ?thesis by (simp add: trusted_switchI(2) arguments_cover_steps)
  next
    case 4
    then have "\<not> js_startsWith token ''-''"
      "source_destination_arguments [''-force''] rest source destination (positionals @ [token]) = Some (source', destination', positionals')"
      using "2.prems" by (simp_all add: Let_def split: if_splits)
    with "2.hyps"(4) 4 show ?thesis by (simp add: arguments_cover_steps)
  qed
qed

lemma or_shift_covers:
  "or_shift v ps = (v', ps') \<Longrightarrow> set_option v \<union> set ps = set_option v' \<union> set ps'"
  by (auto simp: or_shift_def split: option.splits list.splits)

lemma parseSourceDestination_covers:
  assumes "parseSourceDestination argv [''-force''] = Some (source, destination)"
  shows "\<forall>t \<in> set argv. trusted_switch t \<or> t \<in> {source, destination}" and "{source, destination} \<subseteq> set argv"
proof -
  from assms obtain s0 d0 ps0 s1 ps1 d1 where
    args: "source_destination_arguments [''-force''] argv None None [] = Some (s0, d0, ps0)"
    and s1: "or_shift s0 ps0 = (s1, ps1)" and d1: "or_shift d0 ps1 = (d1, [])"
    and "truthy_text s1" "truthy_text d1" "source = the s1" "destination = the d1"
    by (auto simp: parseSourceDestination_def split: option.splits prod.splits if_splits)
  then have "set_option s1 = {source}" "set_option d1 = {destination}" by (auto simp: truthy_text_def)
  with or_shift_covers [OF s1] or_shift_covers [OF d1]
  have all: "set_option s0 \<union> set_option d0 \<union> set ps0 = {source, destination}" by simp blast
  have "set_option s0 \<union> set_option d0 \<union> set ps0 \<subseteq> set argv"
    "\<forall>t \<in> set argv. trusted_switch t \<or> t \<in> set_option s0 \<union> set_option d0 \<union> set ps0"
    using source_destination_covers [OF args] by (auto simp: arguments_cover_def)
  with all show "\<forall>t \<in> set argv. trusted_switch t \<or> t \<in> {source, destination}" "{source, destination} \<subseteq> set argv"
    by simp_all
qed

lemma set_content_covers:
  assumes "set_content_arguments argv target positional sawValue = Some (target', positional')"
  shows "target' \<in> insert target (Some ` set argv) \<and> positional' \<in> insert positional (Some ` set argv)"
  using assms
  by (induction argv target positional sawValue rule: set_content_arguments.induct)
    (auto simp: Let_def split: if_splits list.splits)

lemma new_item_covers:
  assumes "new_item_arguments argv target itemType = Some (target', itemType')"
  shows "target' \<in> insert target (Some ` set argv)"
  using assms
  by (induction argv target itemType rule: new_item_arguments.induct)
    (auto simp: Let_def split: if_splits list.splits)

lemma without_covers:
  "set switches \<subseteq> {''/q'', ''/y'', ''/s''} \<Longrightarrow> t \<in> set argv \<Longrightarrow> t \<in> set (without switches argv) \<or> trusted_switch t"
  by (auto simp: without_def trusted_switch_def)

lemma rm_arguments_covers:
  assumes "rm_arguments argv recurse paths = Some (recurse', paths')"
  shows "(\<forall>t \<in> set argv. trusted_switch t \<or> t \<in> set paths') \<and> set paths \<subseteq> set paths'"
  using assms
  by (induction argv recurse paths rule: rm_arguments.induct) (auto simp: trusted_switch_def split: if_splits)

subsection \<open>Walking a directory\<close>

text \<open>
  From a directory, given by its logical and canonical path, to the directories in it.
\<close>

inductive tree_child ::
  "trusted_env \<Rightarrow> ResolvedWorkspace \<Rightarrow> string \<times> native_path \<Rightarrow> string \<times> native_path \<Rightarrow> bool"
  for env :: trusted_env and workspace :: ResolvedWorkspace where
  "te_readdir env canonicalPath = Some entries \<Longrightarrow> (name, link) \<in> set entries \<Longrightarrow>
   authorizeExisting (te_paths env) workspace (logicalPath @ ''/'' @ name) None False = Inr a \<Longrightarrow>
   ap_kind a = DirectoryKind \<Longrightarrow>
   tree_child env workspace (logicalPath, canonicalPath) (logicalPath @ ''/'' @ name, ap_canonicalPath a)"

inductive_cases tree_childE: "tree_child env workspace (logicalPath, canonicalPath) d"

text \<open>An entry that the walk accepts, and a directory all of whose entries are accepted.\<close>

definition entry_checked :: "trusted_env \<Rightarrow> ResolvedWorkspace \<Rightarrow> string \<Rightarrow> bool" where
  "entry_checked env workspace logicalPath \<longleftrightarrow>
     is_ok (authorizeWriteLogical (te_paths env) workspace logicalPath) \<and>
     \<not> isSubtreeBlocked (te_paths env) workspace logicalPath \<and>
     is_ok (authorizeExisting (te_paths env) workspace logicalPath None False)"

definition directory_checked :: "trusted_env \<Rightarrow> ResolvedWorkspace \<Rightarrow> string \<times> native_path \<Rightarrow> bool" where
  "directory_checked env workspace d \<longleftrightarrow>
     (\<exists>entries. te_readdir env (snd d) = Some entries \<and> length entries \<le> ws_maxListedFiles workspace \<and>
        (\<forall>(name, link) \<in> set entries. \<not> link \<and> entry_checked env workspace (fst d @ ''/'' @ name)))"

lemma tree_entries_checked:
  assumes "tree_entries env workspace current entries seen stack = Inr (Some (seen', stack'))"
  shows "(\<forall>(name, link) \<in> set entries. \<not> link \<and> entry_checked env workspace (current @ ''/'' @ name)) \<and>
    set stack \<subseteq> set stack' \<and>
    (\<forall>name link a. (name, link) \<in> set entries \<longrightarrow>
       authorizeExisting (te_paths env) workspace (current @ ''/'' @ name) None False = Inr a \<longrightarrow>
       ap_kind a = DirectoryKind \<longrightarrow> (current @ ''/'' @ name, ap_canonicalPath a) \<in> set stack')"
  using assms
proof (induction entries arbitrary: seen stack)
  case (Cons e entries)
  obtain name link where e: "e = (name, link)" by fastforce
  from Cons.prems e obtain q a where ok: "authorizeWriteLogical (te_paths env) workspace (current @ ''/'' @ name) = Inr q"
    "\<not> isSubtreeBlocked (te_paths env) workspace (current @ ''/'' @ name)" "\<not> link"
    "authorizeExisting (te_paths env) workspace (current @ ''/'' @ name) None False = Inr a"
    and rest: "tree_entries env workspace current entries (Suc seen)
      (if ap_kind a = DirectoryKind then (current @ ''/'' @ name, ap_canonicalPath a) # stack else stack) = Inr (Some (seen', stack'))"
    by (auto simp: Let_def bind_result_Inr_iff split: if_splits)
  have "entry_checked env workspace (current @ ''/'' @ name)" using ok by (simp add: entry_checked_def)
  with Cons.IH [OF rest] ok e show ?case by (auto split: if_splits)
qed simp

lemma tree_loop_checked:
  assumes "tree_loop env workspace seen stack = Inr True" and "d \<in> set stack"
    and "(tree_child env workspace)\<^sup>*\<^sup>* d x"
  shows "directory_checked env workspace x"
  using assms
proof (induction env workspace seen stack arbitrary: d rule: tree_loop.induct)
  case (2 env workspace seen logicalPath canonicalPath stack)
  from "2.prems"(1) obtain entries seen' stack' where entries: "te_readdir env canonicalPath = Some entries"
    and walk: "tree_entries env workspace logicalPath entries seen stack = Inr (Some (seen', stack'))"
    and rest: "tree_loop env workspace seen' stack' = Inr True"
    by (auto split: option.splits sum.splits)
  note checked = tree_entries_checked [OF walk]
  note IH = "2.IH" [OF entries walk refl refl rest]
  show ?case
  proof (cases "d \<in> set stack")
    case True
    with checked IH "2.prems"(3) show ?thesis by blast
  next
    case False
    with "2.prems"(2) have d: "d = (logicalPath, canonicalPath)" by simp
    show ?thesis
    proof (cases "x = d")
      case True
      have "length entries \<le> ws_maxListedFiles workspace" using tree_entries_bounds [OF walk] by (cases entries) auto
      then show ?thesis
        using entries conjunct1 [OF checked] unfolding True d directory_checked_def fst_conv snd_conv by blast
    next
      case False
      from "2.prems"(3) False obtain y where y: "tree_child env workspace d y" "(tree_child env workspace)\<^sup>*\<^sup>* y x"
        by (cases rule: converse_rtranclpE) auto
      from y(1) obtain name link a where "(name, link) \<in> set entries"
        "authorizeExisting (te_paths env) workspace (logicalPath @ ''/'' @ name) None False = Inr a"
        "ap_kind a = DirectoryKind" "y = (logicalPath @ ''/'' @ name, ap_canonicalPath a)"
        unfolding d using entries by (elim tree_childE) simp
      with checked have "y \<in> set stack'" by blast
      with IH y(2) show ?thesis by blast
    qed
  qed
qed simp

lemma mutable_tree_directories:
  assumes "authorizeMutableTree env workspace root = Inr True"
    and "mp_canonicalPath root = Some c" "(tree_child env workspace)\<^sup>*\<^sup>* (mp_logicalPath root, c) x"
  shows "directory_checked env workspace x"
proof -
  from assms(1,2) have "tree_loop env workspace 0 [(mp_logicalPath root, c)] = Inr True"
    by (simp add: authorizeMutableTree_def split: if_splits)
  from tree_loop_checked [OF this _ assms(3)] show ?thesis by simp
qed

subsection \<open>Commands that run\<close>

lemma execute_not_confirmation [simp]: "trustedExecute \<noteq> confirmation input" "confirmation input \<noteq> trustedExecute"
  by (simp_all add: trustedExecute_def confirmation_def)

text \<open>Every argument is a switch or names a checked path.\<close>

definition accounted :: "trusted_env \<Rightarrow> TrustedWorkspaceAuthorizationInput \<Rightarrow> string list \<Rightarrow> bool" where
  "accounted env input argv \<longleftrightarrow>
     (\<forall>t \<in> set argv. trusted_switch t \<or> checked_operand env input t) \<and> (\<exists>t \<in> set argv. checked_operand env input t)"

lemma found_runs:
  "bind_result r (\<lambda>found. case found of None \<Rightarrow> Inr (confirmation input) | Some d \<Rightarrow> f d) = Inr trustedExecute \<longleftrightarrow>
   (\<exists>d. r = Inr (Some d) \<and> f d = Inr trustedExecute)"
  by (cases r) (auto split: option.splits)

lemma move_like_checked:
  assumes "realpath_canonical (te_paths env)"
    and "authorizeMoveLike env input source destination copy = Inr trustedExecute"
  shows "checked_operand env input source" "checked_operand env input destination"
proof -
  from assms(2) obtain t where t: "authorizeExistingMutablePath env input source = Inr (Some t)"
    by (auto simp: authorizeMoveLike_def found_runs)
  with assms(2) obtain u where "authorizeMutableTarget env input destination = Inr (Some u)"
    by (auto simp: authorizeMoveLike_def found_runs bind_result_Inr_iff [where r = "if P then a else b" for P a b] split: if_split_asm)
  with t existing_mutable_checked(1) [OF assms(1)] mutable_target_checked(1) [OF assms(1)]
  show "checked_operand env input source" "checked_operand env input destination" by blast+
qed

lemma delete_checked:
  assumes "realpath_canonical (te_paths env)"
  shows "delete_file env input operand = Inr trustedExecute \<Longrightarrow> checked_operand env input operand"
    and "delete_directory env input recurse operand = Inr trustedExecute \<Longrightarrow> checked_operand env input operand"
    and "remove_any env input recurse operand = Inr trustedExecute \<Longrightarrow> checked_operand env input operand"
  using existing_mutable_checked(1) [OF assms]
  by (auto simp: delete_file_def delete_directory_def remove_any_def bind_result_Inr_iff split: option.splits)

lemma powershell_remove_accounted:
  assumes "realpath_canonical (te_paths env)" and "authorizePowerShellRemove env input argv = Inr trustedExecute"
  shows "accounted env input argv"
proof -
  from assms(2) obtain target recurse t where args: "remove_arguments argv None False = Some (Some target, recurse)"
    and t: "authorizeExistingMutablePath env input target = Inr (Some t)"
    by (auto simp: authorizePowerShellRemove_def bind_result_Inr_iff split: option.splits if_splits)
  from remove_arguments_covers [OF args] remove_arguments_target [OF args]
    existing_mutable_checked(1) [OF assms(1) t] show ?thesis by (auto simp: accounted_def)
qed

lemma pair_accounted:
  assumes "\<forall>t \<in> set argv. trusted_switch t \<or> t \<in> set operands" "set operands \<subseteq> set argv" "operands \<noteq> []"
    and "\<forall>t \<in> set operands. checked_operand env input t"
  shows "accounted env input argv"
  using assms by (cases operands) (auto simp: accounted_def)

lemma powershell_move_accounted:
  assumes "realpath_canonical (te_paths env)"
    and "authorizePowerShellMove env input argv = Inr trustedExecute \<or> authorizePowerShellCopy env input argv = Inr trustedExecute"
  shows "accounted env input argv"
proof -
  from assms(2) obtain source destination copy where args: "parseSourceDestination argv [''-force''] = Some (source, destination)"
    and move: "authorizeMoveLike env input source destination copy = Inr trustedExecute"
    by (auto simp: authorizePowerShellMove_def authorizePowerShellCopy_def split: option.splits)
  show ?thesis
    by (rule pair_accounted [of _ "[source, destination]"])
      (use parseSourceDestination_covers [OF args] move_like_checked [OF assms(1) move] in simp_all)
qed

lemma cmd_operands:
  assumes real: "realpath_canonical (te_paths env)" and ok: "authorizeCmdMutation env input executable argv = Inr trustedExecute"
  shows "\<exists>switches. set switches \<subseteq> {''/q'', ''/y'', ''/s''} \<and> without switches argv \<noteq> [] \<and>
    (\<forall>t \<in> set (without switches argv). checked_operand env input t)"
proof -
  note facts = delete_checked [OF real] move_like_checked [OF real]
  consider operand where "without [''/q''] argv = [operand]" "delete_file env input operand = Inr trustedExecute"
    | source destination copy where "without [''/y''] argv = [source, destination]"
        "authorizeMoveLike env input source destination copy = Inr trustedExecute"
    | operand recurse where "without [''/s'', ''/q''] argv = [operand]" "delete_directory env input recurse operand = Inr trustedExecute"
    using ok by (auto simp: authorizeCmdMutation_def split: if_splits list.splits)
  then show ?thesis
  proof cases
    case 1
    with facts(1) show ?thesis by (intro exI [of _ "[''/q'']"]) simp
  next
    case 2
    with facts(4,5) show ?thesis by (intro exI [of _ "[''/y'']"]) auto
  next
    case 3
    with facts(2) show ?thesis by (intro exI [of _ "[''/s'', ''/q'']"]) auto
  qed
qed

lemma cmd_accounted:
  assumes real: "realpath_canonical (te_paths env)" and ok: "authorizeCmdMutation env input executable argv = Inr trustedExecute"
  shows "accounted env input argv"
proof -
  from cmd_operands [OF real ok] obtain switches operands where
    covers: "set switches \<subseteq> {''/q'', ''/y'', ''/s''}" "without switches argv = operands"
    and operands: "operands \<noteq> []" "\<forall>t \<in> set operands. checked_operand env input t" by blast
  show ?thesis
    by (rule pair_accounted [of _ operands]) (use without_covers [OF covers(1)] covers operands in \<open>auto simp: without_def\<close>)
qed

lemma filter_two_covers: "filter P argv = [a, b] \<Longrightarrow> t \<in> set argv \<Longrightarrow> t \<in> {a, b} \<or> \<not> P t"
  using set_filter [of P argv] by auto

lemma case_one: "(case xs of [x] \<Rightarrow> f x | _ \<Rightarrow> b) = (if \<exists>x. xs = [x] then f (hd xs) else b)"
  by (auto split: list.splits)

lemma case_two: "(case xs of [x, y] \<Rightarrow> f x y | _ \<Rightarrow> b) = (if \<exists>x y. xs = [x, y] then f (hd xs) (xs ! 1) else b)"
  by (auto split: list.splits)

lemma posix_accounted:
  assumes real: "realpath_canonical (te_paths env)" and ok: "authorizePosixMutation env input executable argv = Inr trustedExecute"
  shows "accounted env input argv"
proof -
  note facts = delete_checked [OF real] move_like_checked [OF real]
  consider "executable = ''rm''" | "executable \<noteq> ''rm''" "executable = ''rmdir''" | "executable \<noteq> ''rm''" "executable \<noteq> ''rmdir''" by blast
  then show ?thesis
  proof cases
    case 1
    with ok obtain recurse operand where run: "rm_arguments argv False [] = Some (recurse, [operand])"
      "remove_any env input recurse operand = Inr trustedExecute"
      by (simp add: authorizePosixMutation_def case_one split: option.split_asm prod.split_asm if_split_asm)
    with rm_arguments_covers [OF run(1)] rm_arguments_operands [OF run(1)] facts(3) show ?thesis
      by (intro pair_accounted [of _ "[operand]"]) auto
  next
    case 2
    with ok obtain operand where "argv = [operand]" "delete_directory env input False operand = Inr trustedExecute"
      by (simp add: authorizePosixMutation_def case_one split: if_split_asm)
    with facts(2) show ?thesis by (intro pair_accounted [of _ argv]) auto
  next
    case 3
    with ok obtain source destination copy where run: "filter (\<lambda>v. v \<noteq> ''--'' \<and> v \<noteq> ''-f'') argv = [source, destination]"
      "authorizeMoveLike env input source destination copy = Inr trustedExecute"
      by (simp add: authorizePosixMutation_def case_two split: if_split_asm)
    have "set [source, destination] \<subseteq> set argv" by (metis run(1) filter_is_subset)
    moreover have "trusted_switch ''--''" "trusted_switch ''-f''" by (simp_all add: trusted_switch_def)
    then have "\<forall>t \<in> set argv. trusted_switch t \<or> t \<in> set [source, destination]"
      using filter_two_covers [OF run(1)] unfolding list.set by blast
    ultimately show ?thesis
      using facts(4,5) [OF run(2)] by (intro pair_accounted [of _ "[source, destination]"]) simp_all
  qed
qed

lemma content_checked:
  assumes real: "realpath_canonical (te_paths env)"
    and ok: "authorizePowerShellSetContent env input argv = Inr trustedExecute \<or> authorizePowerShellNewItem env input argv = Inr trustedExecute"
  shows "\<exists>t \<in> set argv. checked_operand env input t"
  using ok
proof
  assume "authorizePowerShellSetContent env input argv = Inr trustedExecute"
  then obtain t0 p0 target u where args: "set_content_arguments argv None None False = Some (t0, p0)"
    and target: "(if t0 = None then p0 else t0) = Some target" and u: "authorizeMutableTarget env input target = Inr (Some u)"
    by (auto simp: authorizePowerShellSetContent_def found_runs split: option.split_asm if_split_asm)
  from set_content_covers [OF args] target have "target \<in> set argv" by (auto split: if_splits)
  with mutable_target_checked(1) [OF real u] show ?thesis by blast
next
  assume "authorizePowerShellNewItem env input argv = Inr trustedExecute"
  then obtain target itemType u where args: "new_item_arguments argv None None = Some (Some target, itemType)"
    and u: "authorizeMutableTarget env input target = Inr (Some u)"
    by (auto simp: authorizePowerShellNewItem_def found_runs split: option.split_asm if_split_asm)
  from new_item_covers [OF args] mutable_target_checked(1) [OF real u] show ?thesis by auto
qed

definition writes_content :: "string \<Rightarrow> bool" where
  "writes_content rawExecutable \<longleftrightarrow> js_lower rawExecutable \<in> set [''set-content'', ''sc'', ''new-item'', ''ni'']"

lemma powershell_accounted:
  assumes real: "realpath_canonical (te_paths env)"
    and ok: "authorizePowerShellMutation env input rawExecutable argv = Inr trustedExecute"
  shows "if writes_content rawExecutable then \<exists>t \<in> set argv. checked_operand env input t else accounted env input argv"
proof -
  consider "accounted env input argv" | "writes_content rawExecutable" "\<exists>t \<in> set argv. checked_operand env input t"
    using ok powershell_remove_accounted [OF real] powershell_move_accounted [OF real] content_checked [OF real]
    by (auto simp: authorizePowerShellMutation_def Let_def writes_content_def isPowerShellCommand_def split: if_split_asm)
  then show ?thesis by cases (auto simp: accounted_def)
qed

text \<open>A branch returns \<open>trustedExecute\<close> or asks for a confirmation, unless it throws.\<close>

definition settled :: "TrustedWorkspaceAuthorizationInput \<Rightarrow> trusted_decision \<Rightarrow> bool" where
  "settled input r \<longleftrightarrow> (\<forall>d. r = Inr d \<longrightarrow> d = trustedExecute \<or> d = confirmation input)"

lemma settled_simps [simp]:
  "settled input (Inl e)" "settled input (Inr trustedExecute)" "settled input (Inr (confirmation input))"
  "settled input (Inr (if b then trustedExecute else confirmation input))"
  "settled input (Inr (if b then confirmation input else trustedExecute))"
  by (simp_all add: settled_def)

lemma settled_bind: "(\<And>x. settled input (f x)) \<Longrightarrow> settled input (bind_result r f)"
  by (auto simp: settled_def bind_result_Inr_iff)

lemma settled_cases:
  "settled input a \<Longrightarrow> settled input b \<Longrightarrow> settled input (if c then a else b)"
  "settled input a \<Longrightarrow> (\<And>x. settled input (f x)) \<Longrightarrow> settled input (case v of None \<Rightarrow> a | Some x \<Rightarrow> f x)"
  "(\<And>u w. settled input (g u w)) \<Longrightarrow> settled input (case p of (u, w) \<Rightarrow> g u w)"
  "(\<And>e. settled input (h e)) \<Longrightarrow> (\<And>z. settled input (k z)) \<Longrightarrow> settled input (case r of Inl e \<Rightarrow> h e | Inr z \<Rightarrow> k z)"
  "settled input a \<Longrightarrow> (\<And>y ys. settled input (m y ys)) \<Longrightarrow> settled input (case l of [] \<Rightarrow> a | y # ys \<Rightarrow> m y ys)"
  by (simp_all split: option.split prod.split sum.split list.split)

lemmas settled_intros = settled_bind settled_cases

lemma settled_existing:
  "settled input (bind_result r (\<lambda>t. Inr (case t of None \<Rightarrow> confirmation input | Some x \<Rightarrow> if P x then trustedExecute else confirmation input)))"
  by (intro settled_bind) (simp split: option.split)

lemma settled_move_like: "settled input (authorizeMoveLike env input source destination copy)"
  unfolding authorizeMoveLike_def by (intro settled_intros settled_simps)

lemma settled_powershell: "settled input (authorizePowerShellMutation env input rawExecutable argv)"
  unfolding authorizePowerShellMutation_def authorizePowerShellRemove_def remove_target_def Let_def
    authorizePowerShellMove_def authorizePowerShellCopy_def authorizePowerShellSetContent_def authorizePowerShellNewItem_def
  by (intro settled_move_like settled_intros settled_simps)

lemma settled_cmd: "settled input (authorizeCmdMutation env input executable argv)"
  unfolding authorizeCmdMutation_def delete_file_def delete_directory_def
  by (intro settled_move_like settled_existing settled_intros settled_simps)

lemma settled_posix: "settled input (authorizePosixMutation env input executable argv)"
  unfolding authorizePosixMutation_def remove_any_def delete_directory_def
  by (intro settled_move_like settled_intros settled_simps)

lemma settled_affected: "settled input (authorize_affected env input root existing commands explicit)"
  unfolding authorize_affected_def by (intro settled_intros settled_simps)

lemma settled_clean: "settled input (clean_pathspecs env input pathspecs)"
proof (induction pathspecs)
  case (Cons p ps)
  then show ?case unfolding clean_pathspecs.simps by (intro settled_intros settled_simps)
qed simp

lemma settled_git: "settled input (authorizeGitMutation env input argv)"
  unfolding authorizeGitMutation_def git_add_def git_restore_def git_reset_def git_clean_def Let_def
  by (intro settled_affected settled_clean settled_intros settled_simps)

lemma settled_dispatch: "settled input (trusted_dispatch env input rawExecutable argv)"
  unfolding trusted_dispatch_def Let_def
  by (cases "ti_shell input")
    (simp_all add: settled_powershell settled_cmd settled_posix settled_git)

subsection \<open>Git commands that run\<close>

definition affected_checked :: "trusted_env \<Rightarrow> ResolvedWorkspace \<Rightarrow> string \<Rightarrow> bool" where
  "affected_checked env workspace p \<longleftrightarrow> writable_path env workspace p \<and>
     (resolves_inside env workspace p \<and> no_link env workspace p \<or>
      pe_realpath (te_paths env) (toNativeAbsolute (ws_rootPath workspace) p) = None)"

lemma affected_existing_cases:
  assumes real: "realpath_canonical (te_paths env)"
    and norm: "normalizeRelativePath (te_windows env) False i = Inr p"
  shows "affected_existing env workspace p = Inr () \<Longrightarrow> resolves_inside env workspace p \<and> no_link env workspace p"
    and "affected_existing env workspace p = Inl e \<Longrightarrow> is_not_found e \<Longrightarrow>
      pe_realpath (te_paths env) (toNativeAbsolute (ws_rootPath workspace) p) = None"
proof -
  note dot = normalized_not_dot [OF norm]
  assume "affected_existing env workspace p = Inr ()"
  then obtain a where "authorizeExisting (te_paths env) workspace p None False = Inr a"
    and link: "isSymbolicLink env workspace p = Inr False"
    by (auto simp: affected_existing_def bind_result_Inr_iff split: if_splits)
  with existing_inside [OF real stable_normalized [OF norm]] isSymbolicLink_no_link [OF norm dot link]
  show "resolves_inside env workspace p \<and> no_link env workspace p" by blast
next
  note dot = normalized_not_dot [OF norm]
  assume err: "affected_existing env workspace p = Inl e" "is_not_found e"
  have "\<not> is_not_found e" if "isSymbolicLink env workspace p = Inl e"
    using that by (auto simp: isSymbolicLink_def bind_result_Inl_iff not_found_iff dest: normalize_error split: option.splits)
  moreover have "\<not> is_not_found (invalid_path m)" for m by (simp add: invalid_path_def not_found_iff)
  ultimately have "authorizeExisting (te_paths env) workspace p None False = Inl e"
    using err by (auto simp: affected_existing_def bind_result_Inl_iff split: if_splits)
  with existing_not_found [OF norm dot] err(2) show "pe_realpath (te_paths env) (toNativeAbsolute (ws_rootPath workspace) p) = None"
    by blast
qed

lemma git_affected_checked:
  assumes real: "realpath_canonical (te_paths env)"
    and "authorizeGitAffectedPaths env workspace root existing paths = Inr ()" and "r \<in> set paths"
  shows "\<exists>p. resolveLiteralLogical (te_windows env) root r False = Some p \<and> affected_checked env workspace p"
  using assms(2,3)
proof (induction paths)
  case (Cons q paths)
  from Cons.prems(1) obtain p w where p: "resolveLiteralLogical (te_windows env) root q False = Some p"
    and w: "authorizeWriteLogical (te_paths env) workspace p = Inr w" "\<not> isSubtreeBlocked (te_paths env) workspace p"
    and tail: "affected_existing env workspace p = Inr () \<or> (\<exists>e. affected_existing env workspace p = Inl e \<and> is_not_found e)"
      "authorizeGitAffectedPaths env workspace root existing paths = Inr ()"
    by (auto simp: bind_result_Inr_iff split: option.split_asm sum.split_asm if_split_asm)
  from p obtain i where norm: "normalizeRelativePath (te_windows env) False i = Inr p" by (rule resolveLiteralLogical_normalized)
  have "affected_checked env workspace p"
    using write_again [OF norm w] tail(1) affected_existing_cases [OF real norm]
    by (auto simp: affected_checked_def)
  with p Cons.IH [OF tail(2)] Cons.prems(2) show ?case by auto
qed simp

text \<open>The listing commands of the preflight, each on some of the arguments.\<close>

definition preflight_command :: "string list \<Rightarrow> string list \<Rightarrow> bool" where
  "preflight_command args command \<longleftrightarrow>
     (\<exists>pathspecs. pathspecs \<noteq> [] \<and> set pathspecs \<subseteq> set args \<and>
        command \<in> {diff_command False pathspecs, diff_command True pathspecs, untracked_command pathspecs})"

lemma at_separator_args: "at_separator args = Some (flags, pathspecs) \<Longrightarrow> set pathspecs \<subseteq> set args"
  unfolding at_separator_def
  by (auto split: if_split_asm) (metis list.sel(2) list.set_sel(2) set_dropWhileD)

lemma parseGitPathspecs_args:
  assumes "parseGitPathspecs windows args dot options = Some pathspecs"
  shows "pathspecs \<noteq> []" "set pathspecs \<subseteq> set args"
  using assms at_separator_args
  by (fastforce simp: parseGitPathspecs_def validateLiteralGitPathspecs_def split: option.split_asm if_split_asm)+

lemma affected_runs:
  assumes "authorize_affected env input root existing commands explicit = Inr trustedExecute"
  shows "\<exists>affected. collectGitPaths env (ti_absoluteCwd input) commands = Some affected \<and>
    authorizeGitAffectedPaths env (ti_workspace input) root existing affected = Inr ()"
  using assms by (auto simp: authorize_affected_def bind_result_Inr_iff split: option.split_asm)

definition git_preflighted :: "trusted_env \<Rightarrow> TrustedWorkspaceAuthorizationInput \<Rightarrow> string \<Rightarrow> string list \<Rightarrow> bool" where
  "git_preflighted env input root args \<longleftrightarrow>
     (\<exists>commands affected existing. commands \<noteq> [] \<and> (\<forall>c \<in> set commands. preflight_command args c) \<and>
        collectGitPaths env (ti_absoluteCwd input) commands = Some affected \<and>
        authorizeGitAffectedPaths env (ti_workspace input) root existing affected = Inr ())"

lemma preflightedI:
  assumes "authorize_affected env input root existing commands explicit = Inr trustedExecute"
    and "commands \<noteq> []" "\<forall>c \<in> set commands. preflight_command args c"
  shows "git_preflighted env input root args"
  using affected_runs [OF assms(1)] assms(2,3) unfolding git_preflighted_def by blast

lemma preflight_commandI:
  assumes "pathspecs \<noteq> []" "set pathspecs \<subseteq> set args"
  shows "preflight_command args (diff_command cached pathspecs)" "preflight_command args (untracked_command pathspecs)"
  using assms by (cases cached; auto simp: preflight_command_def)+

lemma git_add_preflighted:
  assumes "git_add env input root args = Inr trustedExecute"
  shows "git_preflighted env input root args"
proof -
  from assms obtain pathspecs where ps: "parseGitPathspecs (te_windows env) args True [] = Some pathspecs"
    and aff: "authorize_affected env input root False [diff_command False pathspecs, untracked_command pathspecs] (\<lambda>_. True) = Inr trustedExecute"
    by (simp add: git_add_def split: option.split_asm)
  from preflight_commandI [OF parseGitPathspecs_args [OF ps]] show ?thesis by (intro preflightedI [OF aff]) auto
qed

lemma git_restore_preflighted:
  assumes "git_restore env input root args = Inr trustedExecute"
  shows "git_preflighted env input root args"
proof -
  let ?staged = "''--staged'' \<in> set args"
  from assms obtain pathspecs where ps: "parseGitPathspecs (te_windows env) (filter (\<lambda>v. v \<noteq> ''--staged'') args) ?staged [] = Some pathspecs"
    and aff: "authorize_affected env input root False [diff_command ?staged pathspecs]
      (\<lambda>affected. ?staged \<or> gitAffectedSetIsExplicit pathspecs affected) = Inr trustedExecute"
    by (simp add: git_restore_def Let_def split: option.split_asm if_split_asm)
  have "set pathspecs \<subseteq> set args" using parseGitPathspecs_args(2) [OF ps] by auto
  from preflight_commandI [OF parseGitPathspecs_args(1) [OF ps] this] show ?thesis by (intro preflightedI [OF aff]) auto
qed

lemma git_reset_preflighted:
  assumes "git_reset env input root args = Inr trustedExecute"
  shows "git_preflighted env input root args"
proof -
  from assms obtain flags pathspecs where ps: "at_separator args = Some (flags, pathspecs)" "pathspecs \<noteq> []"
    and aff: "authorize_affected env input root False [diff_command True pathspecs] (gitAffectedSetIsExplicit pathspecs) = Inr trustedExecute"
    by (auto simp: git_reset_def validateLiteralGitPathspecs_def split: option.split_asm if_split_asm)
  from preflight_commandI [OF ps(2) at_separator_args [OF ps(1)]] show ?thesis by (intro preflightedI [OF aff]) auto
qed

lemma git_clean_preflighted:
  assumes "git_clean env input root args = Inr trustedExecute"
  shows "git_preflighted env input root args"
proof -
  from assms obtain flags pathspecs affected where ps: "at_separator args = Some (flags, pathspecs)" "pathspecs \<noteq> []"
    and aff: "collectGitPaths env (ti_absoluteCwd input) [untracked_command pathspecs] = Some affected"
      "authorizeGitAffectedPaths env (ti_workspace input) root True affected = Inr ()"
    by (auto simp: git_clean_def validateLiteralGitPathspecs_def bind_result_Inr_iff split: option.split_asm if_split_asm)
  from preflight_commandI(2) [OF ps(2) at_separator_args [OF ps(1)]] aff show ?thesis
    unfolding git_preflighted_def by (intro exI [of _ "[untracked_command pathspecs]"]) auto
qed

lemma git_runs:
  assumes "authorizeGitMutation env input argv = Inr trustedExecute"
  shows "\<exists>sub args root. argv = sub # args \<and> js_lower sub \<in> {''add'', ''restore'', ''reset'', ''clean''} \<and>
    resolveGitRepository env input = Inr (Some root) \<and> git_preflighted env input root args"
proof -
  obtain sub args where argv: "argv = sub # args" using assms by (cases argv) (auto simp: authorizeGitMutation_def)
  from assms argv obtain root where root: "resolveGitRepository env input = Inr (Some root)"
    and run: "(if js_lower sub = ''add'' then git_add env input root args
      else if js_lower sub = ''restore'' then git_restore env input root args
      else if js_lower sub = ''reset'' then git_reset env input root args
      else if js_lower sub = ''clean'' then git_clean env input root args else Inr (confirmation input)) = Inr trustedExecute"
    by (simp add: authorizeGitMutation_def found_runs Let_def split: if_split_asm)
  note preflighted = git_add_preflighted git_restore_preflighted git_reset_preflighted git_clean_preflighted
  have "git_preflighted env input root args" "js_lower sub \<in> {''add'', ''restore'', ''reset'', ''clean''}"
    using run preflighted [of env input root args] by (simp_all split: if_split_asm)
  with argv root show ?thesis by blast
qed

lemma trusted_command_runs:
  assumes "authorizeTrustedWorkspaceCommand env input = Execute a"
  obtains rawExecutable argv where "a = ''trusted-workspace''"
    "trusted_argv (ti_shell input) (ti_command input) = Some (rawExecutable, argv)"
    "trusted_dispatch env input rawExecutable argv = Inr trustedExecute"
proof -
  have "decisionFromAuthorizationError input e \<noteq> Execute a" for e
    by (auto simp: decisionFromAuthorizationError_def confirmation_def split: exn.split)
  with assms obtain rawExecutable argv where run: "trusted_argv (ti_shell input) (ti_command input) = Some (rawExecutable, argv)"
    "trusted_dispatch env input rawExecutable argv = Inr (Execute a)"
    by (auto simp: authorizeTrustedWorkspaceCommand_def confirmation_def split: option.split_asm sum.split_asm)
  with settled_dispatch [of input env rawExecutable argv] have "Execute a = trustedExecute"
    by (auto simp: settled_def confirmation_def)
  with run that show thesis by (simp add: trustedExecute_def)
qed

lemma dispatch_accounted:
  assumes real: "realpath_canonical (te_paths env)"
    and run: "trusted_dispatch env input rawExecutable argv = Inr trustedExecute"
    and "normalizeExecutable (te_windows env) rawExecutable \<noteq> ''git''"
  shows "if writes_content rawExecutable then \<exists>t \<in> set argv. checked_operand env input t else accounted env input argv"
proof -
  have weaker: ?thesis if "accounted env input argv" using that by (auto simp: accounted_def)
  show ?thesis
    using run assms(3) powershell_accounted [OF real] weaker cmd_accounted [OF real] posix_accounted [OF real]
    by (cases "ti_shell input") (simp_all add: trusted_dispatch_def Let_def)
qed

subsection \<open>Properties\<close>


definition demo_trusted_env :: trusted_env where
  "demo_trusted_env =
     \<lparr>te_paths = demo_path_env, te_lstat_link = (\<lambda>p. if p = [''repo'', ''a.ts''] then Some False else None),
      te_readdir = (\<lambda>p. if p = [''repo''] then Some [(''a.ts'', False)] else None), te_git = (\<lambda>cwd args. None),
      te_processCwd = [''repo'']\<rparr>"

definition demo_trusted_input :: "ShellName \<Rightarrow> string \<Rightarrow> TrustedWorkspaceAuthorizationInput" where
  "demo_trusted_input shell command =
     \<lparr>ti_workspace = demo_workspace, ti_shell = shell, ti_command = command, ti_logicalCwd = ''.'',
      ti_absoluteCwd = [''repo''], ti_fallbackReasons = []\<rparr>"


text \<open>
  A directory is removed or moved without a confirmation only when its whole tree is checked.
  When \<open>authorizeMutableTree\<close> returns \<open>true\<close>, every directory that can be reached from the root
  through the listed entries has been listed, has at most \<open>maxListedFiles\<close> entries, and each entry
  is no symbolic link, is writable under the policy and resolves inside the workspace. The walk
  itself ends on every file system, since it lists at most \<open>maxListedFiles\<close> entries.\<close>

theorem mutable_tree_checked:
  assumes "realpath_canonical (te_paths env)"
    and "authorizeMutableTree env workspace root = Inr True"
  shows "\<exists>c. mp_canonicalPath root = Some c \<and>
    (\<forall>p q. (tree_child env workspace)\<^sup>*\<^sup>* (mp_logicalPath root, c) (p, q) \<longrightarrow>
      (\<exists>entries. te_readdir env q = Some entries \<and> length entries \<le> ws_maxListedFiles workspace \<and>
        (\<forall>(name, link) \<in> set entries. \<not> link \<and>
          is_ok (authorizeWriteLogical (te_paths env) workspace (p @ ''/'' @ name)) \<and>
          \<not> isSubtreeBlocked (te_paths env) workspace (p @ ''/'' @ name) \<and>
          (\<exists>a. authorizeExisting (te_paths env) workspace (p @ ''/'' @ name) None False = Inr a \<and>
            inside (te_windows env) (ws_canonicalRootPath workspace) (ap_canonicalPath a)))))"
proof -
  from assms(2) obtain c where c: "mp_canonicalPath root = Some c"
    by (auto simp: authorizeMutableTree_def split: if_split_asm option.split_asm)
  have "\<exists>a. authorizeExisting (te_paths env) workspace p None False = Inr a \<and>
      inside (te_windows env) (ws_canonicalRootPath workspace) (ap_canonicalPath a)" if "entry_checked env workspace p" for p
    using that authorizeExisting_inside(2) [OF assms(1)]
    by (auto simp: entry_checked_def is_ok_def split: sum.split_asm)
  then have entry: "entry_checked env workspace p \<Longrightarrow> is_ok (authorizeWriteLogical (te_paths env) workspace p) \<and>
      \<not> isSubtreeBlocked (te_paths env) workspace p \<and> (\<exists>a. authorizeExisting (te_paths env) workspace p None False = Inr a \<and>
      inside (te_windows env) (ws_canonicalRootPath workspace) (ap_canonicalPath a))" for p
    by (auto simp: entry_checked_def)
  have "\<exists>entries. te_readdir env q = Some entries \<and> length entries \<le> ws_maxListedFiles workspace \<and>
      (\<forall>(name, link) \<in> set entries. \<not> link \<and> entry_checked env workspace (p @ ''/'' @ name))"
    if "(tree_child env workspace)\<^sup>*\<^sup>* (mp_logicalPath root, c) (p, q)" for p q
    using mutable_tree_directories [OF assms(2) c that] by (simp add: directory_checked_def)
  with c entry show ?thesis by (fastforce simp: case_prod_unfold)
qed

definition demo_tree_env :: trusted_env where
  "demo_tree_env =
     \<lparr>te_paths = demo_path_env
        \<lparr>pe_realpath := (\<lambda>p. if p = [''repo'', ''d''] \<or> p = [''repo'', ''d'', ''a.ts''] then Some p else None),
         pe_stat := (\<lambda>p. if p = [''repo'', ''d''] then Some Is_directory
           else if p = [''repo'', ''d'', ''a.ts''] then Some Is_file else None)\<rparr>,
      te_lstat_link = (\<lambda>p. Some False),
      te_readdir = (\<lambda>p. if p = [''repo'', ''d''] then Some [(''a.ts'', False)] else None), te_git = (\<lambda>cwd args. None),
      te_processCwd = [''repo'']\<rparr>"

definition demo_tree :: MutablePath where
  "demo_tree = \<lparr>mp_logicalPath = ''d'', mp_kind = Some DirectoryKind, mp_canonicalPath = Some [''repo'', ''d'']\<rparr>"

theorem mutable_tree_checked_witness:
  "authorizeMutableTree demo_tree_env demo_workspace demo_tree = Inr True \<and>
   (\<exists>a. authorizeExisting (te_paths demo_tree_env) demo_workspace ''d/a.ts'' None False = Inr a \<and>
      inside False [''repo''] (ap_canonicalPath a))"
proof -
  have ok: "authorizeMutableTree demo_tree_env demo_workspace demo_tree = Inr True" by code_simp
  have listed: "te_readdir demo_tree_env [''repo'', ''d''] = Some [(''a.ts'', False)]" "te_windows demo_tree_env = False"
    "ws_canonicalRootPath demo_workspace = [''repo'']"
    by (simp_all add: demo_tree_env_def demo_path_env_def demo_workspace_def)
  have "realpath_canonical (te_paths demo_tree_env)"
    by (auto simp: demo_tree_env_def demo_path_env_def realpath_canonical_def canonical_path_def plain_segment_def split: if_splits)
  from mutable_tree_checked [OF this ok] obtain entries where "te_readdir demo_tree_env [''repo'', ''d''] = Some entries"
    "\<forall>(name, link) \<in> set entries. \<exists>a. authorizeExisting (te_paths demo_tree_env) demo_workspace (''d'' @ ''/'' @ name) None False = Inr a \<and>
      inside (te_windows demo_tree_env) (ws_canonicalRootPath demo_workspace) (ap_canonicalPath a)"
    by (auto simp: demo_tree_def case_prod_unfold dest!: spec [of _ "''d''"] spec [of _ "[''repo'', ''d'']"])
  then have "\<exists>a. authorizeExisting (te_paths demo_tree_env) demo_workspace ''d/a.ts'' None False = Inr a \<and>
      inside False [''repo''] (ap_canonicalPath a)"
    using listed by auto
  with ok show ?thesis by blast
qed

text \<open>
  A rename may end on a blocked path. The second operand of the \<open>ren\<close> command of \<open>cmd\<close> is a
  name in the directory of the first, but the source resolves it in the working directory: where
  \<open>sub/x.ts\<close> is blocked, renaming \<open>sub\a.ts\<close> to \<open>x.ts\<close> runs without a confirmation.\<close>

definition rename_env :: trusted_env where
  "rename_env =
     \<lparr>te_paths = \<lparr>pe_windows = True,
        pe_realpath = (\<lambda>p. if p = [''C:'', ''repo''] \<or> p = [''C:'', ''repo'', ''sub'', ''a.ts''] then Some p else None),
        pe_stat = (\<lambda>p. if p = [''C:'', ''repo''] then Some Is_directory
          else if p = [''C:'', ''repo'', ''sub'', ''a.ts''] then Some Is_file else None),
        pe_glob_match = (=)\<rparr>,
      te_lstat_link = (\<lambda>p. if p = [''C:'', ''repo'', ''sub'', ''a.ts''] then Some False else None),
      te_readdir = (\<lambda>p. None), te_git = (\<lambda>cwd args. None), te_processCwd = [''C:'', ''repo'']\<rparr>"

definition rename_input :: TrustedWorkspaceAuthorizationInput where
  "rename_input =
     \<lparr>ti_workspace = demo_workspace\<lparr>ws_rootPath := [''C:'', ''repo''], ws_canonicalRootPath := [''C:'', ''repo''],
        ws_allowedRoots := [\<lparr>ar_logicalPath = ''.'', ar_absolutePath = [''C:'', ''repo''], ar_canonicalPath = [''C:'', ''repo''],
          ar_kind = DirectoryKind\<rparr>], ws_blockedGlobs := [''sub/x.ts'']\<rparr>,
      ti_shell = Cmd, ti_command = ''ren sub'' @ [back_slash] @ ''a.ts x.ts'', ti_logicalCwd = ''.'',
      ti_absoluteCwd = [''C:'', ''repo''], ti_fallbackReasons = []\<rparr>"

theorem rename_target_unchecked:
  "authorizeTrustedWorkspaceCommand rename_env rename_input = Execute ''trusted-workspace'' \<and>
   isBlocked (te_paths rename_env) (ti_workspace rename_input) ''sub/x.ts''"
  by code_simp

text \<open>
  The name of an inherited member breaks the Docker rule. \<open>isDockerMutation\<close> looks the first
  argument up in an object literal, so \<open>constructor\<close> is found there: the critical-command check of
  \<open>docker constructor x\<close> throws a \<open>TypeError\<close> instead of answering.\<close>

theorem docker_inherited_member_throws:
  "trustedWorkspaceCriticalReason True Powershell ''docker constructor x'' = Inl (TypeError ''mutations.has is not a function'')"
  by code_simp

end
