(* ===== verification/Shell_Service.thy ===== *)
theory Shell_Service
  imports Trusted_Workspace
begin

text \<open>
  The authorisation of shell commands: \<open>prepareCommand\<close> of
  \<open>services/workspace-agent/src/shell/service.ts\<close> and \<open>decideCommandAuthorization\<close> of
  \<open>shell/confirmation-policy.ts\<close>, on top of the risk classification and the confirmation
  registry.

  The working directory is authorised by the functions of \<open>Path_Security\<close>, and the commands of a
  trusted workspace by those of \<open>Trusted_Workspace\<close>; their environment is the only parameter. A
  critical reason is never the empty string, so the test \<open>if (criticalReason)\<close> is the case
  distinction on the option.
\<close>

record command_input =
  in_shell :: ShellName
  in_command :: string
  in_cwd :: "string option"
  in_confirmationId :: "string option"

record authorization_scope =
  as_executionContext :: ExecutionContext
  as_operation :: string
  as_interactive :: bool

record shell_env =
  se_trusted :: trusted_env

abbreviation se_paths :: "shell_env \<Rightarrow> path_env" where
  "se_paths env \<equiv> te_paths (se_trusted env)"

definition shell_comparisonValue :: "shell_env \<Rightarrow> string \<Rightarrow> string" where
  "shell_comparisonValue env v = (if pe_windows (se_paths env) then js_lower v else v)"

definition shell_logicalContains :: "shell_env \<Rightarrow> string \<Rightarrow> string \<Rightarrow> bool" where
  "shell_logicalContains env basePath targetPath \<longleftrightarrow>
     (if basePath = ''.'' then True
      else (let base = shell_comparisonValue env basePath; target = shell_comparisonValue env targetPath in
            target = base \<or> js_startsWith target (base @ ''/'')))"

definition isAllowedShellPath :: "shell_env \<Rightarrow> ResolvedWorkspace \<Rightarrow> string \<Rightarrow> bool" where
  "isAllowedShellPath env workspace logicalPath \<longleftrightarrow>
     list_ex (\<lambda>root. shell_logicalContains env root logicalPath) (ws_allowShell workspace)"

definition assertShellAllowed :: "ResolvedWorkspace \<Rightarrow> string \<Rightarrow> ShellName \<Rightarrow> unit result" where
  "assertShellAllowed workspace shellText shell =
     (if ws_allowShell workspace = [] then
        Inl (AppError SHELL_NOT_ALLOWED ''Workspace policy does not allow shell execution.'')
      else if shell \<notin> set (ws_allowedShells workspace) then
        Inl (AppError SHELL_NOT_ALLOWED (''Workspace policy does not allow the '' @ shellText @ '' shell.''))
      else Inr ())"

definition shell_text :: "ShellName \<Rightarrow> string" where
  "shell_text shell = (case shell of Powershell \<Rightarrow> ''powershell'' | Pwsh \<Rightarrow> ''pwsh'' | Cmd \<Rightarrow> ''cmd''
     | Wsl \<Rightarrow> ''wsl'' | Git_bash \<Rightarrow> ''git-bash'')"

definition resolveShellCwd ::
  "shell_env \<Rightarrow> ResolvedWorkspace \<Rightarrow> string option \<Rightarrow> (string \<times> native_path) result" where
  "resolveShellCwd env workspace inputCwd =
     bind_result (normalizeRelativePath (pe_windows (se_paths env)) True (case inputCwd of None \<Rightarrow> ''.'' | Some p \<Rightarrow> p)) (\<lambda>logicalPath.
     if \<not> isAllowedShellPath env workspace logicalPath then
       Inl (AppError SHELL_NOT_ALLOWED ''Path is outside the workspace allowShell policy.'')
     else
       bind_result (authorizeExisting (se_paths env) workspace logicalPath (Some DirectoryKind) True) (\<lambda>authorized.
       Inr (ap_logicalPath authorized, ap_canonicalPath authorized)))"

definition enforceGitPushPolicy :: "ShellName \<Rightarrow> string \<Rightarrow> unit result" where
  "enforceGitPushPolicy shell command =
     (let intent = classifyGitPushIntent shell command in
      if \<not> gp_isPush intent then Inr ()
      else (case protectedGitPushReason intent of
              None \<Rightarrow> Inr ()
            | Some reason \<Rightarrow> Inl (AppError PERMISSION_DENIED reason)))"

definition trusted_workspace :: "ResolvedWorkspace \<Rightarrow> bool" where
  "trusted_workspace workspace \<longleftrightarrow>
     ws_confirmationMode workspace = Trusted_workspace \<and> ws_permissionProfile workspace = Full_repo_write"

definition decideCommandAuthorization ::
  "shell_env \<Rightarrow> ResolvedWorkspace \<Rightarrow> ShellName \<Rightarrow> string \<Rightarrow> string \<Rightarrow> native_path \<Rightarrow> bool \<Rightarrow> string list \<Rightarrow> authorization_decision result" where
  "decideCommandAuthorization env workspace shell command logicalCwd absoluteCwd currentRequiresConfirmation fallbackReasons =
     (if \<not> trusted_workspace workspace then
        Inr (if currentRequiresConfirmation then Confirmation_required fallbackReasons else Execute ''standard'')
      else
        bind_result (trustedWorkspaceCriticalReason (pe_windows (se_paths env)) shell command) (\<lambda>criticalReason.
        Inr (case criticalReason of
               Some reason \<Rightarrow> Confirmation_required [reason]
             | None \<Rightarrow>
                 if \<not> currentRequiresConfirmation then Execute ''standard''
                 else authorizeTrustedWorkspaceCommand (se_trusted env)
                   \<lparr>ti_workspace = workspace, ti_shell = shell, ti_command = command, ti_logicalCwd = logicalCwd,
                    ti_absoluteCwd = absoluteCwd, ti_fallbackReasons = fallbackReasons\<rparr>)))"

datatype prepared_command =
    AuthorizedCommandExecution string native_path
  | CommandConfirmationRequired ShellName string string instant "string list"

text \<open>The value of one call: its inputs, the fresh id and the clock readings of the registry.\<close>

record shell_call =
  sc_workspace :: ResolvedWorkspace
  sc_input :: command_input
  sc_aborted :: "exn option"
  sc_scope :: authorization_scope
  sc_now1 :: instant
  sc_now2 :: instant
  sc_newId :: string

definition call_binding :: "shell_call \<Rightarrow> string \<Rightarrow> CommandConfirmationBinding" where
  "call_binding call logicalCwd =
     \<lparr>ccb_workspaceId = ws_id (sc_workspace call), ccb_shell = in_shell (sc_input call), ccb_cwd = logicalCwd,
      ccb_command = in_command (sc_input call), ccb_executionContext = as_executionContext (sc_scope call),
      ccb_operation = as_operation (sc_scope call),
      ccb_interactive = (if as_interactive (sc_scope call) then Some True else None)\<rparr>"

text \<open>Creating or redeeming the confirmation: \<open>!input.confirmationId\<close> also holds of an empty id.\<close>

definition confirm_command ::
  "int \<Rightarrow> shell_call \<Rightarrow> string \<Rightarrow> native_path \<Rightarrow> string list \<Rightarrow> command_pending \<Rightarrow>
   prepared_command result \<times> command_pending" where
  "confirm_command ttlMs call logicalCwd absoluteCwd reasons pending =
     (case in_confirmationId (sc_input call) of
        Some (c # cs) \<Rightarrow>
          (case command_consume (sc_now1 call) (sc_now2 call) (c # cs) (call_binding call logicalCwd) pending of
             (Inl e, pending') \<Rightarrow> (Inl e, pending')
           | (Inr u, pending') \<Rightarrow> (Inr (AuthorizedCommandExecution logicalCwd absoluteCwd), pending'))
      | _ \<Rightarrow>
          (case command_create ttlMs (sc_now1 call) (sc_now2 call) (sc_newId call) (call_binding call logicalCwd) pending of
             (Inl e, pending') \<Rightarrow> (Inl e, pending')
           | (Inr (confirmationId, expiresAt), pending') \<Rightarrow>
               (Inr (CommandConfirmationRequired (in_shell (sc_input call)) logicalCwd confirmationId expiresAt reasons),
                pending')))"

definition interactive_reasons :: "authorization_decision \<Rightarrow> string list" where
  "interactive_reasons decision =
     unique_reasons ((case decision of Confirmation_required reasons \<Rightarrow> reasons | _ \<Rightarrow> []) @
       [''interactive process grants persistent stdin access''])"

text \<open>What \<open>prepareCommand\<close> decides before it uses the registry.\<close>

definition prepare_decision :: "shell_env \<Rightarrow> shell_call \<Rightarrow> (string \<times> native_path \<times> authorization_decision) result" where
  "prepare_decision env call =
     (let workspace = sc_workspace call; input = sc_input call; shell = in_shell input; command = in_command input in
      bind_result (assertShellAllowed workspace (shell_text shell) shell) (\<lambda>_.
      case sc_aborted call of
        Some e \<Rightarrow> Inl e
      | None \<Rightarrow>
          bind_result (resolveShellCwd env workspace (in_cwd input)) (\<lambda>(logicalCwd, absoluteCwd).
          bind_result (enforceGitPushPolicy shell command) (\<lambda>_.
          let risk = classifyCommandRisk shell command in
          bind_result (decideCommandAuthorization env workspace shell command logicalCwd absoluteCwd
                 (cr_destructive risk) (cr_reasons risk)) (\<lambda>decided.
          case decided of
            Blocked code reason \<Rightarrow> Inl (AppError code reason)
          | decision \<Rightarrow> Inr (logicalCwd, absoluteCwd, decision))))))"

definition prepareCommand ::
  "shell_env \<Rightarrow> int \<Rightarrow> shell_call \<Rightarrow> command_pending \<Rightarrow> prepared_command result \<times> command_pending" where
  "prepareCommand env ttlMs call pending =
     (case prepare_decision env call of
        Inl e \<Rightarrow> (Inl e, pending)
      | Inr (logicalCwd, absoluteCwd, decision) \<Rightarrow>
          if as_interactive (sc_scope call) then
            confirm_command ttlMs call logicalCwd absoluteCwd (interactive_reasons decision) pending
          else
            (case decision of
               Confirmation_required reasons \<Rightarrow> confirm_command ttlMs call logicalCwd absoluteCwd reasons pending
             | _ \<Rightarrow> (Inr (AuthorizedCommandExecution logicalCwd absoluteCwd), pending)))"

subsection \<open>Calls as operations on the registry\<close>

text \<open>The registry operation that a call makes; it does not depend on the registry.\<close>

definition call_op :: "shell_env \<Rightarrow> shell_call \<Rightarrow> (CommandConfirmationBinding, unit) conf_op option" where
  "call_op env call =
     (case prepare_decision env call of
        Inl e \<Rightarrow> None
      | Inr (logicalCwd, absoluteCwd, decision) \<Rightarrow>
          if as_interactive (sc_scope call) \<or> (\<exists>reasons. decision = Confirmation_required reasons) then
            Some (case in_confirmationId (sc_input call) of
                    Some (c # cs) \<Rightarrow> Redeem (sc_now1 call) (sc_now2 call) (c # cs) (call_binding call logicalCwd)
                  | _ \<Rightarrow> Issue (sc_now1 call) (sc_now2 call) (sc_newId call) (call_binding call logicalCwd))
          else None)"

lemma confirm_command_step:
  "conf_step (command_create ttlMs) command_consume command_discard
     (case in_confirmationId (sc_input call) of
        Some (c # cs) \<Rightarrow> Redeem (sc_now1 call) (sc_now2 call) (c # cs) (call_binding call lc)
      | _ \<Rightarrow> Issue (sc_now1 call) (sc_now2 call) (sc_newId call) (call_binding call lc)) m =
   (is_ok (fst (confirm_command ttlMs call lc ac reasons m)), snd (confirm_command ttlMs call lc ac reasons m))"
  by (auto simp: confirm_command_def split: option.splits list.splits prod.splits sum.splits)

lemma prepare_step:
  "case call_op env call of
     None \<Rightarrow> snd (prepareCommand env ttlMs call m) = m
   | Some op \<Rightarrow> conf_step (command_create ttlMs) command_consume command_discard op m =
       (is_ok (fst (prepareCommand env ttlMs call m)), snd (prepareCommand env ttlMs call m))"
proof (cases "prepare_decision env call")
  case (Inl e)
  then show ?thesis by (simp add: call_op_def prepareCommand_def)
next
  case (Inr d)
  obtain lc ac decision where d: "d = (lc, ac, decision)" using prod_cases3 by blast
  show ?thesis
    using Inr d confirm_command_step [of ttlMs call lc m ac]
    by (cases decision) (auto simp: call_op_def prepareCommand_def)
qed

text \<open>A call that issues a confirmation answers with its id and expiry.\<close>

lemma issue_answer:
  assumes "call_op env call = Some (Issue n1 n2 c b)"
  shows "\<exists>lc reasons. fst (prepareCommand env ttlMs call m) =
      Inr (CommandConfirmationRequired (in_shell (sc_input call)) lc c (n2 + ttlMs) reasons) \<and> b = call_binding call lc"
proof -
  obtain lc ac decision where dec: "prepare_decision env call = Inr (lc, ac, decision)"
    using assms by (auto simp: call_op_def split: sum.splits)
  have answer: "fst (confirm_command ttlMs call lc ac reasons m) =
      Inr (CommandConfirmationRequired (in_shell (sc_input call)) lc c (n2 + ttlMs) reasons)" for reasons
    using assms dec
    by (auto simp: call_op_def confirm_command_def command_create_def Let_def
        split: option.splits list.splits if_splits)
  have "b = call_binding call lc"
    using assms dec by (auto simp: call_op_def split: option.splits list.splits if_splits)
  with answer dec assms show ?thesis
    by (cases decision) (auto simp: prepareCommand_def call_op_def split: if_splits)
qed

definition redeems :: "shell_env \<Rightarrow> shell_call \<Rightarrow> string \<Rightarrow> bool" where
  "redeems env call c \<longleftrightarrow> (\<exists>n1 n2 b. call_op env call = Some (Redeem n1 n2 c b))"

text \<open>
  The confirmation \<open>c\<close> for binding \<open>b\<close> and expiry \<open>e\<close> was answered to the \<open>i\<close>-th of these
  calls, and no later one redeemed it.
\<close>

definition answered ::
  "shell_env \<Rightarrow> shell_call list \<Rightarrow> prepared_command result list \<Rightarrow> nat \<Rightarrow> string \<Rightarrow>
   CommandConfirmationBinding \<Rightarrow> instant \<Rightarrow> bool" where
  "answered env calls results i c b e \<longleftrightarrow> i < length calls \<and>
     (\<exists>lc reasons. results ! i = Inr (CommandConfirmationRequired (in_shell (sc_input (calls ! i))) lc c e reasons) \<and>
        b = call_binding (calls ! i) lc) \<and>
     (\<forall>j. i < j \<longrightarrow> j < length calls \<longrightarrow> redeems env (calls ! j) c \<longrightarrow> \<not> is_ok (results ! j))"

lemma answered_snoc:
  assumes "answered env calls results i c b e" and "length results = length calls"
    and "redeems env call c \<Longrightarrow> \<not> is_ok r"
  shows "answered env (calls @ [call]) (results @ [r]) i c b e"
  using assms by (auto simp: answered_def nth_append less_Suc_eq)

lemma entries_answered:
  "run_ops (prepareCommand env ttlMs) calls [] = (results, m) \<Longrightarrow>
   js_wf m \<and> length results = length calls \<and>
   (\<forall>c b e. command_entry m c = Some (b, e) \<longrightarrow> (\<exists>i. answered env calls results i c b e))"
proof (induction calls arbitrary: results m rule: rev_induct)
  case Nil
  then show ?case by (simp add: map_entry_def)
next
  case (snoc call calls)
  obtain results1 m1 where run: "run_ops (prepareCommand env ttlMs) calls [] = (results1, m1)" by fastforce
  obtain r m2 where step: "prepareCommand env ttlMs call m1 = (r, m2)" by fastforce
  have eqs: "results = results1 @ [r]" "m = m2"
    using snoc.prems run step by (simp_all add: run_ops_append)
  from snoc.IH [OF run] have wf: "js_wf m1" and len: "length results1 = length calls"
    and old: "\<And>c b e. command_entry m1 c = Some (b, e) \<Longrightarrow> \<exists>i. answered env calls results1 i c b e"
    by auto
  show ?case
  proof (cases "call_op env call")
    case None
    with prepare_step [where env = env and call = call and ttlMs = ttlMs and m = m1] step have "m2 = m1" by simp
    moreover have "\<not> redeems env call c" for c using None by (simp add: redeems_def)
    ultimately show ?thesis
      using wf len eqs old answered_snoc [OF _ len] by (metis length_append_singleton)
  next
    case (Some op)
    with prepare_step [where env = env and call = call and ttlMs = ttlMs and m = m1] step
    have conf: "conf_step (command_create ttlMs) command_consume command_discard op m1 = (is_ok r, m2)" by simp
    have wf2: "js_wf m2" using cc.step_inv [OF wf, of ttlMs op] conf by simp
    have "\<exists>i. answered env (calls @ [call]) (results1 @ [r]) i c b e" if found: "command_entry m2 c = Some (b, e)" for c b e
    proof -
      consider "command_entry m1 c = Some (b, e)" "\<not> settles c (op, is_ok r)"
        | n1 n2 where "op = Issue n1 n2 c b" "e = n2 + ttlMs"
        using cc.step_entry [OF wf conf found] by blast
      then show ?thesis
      proof cases
        case 1
        then have "\<not> is_ok r" if "redeems env call c" using that Some by (auto simp: redeems_def)
        with old [OF 1(1)] show ?thesis using answered_snoc [OF _ len] by blast
      next
        case 2
        with issue_answer [where env = env and call = call and ttlMs = ttlMs and m = m1] Some step len
        have "answered env (calls @ [call]) (results1 @ [r]) (length calls) c b e"
          by (simp add: answered_def nth_append)
        then show ?thesis by blast
      qed
    qed
    with wf2 len eqs show ?thesis by simp
  qed
qed

subsection \<open>Properties\<close>

text \<open>
  C1. A destructive command runs only after its confirmation. In every sequence of calls of
  \<open>prepareCommand\<close> on a fresh service, when a call whose command is destructive, in a workspace
  that is not trusted, or that starts an interactive process, is authorised, it carries the id
  of a confirmation that an earlier call of the same workspace, shell, directory, command,
  context and operation was answered with, that has not expired, and that no call in between
  has redeemed.\<close>

theorem destructive_command_confirmed:
  assumes run: "run_ops (prepareCommand env ttlMs) (calls @ [call]) [] =
      (results @ [Inr (AuthorizedCommandExecution lc ac)], m)"
    and len: "length results = length calls"
    and risky: "as_interactive (sc_scope call) \<or> (\<not> trusted_workspace (sc_workspace call) \<and>
      cr_destructive (classifyCommandRisk (in_shell (sc_input call)) (in_command (sc_input call))))"
  shows "\<exists>c e i. in_confirmationId (sc_input call) = Some c \<and>
     answered env calls results i c (call_binding call lc) e \<and> sc_now1 call < e \<and> sc_now2 call < e"
proof -
  obtain results1 m1 where run1: "run_ops (prepareCommand env ttlMs) calls [] = (results1, m1)" by fastforce
  have last: "fst (prepareCommand env ttlMs call m1) = Inr (AuthorizedCommandExecution lc ac)" "results1 = results"
    using run run1 by (auto simp: run_ops_append case_prod_unfold)
  from entries_answered [OF run1] have wf: "js_wf m1"
    and entry: "\<And>c b e. command_entry m1 c = Some (b, e) \<Longrightarrow> \<exists>i. answered env calls results i c b e"
    using last(2) by auto
  obtain lc' ac' decision where dec: "prepare_decision env call = Inr (lc', ac', decision)"
    using last(1) by (auto simp: prepareCommand_def split: sum.splits)
  have "as_interactive (sc_scope call) \<or> (\<exists>reasons. decision = Confirmation_required reasons)"
    using risky dec
    by (auto simp: prepare_decision_def Let_def bind_result_Inr_iff decideCommandAuthorization_def
        split: option.splits)
  then obtain reasons where confirm: "prepareCommand env ttlMs call m1 = confirm_command ttlMs call lc' ac' reasons m1"
    using dec by (cases "as_interactive (sc_scope call)") (auto simp: prepareCommand_def)
  with last(1) obtain c cs where c: "in_confirmationId (sc_input call) = Some (c # cs)" "lc' = lc"
    and ok: "is_ok (fst (command_consume (sc_now1 call) (sc_now2 call) (c # cs) (call_binding call lc) m1))"
    by (auto simp: confirm_command_def command_create_def Let_def split: option.splits list.splits prod.splits sum.splits)
  from ok cc.redeem_ok [OF wf] obtain e where
    "command_entry m1 (c # cs) = Some (call_binding call lc, e)" "sc_now1 call < e" "sc_now2 call < e"
    by (auto simp: spec_redeem_True)
  with entry c(1) show ?thesis by blast
qed

definition demo_shell_call :: "string option \<Rightarrow> instant \<Rightarrow> shell_call" where
  "demo_shell_call cid now =
     \<lparr>sc_workspace = demo_workspace,
      sc_input = \<lparr>in_shell = Powershell, in_command = command_line powershell_quote [''rm'', ''x''], in_cwd = None,
        in_confirmationId = cid\<rparr>,
      sc_aborted = None,
      sc_scope = \<lparr>as_executionContext = Foreground, as_operation = ''run_command'', as_interactive = False\<rparr>,
      sc_now1 = now, sc_now2 = now, sc_newId = ''c1''\<rparr>"

definition demo_shell_env :: shell_env where
  "demo_shell_env = \<lparr>se_trusted = demo_trusted_env\<rparr>"

definition demo_shell_binding :: CommandConfirmationBinding where
  "demo_shell_binding = call_binding (demo_shell_call None 0) ''.''"

lemma demo_shell_call_fields [simp]:
  "in_confirmationId (sc_input (demo_shell_call cid now)) = cid" "in_shell (sc_input (demo_shell_call cid now)) = Powershell"
  "as_interactive (sc_scope (demo_shell_call cid now)) = False" "sc_now1 (demo_shell_call cid now) = now"
  "sc_now2 (demo_shell_call cid now) = now" "sc_newId (demo_shell_call cid now) = ''c1''"
  "call_binding (demo_shell_call cid now) ''.'' = demo_shell_binding"
  by (simp_all add: demo_shell_call_def demo_shell_binding_def call_binding_def)

theorem destructive_command_confirmed_witness:
  "\<exists>results e i. run_ops (prepareCommand demo_shell_env 1000)
       [demo_shell_call None 5, demo_shell_call (Some ''c1'') 7] [] =
       (results @ [Inr (AuthorizedCommandExecution ''.'' [''repo''])], []) \<and>
     answered demo_shell_env [demo_shell_call None 5] results i ''c1''
       (call_binding (demo_shell_call (Some ''c1'') 7) ''.'') e \<and> 7 < e"
proof -
  let ?command = "command_line powershell_quote [''rm'', ''x'']"
  have "\<not> re_test FORMAT_COMMAND_TEXT_PATTERN (normalizeForRisk Powershell ?command)" by code_simp
  then have format: "\<not> containsDiskFormatCommand Powershell ?command"
    by (simp add: containsDiskFormatCommand.simps)
  have "classifySimplePowerShellRisk Powershell ?command = Some [DELETE_REASON]"
    "classifyExternalExecutionRisk Powershell ?command = []"
    "\<not> containsFileRedirection (normalizeForRisk Powershell (maskPowerShellInertQuotedLiterals Powershell ?command))"
    by code_simp+
  with format have risk: "classifyCommandRisk Powershell ?command = \<lparr>cr_destructive = True, cr_reasons = [DELETE_REASON]\<rparr>"
    by (simp add: classifyCommandRisk_def command_reasons_def unique_reasons_def Let_def)
  have push: "\<not> gp_isPush (classifyGitPushIntent Powershell ?command)" by code_simp
  have cwd: "resolveShellCwd demo_shell_env demo_workspace None = Inr (''.'', [''repo''])"
    "assertShellAllowed demo_workspace (shell_text Powershell) Powershell = Inr ()" "\<not> trusted_workspace demo_workspace"
    by code_simp+
  then have decision: "prepare_decision demo_shell_env (demo_shell_call cid now) =
      Inr (''.'', [''repo''], Confirmation_required [DELETE_REASON])" for cid now
    by (simp add: prepare_decision_def demo_shell_call_def enforceGitPushPolicy_def push risk decideCommandAuthorization_def)
  define results where "results = [Inr (CommandConfirmationRequired Powershell ''.'' ''c1'' 1005 [DELETE_REASON]) :: prepared_command result]"
  have run: "run_ops (prepareCommand demo_shell_env 1000)
      ([demo_shell_call None 5] @ [demo_shell_call (Some ''c1'') 7]) [] =
      (results @ [Inr (AuthorizedCommandExecution ''.'' [''repo''])], [])"
    by (simp add: prepareCommand_def decision results_def confirm_command_def command_create_def command_consume_def
        command_pruneExpired_def js_delete_where_def Let_def)
  have "\<not> trusted_workspace (sc_workspace (demo_shell_call (Some ''c1'') 7))"
    "cr_destructive (classifyCommandRisk (in_shell (sc_input (demo_shell_call (Some ''c1'') 7)))
       (in_command (sc_input (demo_shell_call (Some ''c1'') 7))))"
    using cwd(3) by (simp_all add: demo_shell_call_def risk)
  with destructive_command_confirmed [OF run] obtain c e i where
    c: "in_confirmationId (sc_input (demo_shell_call (Some ''c1'') 7)) = Some c"
      "answered demo_shell_env [demo_shell_call None 5] results i c (call_binding (demo_shell_call (Some ''c1'') 7) ''.'') e"
      "sc_now2 (demo_shell_call (Some ''c1'') 7) < e"
    by (auto simp: results_def)
  then have "c = ''c1''" "7 < e" by (simp_all add: demo_shell_call_def)
  with c(2) run show ?thesis by auto
qed


lemma blocked_case_Inr:
  "(case d of Blocked code reason \<Rightarrow> Inl (AppError code reason) | e \<Rightarrow> Inr (x, y, e)) = (Inr (lc, ac, decision) :: (string \<times> native_path \<times> authorization_decision) result) \<longleftrightarrow>
   x = lc \<and> y = ac \<and> d = decision \<and> (\<forall>code reason. d \<noteq> Blocked code reason)"
  by (cases d) auto

lemma prepare_decision_decides:
  assumes "prepare_decision env call = Inr (lc, ac, decision)"
  shows "decideCommandAuthorization env (sc_workspace call) (in_shell (sc_input call)) (in_command (sc_input call)) lc ac
      (cr_destructive (classifyCommandRisk (in_shell (sc_input call)) (in_command (sc_input call))))
      (cr_reasons (classifyCommandRisk (in_shell (sc_input call)) (in_command (sc_input call)))) = Inr decision"
    and "decision \<noteq> Blocked code reason"
  using assms by (auto simp: prepare_decision_def Let_def bind_result_Inr_iff blocked_case_Inr split: option.splits)

lemma trusted_command_label: "authorizeTrustedWorkspaceCommand env input = Execute a \<Longrightarrow> a = ''trusted-workspace''"
  by (erule trusted_command_runs)

lemma prepare_decision_checks:
  assumes "prepare_decision env call = Inr (lc, ac, decision)"
  shows "assertShellAllowed (sc_workspace call) (shell_text (in_shell (sc_input call))) (in_shell (sc_input call)) = Inr ()"
    and "resolveShellCwd env (sc_workspace call) (in_cwd (sc_input call)) = Inr (lc, ac)"
    and "enforceGitPushPolicy (in_shell (sc_input call)) (in_command (sc_input call)) = Inr ()"
  using assms by (auto simp: prepare_decision_def Let_def bind_result_Inr_iff blocked_case_Inr split: option.splits)

lemma prepareCommand_authorised:
  assumes "fst (prepareCommand env ttlMs call m) = Inr (AuthorizedCommandExecution lc ac)"
  obtains decision where "prepare_decision env call = Inr (lc, ac, decision)"
proof -
  obtain lc' ac' decision where dec: "prepare_decision env call = Inr (lc', ac', decision)"
    using assms by (auto simp: prepareCommand_def split: sum.splits)
  have "lc' = lc \<and> ac' = ac" if "fst (confirm_command ttlMs call lc' ac' reasons m) = Inr (AuthorizedCommandExecution lc ac)" for reasons
    using that by (auto simp: confirm_command_def command_create_def Let_def split: option.splits list.splits prod.splits sum.splits)
  with assms dec have "lc' = lc \<and> ac' = ac"
    by (auto simp: prepareCommand_def split: if_splits authorization_decision.splits)
  with dec that show thesis by blast
qed

text \<open>
  An authorised command runs inside the workspace. When \<open>prepareCommand\<close> authorises a
  command, its shell is one the workspace allows, its working directory resolves to a directory
  below the canonical root of the workspace, is inside an \<open>allowShell\<close> entry and matches no
  blocked pattern, and the command is not a push to a protected branch. The hypothesis is that
  \<open>realpath\<close> returns paths without empty or \<open>..\<close> segments.\<close>

theorem command_runs_inside_workspace:
  assumes realpath: "realpath_canonical (se_paths env)"
    and ok: "fst (prepareCommand env ttlMs call m) = Inr (AuthorizedCommandExecution lc ac)"
  shows "in_shell (sc_input call) \<in> set (ws_allowedShells (sc_workspace call)) \<and>
    inside (pe_windows (se_paths env)) (ws_canonicalRootPath (sc_workspace call)) ac \<and>
    (\<exists>p. normalizeRelativePath (pe_windows (se_paths env)) True (case in_cwd (sc_input call) of None \<Rightarrow> ''.'' | Some d \<Rightarrow> d) = Inr p \<and>
       isAllowedShellPath env (sc_workspace call) p) \<and>
    enforceGitPushPolicy (in_shell (sc_input call)) (in_command (sc_input call)) = Inr ()"
proof -
  from prepareCommand_authorised [OF ok] obtain decision where dec: "prepare_decision env call = Inr (lc, ac, decision)" .
  note shell = prepare_decision_checks(1) [OF dec] and cwd = prepare_decision_checks(2) [OF dec]
    and push = prepare_decision_checks(3) [OF dec]
  from cwd obtain p a where p: "normalizeRelativePath (pe_windows (se_paths env)) True
      (case in_cwd (sc_input call) of None \<Rightarrow> ''.'' | Some d \<Rightarrow> d) = Inr p" "isAllowedShellPath env (sc_workspace call) p"
    and a: "authorizeExisting (se_paths env) (sc_workspace call) p (Some DirectoryKind) True = Inr a" "ac = ap_canonicalPath a"
    by (auto simp: resolveShellCwd_def bind_result_Inr_iff split: if_splits)
  have "in_shell (sc_input call) \<in> set (ws_allowedShells (sc_workspace call))"
    using shell by (auto simp: assertShellAllowed_def split: if_splits)
  with p push authorizeExisting_inside(2) [OF realpath a(1)] a(2) show ?thesis by blast
qed


definition demo_status_call :: shell_call where
  "demo_status_call = demo_shell_call None 5
     \<lparr>sc_input := \<lparr>in_shell = Powershell, in_command = command_line powershell_quote [''ls''], in_cwd = None,
        in_confirmationId = None\<rparr>\<rparr>"

theorem command_runs_inside_workspace_witness:
  "fst (prepareCommand demo_shell_env 1000 demo_status_call []) = Inr (AuthorizedCommandExecution ''.'' [''repo'']) \<and>
   inside False (ws_canonicalRootPath demo_workspace) [''repo'']"
proof -
  let ?command = "command_line powershell_quote [''ls'']"
  have "\<not> containsDiskFormatCommand Powershell ?command"
    "classifySimplePowerShellRisk Powershell ?command = Some []"
    "classifyExternalExecutionRisk Powershell ?command = []"
    "\<not> containsFileRedirection (normalizeForRisk Powershell (maskPowerShellInertQuotedLiterals Powershell ?command))"
    "\<not> gp_isPush (classifyGitPushIntent Powershell ?command)"
    by code_simp+
  then have risk: "classifyCommandRisk Powershell ?command = \<lparr>cr_destructive = False, cr_reasons = []\<rparr>"
    "\<not> gp_isPush (classifyGitPushIntent Powershell ?command)"
    by (simp_all add: classifyCommandRisk_def command_reasons_def unique_reasons_def Let_def)
  have cwd: "resolveShellCwd demo_shell_env demo_workspace None = Inr (''.'', [''repo''])"
    "assertShellAllowed demo_workspace (shell_text Powershell) Powershell = Inr ()" "\<not> trusted_workspace demo_workspace"
    by code_simp+
  with risk have ok: "fst (prepareCommand demo_shell_env 1000 demo_status_call []) = Inr (AuthorizedCommandExecution ''.'' [''repo''])"
    by (simp add: prepareCommand_def prepare_decision_def demo_status_call_def demo_shell_call_def enforceGitPushPolicy_def
        decideCommandAuthorization_def)
  have "realpath_canonical (se_paths demo_shell_env)" by (simp add: demo_shell_env_def demo_trusted_env_def demo_path_env_canonical)
  from command_runs_inside_workspace [OF this ok] ok show ?thesis
    by (simp add: demo_status_call_def demo_shell_call_def demo_shell_env_def demo_trusted_env_def demo_path_env_def)
qed

text \<open>
  What runs without a confirmation. When \<open>prepareCommand\<close> authorises a command that carries no
  confirmation id, the process is not interactive, and either the command is not destructive or
  the workspace is trusted and \<open>authorizeTrustedWorkspaceCommand\<close> has accepted it; in a trusted
  workspace it is moreover no critical command.\<close>

theorem unconfirmed_command_allowed:
  assumes ok: "fst (prepareCommand env ttlMs call m) = Inr (AuthorizedCommandExecution lc ac)"
    and noid: "in_confirmationId (sc_input call) = None"
  shows "\<not> as_interactive (sc_scope call) \<and>
    (let workspace = sc_workspace call; shell = in_shell (sc_input call); command = in_command (sc_input call);
         risk = classifyCommandRisk shell command in
     (trusted_workspace workspace \<longrightarrow> trustedWorkspaceCriticalReason (pe_windows (se_paths env)) shell command = Inr None) \<and>
     (cr_destructive risk \<longrightarrow> trusted_workspace workspace \<and>
        authorizeTrustedWorkspaceCommand (se_trusted env)
          \<lparr>ti_workspace = workspace, ti_shell = shell, ti_command = command, ti_logicalCwd = lc,
           ti_absoluteCwd = ac, ti_fallbackReasons = cr_reasons risk\<rparr> = Execute ''trusted-workspace''))"
proof -
  obtain lc' ac' decision where dec: "prepare_decision env call = Inr (lc', ac', decision)"
    using ok by (auto simp: prepareCommand_def split: sum.splits)
  have confirm: "fst (confirm_command ttlMs call l a reasons m) \<noteq> Inr (AuthorizedCommandExecution lc ac)" for l a reasons
    using noid by (auto simp: confirm_command_def split: prod.splits sum.splits)
  from ok dec confirm have run: "\<not> as_interactive (sc_scope call)" "lc' = lc" "ac' = ac" "\<forall>reasons. decision \<noteq> Confirmation_required reasons"
    by (auto simp: prepareCommand_def split: if_split_asm authorization_decision.split_asm)
  obtain a where a: "decision = Execute a"
    using run(4) prepare_decision_decides(2) [OF dec] by (cases decision) auto
  from prepare_decision_decides(1) [OF dec] run a have decided: "decideCommandAuthorization env (sc_workspace call)
      (in_shell (sc_input call)) (in_command (sc_input call)) lc ac
      (cr_destructive (classifyCommandRisk (in_shell (sc_input call)) (in_command (sc_input call))))
      (cr_reasons (classifyCommandRisk (in_shell (sc_input call)) (in_command (sc_input call)))) = Inr (Execute a)" by simp
  show ?thesis
    using decided run(1) trusted_command_label
    by (auto simp: decideCommandAuthorization_def Let_def bind_result_Inr_iff split: option.split_asm if_split_asm)
qed

definition demo_trusted_call :: shell_call where
  "demo_trusted_call = demo_shell_call None 5
     \<lparr>sc_workspace := demo_workspace\<lparr>ws_confirmationMode := Trusted_workspace\<rparr>,
      sc_input := \<lparr>in_shell = Powershell, in_command = ''Remove-Item a.ts'', in_cwd = None, in_confirmationId = None\<rparr>\<rparr>"

theorem unconfirmed_command_allowed_witness:
  "fst (prepareCommand demo_shell_env 1000 demo_trusted_call []) = Inr (AuthorizedCommandExecution ''.'' [''repo'']) \<and>
   cr_destructive (classifyCommandRisk Powershell ''Remove-Item a.ts'') \<and>
   trustedWorkspaceCriticalReason False Powershell ''Remove-Item a.ts'' = Inr None"
proof -
  let ?command = "''Remove-Item a.ts''" and ?workspace = "demo_workspace\<lparr>ws_confirmationMode := Trusted_workspace\<rparr>"
  have "\<not> re_test FORMAT_COMMAND_TEXT_PATTERN (normalizeForRisk Powershell ?command)" by code_simp
  then have format: "\<not> containsDiskFormatCommand Powershell ?command"
    by (simp add: containsDiskFormatCommand.simps)
  have "classifySimplePowerShellRisk Powershell ?command = Some [DELETE_REASON]"
    "classifyExternalExecutionRisk Powershell ?command = []"
    "\<not> containsFileRedirection (normalizeForRisk Powershell (maskPowerShellInertQuotedLiterals Powershell ?command))"
    by code_simp+
  with format have risk: "classifyCommandRisk Powershell ?command = \<lparr>cr_destructive = True, cr_reasons = [DELETE_REASON]\<rparr>"
    by (simp add: classifyCommandRisk_def command_reasons_def unique_reasons_def Let_def)
  have push: "\<not> gp_isPush (classifyGitPushIntent Powershell ?command)" by code_simp
  have cwd: "resolveShellCwd demo_shell_env ?workspace None = Inr (''.'', [''repo''])"
    "assertShellAllowed ?workspace (shell_text Powershell) Powershell = Inr ()" "trusted_workspace ?workspace"
    "trustedWorkspaceCriticalReason (pe_windows (se_paths demo_shell_env)) Powershell ?command = Inr None"
    "authorizeTrustedWorkspaceCommand (se_trusted demo_shell_env)
       \<lparr>ti_workspace = ?workspace, ti_shell = Powershell, ti_command = ?command, ti_logicalCwd = ''.'',
        ti_absoluteCwd = [''repo''], ti_fallbackReasons = [DELETE_REASON]\<rparr> = Execute ''trusted-workspace''"
    by code_simp+
  have ok: "fst (prepareCommand demo_shell_env 1000 demo_trusted_call []) = Inr (AuthorizedCommandExecution ''.'' [''repo''])"
    using cwd by (simp add: prepareCommand_def prepare_decision_def demo_trusted_call_def demo_shell_call_def
        enforceGitPushPolicy_def push risk decideCommandAuthorization_def)
  have "in_confirmationId (sc_input demo_trusted_call) = None" by (simp add: demo_trusted_call_def)
  note allowed = unconfirmed_command_allowed [OF ok this]
  have "sc_workspace demo_trusted_call = ?workspace" "in_shell (sc_input demo_trusted_call) = Powershell"
    "in_command (sc_input demo_trusted_call) = ?command" "\<not> pe_windows (se_paths demo_shell_env)"
    by (simp_all add: demo_trusted_call_def demo_shell_env_def demo_trusted_env_def demo_path_env_def)
  with allowed ok risk cwd(3) show ?thesis by (simp add: Let_def)
qed

end
