(* ===== verification/Workspace_Registry.thy ===== *)
theory Workspace_Registry
  imports Path_Security
begin

text \<open>
  The registry of workspaces of the agent: \<open>services/workspace-agent/src/workspace-registry.ts\<close>.
  A policy is validated and each workspace is resolved against the file system.

  \<open>rg_realpath\<close> is \<open>realpath\<close> on the text of a root path (\<open>None\<close> when it throws);
  \<open>native_of\<close> is the absolute path that \<open>path.resolve\<close> makes of it. Reading the policy file and
  \<open>JSON.parse\<close> in \<open>load\<close> come before \<open>fromPolicy\<close> and are left out.
\<close>

record registry_env =
  rg_paths :: path_env
  rg_realpath :: "string \<Rightarrow> native_path option"
  rg_le :: "string \<Rightarrow> string \<Rightarrow> bool"

abbreviation rg_windows :: "registry_env \<Rightarrow> bool" where
  "rg_windows env \<equiv> pe_windows (rg_paths env)"

definition path_isAbsolute :: "bool \<Rightarrow> string \<Rightarrow> bool" where
  "path_isAbsolute windows s \<longleftrightarrow> (if windows then win32_isAbsolute s else posix_isAbsolute s)"

text \<open>The segments of an absolute path, the drive first on Windows.\<close>

definition native_of :: "bool \<Rightarrow> string \<Rightarrow> native_path" where
  "native_of windows s =
     (if windows \<and> drive_prefix s then take 2 s # path_resolve [] (js_split slash (forward_slashes (drop 2 s)))
      else path_resolve [] (js_split slash (if windows then forward_slashes s else s)))"

fun map_result :: "('a \<Rightarrow> 'b result) \<Rightarrow> 'a list \<Rightarrow> 'b list result" where
  "map_result f [] = Inr []"
| "map_result f (x # xs) = bind_result (f x) (\<lambda>y. bind_result (map_result f xs) (\<lambda>ys. Inr (y # ys)))"

definition policy_invalid :: "string \<Rightarrow> exn" where
  "policy_invalid message = AppError POLICY_INVALID message"

definition only_root :: "ResolvedAllowedRoot list \<Rightarrow> bool" where
  "only_root roots \<longleftrightarrow> (case roots of [r] \<Rightarrow> ar_logicalPath r = ''.'' | _ \<Rightarrow> False)"

text \<open>The checks of the profile on the allowed roots.\<close>

definition check_profile :: "WorkspacePolicy \<Rightarrow> ResolvedAllowedRoot list \<Rightarrow> unit result" where
  "check_profile workspace allowedRoots =
     (if wp_permissionProfile workspace = Full_repo_readonly \<and> \<not> only_root allowedRoots then
        Inl (policy_invalid ''full-repo-readonly requires allowedRoots to contain only '.'.'')
      else if wp_permissionProfile workspace = Full_repo_write \<and>
              (\<not> only_root allowedRoots \<or> wp_allowWrites workspace = []) then
        Inl (policy_invalid ''full-repo-write requires allowedRoots ['.'] and a non-empty allowWrites list.'')
      else Inr ())"

definition canonical_root :: "registry_env \<Rightarrow> WorkspacePolicy \<Rightarrow> native_path result" where
  "canonical_root env workspace =
     (if \<not> path_isAbsolute (rg_windows env) (wp_rootPath workspace) then
        Inl (policy_invalid ''Workspace rootPath must be absolute.'')
      else
        (case rg_realpath env (wp_rootPath workspace) of
           None \<Rightarrow> Inl (policy_invalid ''Workspace rootPath is not a directory.'')
         | Some canonicalRootPath \<Rightarrow>
             if pe_stat (rg_paths env) canonicalRootPath = Some Is_directory then Inr canonicalRootPath
             else Inl (policy_invalid ''Workspace rootPath is not a directory.'')))"

definition resolve_workspace :: "registry_env \<Rightarrow> WorkspacePolicy \<Rightarrow> ResolvedWorkspace result" where
  "resolve_workspace env workspace =
     bind_result (canonical_root env workspace) (\<lambda>canonicalRootPath.
     let rootPath = native_of (rg_windows env) (wp_rootPath workspace) in
     bind_result (map_result (resolveAllowedRoot (rg_paths env) canonicalRootPath rootPath) (wp_allowedRoots workspace)) (\<lambda>allowedRoots.
     bind_result (check_profile workspace allowedRoots) (\<lambda>_.
     bind_result (map_result (normalizeRelativePath (rg_windows env) True) (wp_allowWrites workspace)) (\<lambda>allowWrites.
     bind_result (map_result (normalizeRelativePath (rg_windows env) True) (wp_allowShell workspace)) (\<lambda>allowShell.
     Inr \<lparr>ws_id = wp_id workspace, ws_name = wp_name workspace, ws_rootPath = rootPath,
          ws_workspaceKind = (case wp_workspaceKind workspace of None \<Rightarrow> Repository | Some k \<Rightarrow> k),
          ws_canonicalRootPath = canonicalRootPath, ws_enabled = wp_enabled workspace,
          ws_permissionProfile = wp_permissionProfile workspace, ws_confirmationMode = wp_confirmationMode workspace,
          ws_allowedRoots = allowedRoots, ws_blockedGlobs = js_unique (mandatoryBlockedGlobs @ wp_blockedGlobs workspace),
          ws_limits = wp_limits workspace, ws_allowWrites = allowWrites, ws_allowShell = allowShell,
          ws_allowedShells = wp_allowedShells workspace, ws_sourceControl = wp_sourceControl workspace\<rparr>)))))"

type_synonym workspace_registry = "(string, ResolvedWorkspace) jsmap"

fun resolve_into :: "registry_env \<Rightarrow> WorkspacePolicy list \<Rightarrow> workspace_registry \<Rightarrow> workspace_registry result" where
  "resolve_into env [] resolved = Inr resolved"
| "resolve_into env (workspace # workspaces) resolved =
     bind_result (resolve_workspace env workspace) (\<lambda>r.
     resolve_into env workspaces (js_set (wp_id workspace) r resolved))"

definition resolveWorkspaces :: "registry_env \<Rightarrow> PolicyFile \<Rightarrow> workspace_registry result" where
  "resolveWorkspaces env policy = resolve_into env (pf_workspaces policy) []"

definition fromPolicy :: "registry_env \<Rightarrow> PolicyFile \<Rightarrow> workspace_registry result" where
  "fromPolicy env policy =
     (case policyFileSchema policy of
        None \<Rightarrow> Inl (policy_invalid ''Policy object does not match schema.'')
      | Some parsed \<Rightarrow> resolveWorkspaces env parsed)"

record WorkspaceSummary =
  su_id :: string
  su_name :: string
  su_workspaceKind :: WorkspaceKind
  su_permissionProfile :: PermissionProfile
  su_confirmationMode :: ConfirmationMode
  su_writesEnabled :: bool
  su_shellsEnabled :: bool
  su_allowedShells :: "ShellName list"

definition listEnabled :: "registry_env \<Rightarrow> workspace_registry \<Rightarrow> WorkspaceSummary list" where
  "listEnabled env registry =
     js_sort (\<lambda>l r. rg_le env (su_id l) (su_id r))
       (map (\<lambda>w. \<lparr>su_id = ws_id w, su_name = ws_name w, su_workspaceKind = ws_workspaceKind w,
          su_permissionProfile = ws_permissionProfile w, su_confirmationMode = ws_confirmationMode w,
          su_writesEnabled = (ws_permissionProfile w = Full_repo_write \<and> ws_allowWrites w \<noteq> []),
          su_shellsEnabled = (ws_permissionProfile w = Full_repo_write \<and> ws_allowShell w \<noteq> []),
          su_allowedShells = ws_allowedShells w\<rparr>)
         (filter ws_enabled (js_values registry)))"

definition registry_get :: "string \<Rightarrow> workspace_registry \<Rightarrow> ResolvedWorkspace result" where
  "registry_get workspaceId registry =
     (case js_get registry workspaceId of
        None \<Rightarrow> Inl (AppError WORKSPACE_NOT_FOUND ''Workspace was not found.'')
      | Some workspace \<Rightarrow>
          if \<not> ws_enabled workspace then Inl (AppError WORKSPACE_DISABLED ''Workspace is disabled.'') else Inr workspace)"

definition registry_all :: "workspace_registry \<Rightarrow> ResolvedWorkspace list" where
  "registry_all registry = js_values registry"

subsection \<open>Resolved workspaces\<close>

lemma map_result_Inr: "map_result f xs = Inr ys \<longleftrightarrow> list_all2 (\<lambda>x y. f x = Inr y) xs ys"
  by (induction xs arbitrary: ys) (auto simp: bind_result_Inr_iff list_all2_Cons1)

lemma resolve_into_get:
  assumes "resolve_into env workspaces resolved = Inr registry" and "js_get registry i = Some r"
  shows "js_get resolved i = Some r \<or> (\<exists>w \<in> set workspaces. wp_id w = i \<and> resolve_workspace env w = Inr r)"
  using assms
proof (induction env workspaces resolved rule: resolve_into.induct)
  case (2 env w ws resolved)
  from "2.prems"(1) obtain v where v: "resolve_workspace env w = Inr v"
    "resolve_into env ws (js_set (wp_id w) v resolved) = Inr registry"
    by (auto simp: bind_result_Inr_iff)
  from "2.IH" [OF v(2) "2.prems"(2)] v(1) show ?case by (auto simp: js_map_simps split: if_split_asm)
qed simp

lemma resolveAllowedRoot_inside:
  assumes "realpath_canonical env" and "resolveAllowedRoot env canonicalRoot rootPath p = Inr r"
  shows "inside (pe_windows env) canonicalRoot (ar_canonicalPath r)" and "is_ok (normalizeRelativePath (pe_windows env) True p)"
proof -
  from assms(2) obtain q where q: "normalizeRelativePath (pe_windows env) True p = Inr q"
    by (cases "normalizeRelativePath (pe_windows env) True p") (simp_all add: resolveAllowedRoot_def)
  with assms(2) obtain c where c: "pe_realpath env (toNativeAbsolute rootPath q) = Some c"
    by (cases "pe_realpath env (toNativeAbsolute rootPath q)") (simp_all add: resolveAllowedRoot_def)
  with assms(2) q have real: "pe_realpath env (toNativeAbsolute rootPath q) = Some (ar_canonicalPath r)"
    and contained: "isContained (pe_windows env) canonicalRoot (ar_canonicalPath r)"
    by (auto simp: resolveAllowedRoot_def Let_def split: option.split_asm if_split_asm stat_result.split_asm)
  from isContained_iff [OF realpath_canonicalD [OF assms(1) real]] contained
  show "inside (pe_windows env) canonicalRoot (ar_canonicalPath r)" by simp
  show "is_ok (normalizeRelativePath (pe_windows env) True p)" using q by simp
qed

lemma resolve_workspace_facts:
  assumes real: "realpath_canonical (rg_paths env)" and ok: "resolve_workspace env w = Inr r"
  shows "ws_id r = wp_id w" "ws_permissionProfile r = wp_permissionProfile w" "ws_confirmationMode r = wp_confirmationMode w"
    "set (ws_blockedGlobs r) = set mandatoryBlockedGlobs \<union> set (wp_blockedGlobs w)"
    "length (ws_allowedRoots r) = length (wp_allowedRoots w)"
    "\<forall>a \<in> set (ws_allowedRoots r). inside (rg_windows env) (ws_canonicalRootPath r) (ar_canonicalPath a)"
    "ws_permissionProfile r = Full_repo_write \<Longrightarrow> only_root (ws_allowedRoots r) \<and> ws_allowWrites r \<noteq> []"
    "ws_permissionProfile r = Full_repo_readonly \<Longrightarrow> only_root (ws_allowedRoots r)"
    "pe_stat (rg_paths env) (ws_canonicalRootPath r) = Some Is_directory"
    "ws_enabled r = wp_enabled w"
proof -
  from ok obtain canonicalRootPath roots allowWrites allowShell where
    root: "canonical_root env w = Inr canonicalRootPath"
    and roots: "map_result (resolveAllowedRoot (rg_paths env) canonicalRootPath (native_of (rg_windows env) (wp_rootPath w)))
      (wp_allowedRoots w) = Inr roots"
    and profile: "check_profile w roots = Inr ()"
    and writes: "map_result (normalizeRelativePath (rg_windows env) True) (wp_allowWrites w) = Inr allowWrites"
    and r: "ws_id r = wp_id w" "ws_permissionProfile r = wp_permissionProfile w" "ws_confirmationMode r = wp_confirmationMode w"
      "ws_blockedGlobs r = js_unique (mandatoryBlockedGlobs @ wp_blockedGlobs w)" "ws_allowedRoots r = roots"
      "ws_canonicalRootPath r = canonicalRootPath" "ws_allowWrites r = allowWrites" "ws_enabled r = wp_enabled w"
    by (auto simp: resolve_workspace_def bind_result_Inr_iff Let_def)
  note all2 = roots [unfolded map_result_Inr] and writes2 = writes [unfolded map_result_Inr]
  show "ws_id r = wp_id w" "ws_permissionProfile r = wp_permissionProfile w" "ws_confirmationMode r = wp_confirmationMode w"
    "ws_enabled r = wp_enabled w" by (fact r)+
  show "set (ws_blockedGlobs r) = set mandatoryBlockedGlobs \<union> set (wp_blockedGlobs w)" using r(4) by simp
  show "length (ws_allowedRoots r) = length (wp_allowedRoots w)" using list_all2_lengthD [OF all2] r(5) by simp
  show "\<forall>a \<in> set (ws_allowedRoots r). inside (rg_windows env) (ws_canonicalRootPath r) (ar_canonicalPath a)"
    using all2 r(5,6) resolveAllowedRoot_inside(1) [OF real]
    by (auto simp: list_all2_conv_all_nth in_set_conv_nth) blast
  have writes_ne: "allowWrites \<noteq> [] \<longleftrightarrow> wp_allowWrites w \<noteq> []" using list_all2_lengthD [OF writes2] by auto
  show "ws_permissionProfile r = Full_repo_write \<Longrightarrow> only_root (ws_allowedRoots r) \<and> ws_allowWrites r \<noteq> []"
    "ws_permissionProfile r = Full_repo_readonly \<Longrightarrow> only_root (ws_allowedRoots r)"
    using profile r writes_ne by (auto simp: check_profile_def split: if_split_asm)
  show "pe_stat (rg_paths env) (ws_canonicalRootPath r) = Some Is_directory"
    using root r(6) by (auto simp: canonical_root_def split: if_split_asm option.split_asm)
qed

lemma fromPolicy_workspace:
  assumes "fromPolicy env policy = Inr registry" and "registry_get i registry = Inr r"
  obtains w v where "w \<in> set (pf_workspaces policy)" "workspacePolicySchema w = Some v" "wp_id v = i"
    "resolve_workspace env v = Inr r" "ws_enabled r"
proof -
  from assms(1) obtain vs where vs: "parse_workspaces (pf_workspaces policy) = Some vs"
    and into: "resolve_into env vs [] = Inr registry"
    by (auto simp: fromPolicy_def policyFileSchema_def resolveWorkspaces_def split: option.split_asm if_split_asm)
  from assms(2) have get: "js_get registry i = Some r" "ws_enabled r"
    by (auto simp: registry_get_def split: option.split_asm if_split_asm)
  from resolve_into_get [OF into get(1)] obtain v where "v \<in> set vs" "wp_id v = i" "resolve_workspace env v = Inr r" by auto
  with parse_workspaces_Some [OF vs] get(2) that show thesis by blast
qed

lemma not_matched_blocked:
  assumes "matchedBlockedPattern env workspace p \<in> {None, Some []}" and "[] \<notin> set (ws_blockedGlobs workspace)"
    and "g \<in> set (ws_blockedGlobs workspace)"
  shows "\<not> pe_glob_match env g (if p = ''.'' then [] else p)"
proof -
  have "matchedBlockedPattern env workspace p \<noteq> Some []"
    using assms(2) by (auto simp: matchedBlockedPattern_def Let_def find_Some_iff in_set_conv_nth)
  with assms(1) have "matchedBlockedPattern env workspace p = None" by blast
  with assms(3) show ?thesis by (auto simp: matchedBlockedPattern_def Let_def find_None_iff)
qed

subsection \<open>Properties\<close>

text \<open>
  C37. A workspace of a loaded registry is confined. When \<open>fromPolicy\<close> succeeds, every workspace
  that \<open>get\<close> returns is enabled and has the requested id, its root is a directory, its allowed
  roots resolve inside that root, full read or write profiles have the single root \<open>.\<close> (and a
  write list), the trusted mode only comes with the full-write profile, and every mandatory
  pattern (environment files, keys, credentials, \<open>.git\<close>, build output) is blocked: no path that
  \<open>authorizeExisting\<close> accepts there matches one, neither as requested nor as resolved.\<close>

theorem registry_workspace_confined:
  assumes real: "realpath_canonical (rg_paths env)"
    and load: "fromPolicy env policy = Inr registry" and get: "registry_get i registry = Inr r"
  shows "ws_id r = i \<and> ws_enabled r \<and> pe_stat (rg_paths env) (ws_canonicalRootPath r) = Some Is_directory \<and>
    ws_allowedRoots r \<noteq> [] \<and>
    (\<forall>a \<in> set (ws_allowedRoots r). inside (rg_windows env) (ws_canonicalRootPath r) (ar_canonicalPath a)) \<and>
    (ws_permissionProfile r = Full_repo_write \<longrightarrow> only_root (ws_allowedRoots r) \<and> ws_allowWrites r \<noteq> []) \<and>
    (ws_permissionProfile r = Full_repo_readonly \<longrightarrow> only_root (ws_allowedRoots r)) \<and>
    (ws_confirmationMode r = Trusted_workspace \<longrightarrow> ws_permissionProfile r = Full_repo_write) \<and>
    (\<forall>input kind dot a. authorizeExisting (rg_paths env) r input kind dot = Inr a \<longrightarrow>
       (\<forall>g \<in> set mandatoryBlockedGlobs. \<forall>p \<in> {ap_logicalPath a, ap_canonicalRelativePath a}.
          \<not> pe_glob_match (rg_paths env) g (if p = ''.'' then [] else p)))"
proof -
  from fromPolicy_workspace [OF load get] obtain w v where v: "workspacePolicySchema w = Some v" "wp_id v = i"
    "resolve_workspace env v = Inr r" "ws_enabled r" by blast
  note facts = resolve_workspace_facts [OF real v(3)] and schema = workspacePolicySchema_Some [OF v(1)]
  have nonempty: "[] \<notin> set (ws_blockedGlobs r)" using facts(4) schema(3) by (auto simp: mandatoryBlockedGlobs_def)
  have globs: "set mandatoryBlockedGlobs \<subseteq> set (ws_blockedGlobs r)" using facts(4) by auto
  have blocked: "\<not> pe_glob_match (rg_paths env) g (if p = ''.'' then [] else p)"
    if a: "authorizeExisting (rg_paths env) r input kind dot = Inr a" and g: "g \<in> set mandatoryBlockedGlobs"
      and p: "p \<in> {ap_logicalPath a, ap_canonicalRelativePath a}" for input kind dot a g p
  proof -
    note inside = authorizeExisting_inside [OF real a]
    have "matchedBlockedPattern (rg_paths env) r (ap_logicalPath a) \<in> {None, Some []}"
      using inside(5) by (auto simp: authorizeLogical_def bind_result_Inr_iff split: if_split_asm)
    with inside(4) p have "matchedBlockedPattern (rg_paths env) r p \<in> {None, Some []}" by auto
    from not_matched_blocked [OF this nonempty] g globs show ?thesis by blast
  qed
  have "ws_allowedRoots r \<noteq> []" using facts(5) schema(2) by (metis length_0_conv)
  with facts v schema(5) blocked show ?thesis by auto
qed

definition demo_policy :: WorkspacePolicy where
  "demo_policy = demo_limits_policy\<lparr>wp_id := ''a'', wp_enabled := True, wp_permissionProfile := Full_repo_readonly,
     wp_rootPath := ''/repo'', wp_allowedRoots := [''.'']\<rparr>"

definition demo_registry_env :: registry_env where
  "demo_registry_env = \<lparr>rg_paths = demo_path_env, rg_realpath = (\<lambda>s. if s = ''/repo'' then Some [''repo''] else None),
     rg_le = (\<lambda>x y. True)\<rparr>"

theorem registry_workspace_confined_witness:
  "\<exists>registry r. fromPolicy demo_registry_env \<lparr>pf_workspaces = [demo_policy]\<rparr> = Inr registry \<and>
     registry_get ''a'' registry = Inr r \<and> only_root (ws_allowedRoots r) \<and>
     (\<forall>a \<in> set (ws_allowedRoots r). inside False (ws_canonicalRootPath r) (ar_canonicalPath a))"
proof -
  have real: "realpath_canonical (rg_paths demo_registry_env)" by (simp add: demo_registry_env_def demo_path_env_canonical)
  have "(case fromPolicy demo_registry_env \<lparr>pf_workspaces = [demo_policy]\<rparr> of
      Inl e \<Rightarrow> False
    | Inr registry \<Rightarrow> (case registry_get ''a'' registry of Inl e \<Rightarrow> False | Inr r \<Rightarrow> ws_permissionProfile r = Full_repo_readonly))"
    by code_simp
  then obtain registry r where load: "fromPolicy demo_registry_env \<lparr>pf_workspaces = [demo_policy]\<rparr> = Inr registry"
    and get: "registry_get ''a'' registry = Inr r" and "ws_permissionProfile r = Full_repo_readonly"
    by (auto split: sum.split_asm)
  moreover have "rg_windows demo_registry_env = False" by (simp add: demo_registry_env_def demo_path_env_def)
  ultimately show ?thesis
    using registry_workspace_confined [OF real load get] by (intro exI [of _ registry] exI [of _ r]) simp
qed

text \<open>
  Automatic write access can make a policy unloadable. An explicit workspace restricted to one
  of its folders that lies below the development root becomes a full-write one, but keeps its
  allowed roots; the registry refuses such a policy as a whole.\<close>

theorem merged_policy_unloadable:
  "(case mergeWorkspacePolicies demo_merge_env
       [\<lparr>ep_workspace = demo_limits_policy\<lparr>wp_enabled := True, wp_rootPath := ''/repo'', wp_allowedRoots := [''a.ts'']\<rparr>,
         ep_canonicalRootPath = ''/repo''\<rparr>] [demo_candidate ''/repo'']
       (demo_options\<lparr>mo_enableDevelopmentWrites := Some True, mo_developmentRootPath := Some ''/''\<rparr>) of
      Inl e \<Rightarrow> False
    | Inr (policy, catalog) \<Rightarrow> fromPolicy demo_registry_env policy =
        Inl (policy_invalid ''full-repo-write requires allowedRoots ['.'] and a non-empty allowWrites list.''))"
  by code_simp

end
