(* ===== verification/Task_Registry.thy ===== *)
theory Task_Registry
  imports Prelude
begin

text \<open>
  \<open>BrowserTaskRegistry\<close> of \<open>services/browser-worker/domain/browser-task-registry.ts\<close>:
  browser tasks with an owner scope, the tabs each task holds, the index from tabs to tasks,
  and the leases that keep a task from expiring.

  The registry is a record with the three maps of the class. The maps hold references to
  mutable task objects: \<open>store_task\<close> is a write through such a reference, and a clone
  (\<open>cloneTask\<close>) is a value that is not written back. The owner scope of an operation context
  is a \<open>string option\<close>, and the SHA-256 hash is a parameter \<open>sha256\<close>.
\<close>

datatype BrowserTaskState = Active | Suspended | Finishing | Finished | Expired

record BrowserTask =
  bt_taskId :: string
  bt_ownerScopeHash :: string
  bt_state :: BrowserTaskState
  bt_tabIds :: "string list"
  bt_createdAt :: instant
  bt_lastActivityAt :: instant
  bt_expiresAt :: instant
  bt_lifecycleVersion :: nat

definition LEGACY_BROWSER_TASK_LIFECYCLE_VERSION :: nat where
  "LEGACY_BROWSER_TASK_LIFECYCLE_VERSION = 1"

definition CURRENT_BROWSER_TASK_LIFECYCLE_VERSION :: nat where
  "CURRENT_BROWSER_TASK_LIFECYCLE_VERSION = 2"

definition id_length_ok :: "string \<Rightarrow> bool" where
  "id_length_ok s \<longleftrightarrow> 1 \<le> length s \<and> length s \<le> 128"

definition browserTaskFields_ok :: "BrowserTask \<Rightarrow> bool" where
  "browserTaskFields_ok t \<longleftrightarrow>
     id_length_ok (bt_taskId t) \<and> id_length_ok (bt_ownerScopeHash t) \<and>
     list_all id_length_ok (bt_tabIds t) \<and> length (bt_tabIds t) \<le> 500"

definition browserTaskSchema_parse :: "BrowserTask \<Rightarrow> BrowserTask result" where
  "browserTaskSchema_parse t =
     (if browserTaskFields_ok t \<and> bt_lifecycleVersion t = CURRENT_BROWSER_TASK_LIFECYCLE_VERSION
      then Inr t else Inl SchemaError)"

definition DEFAULT_OWNER_SCOPE :: string where
  "DEFAULT_OWNER_SCOPE = ''legacy-local''"

record task_registry =
  tr_tasks :: "(string, BrowserTask) jsmap"
  tr_taskByTab :: "(string, string) jsmap"
  tr_activeLeases :: "(string, nat) jsmap"
  tr_ttlMs :: int

subsection \<open>Helpers of the class\<close>

definition ownerScope :: "string option \<Rightarrow> string" where
  "ownerScope context = (case context of None \<Rightarrow> DEFAULT_OWNER_SCOPE | Some s \<Rightarrow> s)"

definition hashOwnerScope :: "(string \<Rightarrow> string) \<Rightarrow> string \<Rightarrow> string" where
  "hashOwnerScope sha256 v = sha256 v"

definition isAccessibleState :: "BrowserTaskState \<Rightarrow> bool" where
  "isAccessibleState st \<longleftrightarrow> st = Active \<or> st = Suspended"

text \<open>A JavaScript string is truthy when it is not empty.\<close>

definition truthy :: "string option \<Rightarrow> bool" where
  "truthy v \<longleftrightarrow> (case v of None \<Rightarrow> False | Some s \<Rightarrow> s \<noteq> [])"

definition store_task :: "BrowserTask \<Rightarrow> task_registry \<Rightarrow> task_registry" where
  "store_task t r = r\<lparr>tr_tasks := js_set (bt_taskId t) t (tr_tasks r)\<rparr>"

definition touched :: "instant \<Rightarrow> int \<Rightarrow> bool \<Rightarrow> BrowserTask \<Rightarrow> BrowserTask" where
  "touched now ttlMs extendExpiry t =
     (let t1 = t\<lparr>bt_lastActivityAt := now\<rparr>
      in if extendExpiry then t1\<lparr>bt_expiresAt := now + ttlMs\<rparr> else t1)"

definition touchTask ::
  "instant \<Rightarrow> bool \<Rightarrow> BrowserTask \<Rightarrow> task_registry \<Rightarrow> BrowserTask \<times> task_registry" where
  "touchTask now extendExpiry t r =
     (let t' = touched now (tr_ttlMs r) extendExpiry t in (t', store_task t' r))"

definition resume :: "instant \<Rightarrow> BrowserTask \<Rightarrow> task_registry \<Rightarrow> BrowserTask \<times> task_registry" where
  "resume now t r = touchTask now True (t\<lparr>bt_state := Active\<rparr>) r"

definition leaseCount :: "string \<Rightarrow> task_registry \<Rightarrow> nat" where
  "leaseCount taskId r = (case js_get (tr_activeLeases r) taskId of None \<Rightarrow> 0 | Some n \<Rightarrow> n)"

definition requireOwnedTask ::
  "instant \<Rightarrow> string \<Rightarrow> string \<Rightarrow> bool \<Rightarrow> bool \<Rightarrow> task_registry \<Rightarrow>
   BrowserTask result \<times> task_registry" where
  "requireOwnedTask now taskId ownerHash includeFinished resumeSuspended r =
     (case js_get (tr_tasks r) taskId of
        None \<Rightarrow> (Inl (AppError TASK_NOT_FOUND ''The browser task was not found.''), r)
      | Some task \<Rightarrow>
          if bt_ownerScopeHash task \<noteq> ownerHash then
            (Inl (AppError TASK_OWNERSHIP_MISMATCH
               ''The browser task belongs to another owner scope.''), r)
          else if bt_state task = Expired then
            (Inl (AppError TASK_EXPIRED ''The browser task has expired.''), r)
          else if bt_state task = Finished \<and> \<not> includeFinished then
            (Inl (AppError TASK_NOT_FOUND ''The browser task is already finished.''), r)
          else if bt_state task = Finishing then
            (Inl (AppError TASK_SUSPENDED ''The browser task is finishing.''), r)
          else if resumeSuspended \<and> bt_state task = Suspended then
            (case resume now task r of (t, r') \<Rightarrow> (Inr t, r'))
          else (Inr task, r))"

subsection \<open>Methods\<close>

text \<open>The constructor: parse every initial task, store it, and index the tabs not yet indexed.\<close>

definition index_new_tabs :: "string \<Rightarrow> string list \<Rightarrow> (string, string) jsmap \<Rightarrow> (string, string) jsmap" where
  "index_new_tabs taskId tabIds m =
     fold (\<lambda>tabId m'. if js_has m' tabId then m' else js_set tabId taskId m') tabIds m"

fun load_tasks :: "BrowserTask list \<Rightarrow> task_registry \<Rightarrow> task_registry result" where
  "load_tasks [] r = Inr r"
| "load_tasks (t # ts) r =
     (case browserTaskSchema_parse t of
        Inl e \<Rightarrow> Inl e
      | Inr parsed \<Rightarrow>
          load_tasks ts
            ((store_task parsed r)\<lparr>tr_taskByTab :=
               index_new_tabs (bt_taskId parsed) (bt_tabIds parsed) (tr_taskByTab r)\<rparr>))"

definition new_task_registry :: "BrowserTask list \<Rightarrow> int \<Rightarrow> task_registry result" where
  "new_task_registry initialTasks ttlMs =
     load_tasks initialTasks
       \<lparr>tr_tasks = [], tr_taskByTab = [], tr_activeLeases = [], tr_ttlMs = ttlMs\<rparr>"

definition snapshot_tasks :: "task_registry \<Rightarrow> BrowserTask list" where
  "snapshot_tasks r = js_values (tr_tasks r)"

definition taskIdForTab :: "string \<Rightarrow> task_registry \<Rightarrow> string option" where
  "taskIdForTab tabId r = js_get (tr_taskByTab r) tabId"

definition taskForTab :: "string \<Rightarrow> task_registry \<Rightarrow> BrowserTask option" where
  "taskForTab tabId r =
     (let taskId = js_get (tr_taskByTab r) tabId in
      if \<not> truthy taskId then None else js_get (tr_tasks r) (the taskId))"

definition accessibleTasks ::
  "(string \<Rightarrow> string) \<Rightarrow> string option \<Rightarrow> bool \<Rightarrow> task_registry \<Rightarrow> BrowserTask list" where
  "accessibleTasks sha256 context includeTerminal r =
     (let ownerHash = hashOwnerScope sha256 (ownerScope context) in
      filter (\<lambda>t. includeTerminal \<or> isAccessibleState (bt_state t))
        (filter (\<lambda>t. bt_ownerScopeHash t = ownerHash) (js_values (tr_tasks r))))"

definition create_task ::
  "(string \<Rightarrow> string) \<Rightarrow> instant \<Rightarrow> string \<Rightarrow> string option \<Rightarrow> task_registry \<Rightarrow>
   BrowserTask result \<times> task_registry" where
  "create_task sha256 now uuid context r =
     (case browserTaskSchema_parse
        \<lparr>bt_taskId = ''task-'' @ uuid, bt_ownerScopeHash = hashOwnerScope sha256 (ownerScope context),
         bt_state = Active, bt_tabIds = [], bt_createdAt = now, bt_lastActivityAt = now,
         bt_expiresAt = now + tr_ttlMs r,
         bt_lifecycleVersion = CURRENT_BROWSER_TASK_LIFECYCLE_VERSION\<rparr> of
        Inl e \<Rightarrow> (Inl e, r)
      | Inr task \<Rightarrow> (Inr task, store_task task r))"

definition scope_required :: exn where
  "scope_required = AppError TASK_SCOPE_REQUIRED
     ''More than one browser task is accessible. Provide taskId explicitly.''"

definition resolveForOpen ::
  "(string \<Rightarrow> string) \<Rightarrow> instant \<Rightarrow> string \<Rightarrow> string option \<Rightarrow> string option \<Rightarrow> task_registry \<Rightarrow>
   BrowserTask result \<times> task_registry" where
  "resolveForOpen sha256 now uuid taskId context r =
     (let ownerHash = hashOwnerScope sha256 (ownerScope context) in
      if truthy taskId then requireOwnedTask now (the taskId) ownerHash False True r
      else
        (case filter (\<lambda>t. bt_ownerScopeHash t = ownerHash \<and> isAccessibleState (bt_state t))
                (js_values (tr_tasks r)) of
           [] \<Rightarrow> create_task sha256 now uuid context r
         | [t] \<Rightarrow> (case resume now t r of (t', r') \<Rightarrow> (Inr t', r'))
         | _ \<Rightarrow> (Inl scope_required, r)))"

definition resolveScoped ::
  "(string \<Rightarrow> string) \<Rightarrow> instant \<Rightarrow> string option \<Rightarrow> string option \<Rightarrow> bool \<Rightarrow> task_registry \<Rightarrow>
   BrowserTask result \<times> task_registry" where
  "resolveScoped sha256 now taskId context includeFinished r =
     (let ownerHash = hashOwnerScope sha256 (ownerScope context) in
      if truthy taskId then requireOwnedTask now (the taskId) ownerHash includeFinished True r
      else
        (case filter (\<lambda>t. bt_ownerScopeHash t = ownerHash \<and>
                  (isAccessibleState (bt_state t) \<or> (includeFinished \<and> bt_state t = Finished)))
                (js_values (tr_tasks r)) of
           [] \<Rightarrow> (Inl (AppError TASK_NOT_FOUND ''No browser task is accessible.''), r)
         | [t] \<Rightarrow> if isAccessibleState (bt_state t)
                  then (case resume now t r of (t', r') \<Rightarrow> (Inr t', r'))
                  else (Inr t, r)
         | _ \<Rightarrow> (Inl scope_required, r)))"

definition assertTabAccess ::
  "(string \<Rightarrow> string) \<Rightarrow> instant \<Rightarrow> string \<Rightarrow> string option \<Rightarrow> task_registry \<Rightarrow>
   BrowserTask result \<times> task_registry" where
  "assertTabAccess sha256 now tabId context r =
     (let taskId = js_get (tr_taskByTab r) tabId in
      if \<not> truthy taskId then
        (Inl (AppError TASK_NOT_FOUND ''The browser tab is not associated with a task.''), r)
      else requireOwnedTask now (the taskId) (hashOwnerScope sha256 (ownerScope context)) False True r)"

text \<open>\<open>if (!task.tabIds.includes(tabId)) task.tabIds.push(tabId)\<close>\<close>

definition push_tab :: "string \<Rightarrow> BrowserTask \<Rightarrow> BrowserTask" where
  "push_tab tabId t =
     (if tabId \<in> set (bt_tabIds t) then t else t\<lparr>bt_tabIds := bt_tabIds t @ [tabId]\<rparr>)"

definition other_task :: exn where
  "other_task = AppError TASK_OWNERSHIP_MISMATCH ''The browser tab already belongs to another task.''"

definition attachTab ::
  "(string \<Rightarrow> string) \<Rightarrow> instant \<Rightarrow> instant \<Rightarrow> string \<Rightarrow> string \<Rightarrow> string option \<Rightarrow> task_registry \<Rightarrow>
   BrowserTask result \<times> task_registry" where
  "attachTab sha256 now1 now2 taskId tabId context r =
     (case requireOwnedTask now1 taskId (hashOwnerScope sha256 (ownerScope context)) False True r of
        (Inl e, r1) \<Rightarrow> (Inl e, r1)
      | (Inr _, r1) \<Rightarrow>
          (let task = the (js_get (tr_tasks r1) taskId);
               currentTaskId = js_get (tr_taskByTab r1) tabId in
           if truthy currentTaskId \<and> currentTaskId \<noteq> Some (bt_taskId task) then (Inl other_task, r1)
           else
             (let task1 = push_tab tabId task;
                  r2 = (store_task task1 r1)\<lparr>tr_taskByTab :=
                    js_set tabId (bt_taskId task) (tr_taskByTab r1)\<rparr>
              in case touchTask now2 True task1 r2 of (t, r3) \<Rightarrow> (Inr t, r3))))"

definition attachExistingTab ::
  "string \<Rightarrow> string \<Rightarrow> task_registry \<Rightarrow> BrowserTask result \<times> task_registry" where
  "attachExistingTab taskId tabId r =
     (case js_get (tr_tasks r) taskId of
        None \<Rightarrow> (Inl (AppError TASK_NOT_FOUND ''The browser task was not found.''), r)
      | Some task \<Rightarrow>
          (let currentTaskId = js_get (tr_taskByTab r) tabId in
           if truthy currentTaskId \<and> currentTaskId \<noteq> Some taskId then (Inl other_task, r)
           else
             (let task1 = push_tab tabId task in
              (Inr task1, (store_task task1 r)\<lparr>tr_taskByTab :=
                 js_set tabId taskId (tr_taskByTab r)\<rparr>))))"

definition detachTab :: "instant \<Rightarrow> string \<Rightarrow> task_registry \<Rightarrow> task_registry" where
  "detachTab now tabId r =
     (let taskId = js_get (tr_taskByTab r) tabId in
      if \<not> truthy taskId then r
      else
        (let r1 = r\<lparr>tr_taskByTab := js_delete tabId (tr_taskByTab r)\<rparr> in
         case js_get (tr_tasks r1) (the taskId) of
           None \<Rightarrow> r1
         | Some task \<Rightarrow>
             snd (touchTask now True
               (task\<lparr>bt_tabIds := filter (\<lambda>c. c \<noteq> tabId) (bt_tabIds task)\<rparr>) r1)))"

text \<open>
  A lease is the returned object with its \<open>released\<close> flag. \<open>acquireForTask\<close> touches the
  clone that \<open>requireOwnedTask\<close> returned, so the stored task is not touched.
\<close>

record BrowserTaskLease =
  bl_taskId :: string
  bl_released :: bool

definition acquireForTask ::
  "(string \<Rightarrow> string) \<Rightarrow> instant \<Rightarrow> string \<Rightarrow> string option \<Rightarrow> task_registry \<Rightarrow>
   BrowserTaskLease result \<times> task_registry" where
  "acquireForTask sha256 now taskId context r =
     (case requireOwnedTask now taskId (hashOwnerScope sha256 (ownerScope context)) False True r of
        (Inl e, r1) \<Rightarrow> (Inl e, r1)
      | (Inr task, r1) \<Rightarrow>
          (Inr \<lparr>bl_taskId = bt_taskId task, bl_released = False\<rparr>,
           r1\<lparr>tr_activeLeases :=
                js_set (bt_taskId task) (leaseCount (bt_taskId task) r1 + 1) (tr_activeLeases r1)\<rparr>))"

definition release_lease ::
  "instant \<Rightarrow> BrowserTaskLease \<Rightarrow> task_registry \<Rightarrow> BrowserTaskLease \<times> task_registry" where
  "release_lease now lease r =
     (if bl_released lease then (lease, r)
      else
        (let taskId = bl_taskId lease;
             remaining = (case js_get (tr_activeLeases r) taskId of None \<Rightarrow> 1 | Some n \<Rightarrow> n) - 1;
             r1 = (if remaining = 0
                   then r\<lparr>tr_activeLeases := js_delete taskId (tr_activeLeases r)\<rparr>
                   else r\<lparr>tr_activeLeases := js_set taskId remaining (tr_activeLeases r)\<rparr>);
             r2 = (case js_get (tr_tasks r1) taskId of
                     None \<Rightarrow> r1
                   | Some current \<Rightarrow>
                       if isAccessibleState (bt_state current)
                       then snd (touchTask now True current r1) else r1)
         in (lease\<lparr>bl_released := True\<rparr>, r2)))"

definition acquireForTab ::
  "(string \<Rightarrow> string) \<Rightarrow> instant \<Rightarrow> instant \<Rightarrow> string \<Rightarrow> string option \<Rightarrow> task_registry \<Rightarrow>
   BrowserTaskLease result \<times> task_registry" where
  "acquireForTab sha256 now1 now2 tabId context r =
     (case assertTabAccess sha256 now1 tabId context r of
        (Inl e, r1) \<Rightarrow> (Inl e, r1)
      | (Inr task, r1) \<Rightarrow> acquireForTask sha256 now2 (bt_taskId task) context r1)"

definition beginFinish ::
  "(string \<Rightarrow> string) \<Rightarrow> instant \<Rightarrow> instant \<Rightarrow> string \<Rightarrow> string option \<Rightarrow> task_registry \<Rightarrow>
   BrowserTask result \<times> task_registry" where
  "beginFinish sha256 now1 now2 taskId context r =
     (case requireOwnedTask now1 taskId (hashOwnerScope sha256 (ownerScope context)) True False r of
        (Inl e, r1) \<Rightarrow> (Inl e, r1)
      | (Inr _, r1) \<Rightarrow>
          (let task = the (js_get (tr_tasks r1) taskId) in
           if bt_state task = Finished then (Inr task, r1)
           else if bt_state task = Expired then
             (Inl (AppError TASK_EXPIRED ''The browser task has expired.''), r1)
           else
             (case touchTask now2 False (task\<lparr>bt_state := Finishing\<rparr>) r1 of
                (t, r2) \<Rightarrow> (Inr t, r2))))"

text \<open>The common end of \<open>completeFinish\<close> and \<open>markExpired\<close>, for the two terminal states.\<close>

definition terminate_task ::
  "BrowserTaskState \<Rightarrow> instant \<Rightarrow> string \<Rightarrow> task_registry \<Rightarrow> BrowserTask result \<times> task_registry" where
  "terminate_task st now taskId r =
     (case js_get (tr_tasks r) taskId of
        None \<Rightarrow> (Inl (AppError TASK_NOT_FOUND ''The browser task was not found.''), r)
      | Some task \<Rightarrow>
          (let r1 = r\<lparr>tr_taskByTab := fold js_delete (bt_tabIds task) (tr_taskByTab r)\<rparr>;
               task1 = task\<lparr>bt_state := st, bt_tabIds := [], bt_lastActivityAt := now,
                            bt_expiresAt := now\<rparr>
           in (Inr task1, store_task task1 r1)))"

definition completeFinish :: "instant \<Rightarrow> string \<Rightarrow> task_registry \<Rightarrow> BrowserTask result \<times> task_registry" where
  "completeFinish now taskId r = terminate_task Finished now taskId r"

definition markExpired :: "instant \<Rightarrow> string \<Rightarrow> task_registry \<Rightarrow> BrowserTask result \<times> task_registry" where
  "markExpired now taskId r = terminate_task Expired now taskId r"

definition beginExpiration ::
  "instant \<Rightarrow> string \<Rightarrow> task_registry \<Rightarrow> BrowserTask option \<times> task_registry" where
  "beginExpiration now taskId r =
     (case js_get (tr_tasks r) taskId of
        None \<Rightarrow> (None, r)
      | Some task \<Rightarrow>
          if \<not> isAccessibleState (bt_state task) then (None, r)
          else if leaseCount taskId r > 0 then (None, r)
          else if bt_expiresAt task > now then (None, r)
          else (let task1 = task\<lparr>bt_state := Finishing\<rparr> in (Some task1, store_task task1 r)))"

definition restoreAfterFailedFinalization ::
  "instant \<Rightarrow> string \<Rightarrow> task_registry \<Rightarrow> BrowserTask option \<times> task_registry" where
  "restoreAfterFailedFinalization now taskId r =
     (case js_get (tr_tasks r) taskId of
        None \<Rightarrow> (None, r)
      | Some task \<Rightarrow>
          if bt_state task \<noteq> Finishing then (None, r)
          else (case touchTask now True (task\<lparr>bt_state := Active\<rparr>) r of (t, r') \<Rightarrow> (Some t, r')))"

definition expiredCandidates :: "instant \<Rightarrow> task_registry \<Rightarrow> BrowserTask list" where
  "expiredCandidates now r =
     filter (\<lambda>t. bt_expiresAt t \<le> now)
       (filter (\<lambda>t. leaseCount (bt_taskId t) r = 0)
         (filter (\<lambda>t. isAccessibleState (bt_state t)) (js_values (tr_tasks r))))"

subsection \<open>One call on the registry\<close>

text \<open>
  The calls that may change a registry, one rule per method. A fresh random id is not yet a
  key of the map; \<open>attachExistingTab\<close> is called for tasks that are not terminal.
\<close>

definition terminal :: "BrowserTaskState \<Rightarrow> bool" where
  "terminal st \<longleftrightarrow> st = Finished \<or> st = Expired"

inductive plain_step :: "(string \<Rightarrow> string) \<Rightarrow> task_registry \<Rightarrow> task_registry \<Rightarrow> bool"
  for sha256 :: "string \<Rightarrow> string" where
  create_step: "js_get (tr_tasks r) (''task-'' @ uuid) = None \<Longrightarrow>
    plain_step sha256 r (snd (create_task sha256 now uuid ctx r))"
| resolveForOpen_step: "js_get (tr_tasks r) (''task-'' @ uuid) = None \<Longrightarrow>
    plain_step sha256 r (snd (resolveForOpen sha256 now uuid taskId ctx r))"
| resolveScoped_step: "plain_step sha256 r (snd (resolveScoped sha256 now taskId ctx incl r))"
| assertTabAccess_step: "plain_step sha256 r (snd (assertTabAccess sha256 now tabId ctx r))"
| attachTab_step: "plain_step sha256 r (snd (attachTab sha256 now1 now2 k tabId ctx r))"
| attachExistingTab_step:
    "(\<And>t. js_get (tr_tasks r) k = Some t \<Longrightarrow> \<not> terminal (bt_state t)) \<Longrightarrow>
     plain_step sha256 r (snd (attachExistingTab k tabId r))"
| detachTab_step: "plain_step sha256 r (detachTab now tabId r)"
| beginFinish_step: "plain_step sha256 r (snd (beginFinish sha256 now1 now2 k ctx r))"
| completeFinish_step: "plain_step sha256 r (snd (completeFinish now k r))"
| beginExpiration_step: "plain_step sha256 r (snd (beginExpiration now k r))"
| restore_step: "plain_step sha256 r (snd (restoreAfterFailedFinalization now k r))"
| markExpired_step: "plain_step sha256 r (snd (markExpired now k r))"

text \<open>
  A registry together with the lease objects it has handed out. The lease methods hand out a
  lease or call \<open>release\<close> of one of them, any number of times.
\<close>

type_synonym lease_state = "task_registry \<times> BrowserTaskLease list"

definition grant_lease ::
  "BrowserTaskLease list \<Rightarrow> BrowserTaskLease result \<times> task_registry \<Rightarrow> lease_state" where
  "grant_lease ls p = (snd p, (case fst p of Inl e \<Rightarrow> ls | Inr l \<Rightarrow> ls @ [l]))"

inductive task_step :: "(string \<Rightarrow> string) \<Rightarrow> lease_state \<Rightarrow> lease_state \<Rightarrow> bool"
  for sha256 :: "string \<Rightarrow> string" where
  plain: "plain_step sha256 r r' \<Longrightarrow> task_step sha256 (r, ls) (r', ls)"
| acquireForTask_step:
    "task_step sha256 (r, ls) (grant_lease ls (acquireForTask sha256 now k ctx r))"
| acquireForTab_step:
    "task_step sha256 (r, ls) (grant_lease ls (acquireForTab sha256 now1 now2 tabId ctx r))"
| release_step: "i < length ls \<Longrightarrow> release_lease now (ls ! i) r = (l, r') \<Longrightarrow>
    task_step sha256 (r, ls) (r', ls[i := l])"

inductive_cases plain_stepE: "plain_step sha256 r r'"

subsection \<open>Invariant\<close>

text \<open>
  Keys are distinct, a task is stored under its own id, holds a tab once and none when it is
  terminal, and the index from tabs to tasks is exactly the inverse of the tab lists.
\<close>

definition task_inv :: "task_registry \<Rightarrow> bool" where
  "task_inv r \<longleftrightarrow>
     js_wf (tr_tasks r) \<and> js_wf (tr_taskByTab r) \<and>
     (\<forall>k t. js_get (tr_tasks r) k = Some t \<longrightarrow>
        bt_taskId t = k \<and> k \<noteq> [] \<and> distinct (bt_tabIds t) \<and>
        (terminal (bt_state t) \<longrightarrow> bt_tabIds t = [])) \<and>
     (\<forall>tab k. js_get (tr_taskByTab r) tab = Some k \<longleftrightarrow>
        (\<exists>t. js_get (tr_tasks r) k = Some t \<and> tab \<in> set (bt_tabIds t)))"

text \<open>What a call may change of a stored task: never its owner, and never a terminal state back.\<close>

definition evolves :: "BrowserTask \<Rightarrow> BrowserTask \<Rightarrow> bool" where
  "evolves t t' \<longleftrightarrow> bt_ownerScopeHash t' = bt_ownerScopeHash t \<and> bt_createdAt t' = bt_createdAt t \<and>
     (terminal (bt_state t) \<longrightarrow> terminal (bt_state t'))"

definition task_frame :: "task_registry \<Rightarrow> task_registry \<Rightarrow> bool" where
  "task_frame r r' \<longleftrightarrow> (\<forall>k t. js_get (tr_tasks r) k = Some t \<longrightarrow>
     (\<exists>t'. js_get (tr_tasks r') k = Some t' \<and> evolves t t'))"

definition good :: "task_registry \<Rightarrow> task_registry \<Rightarrow> bool" where
  "good r r' \<longleftrightarrow> task_inv r' \<and> task_frame r r'"

lemma evolves_refl [simp]: "evolves t t"
  by (simp add: evolves_def)

lemma good_refl: "task_inv r \<Longrightarrow> good r r"
  by (auto simp: good_def task_frame_def)

lemma good_trans: "good r1 r2 \<Longrightarrow> good r2 r3 \<Longrightarrow> good r1 r3"
  unfolding good_def task_frame_def evolves_def by metis

lemma store_simps [simp]:
  "js_get (tr_tasks (store_task t r)) k = (if k = bt_taskId t then Some t else js_get (tr_tasks r) k)"
  "tr_taskByTab (store_task t r) = tr_taskByTab r"
  "tr_activeLeases (store_task t r) = tr_activeLeases r"
  "tr_ttlMs (store_task t r) = tr_ttlMs r"
  "js_wf (tr_tasks r) \<Longrightarrow> js_wf (tr_tasks (store_task t r))"
  by (auto simp: store_task_def js_wf_set)

lemma touched_simps [simp]:
  "bt_taskId (touched now ttl x t) = bt_taskId t"
  "bt_ownerScopeHash (touched now ttl x t) = bt_ownerScopeHash t"
  "bt_state (touched now ttl x t) = bt_state t"
  "bt_tabIds (touched now ttl x t) = bt_tabIds t"
  "bt_createdAt (touched now ttl x t) = bt_createdAt t"
  by (simp_all add: touched_def Let_def)

lemma push_tab_simps [simp]:
  "bt_taskId (push_tab tab t) = bt_taskId t"
  "bt_ownerScopeHash (push_tab tab t) = bt_ownerScopeHash t"
  "bt_state (push_tab tab t) = bt_state t"
  "bt_createdAt (push_tab tab t) = bt_createdAt t"
  "set (bt_tabIds (push_tab tab t)) = insert tab (set (bt_tabIds t))"
  "distinct (bt_tabIds (push_tab tab t)) \<longleftrightarrow> distinct (bt_tabIds t)"
  by (auto simp: push_tab_def)

lemma task_invD:
  assumes "task_inv r" and "js_get (tr_tasks r) k = Some t"
  shows "bt_taskId t = k" and "k \<noteq> []" and "distinct (bt_tabIds t)"
    and "terminal (bt_state t) \<Longrightarrow> bt_tabIds t = []"
  using assms unfolding task_inv_def by blast+

lemma index_iff:
  "task_inv r \<Longrightarrow> js_get (tr_taskByTab r) tab = Some k \<longleftrightarrow>
     (\<exists>t. js_get (tr_tasks r) k = Some t \<and> tab \<in> set (bt_tabIds t))"
  unfolding task_inv_def by blast

text \<open>Writing back a task with the same tabs.\<close>

lemma good_store:
  assumes "task_inv r" and "js_get (tr_tasks r) (bt_taskId t') = Some t"
    and "bt_tabIds t' = bt_tabIds t" and "evolves t t'"
    and "terminal (bt_state t') \<Longrightarrow> bt_tabIds t' = []"
  shows "good r (store_task t' r)"
proof -
  have "task_inv (store_task t' r)"
    unfolding task_inv_def
  proof (intro conjI allI impI)
    fix k u
    assume get: "js_get (tr_tasks (store_task t' r)) k = Some u"
    show "bt_taskId u = k" "k \<noteq> []" "distinct (bt_tabIds u)"
      using get assms task_invD [OF assms(1)] by (auto split: if_splits)
    show "bt_tabIds u = []" if "terminal (bt_state u)"
      using that get assms task_invD [OF assms(1)] by (auto split: if_splits)
  next
    fix tab k
    show "(js_get (tr_taskByTab (store_task t' r)) tab = Some k) =
        (\<exists>u. js_get (tr_tasks (store_task t' r)) k = Some u \<and> tab \<in> set (bt_tabIds u))"
      using assms(2,3) by (auto simp: index_iff [OF assms(1)])
  qed (use assms(1) in \<open>auto simp: task_inv_def\<close>)
  moreover have "task_frame r (store_task t' r)"
    using assms by (auto simp: task_frame_def)
  ultimately show ?thesis by (simp add: good_def)
qed

lemma good_leases: "task_inv r \<Longrightarrow> good r (r\<lparr>tr_activeLeases := l\<rparr>)"
  by (auto simp: good_def task_inv_def task_frame_def)

lemma good_touch:
  assumes "task_inv r" and "js_get (tr_tasks r) (bt_taskId t') = Some t"
    and "bt_tabIds t' = bt_tabIds t" and "evolves t t'" and "terminal (bt_state t') \<Longrightarrow> bt_tabIds t' = []"
  shows "good r (snd (touchTask now x t' r))"
  unfolding touchTask_def Let_def
  using good_store [of r "touched now (tr_ttlMs r) x t'" t] assms by (auto simp: evolves_def)

lemma good_resume:
  assumes "task_inv r" and "js_get (tr_tasks r) k = Some t" and "isAccessibleState (bt_state t)"
  shows "good r (snd (resume now t r))"
  unfolding resume_def
  by (rule good_touch [where t = t])
    (use assms task_invD [OF assms(1,2)] in
      \<open>auto simp: evolves_def terminal_def isAccessibleState_def\<close>)

subsection \<open>Every method keeps the invariant\<close>

lemma require_good:
  "task_inv r \<Longrightarrow> good r (snd (requireOwnedTask now k h incl res r))"
  by (auto simp: requireOwnedTask_def case_prod_unfold isAccessibleState_def
      intro: good_refl good_resume split: option.splits)

lemma require_Inr:
  assumes "task_inv r" and "requireOwnedTask now k h incl res r = (Inr t, r1)"
  shows "js_get (tr_tasks r1) k = Some t" and "bt_taskId t = k" and "bt_ownerScopeHash t = h"
    and "bt_state t \<noteq> Expired" and "bt_state t \<noteq> Finishing"
    and "bt_state t = Finished \<Longrightarrow> incl"
    and "tr_taskByTab r1 = tr_taskByTab r" and "tr_activeLeases r1 = tr_activeLeases r"
    and "task_inv r1"
proof -
  obtain t0 where t0: "js_get (tr_tasks r) k = Some t0" "bt_ownerScopeHash t0 = h"
    "bt_state t0 \<noteq> Expired" "bt_state t0 \<noteq> Finishing" "bt_state t0 = Finished \<Longrightarrow> incl"
    "(t, r1) = (if res \<and> bt_state t0 = Suspended then resume now t0 r else (t0, r))"
    using assms(2)
    by (auto simp: requireOwnedTask_def case_prod_unfold split: option.splits if_splits)
  have id: "bt_taskId t0 = k" using task_invD(1) [OF assms(1) t0(1)] .
  show "js_get (tr_tasks r1) k = Some t" "bt_taskId t = k" "bt_ownerScopeHash t = h"
    "bt_state t \<noteq> Expired" "bt_state t \<noteq> Finishing" "bt_state t = Finished \<Longrightarrow> incl"
    "tr_taskByTab r1 = tr_taskByTab r" "tr_activeLeases r1 = tr_activeLeases r"
    using t0 id by (auto simp: resume_def touchTask_def Let_def split: if_splits)
  show "task_inv r1"
    using require_good [OF assms(1), of now k h incl res] assms(2) by (simp add: good_def)
qed

text \<open>
  Adding a tab to a task that is not terminal, when the index does not give it to another
  task.
\<close>

lemma good_add_tab:
  assumes "task_inv r" and "js_get (tr_tasks r) k = Some t" and "\<not> terminal (bt_state t)"
    and "\<not> (truthy (js_get (tr_taskByTab r) tab) \<and> js_get (tr_taskByTab r) tab \<noteq> Some k)"
  shows "good r ((store_task (push_tab tab t) r)\<lparr>tr_taskByTab := js_set tab k (tr_taskByTab r)\<rparr>)"
proof -
  have id: "bt_taskId t = k" "k \<noteq> []" using task_invD [OF assms(1,2)] by auto
  have free: "js_get (tr_taskByTab r) tab = None \<or> js_get (tr_taskByTab r) tab = Some k"
  proof (cases "js_get (tr_taskByTab r) tab")
    case (Some k')
    then obtain u where "js_get (tr_tasks r) k' = Some u" using index_iff [OF assms(1)] by blast
    then have "k' \<noteq> []" using task_invD(2) [OF assms(1)] by blast
    with Some assms(4) show ?thesis by (auto simp: truthy_def)
  qed simp
  have not_other: "tab \<notin> set (bt_tabIds u)" if "js_get (tr_tasks r) k' = Some u" "k' \<noteq> k" for k' u
    using that free index_iff [OF assms(1), of tab k'] by auto
  let ?r' = "(store_task (push_tab tab t) r)\<lparr>tr_taskByTab := js_set tab k (tr_taskByTab r)\<rparr>"
  have "task_inv ?r'"
    unfolding task_inv_def
  proof (intro conjI allI impI)
    fix k' u
    assume get: "js_get (tr_tasks ?r') k' = Some u"
    show "bt_taskId u = k'" "k' \<noteq> []" "distinct (bt_tabIds u)"
      using get id task_invD [OF assms(1)] assms(2) by (auto split: if_splits)
    show "bt_tabIds u = []" if "terminal (bt_state u)"
      using that get id assms task_invD [OF assms(1)] by (auto split: if_splits)
  next
    fix tab' k'
    show "(js_get (tr_taskByTab ?r') tab' = Some k') =
        (\<exists>u. js_get (tr_tasks ?r') k' = Some u \<and> tab' \<in> set (bt_tabIds u))"
      using assms(2) id not_other [of k'] by (auto simp: index_iff [OF assms(1)])
  qed (use assms(1) in \<open>auto simp: task_inv_def js_wf_set\<close>)
  moreover have "task_frame r ?r'"
    using assms(2) id by (auto simp: task_frame_def evolves_def)
  ultimately show ?thesis by (simp add: good_def)
qed

text \<open>Removing a set of tabs from a task and from the index.\<close>

lemma js_get_fold_delete:
  "js_get (fold js_delete ks m) k = (if k \<in> set ks then None else js_get m k)"
  by (induction ks arbitrary: m) auto

lemma js_wf_fold_delete: "js_wf m \<Longrightarrow> js_wf (fold js_delete ks m)"
  by (induction ks arbitrary: m) (auto intro: js_wf_delete)

lemma good_remove_tabs:
  assumes "task_inv r" and "js_get (tr_tasks r) k = Some t" and "bt_taskId t' = k"
    and "bt_tabIds t' = filter (\<lambda>c. c \<notin> set tabs) (bt_tabIds t)" and "set tabs \<subseteq> set (bt_tabIds t)"
    and "evolves t t'" and "terminal (bt_state t') \<Longrightarrow> bt_tabIds t' = []"
  shows "good r (store_task t' (r\<lparr>tr_taskByTab := fold js_delete tabs (tr_taskByTab r)\<rparr>))"
proof -
  have id: "bt_taskId t = k" "k \<noteq> []" using task_invD [OF assms(1,2)] by auto
  have mine: "js_get (tr_taskByTab r) tab = Some k" if "tab \<in> set tabs" for tab
    using that assms(2,5) index_iff [OF assms(1), of tab k] by auto
  let ?r' = "store_task t' (r\<lparr>tr_taskByTab := fold js_delete tabs (tr_taskByTab r)\<rparr>)"
  have "task_inv ?r'"
    unfolding task_inv_def
  proof (intro conjI allI impI)
    fix k' u
    assume get: "js_get (tr_tasks ?r') k' = Some u"
    show "bt_taskId u = k'" "k' \<noteq> []" "distinct (bt_tabIds u)"
      using get id assms task_invD [OF assms(1)] by (auto split: if_splits)
    show "bt_tabIds u = []" if "terminal (bt_state u)"
      using that get id assms task_invD [OF assms(1)] by (auto split: if_splits)
  next
    fix tab k'
    show "(js_get (tr_taskByTab ?r') tab = Some k') =
        (\<exists>u. js_get (tr_tasks ?r') k' = Some u \<and> tab \<in> set (bt_tabIds u))"
      using assms(2,3,4) mine [of tab] index_iff [OF assms(1), of tab k']
      by (auto simp: js_get_fold_delete)
  qed (use assms(1) in \<open>auto simp: task_inv_def js_wf_fold_delete\<close>)
  moreover have "task_frame r ?r'"
    using assms(2,3,6) id by (auto simp: task_frame_def)
  ultimately show ?thesis by (simp add: good_def)
qed

lemma create_good:
  assumes "task_inv r" and "js_get (tr_tasks r) (''task-'' @ uuid) = None"
  shows "good r (snd (create_task sha256 now uuid ctx r))"
proof (cases "create_task sha256 now uuid ctx r")
  case (Pair res r')
  show ?thesis
  proof (cases res)
    case (Inl e)
    with Pair have "r' = r"
      by (auto simp: create_task_def browserTaskSchema_parse_def split: if_splits)
    with Pair assms show ?thesis by (simp add: good_refl)
  next
    case (Inr t)
    with Pair have t: "r' = store_task t r" "bt_taskId t = ''task-'' @ uuid" "bt_tabIds t = []"
      by (auto simp: create_task_def browserTaskSchema_parse_def split: if_splits)
    have "task_inv r'"
      using assms t unfolding task_inv_def by (auto split: if_splits)
    moreover have "task_frame r r'" using assms t by (auto simp: task_frame_def)
    ultimately show ?thesis using Pair by (simp add: good_def)
  qed
qed

lemma single_task:
  assumes "task_inv r" and "filter P (js_values (tr_tasks r)) = [t]"
  shows "js_get (tr_tasks r) (bt_taskId t) = Some t" and "P t"
proof -
  have "t \<in> set (filter P (js_values (tr_tasks r)))" using assms(2) by simp
  then have "t \<in> set (js_values (tr_tasks r))" and "P t" by auto
  then obtain k where k: "js_get (tr_tasks r) k = Some t"
    using assms(1) js_values_iff [of "tr_tasks r" t] by (auto simp: task_inv_def)
  then show "js_get (tr_tasks r) (bt_taskId t) = Some t"
    using task_invD(1) [OF assms(1) k] by simp
  show "P t" by (fact \<open>P t\<close>)
qed

lemma resolveForOpen_good:
  assumes "task_inv r" and "js_get (tr_tasks r) (''task-'' @ uuid) = None"
  shows "good r (snd (resolveForOpen sha256 now uuid taskId ctx r))"
  using assms single_task [OF assms(1)]
  by (auto simp: resolveForOpen_def Let_def case_prod_unfold
      intro!: require_good create_good good_refl good_resume split: list.splits)

lemma resolveScoped_good:
  "task_inv r \<Longrightarrow> good r (snd (resolveScoped sha256 now taskId ctx incl r))"
  using single_task [of r]
  by (auto simp: resolveScoped_def Let_def case_prod_unfold
      intro!: require_good good_refl good_resume split: list.splits)

lemma assertTabAccess_good: "task_inv r \<Longrightarrow> good r (snd (assertTabAccess sha256 now tab ctx r))"
  by (auto simp: assertTabAccess_def Let_def intro: require_good good_refl)

lemma attachTab_good:
  assumes "task_inv r"
  shows "good r (snd (attachTab sha256 now1 now2 k tab ctx r))"
proof (cases "requireOwnedTask now1 k (hashOwnerScope sha256 (ownerScope ctx)) False True r")
  case (Pair res r1)
  have g: "good r r1"
    using require_good [OF assms, of now1 k "hashOwnerScope sha256 (ownerScope ctx)" False True] Pair
    by simp
  show ?thesis
  proof (cases res)
    case (Inl e)
    with Pair g show ?thesis by (simp add: attachTab_def)
  next
    case (Inr t)
    note t = require_Inr [OF assms Pair [unfolded Inr]]
    let ?blocked = "truthy (js_get (tr_taskByTab r1) tab) \<and> js_get (tr_taskByTab r1) tab \<noteq> Some k"
    show ?thesis
    proof (cases ?blocked)
      case True
      with Pair Inr t g show ?thesis by (simp add: attachTab_def Let_def)
    next
      case False
      let ?r2 = "(store_task (push_tab tab t) r1)\<lparr>tr_taskByTab := js_set tab k (tr_taskByTab r1)\<rparr>"
      have nt: "\<not> terminal (bt_state t)" using t by (auto simp: terminal_def)
      have g2: "good r1 ?r2" using good_add_tab [OF t(9,1) nt False] .
      have "good ?r2 (snd (touchTask now2 True (push_tab tab t) ?r2))"
        by (rule good_touch [where t = "push_tab tab t"])
          (use g2 t nt in \<open>auto simp: good_def\<close>)
      then have "good r (snd (touchTask now2 True (push_tab tab t) ?r2))"
        using g g2 good_trans by blast
      moreover have "snd (attachTab sha256 now1 now2 k tab ctx r) =
          snd (touchTask now2 True (push_tab tab t) ?r2)"
        using Pair Inr t False by (auto simp: attachTab_def Let_def case_prod_unfold)
      ultimately show ?thesis by simp
    qed
  qed
qed

lemma attachExistingTab_good:
  assumes "task_inv r" and "\<And>t. js_get (tr_tasks r) k = Some t \<Longrightarrow> \<not> terminal (bt_state t)"
  shows "good r (snd (attachExistingTab k tab r))"
  using assms by (auto simp: attachExistingTab_def Let_def intro: good_refl good_add_tab
      split: option.splits)

lemma detachTab_good:
  assumes "task_inv r"
  shows "good r (detachTab now tab r)"
proof (cases "truthy (js_get (tr_taskByTab r) tab)")
  case False
  then show ?thesis using assms by (simp add: detachTab_def Let_def good_refl)
next
  case True
  then obtain k where k: "js_get (tr_taskByTab r) tab = Some k" by (auto simp: truthy_def split: option.splits)
  then obtain t where t: "js_get (tr_tasks r) k = Some t" "tab \<in> set (bt_tabIds t)"
    using index_iff [OF assms] by blast
  let ?t' = "touched now (tr_ttlMs r) True (t\<lparr>bt_tabIds := filter (\<lambda>c. c \<noteq> tab) (bt_tabIds t)\<rparr>)"
  have "good r (store_task ?t' (r\<lparr>tr_taskByTab := fold js_delete [tab] (tr_taskByTab r)\<rparr>))"
    by (rule good_remove_tabs [OF assms t(1)])
      (use t task_invD [OF assms t(1)] in \<open>auto simp: evolves_def\<close>)
  then show ?thesis
    using True k t(1) by (simp add: detachTab_def Let_def touchTask_def)
qed

lemma acquireForTask_good:
  assumes "task_inv r"
  shows "good r (snd (acquireForTask sha256 now k ctx r))"
proof (cases "requireOwnedTask now k (hashOwnerScope sha256 (ownerScope ctx)) False True r")
  case (Pair res r1)
  have g: "good r r1"
    using require_good [OF assms, of now k "hashOwnerScope sha256 (ownerScope ctx)" False True] Pair
    by simp
  then have "good r (r1\<lparr>tr_activeLeases := l\<rparr>)" for l
    using good_leases good_trans by (metis good_def)
  with g Pair show ?thesis by (auto simp: acquireForTask_def split: sum.splits)
qed

lemma acquireForTab_good:
  assumes "task_inv r"
  shows "good r (snd (acquireForTab sha256 now1 now2 tab ctx r))"
proof (cases "assertTabAccess sha256 now1 tab ctx r")
  case (Pair res r1)
  have g: "good r r1" using assertTabAccess_good [OF assms, of sha256 now1 tab ctx] Pair by simp
  have "good r (snd (acquireForTask sha256 now2 k ctx r1))" for k
    using g acquireForTask_good good_trans by (metis good_def)
  with g Pair show ?thesis by (auto simp: acquireForTab_def split: sum.splits)
qed

lemma release_good:
  assumes "task_inv r"
  shows "good r (snd (release_lease now lease r))"
proof -
  have step: "good r (case js_get (tr_tasks (r\<lparr>tr_activeLeases := l\<rparr>)) k of
      None \<Rightarrow> r\<lparr>tr_activeLeases := l\<rparr>
    | Some current \<Rightarrow> if isAccessibleState (bt_state current)
        then snd (touchTask now True current (r\<lparr>tr_activeLeases := l\<rparr>))
        else r\<lparr>tr_activeLeases := l\<rparr>)" for l k
  proof (cases "js_get (tr_tasks r) k")
    case None
    then show ?thesis using assms by (simp add: good_leases)
  next
    case (Some t)
    have inv: "task_inv (r\<lparr>tr_activeLeases := l\<rparr>)" using good_leases [OF assms] by (simp add: good_def)
    show ?thesis
    proof (cases "isAccessibleState (bt_state t)")
      case True
      have "good (r\<lparr>tr_activeLeases := l\<rparr>) (snd (touchTask now True t (r\<lparr>tr_activeLeases := l\<rparr>)))"
        by (rule good_touch [OF inv, where t = t])
          (use Some True task_invD [OF assms Some] in
            \<open>auto simp: isAccessibleState_def terminal_def\<close>)
      then have "good r (snd (touchTask now True t (r\<lparr>tr_activeLeases := l\<rparr>)))"
        using good_leases [OF assms] good_trans by blast
      with Some True show ?thesis by simp
    next
      case False
      with Some assms show ?thesis by (simp add: good_leases)
    qed
  qed
  show ?thesis
    using assms step by (auto simp: release_lease_def Let_def good_refl)
qed

lemma beginFinish_good:
  assumes "task_inv r"
  shows "good r (snd (beginFinish sha256 now1 now2 k ctx r))"
proof (cases "requireOwnedTask now1 k (hashOwnerScope sha256 (ownerScope ctx)) True False r")
  case (Pair res r1)
  have g: "good r r1"
    using require_good [OF assms, of now1 k "hashOwnerScope sha256 (ownerScope ctx)" True False] Pair
    by simp
  show ?thesis
  proof (cases res)
    case (Inl e)
    with Pair g show ?thesis by (simp add: beginFinish_def)
  next
    case (Inr t)
    note t = require_Inr [OF assms Pair [unfolded Inr]]
    have "good r1 (snd (touchTask now2 False (t\<lparr>bt_state := Finishing\<rparr>) r1))"
      if "bt_state t \<noteq> Finished"
      by (rule good_touch [OF t(9), where t = t]) (use t that in \<open>auto simp: evolves_def terminal_def\<close>)
    then have "good r (snd (touchTask now2 False (t\<lparr>bt_state := Finishing\<rparr>) r1))"
      if "bt_state t \<noteq> Finished"
      using g good_trans that by blast
    with Pair Inr t g show ?thesis by (auto simp: beginFinish_def Let_def case_prod_unfold)
  qed
qed

lemma terminate_good:
  assumes "task_inv r" and "terminal st"
  shows "good r (snd (terminate_task st now k r))"
proof (cases "js_get (tr_tasks r) k")
  case None
  with assms show ?thesis by (simp add: terminate_task_def good_refl)
next
  case (Some t)
  have "good r (store_task (t\<lparr>bt_state := st, bt_tabIds := [], bt_lastActivityAt := now, bt_expiresAt := now\<rparr>)
      (r\<lparr>tr_taskByTab := fold js_delete (bt_tabIds t) (tr_taskByTab r)\<rparr>))"
    by (rule good_remove_tabs [OF assms(1) Some])
      (use assms(2) task_invD [OF assms(1) Some] in \<open>auto simp: evolves_def filter_empty_conv\<close>)
  with Some show ?thesis by (simp add: terminate_task_def Let_def)
qed

lemma beginExpiration_good: "task_inv r \<Longrightarrow> good r (snd (beginExpiration now k r))"
  using task_invD [of r k]
  by (auto simp: beginExpiration_def Let_def isAccessibleState_def evolves_def terminal_def
      intro!: good_refl good_store split: option.splits)

lemma restore_good: "task_inv r \<Longrightarrow> good r (snd (restoreAfterFailedFinalization now k r))"
  using task_invD [of r k]
  by (auto simp: restoreAfterFailedFinalization_def case_prod_unfold evolves_def terminal_def
      intro!: good_refl good_touch split: option.splits)

lemmas method_good =
  create_good resolveForOpen_good resolveScoped_good assertTabAccess_good attachTab_good
  attachExistingTab_good detachTab_good acquireForTask_good acquireForTab_good release_good
  beginFinish_good beginExpiration_good restore_good

lemma plain_step_good: "plain_step sha256 r r' \<Longrightarrow> task_inv r \<Longrightarrow> good r r'"
  by (induction rule: plain_step.induct)
    (auto simp: completeFinish_def markExpired_def terminal_def intro!: method_good terminate_good)

lemma task_step_good: "task_step sha256 s s' \<Longrightarrow> task_inv (fst s) \<Longrightarrow> good (fst s) (fst s')"
proof (induction rule: task_step.induct)
  case (release_step i ls now r l r')
  then show ?case using release_good [of r now "ls ! i"] by simp
qed (auto simp: grant_lease_def intro: plain_step_good acquireForTask_good acquireForTab_good)

lemma task_steps_good:
  assumes "(task_step sha256)\<^sup>*\<^sup>* s s'" and "task_inv (fst s)"
  shows "good (fst s) (fst s')"
  using assms(1)
proof (induction rule: rtranclp_induct)
  case base
  then show ?case using assms(2) by (rule good_refl)
next
  case (step y z)
  have "task_inv (fst y)" using step.IH unfolding good_def by (rule conjunct1)
  then show ?case using step.IH task_step_good [OF step.hyps(2)] good_trans by blast
qed

subsection \<open>The constructor\<close>

lemma js_get_index_new_tabs:
  "js_get (index_new_tabs k tabs m) tab =
     (case js_get m tab of Some k' \<Rightarrow> Some k' | None \<Rightarrow> if tab \<in> set tabs then Some k else None)"
  unfolding index_new_tabs_def
  by (induction tabs arbitrary: m) (auto split: option.splits)

lemma js_wf_index_new_tabs: "js_wf m \<Longrightarrow> js_wf (index_new_tabs k tabs m)"
  unfolding index_new_tabs_def by (induction tabs arbitrary: m) (auto intro: js_wf_set)

text \<open>What a stored snapshot must satisfy for the constructor to rebuild a consistent registry.\<close>

definition loadable :: "BrowserTask list \<Rightarrow> bool" where
  "loadable ts \<longleftrightarrow> distinct (map bt_taskId ts) \<and> distinct (concat (map bt_tabIds ts)) \<and>
     list_all (\<lambda>t. terminal (bt_state t) \<longrightarrow> bt_tabIds t = []) ts"

lemma load_one_inv:
  assumes inv: "task_inv r" and new: "js_get (tr_tasks r) (bt_taskId t) = None"
    and tabs: "\<And>tab. tab \<in> set (bt_tabIds t) \<Longrightarrow> js_get (tr_taskByTab r) tab = None"
    and t: "bt_taskId t \<noteq> []" "distinct (bt_tabIds t)" "terminal (bt_state t) \<Longrightarrow> bt_tabIds t = []"
  shows "task_inv ((store_task t r)\<lparr>tr_taskByTab :=
           index_new_tabs (bt_taskId t) (bt_tabIds t) (tr_taskByTab r)\<rparr>)"
    (is "task_inv ?r'")
  unfolding task_inv_def
proof (intro conjI allI impI)
  fix tab k
  show "(js_get (tr_taskByTab ?r') tab = Some k) =
      (\<exists>u. js_get (tr_tasks ?r') k = Some u \<and> tab \<in> set (bt_tabIds u))"
  proof -
    have "js_get (tr_taskByTab ?r') tab = Some k \<longleftrightarrow>
        (if tab \<in> set (bt_tabIds t) then k = bt_taskId t else js_get (tr_taskByTab r) tab = Some k)"
      using tabs [of tab] by (auto simp: js_get_index_new_tabs split: option.splits)
    then show ?thesis using tabs [of tab] new index_iff [OF inv, of tab k] by auto
  qed
next
  fix k u
  assume "js_get (tr_tasks ?r') k = Some u"
  then show "bt_taskId u = k" "k \<noteq> []" "distinct (bt_tabIds u)"
    "terminal (bt_state u) \<Longrightarrow> bt_tabIds u = []"
    using t task_invD [OF inv] by (auto split: if_splits)
qed (use inv in \<open>auto simp: task_inv_def js_wf_index_new_tabs\<close>)

lemma load_tasks_inv:
  assumes "load_tasks ts r = Inr r'" and "task_inv r" and "loadable ts"
    and "\<And>t. t \<in> set ts \<Longrightarrow> js_get (tr_tasks r) (bt_taskId t) = None"
    and "\<And>t tab. t \<in> set ts \<Longrightarrow> tab \<in> set (bt_tabIds t) \<Longrightarrow> js_get (tr_taskByTab r) tab = None"
  shows "task_inv r'"
  using assms
proof (induction ts r rule: load_tasks.induct)
  case (1 r)
  then show ?case by simp
next
  case (2 t ts r)
  have parse: "browserTaskSchema_parse t = Inr t"
    using "2.prems"(1) by (auto simp: browserTaskSchema_parse_def split: if_splits)
  let ?r1 = "(store_task t r)\<lparr>tr_taskByTab :=
               index_new_tabs (bt_taskId t) (bt_tabIds t) (tr_taskByTab r)\<rparr>"
  have "task_inv ?r1"
    by (rule load_one_inv)
      (use "2.prems" parse in \<open>auto simp: loadable_def browserTaskSchema_parse_def browserTaskFields_ok_def
        id_length_ok_def split: if_splits\<close>)
  moreover have "loadable ts" using "2.prems"(3) by (auto simp: loadable_def)
  moreover have "js_get (tr_tasks ?r1) (bt_taskId u) = None" if "u \<in> set ts" for u
  proof -
    have "bt_taskId u \<noteq> bt_taskId t" using imageI [OF that, of bt_taskId] "2.prems"(3) by (auto simp: loadable_def)
    then show ?thesis using that "2.prems"(4) by simp
  qed
  moreover have "js_get (tr_taskByTab ?r1) tab = None"
    if "u \<in> set ts" and "tab \<in> set (bt_tabIds u)" for u tab
    using that "2.prems"(3,5) by (fastforce simp: loadable_def js_get_index_new_tabs)
  ultimately show ?case using "2.IH" [OF parse] "2.prems"(1) parse by auto
qed

lemma new_task_registry_inv:
  "new_task_registry ts ttl = Inr r \<Longrightarrow> loadable ts \<Longrightarrow> task_inv r"
  unfolding new_task_registry_def by (erule load_tasks_inv) (auto simp: task_inv_def)

lemma load_tasks_leases: "load_tasks ts r = Inr r' \<Longrightarrow> tr_activeLeases r' = tr_activeLeases r"
  by (induction ts r rule: load_tasks.induct) (auto split: sum.splits)

subsection \<open>Leases\<close>

lemma touchTask_leases [simp]:
  "tr_activeLeases (snd (touchTask now x t r)) = tr_activeLeases r"
  "tr_activeLeases (snd (resume now t r)) = tr_activeLeases r"
  by (simp_all add: touchTask_def resume_def Let_def)

lemma require_leases [simp]:
  "tr_activeLeases (snd (requireOwnedTask now k h incl res r)) = tr_activeLeases r"
  by (auto simp: requireOwnedTask_def case_prod_unfold split: option.splits)

lemma create_leases [simp]:
  "tr_activeLeases (snd (create_task sha256 now u c r)) = tr_activeLeases r"
  by (auto simp: create_task_def split: sum.splits)

lemma assertTabAccess_leases [simp]:
  "tr_activeLeases (snd (assertTabAccess sha256 now tab c r)) = tr_activeLeases r"
  by (simp add: assertTabAccess_def Let_def)

lemma plain_step_leases: "plain_step sha256 r r' \<Longrightarrow> tr_activeLeases r' = tr_activeLeases r"
proof (induction rule: plain_step.induct)
  case (attachTab_step r now1 now2 k tabId ctx)
  show ?case
    using require_leases [of now1 k "hashOwnerScope sha256 (ownerScope ctx)" False True r]
    by (auto simp: attachTab_def Let_def case_prod_unfold split: prod.splits sum.splits)
next
  case (beginFinish_step r now1 now2 k ctx)
  show ?case
    using require_leases [of now1 k "hashOwnerScope sha256 (ownerScope ctx)" True False r]
    by (auto simp: beginFinish_def Let_def case_prod_unfold split: prod.splits sum.splits)
qed (auto simp: resolveForOpen_def resolveScoped_def attachExistingTab_def detachTab_def
    completeFinish_def markExpired_def terminate_task_def beginExpiration_def
    restoreAfterFailedFinalization_def Let_def case_prod_unfold split: option.splits list.splits)

text \<open>
  The number of leases of a task that were handed out and not released, and the invariant
  that \<open>leaseCount\<close> counts them.
\<close>

definition open_leases :: "string \<Rightarrow> BrowserTaskLease list \<Rightarrow> nat" where
  "open_leases k ls = length (filter (\<lambda>l. bl_taskId l = k \<and> \<not> bl_released l) ls)"

definition lease_inv :: "lease_state \<Rightarrow> bool" where
  "lease_inv s \<longleftrightarrow> (\<forall>k. leaseCount k (fst s) = open_leases k (snd s))"

lemma open_leases_append: "open_leases k (ls @ ms) = open_leases k ls + open_leases k ms"
  by (simp add: open_leases_def)

lemma open_leases_release:
  assumes "i < length ls" and "\<not> bl_released (ls ! i)"
  shows "open_leases k ls =
     open_leases k (ls[i := (ls ! i)\<lparr>bl_released := True\<rparr>]) + (if bl_taskId (ls ! i) = k then 1 else 0)"
proof -
  let ?with = "\<lambda>l. take i ls @ l # drop (Suc i) ls"
  have count: "open_leases k (?with l) =
      open_leases k (take i ls) + (if bl_taskId l = k \<and> \<not> bl_released l then 1 else 0) +
      open_leases k (drop (Suc i) ls)" for l
    by (simp add: open_leases_def)
  have "open_leases k ls = open_leases k (?with (ls ! i))"
    by (rule arg_cong [OF id_take_nth_drop [OF assms(1)]])
  then show ?thesis using assms by (simp only: count upd_conv_take_nth_drop) simp
qed

lemma leaseCount_cong: "tr_activeLeases r' = tr_activeLeases r \<Longrightarrow> leaseCount k r' = leaseCount k r"
  by (simp add: leaseCount_def)

lemma acquireForTask_leases:
  assumes "acquireForTask sha256 now k ctx r = (res, r')"
  shows "leaseCount k' r' = leaseCount k' r +
     (case res of Inl e \<Rightarrow> 0 | Inr l \<Rightarrow> open_leases k' [l])"
proof (cases "requireOwnedTask now k (hashOwnerScope sha256 (ownerScope ctx)) False True r")
  case (Pair q r1)
  then have "tr_activeLeases r1 = tr_activeLeases r"
    using require_leases [of now k "hashOwnerScope sha256 (ownerScope ctx)" False True r] by simp
  then show ?thesis using assms Pair
    by (auto simp: acquireForTask_def leaseCount_def open_leases_def split: sum.splits)
qed

lemma acquireForTab_leases:
  assumes "acquireForTab sha256 now1 now2 tab ctx r = (res, r')"
  shows "leaseCount k' r' = leaseCount k' r +
     (case res of Inl e \<Rightarrow> 0 | Inr l \<Rightarrow> open_leases k' [l])"
proof (cases "assertTabAccess sha256 now1 tab ctx r")
  case (Pair q r1)
  then have "leaseCount k' r1 = leaseCount k' r"
    using assertTabAccess_leases [of sha256 now1 tab ctx r] by (simp add: leaseCount_def)
  then show ?thesis using assms Pair
    by (cases q) (auto simp: acquireForTab_def dest: acquireForTask_leases [of _ _ _ _ _ _ _ k'])
qed

lemma release_leases:
  assumes "release_lease now l r = (l', r')" and "\<not> bl_released l"
  shows "leaseCount k r' = leaseCount k r - (if bl_taskId l = k then 1 else 0)"
    and "l' = l\<lparr>bl_released := True\<rparr>"
  using assms
  by (auto simp: release_lease_def Let_def leaseCount_def split: option.splits if_splits)

lemma grant_lease_inv:
  assumes "lease_inv (r, ls)"
    and "leaseCount k (snd p) = leaseCount k r + (case fst p of Inl e \<Rightarrow> 0 | Inr l \<Rightarrow> open_leases k [l])"
  shows "leaseCount k (fst (grant_lease ls p)) = open_leases k (snd (grant_lease ls p))"
  using assms by (auto simp: lease_inv_def grant_lease_def open_leases_append split: sum.splits)

lemma task_step_lease_inv: "task_step sha256 s s' \<Longrightarrow> lease_inv s \<Longrightarrow> lease_inv s'"
proof (induction rule: task_step.induct)
  case (plain r r' ls)
  then show ?case by (simp add: lease_inv_def leaseCount_cong [OF plain_step_leases])
next
  case (acquireForTask_step r ls now k ctx)
  then show ?case
    using grant_lease_inv [OF acquireForTask_step] acquireForTask_leases [of sha256 now k ctx r]
    by (metis lease_inv_def prod.collapse)
next
  case (acquireForTab_step r ls now1 now2 tabId ctx)
  then show ?case
    using grant_lease_inv [OF acquireForTab_step] acquireForTab_leases [of sha256 now1 now2 tabId ctx r]
    by (metis lease_inv_def prod.collapse)
next
  case (release_step i ls now r l r')
  show ?case
  proof (cases "bl_released (ls ! i)")
    case True
    with release_step show ?thesis by (auto simp: release_lease_def)
  next
    case False
    show ?thesis
      using release_leases [OF release_step(2) False] open_leases_release [OF release_step(1) False]
        release_step(3)
      by (simp add: lease_inv_def)
  qed
qed

lemma task_steps_lease_inv:
  "(task_step sha256)\<^sup>*\<^sup>* s s' \<Longrightarrow> lease_inv s \<Longrightarrow> lease_inv s'"
  by (induction rule: rtranclp_induct) (auto intro: task_step_lease_inv)

subsection \<open>Owner isolation\<close>

lemma resume_fields [simp]:
  "bt_ownerScopeHash (fst (resume now t r)) = bt_ownerScopeHash t"
  "bt_taskId (fst (resume now t r)) = bt_taskId t"
  by (simp_all add: resume_def touchTask_def Let_def)

lemma require_owner:
  "requireOwnedTask now k h incl res r = (Inr t, r1) \<Longrightarrow> bt_ownerScopeHash t = h"
  by (auto simp: requireOwnedTask_def resume_def touchTask_def Let_def split: option.splits if_splits)

lemma filter_singleton: "filter P xs = [x] \<Longrightarrow> P x \<and> x \<in> set xs"
  by (metis list.set_intros(1) mem_Collect_eq set_filter)

lemma resolveForOpen_owner:
  assumes "resolveForOpen sha256 now u k ctx r = (Inr t, r')"
  shows "bt_ownerScopeHash t = hashOwnerScope sha256 (ownerScope ctx)"
  using assms unfolding resolveForOpen_def Let_def
  by (auto simp: create_task_def browserTaskSchema_parse_def resume_def touchTask_def Let_def
      dest: require_owner dest!: filter_singleton split: if_splits list.splits)

lemma resolveScoped_owner:
  assumes "resolveScoped sha256 now k ctx incl r = (Inr t, r')"
  shows "bt_ownerScopeHash t = hashOwnerScope sha256 (ownerScope ctx)"
  using assms unfolding resolveScoped_def Let_def
  by (auto simp: resume_def touchTask_def Let_def
      dest: require_owner dest!: filter_singleton split: if_splits list.splits)

subsection \<open>Properties\<close>

text \<open>A concrete registry for the witnesses: one active task with one tab.\<close>

definition demo_task :: BrowserTask where
  "demo_task = \<lparr>bt_taskId = ''t1'', bt_ownerScopeHash = ''legacy-local'', bt_state = Active,
     bt_tabIds = [''tab1''], bt_createdAt = 0, bt_lastActivityAt = 0, bt_expiresAt = 100,
     bt_lifecycleVersion = 2\<rparr>"

definition demo_registry :: task_registry where
  "demo_registry = \<lparr>tr_tasks = [(''t1'', demo_task)], tr_taskByTab = [(''tab1'', ''t1'')],
     tr_activeLeases = [], tr_ttlMs = 100\<rparr>"

definition demo_leased :: lease_state where
  "demo_leased = grant_lease [] (acquireForTask id 0 ''t1'' None demo_registry)"

definition demo_finished :: task_registry where
  "demo_finished = snd (completeFinish 7 ''t1'' demo_registry)"

lemma demo_new: "new_task_registry [demo_task] 100 = Inr demo_registry"
  by (simp add: new_task_registry_def browserTaskSchema_parse_def browserTaskFields_ok_def
      id_length_ok_def demo_task_def demo_registry_def store_task_def index_new_tabs_def
      CURRENT_BROWSER_TASK_LIFECYCLE_VERSION_def)

lemma demo_loadable: "loadable [demo_task]"
  by code_simp

lemma demo_leased_step: "(task_step id)\<^sup>*\<^sup>* (demo_registry, []) demo_leased"
  unfolding demo_leased_def by (rule r_into_rtranclp, rule acquireForTask_step)

lemma demo_finished_step: "(task_step id)\<^sup>*\<^sup>* (demo_registry, []) (demo_finished, [])"
  unfolding demo_finished_def by (intro r_into_rtranclp plain completeFinish_step)



text \<open>
  C21. No sequence of calls changes the owner or the creation time of a task, removes a task, or
  brings a finished or expired task back to a live state.\<close>

theorem task_owner_and_end_final:
  assumes "new_task_registry ts ttl = Inr r0" and "loadable ts"
    and "(task_step sha256)\<^sup>*\<^sup>* (r0, []) (r, ls)" and "(task_step sha256)\<^sup>*\<^sup>* (r, ls) (r', ls')"
    and "js_get (tr_tasks r) k = Some t"
  shows "\<exists>t'. js_get (tr_tasks r') k = Some t' \<and> bt_ownerScopeHash t' = bt_ownerScopeHash t \<and>
           bt_createdAt t' = bt_createdAt t \<and> (terminal (bt_state t) \<longrightarrow> terminal (bt_state t'))"
proof -
  have "task_inv r"
    using task_steps_good [OF assms(3)] new_task_registry_inv [OF assms(1,2)] by (simp add: good_def)
  then have "good r r'" using task_steps_good [OF assms(4)] by simp
  then show ?thesis using assms(5) unfolding good_def task_frame_def evolves_def by blast
qed

theorem task_owner_and_end_final_witness:
  "\<exists>t'. js_get (tr_tasks (snd (completeFinish 9 ''t1'' demo_finished))) ''t1'' = Some t' \<and>
     bt_ownerScopeHash t' = ''legacy-local'' \<and> bt_createdAt t' = 0 \<and> terminal (bt_state t')"
proof -
  have get: "js_get (tr_tasks demo_finished) ''t1'' =
      Some (demo_task\<lparr>bt_state := Finished, bt_tabIds := [], bt_lastActivityAt := 7, bt_expiresAt := 7\<rparr>)"
    by (simp add: demo_finished_def demo_registry_def demo_task_def completeFinish_def
        terminate_task_def store_task_def Let_def)
  have step: "(task_step id)\<^sup>*\<^sup>* (demo_finished, []) (snd (completeFinish 9 ''t1'' demo_finished), [])"
    by (intro r_into_rtranclp plain completeFinish_step)
  from task_owner_and_end_final [OF demo_new demo_loadable demo_finished_step step get]
  show ?thesis by (auto simp: demo_task_def terminal_def)
qed

text \<open>
  C9. Owner isolation. When a task belongs to another owner scope than the caller's, every
  scoped call that names it, or a tab of it, throws \<open>TASK_OWNERSHIP_MISMATCH\<close> and changes
  nothing, and the listing of the caller's tasks does not contain it.\<close>

theorem foreign_task_refused:
  assumes "js_get (tr_tasks r) k = Some t" and "k \<noteq> []"
    and "bt_ownerScopeHash t \<noteq> hashOwnerScope sha256 (ownerScope ctx)"
    and "js_get (tr_taskByTab r) tab = Some k"
  defines "refused \<equiv> AppError TASK_OWNERSHIP_MISMATCH ''The browser task belongs to another owner scope.''"
  shows "resolveForOpen sha256 now u (Some k) ctx r = (Inl refused, r) \<and>
    resolveScoped sha256 now (Some k) ctx incl r = (Inl refused, r) \<and>
    assertTabAccess sha256 now tab ctx r = (Inl refused, r) \<and>
    attachTab sha256 now now2 k newTab ctx r = (Inl refused, r) \<and>
    acquireForTask sha256 now k ctx r = (Inl refused, r) \<and>
    acquireForTab sha256 now now2 tab ctx r = (Inl refused, r) \<and>
    beginFinish sha256 now now2 k ctx r = (Inl refused, r) \<and>
    t \<notin> set (accessibleTasks sha256 ctx inclTerminal r)"
proof -
  have req: "requireOwnedTask n k (hashOwnerScope sha256 (ownerScope ctx)) b c r = (Inl refused, r)"
    for n b c using assms(1,3) by (simp add: requireOwnedTask_def refused_def)
  have tab: "assertTabAccess sha256 now tab ctx r = (Inl refused, r)"
    using assms(2,4) req by (simp add: assertTabAccess_def truthy_def)
  show ?thesis
    using assms(2,3) req tab
    by (simp add: resolveForOpen_def resolveScoped_def attachTab_def acquireForTask_def
        acquireForTab_def beginFinish_def accessibleTasks_def truthy_def Let_def)
qed

theorem foreign_task_refused_witness:
  "acquireForTab id 1 2 ''tab1'' (Some ''mallory'') demo_registry =
     (Inl (AppError TASK_OWNERSHIP_MISMATCH ''The browser task belongs to another owner scope.''),
      demo_registry)"
proof -
  have "js_get (tr_tasks demo_registry) ''t1'' = Some demo_task"
    "js_get (tr_taskByTab demo_registry) ''tab1'' = Some ''t1''"
    "bt_ownerScopeHash demo_task \<noteq> hashOwnerScope id (ownerScope (Some ''mallory''))"
    by (simp_all add: demo_registry_def demo_task_def hashOwnerScope_def ownerScope_def)
  then show ?thesis using foreign_task_refused [where ctx = "Some ''mallory''"] by blast
qed

text \<open>
  A call that resolves a task for a caller, when it succeeds, gives a task of that caller's
  owner scope.\<close>

theorem resolved_task_owned:
  assumes "resolveForOpen sha256 now u k ctx r = (Inr t, r') \<or>
     resolveScoped sha256 now k ctx incl r = (Inr t, r') \<or>
     assertTabAccess sha256 now tab ctx r = (Inr t, r')"
  shows "bt_ownerScopeHash t = hashOwnerScope sha256 (ownerScope ctx)"
  using assms resolveForOpen_owner resolveScoped_owner
  by (auto simp: assertTabAccess_def Let_def dest: require_owner split: if_splits)

theorem resolved_task_owned_witness:
  "\<exists>t r'. resolveForOpen id 5 ''u'' None (Some ''alice'') demo_registry = (Inr t, r') \<and>
     bt_ownerScopeHash t = ''alice''"
proof -
  obtain t r' where res: "resolveForOpen id 5 ''u'' None (Some ''alice'') demo_registry = (Inr t, r')"
    by (simp add: resolveForOpen_def create_task_def browserTaskSchema_parse_def
        browserTaskFields_ok_def id_length_ok_def truthy_def hashOwnerScope_def ownerScope_def
        demo_registry_def demo_task_def Let_def)
  then have "bt_ownerScopeHash t = hashOwnerScope id (ownerScope (Some ''alice''))"
    by (intro resolved_task_owned disjI1)
  with res show ?thesis by (auto simp: hashOwnerScope_def ownerScope_def)
qed

text \<open>
  Leases protect a task from expiry. After any sequence of calls, while one handed-out lease
  of a task is not released, \<open>beginExpiration\<close> refuses the task, and the sweep does not
  propose it; releasing a lease twice never frees another lease.\<close>

theorem leased_task_not_expired:
  assumes "new_task_registry ts ttl = Inr r0"
    and "(task_step sha256)\<^sup>*\<^sup>* (r0, []) (r, ls)"
    and "l \<in> set ls" and "\<not> bl_released l"
  shows "beginExpiration now (bl_taskId l) r = (None, r) \<and>
     bl_taskId l \<notin> bt_taskId ` set (expiredCandidates now r)"
proof -
  have "lease_inv (r0, [])"
    using load_tasks_leases [OF assms(1) [unfolded new_task_registry_def]]
    by (simp add: lease_inv_def leaseCount_def open_leases_def)
  then have "lease_inv (r, ls)" using task_steps_lease_inv [OF assms(2)] by simp
  moreover have "0 < open_leases (bl_taskId l) ls"
    using assms(3,4) by (auto simp: open_leases_def length_greater_0_conv filter_empty_conv
        simp del: length_greater_0_conv intro!: length_pos_if_in_set [of l])
  ultimately have "0 < leaseCount (bl_taskId l) r" by (simp add: lease_inv_def)
  then show ?thesis
    by (auto simp: beginExpiration_def expiredCandidates_def split: option.splits)
qed

theorem leased_task_not_expired_witness:
  "beginExpiration 5000 ''t1'' (fst demo_leased) = (None, fst demo_leased)"
proof -
  have ls: "snd demo_leased = [\<lparr>bl_taskId = ''t1'', bl_released = False\<rparr>]"
    by (simp add: demo_leased_def demo_registry_def demo_task_def acquireForTask_def
        requireOwnedTask_def grant_lease_def hashOwnerScope_def ownerScope_def DEFAULT_OWNER_SCOPE_def)
  have "(task_step id)\<^sup>*\<^sup>* (demo_registry, []) (fst demo_leased, snd demo_leased)"
    using demo_leased_step by simp
  from leased_task_not_expired [OF demo_new this, of "\<lparr>bl_taskId = ''t1'', bl_released = False\<rparr>"]
  show ?thesis by (simp add: ls)
qed

text \<open>
  Acquiring a lease of an active task does not extend the stored expiry. The method calls
  \<open>touchTask\<close> on the clone that \<open>requireOwnedTask\<close> returned: the stored task keeps
  its last activity and its expiry, and only the release of the lease extends them.\<close>

theorem acquire_leaves_expiry:
  assumes "js_get (tr_tasks r) k = Some t" and "bt_state t = Active" and "bt_taskId t = k"
    and "bt_ownerScopeHash t = hashOwnerScope sha256 (ownerScope ctx)"
  shows "\<exists>r'. acquireForTask sha256 now k ctx r = (Inr \<lparr>bl_taskId = k, bl_released = False\<rparr>, r') \<and>
     tr_tasks r' = tr_tasks r \<and> leaseCount k r' = Suc (leaseCount k r)"
  using assms by (simp add: acquireForTask_def requireOwnedTask_def leaseCount_def)

theorem acquire_leaves_expiry_witness:
  "\<exists>r'. acquireForTask id 90 ''t1'' None demo_registry = (Inr \<lparr>bl_taskId = ''t1'', bl_released = False\<rparr>, r') \<and>
     tr_tasks r' = [(''t1'', demo_task)] \<and> leaseCount ''t1'' r' = 1"
proof -
  have "js_get (tr_tasks demo_registry) ''t1'' = Some demo_task" "bt_state demo_task = Active"
    "bt_taskId demo_task = ''t1''"
    "bt_ownerScopeHash demo_task = hashOwnerScope id (ownerScope None)"
    by (simp_all add: demo_registry_def demo_task_def hashOwnerScope_def ownerScope_def
        DEFAULT_OWNER_SCOPE_def)
  from acquire_leaves_expiry [OF this, of 90] show ?thesis
    by (auto simp: demo_registry_def leaseCount_def)
qed

end
