(* ===== verification/Mutation_Receipts.thy ===== *)
theory Mutation_Receipts
  imports Typed_Confirmations
begin

text \<open>
  Mutation receipts of \<open>packages/mcp-core/src/mutation-receipts.ts\<close>: the record kept for the
  idempotency key of a source-control mutation, its state machine (reserved, executing,
  completed, reconciliation required), and the in-memory store.

  \<open>parseMutationReceipt\<close> reads an unknown JavaScript value, so it is a function on \<open>json\<close>;
  \<open>receipt_json\<close> is the object that a receipt is. \<open>cloneReceipt\<close> and \<open>cloneReservation\<close>
  copy through JSON text; the values have no aliases in the model and finite numbers are read
  back equal, so a copy is the value itself. The locale \<open>receipt_store\<close> is the interface
  \<open>MutationReceiptStore\<close> with the laws its clients rely on.
\<close>

subsection \<open>Data\<close>

record MutationReceiptIdentity =
  mi_workspaceId :: string
  mi_operation :: string
  mi_targetResource :: string
  mi_canonicalArgumentsDigest :: string
  mi_idempotencyKey :: string

datatype MutationReceiptState = Reserved | Executing | Completed | ReconciliationRequired

record 'n MutationReceipt =
  mr_identity :: MutationReceiptIdentity
  mr_state :: MutationReceiptState
  mr_result :: "'n json option"

datatype 'n MutationReceiptReservation =
    Execute "'n MutationReceipt"
  | ReplayCompleted "'n MutationReceipt"
  | NeedsReconciliation "'n MutationReceipt"

definition sourceControlOperationNames :: "string list" where
  "sourceControlOperationNames =
     [''git_create_branch'', ''git_stage_paths'', ''git_unstage_paths'', ''git_commit'',
      ''git_merge_branch'', ''git_push_branch'', ''github_get_repository'',
      ''github_create_repository'', ''github_get_pull_request'', ''github_create_pull_request'',
      ''github_merge_pull_request'']"

subsection \<open>Schemas\<close>

text \<open>The identity schema on the fields of an identity: trim, then bound the lengths.\<close>

definition mutationReceiptIdentitySchema_parse ::
  "MutationReceiptIdentity \<Rightarrow> MutationReceiptIdentity result" where
  "mutationReceiptIdentitySchema_parse i =
     (let ws = js_trim (mi_workspaceId i); target = js_trim (mi_targetResource i);
          key = js_trim (mi_idempotencyKey i) in
      if 1 \<le> length ws \<and> mi_operation i \<in> set sourceControlOperationNames \<and>
         1 \<le> length target \<and> length target \<le> 512 \<and>
         is_sha256_hex (mi_canonicalArgumentsDigest i) \<and>
         1 \<le> length key \<and> length key \<le> 512
      then Inr (i\<lparr>mi_workspaceId := ws, mi_targetResource := target, mi_idempotencyKey := key\<rparr>)
      else Inl SchemaError)"

text \<open>The same schema on an unknown value: an object with exactly these fields, all strings.\<close>

definition identity_fields :: "string list" where
  "identity_fields = [''workspaceId'', ''operation'', ''targetResource'',
     ''canonicalArgumentsDigest'', ''idempotencyKey'']"

definition json_string :: "'n json option \<Rightarrow> string option" where
  "json_string v = (case v of Some (JString s) \<Rightarrow> Some s | _ \<Rightarrow> None)"

definition parse_identity :: "'n json option \<Rightarrow> MutationReceiptIdentity result" where
  "parse_identity v =
     (case v of
        Some (JObject plain es) \<Rightarrow>
          if \<not> list_all (\<lambda>k. k \<in> set identity_fields) (map fst es) then Inl SchemaError
          else
            (case map (\<lambda>f. json_string (map_of es f)) identity_fields of
               [Some ws, Some opn, Some target, Some dig, Some key] \<Rightarrow>
                 mutationReceiptIdentitySchema_parse
                   \<lparr>mi_workspaceId = ws, mi_operation = opn, mi_targetResource = target,
                    mi_canonicalArgumentsDigest = dig, mi_idempotencyKey = key\<rparr>
             | _ \<Rightarrow> Inl SchemaError)
      | _ \<Rightarrow> Inl SchemaError)"

fun state_name :: "MutationReceiptState \<Rightarrow> string" where
  "state_name Reserved = ''reserved''"
| "state_name Executing = ''executing''"
| "state_name Completed = ''completed''"
| "state_name ReconciliationRequired = ''reconciliation_required''"

definition mutationReceiptStateSchema_parse :: "'n json option \<Rightarrow> MutationReceiptState result" where
  "mutationReceiptStateSchema_parse v =
     (case json_string v of
        None \<Rightarrow> Inl SchemaError
      | Some s \<Rightarrow>
          (case filter (\<lambda>st. state_name st = s)
                  [Reserved, Executing, Completed, ReconciliationRequired] of
             [] \<Rightarrow> Inl SchemaError
           | st # _ \<Rightarrow> Inr st))"

subsection \<open>Public results\<close>

definition isSensitiveReceiptField :: "string \<Rightarrow> bool" where
  "isSensitiveReceiptField key \<longleftrightarrow>
     (let normalized = normalizeSensitiveKey key in
      normalized = ''confirmationid'' \<or>
      js_includes normalized ''authorization'' \<or> normalized = ''token'' \<or>
      js_endsWith normalized ''token'' \<or> js_includes normalized ''credential'' \<or>
      js_includes normalized ''password'' \<or> js_includes normalized ''secret'' \<or>
      js_endsWith normalized ''apikey'' \<or> js_includes normalized ''privatekey'')"

definition invalidPublicResult :: "string list \<Rightarrow> string \<Rightarrow> exn" where
  "invalidPublicResult path reason =
     (let location = (if path = [] then ''result'' else ''result.'' @ join_with ''.'' path) in
      AppError INVALID_ARGUMENT
        (''Mutation receipt '' @ location @ '' contains an invalid '' @ reason @ ''.''))"

text \<open>Decimal text of a natural number, as \<open>String(index)\<close>.\<close>

fun js_digits :: "nat \<Rightarrow> string" where
  "js_digits n = (if n < 10 then [char_of (48 + n)] else js_digits (n div 10) @ [char_of (48 + n mod 10)])"

declare js_digits.simps [simp del]

text \<open>
  The loop over entries: a sensitive key throws, otherwise the visited value is stored; an
  entry named \<open>__proto__\<close> sets the prototype of the result and is lost.
\<close>

definition public_entry ::
  "string list \<Rightarrow> string \<Rightarrow> 'n json result \<Rightarrow> (string \<times> 'n json) list result" where
  "public_entry path key visited =
     (if isSensitiveReceiptField key then Inl (invalidPublicResult (path @ [key]) ''sensitive field'')
      else (case visited of
              Inl e \<Rightarrow> Inl e
            | Inr w \<Rightarrow> Inr (if key = ''__proto__'' then [] else [(key, w)])))"

fun parsePublicResultValue ::
  "('n \<Rightarrow> string option) \<Rightarrow> 'n json \<Rightarrow> string list \<Rightarrow> 'n json result" where
  "parsePublicResultValue num (JNumber n) path =
     (if num n = None then Inl (invalidPublicResult path ''non-finite number'') else Inr (JNumber n))"
| "parsePublicResultValue num (JArray xs) path =
     (case collect (map (\<lambda>(i, visit). visit (path @ [js_digits i]))
                     (enumerate 0 (map (\<lambda>x p. parsePublicResultValue num x p) xs))) of
        Inl e \<Rightarrow> Inl e
      | Inr ys \<Rightarrow> Inr (JArray ys))"
| "parsePublicResultValue num (JObject plain es) path =
     (if \<not> plain then Inl (invalidPublicResult path ''unsupported object'')
      else
        (case collect (map (\<lambda>(k, v). public_entry path k (parsePublicResultValue num v (path @ [k]))) es) of
           Inl e \<Rightarrow> Inl e
         | Inr ess \<Rightarrow> Inr (JObject True (concat ess))))"
| "parsePublicResultValue num JUndefined path = Inl (invalidPublicResult path ''unsupported undefined'')"
| "parsePublicResultValue num (JUnsupported t) path =
     Inl (invalidPublicResult path (''unsupported '' @ t))"
| "parsePublicResultValue num v path = Inr v"

definition parseMutationReceiptPublicResult ::
  "('n \<Rightarrow> string option) \<Rightarrow> 'n json \<Rightarrow> 'n json result" where
  "parseMutationReceiptPublicResult num value = parsePublicResultValue num value []"

subsection \<open>parseMutationReceipt\<close>

definition identity_json :: "MutationReceiptIdentity \<Rightarrow> 'n json" where
  "identity_json i = JObject True
     [(''workspaceId'', JString (mi_workspaceId i)), (''operation'', JString (mi_operation i)),
      (''targetResource'', JString (mi_targetResource i)),
      (''canonicalArgumentsDigest'', JString (mi_canonicalArgumentsDigest i)),
      (''idempotencyKey'', JString (mi_idempotencyKey i))]"

definition receipt_json :: "'n MutationReceipt \<Rightarrow> 'n json" where
  "receipt_json r = JObject True
     ([(''identity'', identity_json (mr_identity r)), (''state'', JString (state_name (mr_state r)))] @
      (case mr_result r of None \<Rightarrow> [] | Some v \<Rightarrow> [(''result'', v)]))"

definition parseMutationReceipt ::
  "('n \<Rightarrow> string option) \<Rightarrow> 'n json \<Rightarrow> 'n MutationReceipt result" where
  "parseMutationReceipt num value =
     (case value of
        JObject True record \<Rightarrow>
          bind_result (parse_identity (map_of record ''identity'')) (\<lambda>identity.
          bind_result (mutationReceiptStateSchema_parse (map_of record ''state'')) (\<lambda>state.
          if list_ex (\<lambda>k. k \<notin> {''identity'', ''state'', ''result''}) (map fst record) then
            Inl (AppError INVALID_ARGUMENT ''Mutation receipt contains unknown fields.'')
          else if state = Completed then
            (case map_of record ''result'' of
               None \<Rightarrow> Inl (AppError INVALID_ARGUMENT ''Completed mutation receipt is missing result.'')
             | Some v \<Rightarrow>
                 bind_result (parseMutationReceiptPublicResult num v) (\<lambda>result.
                   Inr \<lparr>mr_identity = identity, mr_state = state, mr_result = Some result\<rparr>))
          else if map_of record ''result'' \<noteq> None then
            Inl (AppError INVALID_ARGUMENT ''Non-completed mutation receipt cannot contain result.'')
          else Inr \<lparr>mr_identity = identity, mr_state = state, mr_result = None\<rparr>))
      | _ \<Rightarrow> Inl (AppError INVALID_ARGUMENT ''Mutation receipt must be an object.''))"

subsection \<open>Transitions\<close>

definition assertSameIdentity ::
  "MutationReceiptIdentity \<Rightarrow> MutationReceiptIdentity \<Rightarrow> unit result" where
  "assertSameIdentity existing requested =
     (if mi_workspaceId existing \<noteq> mi_workspaceId requested \<or>
         mi_operation existing \<noteq> mi_operation requested \<or>
         mi_targetResource existing \<noteq> mi_targetResource requested \<or>
         mi_canonicalArgumentsDigest existing \<noteq> mi_canonicalArgumentsDigest requested \<or>
         mi_idempotencyKey existing \<noteq> mi_idempotencyKey requested
      then Inl (AppError SOURCE_CONTROL_IDEMPOTENCY_CONFLICT
        ''The idempotency key is already associated with a different source-control mutation identity.'')
      else Inr ())"

definition invalidTransition :: "MutationReceiptState \<Rightarrow> MutationReceiptState \<Rightarrow> exn" where
  "invalidTransition from to = AppError EXECUTION_STATE_INVALID
     (''Mutation receipt cannot transition from '' @ state_name from @ '' to '' @ state_name to @ ''.'')"

definition reserveMutationReceipt ::
  "('n \<Rightarrow> string option) \<Rightarrow> 'n MutationReceipt option \<Rightarrow> MutationReceiptIdentity \<Rightarrow>
   'n MutationReceiptReservation result" where
  "reserveMutationReceipt num existing identity =
     bind_result (mutationReceiptIdentitySchema_parse identity) (\<lambda>parsedIdentity.
     case existing of
       None \<Rightarrow> Inr (Execute \<lparr>mr_identity = parsedIdentity, mr_state = Reserved, mr_result = None\<rparr>)
     | Some e \<Rightarrow>
         bind_result (parseMutationReceipt num (receipt_json e)) (\<lambda>parsedExisting.
         bind_result (assertSameIdentity (mr_identity parsedExisting) parsedIdentity) (\<lambda>_.
         if mr_state parsedExisting = Completed then Inr (ReplayCompleted parsedExisting)
         else Inr (NeedsReconciliation parsedExisting))))"

definition requireExistingReceipt ::
  "('n \<Rightarrow> string option) \<Rightarrow> 'n MutationReceipt option \<Rightarrow> MutationReceiptIdentity \<Rightarrow>
   'n MutationReceipt result" where
  "requireExistingReceipt num existing identity =
     (case existing of
        None \<Rightarrow> Inl (AppError EXECUTION_STATE_INVALID
          ''Mutation receipt does not exist for this idempotency key.'')
      | Some e \<Rightarrow>
          bind_result (mutationReceiptIdentitySchema_parse identity) (\<lambda>parsedIdentity.
          bind_result (parseMutationReceipt num (receipt_json e)) (\<lambda>parsedExisting.
          bind_result (assertSameIdentity (mr_identity parsedExisting) parsedIdentity) (\<lambda>_.
          Inr parsedExisting))))"

definition markMutationReceiptExecuting ::
  "('n \<Rightarrow> string option) \<Rightarrow> 'n MutationReceipt option \<Rightarrow> MutationReceiptIdentity \<Rightarrow>
   'n MutationReceipt result" where
  "markMutationReceiptExecuting num existing identity =
     bind_result (requireExistingReceipt num existing identity) (\<lambda>receipt.
     if mr_state receipt \<noteq> Reserved then Inl (invalidTransition (mr_state receipt) Executing)
     else Inr \<lparr>mr_identity = mr_identity receipt, mr_state = Executing, mr_result = None\<rparr>)"

definition markMutationReceiptReconciliationRequired ::
  "('n \<Rightarrow> string option) \<Rightarrow> 'n MutationReceipt option \<Rightarrow> MutationReceiptIdentity \<Rightarrow>
   'n MutationReceipt result" where
  "markMutationReceiptReconciliationRequired num existing identity =
     bind_result (requireExistingReceipt num existing identity) (\<lambda>receipt.
     if mr_state receipt = ReconciliationRequired then Inr receipt
     else if mr_state receipt \<noteq> Executing then
       Inl (invalidTransition (mr_state receipt) ReconciliationRequired)
     else Inr \<lparr>mr_identity = mr_identity receipt, mr_state = ReconciliationRequired, mr_result = None\<rparr>)"

definition markMutationReceiptCompleted ::
  "('n \<Rightarrow> string option) \<Rightarrow> 'n MutationReceipt option \<Rightarrow> MutationReceiptIdentity \<Rightarrow> 'n json \<Rightarrow>
   'n MutationReceipt result" where
  "markMutationReceiptCompleted num existing identity result =
     bind_result (requireExistingReceipt num existing identity) (\<lambda>receipt.
     if mr_state receipt \<noteq> Executing \<and> mr_state receipt \<noteq> ReconciliationRequired then
       Inl (invalidTransition (mr_state receipt) Completed)
     else
       bind_result (parseMutationReceiptPublicResult num result) (\<lambda>publicResult.
       Inr \<lparr>mr_identity = mr_identity receipt, mr_state = Completed, mr_result = Some publicResult\<rparr>))"

subsection \<open>The in-memory store\<close>

type_synonym 'n receipts = "(string, 'n MutationReceipt) jsmap"

definition memory_reserve ::
  "('n \<Rightarrow> string option) \<Rightarrow> MutationReceiptIdentity \<Rightarrow> 'n receipts \<Rightarrow>
   'n MutationReceiptReservation result \<times> 'n receipts" where
  "memory_reserve num identity receipts =
     (case mutationReceiptIdentitySchema_parse identity of
        Inl e \<Rightarrow> (Inl e, receipts)
      | Inr parsed \<Rightarrow>
          (case reserveMutationReceipt num (js_get receipts (mi_idempotencyKey parsed)) parsed of
             Inl e \<Rightarrow> (Inl e, receipts)
           | Inr (Execute r) \<Rightarrow> (Inr (Execute r), js_set (mi_idempotencyKey parsed) r receipts)
           | Inr reservation \<Rightarrow> (Inr reservation, receipts)))"

text \<open>The three \<open>mark\<close> methods differ in the transition they call.\<close>

definition memory_mark ::
  "('n MutationReceipt option \<Rightarrow> MutationReceiptIdentity \<Rightarrow> 'n MutationReceipt result) \<Rightarrow>
   MutationReceiptIdentity \<Rightarrow> 'n receipts \<Rightarrow> 'n MutationReceipt result \<times> 'n receipts" where
  "memory_mark transition identity receipts =
     (case mutationReceiptIdentitySchema_parse identity of
        Inl e \<Rightarrow> (Inl e, receipts)
      | Inr parsed \<Rightarrow>
          (case transition (js_get receipts (mi_idempotencyKey parsed)) parsed of
             Inl e \<Rightarrow> (Inl e, receipts)
           | Inr r \<Rightarrow> (Inr r, js_set (mi_idempotencyKey parsed) r receipts)))"

definition memory_markExecuting ::
  "('n \<Rightarrow> string option) \<Rightarrow> MutationReceiptIdentity \<Rightarrow> 'n receipts \<Rightarrow>
   'n MutationReceipt result \<times> 'n receipts" where
  "memory_markExecuting num = memory_mark (markMutationReceiptExecuting num)"

definition memory_markReconciliationRequired ::
  "('n \<Rightarrow> string option) \<Rightarrow> MutationReceiptIdentity \<Rightarrow> 'n receipts \<Rightarrow>
   'n MutationReceipt result \<times> 'n receipts" where
  "memory_markReconciliationRequired num =
     memory_mark (markMutationReceiptReconciliationRequired num)"

definition memory_markCompleted ::
  "('n \<Rightarrow> string option) \<Rightarrow> MutationReceiptIdentity \<Rightarrow> 'n json \<Rightarrow> 'n receipts \<Rightarrow>
   'n MutationReceipt result \<times> 'n receipts" where
  "memory_markCompleted num identity result =
     memory_mark (\<lambda>e i. markMutationReceiptCompleted num e i result) identity"

definition memory_get ::
  "string \<Rightarrow> 'n receipts \<Rightarrow> 'n MutationReceipt option result \<times> 'n receipts" where
  "memory_get idempotencyKey receipts = (Inr (js_get receipts idempotencyKey), receipts)"

subsection \<open>Public values\<close>

text \<open>Values that may be stored: finite numbers, plain objects, no sensitive field at any depth.\<close>

fun public_json :: "('n \<Rightarrow> string option) \<Rightarrow> 'n json \<Rightarrow> bool" where
  "public_json num (JNumber n) \<longleftrightarrow> num n \<noteq> None"
| "public_json num (JArray xs) \<longleftrightarrow> (\<forall>x \<in> set xs. public_json num x)"
| "public_json num (JObject plain es) \<longleftrightarrow>
     plain \<and> (\<forall>(k, v) \<in> set es. \<not> isSensitiveReceiptField k \<and> k \<noteq> ''__proto__'' \<and> public_json num v)"
| "public_json num JUndefined \<longleftrightarrow> False"
| "public_json num (JUnsupported t) \<longleftrightarrow> False"
| "public_json num v \<longleftrightarrow> True"

lemma collect_map_Inr [simp]: "collect (map Inr ys) = Inr ys"
  by (induction ys) simp_all

lemma collect_Inr_iff: "collect rs = Inr ys \<longleftrightarrow> rs = map Inr ys"
proof
  show "rs = map Inr ys" if "collect rs = Inr ys"
    using that by (induction rs arbitrary: ys rule: collect.induct) (auto split: sum.splits)
qed simp

lemma map_eq_map_Inr:
  "map f xs = map Inr ys \<longleftrightarrow> length ys = length xs \<and> (\<forall>i < length xs. f (xs ! i) = Inr (ys ! i))"
  by (auto simp: list_eq_iff_nth_eq)

lemma public_entry_Inr:
  "public_entry path k visited = Inr es \<longleftrightarrow>
     \<not> isSensitiveReceiptField k \<and>
     (\<exists>w. visited = Inr w \<and> es = (if k = ''__proto__'' then [] else [(k, w)]))"
  by (auto simp: public_entry_def split: sum.splits)

lemma parsePublic_public: "parsePublicResultValue num v path = Inr w \<Longrightarrow> public_json num w"
proof (induction num v path arbitrary: w rule: parsePublicResultValue.induct)
  case (2 num xs path)
  then obtain ys where ys: "w = JArray ys" "length ys = length xs"
    "\<And>i. i < length xs \<Longrightarrow> parsePublicResultValue num (xs ! i) (path @ [js_digits i]) = Inr (ys ! i)"
    by (auto simp: collect_Inr_iff map_eq_map_Inr nth_enumerate_eq split: sum.splits)
  have "public_json num (ys ! i)" if "i < length xs" for i
    using "2.IH" [OF nth_mem [OF that]] ys(3) [OF that] by blast
  then show ?case using ys by (auto simp: in_set_conv_nth)
next
  case (3 num plain es path)
  then obtain ess where ess: "w = JObject True (concat ess)" "plain" "length ess = length es"
    "\<And>i. i < length es \<Longrightarrow> public_entry path (fst (es ! i))
       (parsePublicResultValue num (snd (es ! i)) (path @ [fst (es ! i)])) = Inr (ess ! i)"
    by (auto simp: collect_Inr_iff map_eq_map_Inr case_prod_unfold split: sum.splits if_splits)
  have "\<not> isSensitiveReceiptField k \<and> k \<noteq> ''__proto__'' \<and> public_json num v"
    if i: "i < length es" and kv: "(k, v) \<in> set (ess ! i)" for i k v
  proof -
    from ess(4) [OF i] kv have "\<not> isSensitiveReceiptField k" "k \<noteq> ''__proto__''"
      "parsePublicResultValue num (snd (es ! i)) (path @ [fst (es ! i)]) = Inr v"
      by (auto simp: public_entry_Inr split: if_splits)
    then show ?thesis
      using "3.IH" [of "es ! i" "fst (es ! i)" "snd (es ! i)" v] ess(2) nth_mem [OF i] by simp
  qed
  then show ?case using ess(1,3) by (fastforce simp: in_set_conv_nth [of _ ess])
qed (auto split: if_splits)

lemma parsePublic_id: "public_json num v \<Longrightarrow> parsePublicResultValue num v path = Inr v"
proof (induction num v path rule: parsePublicResultValue.induct)
  case (2 num xs path)
  then have "collect (map (\<lambda>(i, visit). visit (path @ [js_digits i]))
      (enumerate 0 (map (\<lambda>x p. parsePublicResultValue num x p) xs))) = Inr xs"
    by (auto simp: collect_Inr_iff map_eq_map_Inr nth_enumerate_eq)
  then show ?case by simp
next
  case (3 num plain es path)
  then have "map (\<lambda>(k, v). public_entry path k (parsePublicResultValue num v (path @ [k]))) es =
      map Inr (map (\<lambda>e. [e]) es)"
    by (auto simp: public_entry_def)
  then have "collect (map (\<lambda>(k, v). public_entry path k (parsePublicResultValue num v (path @ [k]))) es) =
      Inr (map (\<lambda>e. [e]) es)"
    by (simp add: collect_Inr_iff)
  then show ?case using "3.prems" by (simp add: concat_map_singleton)
qed auto

subsection \<open>Round trip of receipts\<close>

lemma dropWhile_idem: "dropWhile P (dropWhile P xs) = dropWhile P xs"
  by (induction xs) auto

lemma dropWhile_prefix:
  assumes "dropWhile P (xs @ ys) = xs @ ys"
  shows "dropWhile P xs = xs"
proof (cases xs)
  case (Cons a as)
  have "\<not> P a"
    using arg_cong [OF assms, of length] length_dropWhile_le [of P "as @ ys"] Cons by auto
  then show ?thesis using Cons by simp
qed simp

lemma js_trim_idem [simp]: "js_trim (js_trim s) = js_trim s"
proof -
  let ?t = "dropWhile js_space s"
  let ?u = "rev (dropWhile js_space (rev ?t))"
  have "?t = ?u @ rev (takeWhile js_space (rev ?t))"
    by (simp flip: rev_append)
  then have "dropWhile js_space ?u = ?u"
    by (metis dropWhile_prefix dropWhile_idem)
  then show ?thesis by (simp add: js_trim_def dropWhile_idem)
qed

definition identity_ok :: "MutationReceiptIdentity \<Rightarrow> bool" where
  "identity_ok i \<longleftrightarrow> mutationReceiptIdentitySchema_parse i = Inr i"

lemma identity_parse_ok: "mutationReceiptIdentitySchema_parse i = Inr j \<Longrightarrow> identity_ok j"
  by (auto simp: identity_ok_def mutationReceiptIdentitySchema_parse_def Let_def split: if_splits)

lemma identity_parse_key:
  "mutationReceiptIdentitySchema_parse i = Inr j \<Longrightarrow> mi_idempotencyKey j = js_trim (mi_idempotencyKey i)"
  by (auto simp: mutationReceiptIdentitySchema_parse_def Let_def split: if_splits)

lemma identity_ok_key: "identity_ok i \<Longrightarrow> js_trim (mi_idempotencyKey i) = mi_idempotencyKey i"
  using identity_parse_key [of i i] unfolding identity_ok_def by simp

lemma parse_identity_json [simp]:
  "parse_identity (Some (identity_json i)) = mutationReceiptIdentitySchema_parse i"
  by (cases i) (simp add: parse_identity_def identity_json_def identity_fields_def json_string_def)

lemma parse_state_json [simp]:
  "mutationReceiptStateSchema_parse (Some (JString (state_name st))) = Inr st"
  by (cases st) (simp_all add: mutationReceiptStateSchema_parse_def json_string_def)

lemmas parse_state_json_names [simp] =
  parse_state_json [of Reserved, simplified state_name.simps]
  parse_state_json [of Executing, simplified state_name.simps]
  parse_state_json [of Completed, simplified state_name.simps]
  parse_state_json [of ReconciliationRequired, simplified state_name.simps]

definition receipt_ok :: "('n \<Rightarrow> string option) \<Rightarrow> 'n MutationReceipt \<Rightarrow> bool" where
  "receipt_ok num r \<longleftrightarrow> identity_ok (mr_identity r) \<and>
     (case mr_result r of
        None \<Rightarrow> mr_state r \<noteq> Completed
      | Some v \<Rightarrow> mr_state r = Completed \<and> public_json num v)"

lemma parse_receipt_json: "receipt_ok num r \<Longrightarrow> parseMutationReceipt num (receipt_json r) = Inr r"
  by (cases r, cases "mr_result r")
    (auto simp: receipt_ok_def parseMutationReceipt_def receipt_json_def identity_ok_def
      parseMutationReceiptPublicResult_def parsePublic_id)

lemma bind_resultE:
  assumes "bind_result r f = Inr y"
  obtains x where "r = Inr x" and "f x = Inr y"
  using assms by (cases r) auto

lemma parse_identity_ok: "parse_identity v = Inr i \<Longrightarrow> identity_ok i"
  by (auto simp: parse_identity_def identity_parse_ok
      split: option.splits json.splits list.splits if_splits)

lemma parse_receipt_ok: "parseMutationReceipt num v = Inr r \<Longrightarrow> receipt_ok num r"
  by (auto simp: parseMutationReceipt_def receipt_ok_def parseMutationReceiptPublicResult_def
      bind_result_Inr_iff parse_identity_ok parsePublic_public
      split: json.splits bool.splits option.splits if_splits)

subsection \<open>The state machine\<close>

fun state_rank :: "MutationReceiptState \<Rightarrow> nat" where
  "state_rank Reserved = 0"
| "state_rank Executing = 1"
| "state_rank ReconciliationRequired = 2"
| "state_rank Completed = 3"

text \<open>
  How a stored receipt may change: its identity is fixed, its state never goes back, and a
  completed receipt never changes again.
\<close>

definition advances :: "'n MutationReceipt \<Rightarrow> 'n MutationReceipt \<Rightarrow> bool" where
  "advances r r' \<longleftrightarrow> mr_identity r' = mr_identity r \<and>
     state_rank (mr_state r) \<le> state_rank (mr_state r') \<and> (mr_state r = Completed \<longrightarrow> r' = r)"

lemma advances_refl [simp]: "advances r r"
  by (simp add: advances_def)

lemma advances_trans: "advances r1 r2 \<Longrightarrow> advances r2 r3 \<Longrightarrow> advances r1 r3"
  by (auto simp: advances_def)

lemma assertSameIdentity_iff: "assertSameIdentity a b = Inr u \<longleftrightarrow> a = b"
  by (auto simp: assertSameIdentity_def)

lemma requireExisting_Inr:
  "receipt_ok num e \<Longrightarrow> requireExistingReceipt num (Some e) i = Inr r \<longleftrightarrow>
     r = e \<and> mutationReceiptIdentitySchema_parse i = Inr (mr_identity e)"
  by (auto simp: requireExistingReceipt_def bind_result_Inr_iff parse_receipt_json assertSameIdentity_iff)

lemma requireExisting_None [simp]: "requireExistingReceipt num None i \<noteq> Inr r"
  by (simp add: requireExistingReceipt_def)

text \<open>What is common to the three \<open>mark\<close> transitions.\<close>

definition transition_ok ::
  "('n \<Rightarrow> string option) \<Rightarrow>
   ('n MutationReceipt option \<Rightarrow> MutationReceiptIdentity \<Rightarrow> 'n MutationReceipt result) \<Rightarrow> bool" where
  "transition_ok num f \<longleftrightarrow>
     (\<forall>existing i r. f existing i = Inr r \<longrightarrow> (\<forall>e. existing = Some e \<longrightarrow> receipt_ok num e) \<longrightarrow>
        (\<exists>e. existing = Some e \<and> advances e r \<and> receipt_ok num r \<and>
           mutationReceiptIdentitySchema_parse i = Inr (mr_identity e)))"

lemma transition_okD:
  assumes "transition_ok num f" and "f existing i = Inr r"
    and "\<And>e. existing = Some e \<Longrightarrow> receipt_ok num e"
  obtains e where "existing = Some e" and "advances e r" and "receipt_ok num r"
    and "mutationReceiptIdentitySchema_parse i = Inr (mr_identity e)"
  using assms unfolding transition_ok_def by blast

lemma transition_okI:
  assumes "\<And>e i r. receipt_ok num e \<Longrightarrow> f (Some e) i = Inr r \<Longrightarrow>
      mutationReceiptIdentitySchema_parse i = Inr (mr_identity e) \<and> advances e r \<and> receipt_ok num r"
    and "\<And>i r. f None i \<noteq> Inr r"
  shows "transition_ok num f"
  unfolding transition_ok_def
proof (intro allI impI)
  fix existing i r
  assume "f existing i = Inr r" and "\<forall>e. existing = Some e \<longrightarrow> receipt_ok num e"
  then show "\<exists>e. existing = Some e \<and> advances e r \<and> receipt_ok num r \<and>
      mutationReceiptIdentitySchema_parse i = Inr (mr_identity e)"
    using assms by (cases existing) auto
qed

lemma executing_ok: "transition_ok num (markMutationReceiptExecuting num)"
  by (rule transition_okI)
    (auto simp: markMutationReceiptExecuting_def bind_result_Inr_iff requireExisting_Inr
      advances_def receipt_ok_def split: if_splits)

lemma reconciliation_ok: "transition_ok num (markMutationReceiptReconciliationRequired num)"
  by (rule transition_okI)
    (auto simp: markMutationReceiptReconciliationRequired_def bind_result_Inr_iff requireExisting_Inr
      advances_def receipt_ok_def split: if_splits)

lemma completed_ok: "transition_ok num (\<lambda>e i. markMutationReceiptCompleted num e i v)"
  by (rule transition_okI)
    (auto simp: markMutationReceiptCompleted_def bind_result_Inr_iff requireExisting_Inr
      advances_def receipt_ok_def parseMutationReceiptPublicResult_def parsePublic_public
      split: if_splits)

lemma completed_state:
  "markMutationReceiptCompleted num e i v = Inr r \<Longrightarrow>
     mr_state r = Completed \<and> parseMutationReceiptPublicResult num v = Inr (the (mr_result r))"
  by (auto simp: markMutationReceiptCompleted_def bind_result_Inr_iff split: if_splits)

text \<open>The three outcomes of a reservation.\<close>

lemma reserve_None:
  "reserveMutationReceipt num None i = Inr q \<longleftrightarrow>
     (\<exists>j. mutationReceiptIdentitySchema_parse i = Inr j \<and>
        q = Execute \<lparr>mr_identity = j, mr_state = Reserved, mr_result = None\<rparr>)"
  by (auto simp: reserveMutationReceipt_def bind_result_Inr_iff)

lemma reserve_Some:
  "receipt_ok num e \<Longrightarrow> reserveMutationReceipt num (Some e) i = Inr q \<longleftrightarrow>
     mutationReceiptIdentitySchema_parse i = Inr (mr_identity e) \<and>
     q = (if mr_state e = Completed then ReplayCompleted e else NeedsReconciliation e)"
  by (auto simp: reserveMutationReceipt_def bind_result_Inr_iff parse_receipt_json assertSameIdentity_iff)

subsection \<open>The interface of a receipt store\<close>

text \<open>Every method keeps the invariant, and every stored receipt only advances.\<close>

definition keeps ::
  "('s \<Rightarrow> bool) \<Rightarrow> ('s \<Rightarrow> string \<Rightarrow> 'n MutationReceipt option) \<Rightarrow> ('s \<Rightarrow> 'a \<times> 's) \<Rightarrow> bool" where
  "keeps ok receipt f \<longleftrightarrow>
     (\<forall>s. ok s \<longrightarrow> ok (snd (f s)) \<and>
        (\<forall>k r. receipt s k = Some r \<longrightarrow> (\<exists>r'. receipt (snd (f s)) k = Some r' \<and> advances r r')))"

lemma keepsD:
  assumes "keeps ok receipt f" and "ok s"
  shows "ok (snd (f s))"
    and "receipt s k = Some r \<Longrightarrow> \<exists>r'. receipt (snd (f s)) k = Some r' \<and> advances r r'"
  using assms unfolding keeps_def by blast+

text \<open>A key is clean when the schema does not trim it.\<close>

definition clean_key :: "string \<Rightarrow> bool" where
  "clean_key k \<longleftrightarrow> js_trim k = k"

locale receipt_store =
  fixes ok :: "'s \<Rightarrow> bool"
    and receipt :: "'s \<Rightarrow> string \<Rightarrow> 'n MutationReceipt option"
    and get :: "string \<Rightarrow> 's \<Rightarrow> 'n MutationReceipt option result \<times> 's"
    and reserve :: "MutationReceiptIdentity \<Rightarrow> 's \<Rightarrow> 'n MutationReceiptReservation result \<times> 's"
    and mark_executing :: "MutationReceiptIdentity \<Rightarrow> 's \<Rightarrow> 'n MutationReceipt result \<times> 's"
    and mark_reconciliation :: "MutationReceiptIdentity \<Rightarrow> 's \<Rightarrow> 'n MutationReceipt result \<times> 's"
    and mark_completed :: "MutationReceiptIdentity \<Rightarrow> 'n json \<Rightarrow> 's \<Rightarrow> 'n MutationReceipt result \<times> 's"
  assumes get_keeps: "keeps ok receipt (get key)"
    and reserve_keeps: "clean_key (mi_idempotencyKey i) \<Longrightarrow> keeps ok receipt (reserve i)"
    and executing_keeps: "keeps ok receipt (mark_executing i)"
    and reconciliation_keeps: "keeps ok receipt (mark_reconciliation i)"
    and completed_keeps: "keeps ok receipt (mark_completed i v)"
    and get_found: "ok s \<Longrightarrow> get key s = (Inr (Some r), s') \<Longrightarrow> receipt s key = Some r"
    and reserve_executes: "ok s \<Longrightarrow> clean_key (mi_idempotencyKey i) \<Longrightarrow>
      reserve i s = (Inr (Execute r), s') \<Longrightarrow>
      receipt s (mi_idempotencyKey i) = None \<and> receipt s' (mi_idempotencyKey i) = Some r"
    and reserve_replays: "ok s \<Longrightarrow> clean_key (mi_idempotencyKey i) \<Longrightarrow>
      reserve i s = (Inr (ReplayCompleted r), s') \<Longrightarrow>
      receipt s (mi_idempotencyKey i) = Some r \<and> mr_state r = Completed"
    and completes: "ok s \<Longrightarrow> clean_key (mi_idempotencyKey i) \<Longrightarrow>
      mark_completed i v s = (Inr r, s') \<Longrightarrow>
      receipt s' (mi_idempotencyKey i) = Some r \<and> mr_state r = Completed"

subsection \<open>The in-memory store implements the interface\<close>

definition memory_ok :: "('n \<Rightarrow> string option) \<Rightarrow> 'n receipts \<Rightarrow> bool" where
  "memory_ok num m \<longleftrightarrow>
     (\<forall>k r. js_get m k = Some r \<longrightarrow> receipt_ok num r \<and> mi_idempotencyKey (mr_identity r) = k)"

lemma memory_okD: "memory_ok num m \<Longrightarrow> js_get m k = Some r \<Longrightarrow> receipt_ok num r"
  by (simp add: memory_ok_def)

lemma memory_set_keeps:
  assumes "memory_ok num m" and "receipt_ok num r" and "mi_idempotencyKey (mr_identity r) = k"
    and "\<And>e. js_get m k = Some e \<Longrightarrow> advances e r"
  shows "memory_ok num (js_set k r m)"
    and "js_get m j = Some e \<Longrightarrow> \<exists>e'. js_get (js_set k r m) j = Some e' \<and> advances e e'"
  using assms by (auto simp: memory_ok_def)

lemma memory_mark_cases:
  assumes "transition_ok num f" and "memory_ok num m" and "memory_mark f i m = (res, m')"
  obtains (failed) e where "res = Inl e" and "m' = m"
  | (marked) e r where "res = Inr r" and "m' = js_set (js_trim (mi_idempotencyKey i)) r m"
      and "js_get m (js_trim (mi_idempotencyKey i)) = Some e" and "advances e r" and "receipt_ok num r"
proof (cases "mutationReceiptIdentitySchema_parse i")
  case (Inl e)
  then show thesis using assms(3) that(1) [of e] by (simp add: memory_mark_def)
next
  case (Inr j)
  have key: "mi_idempotencyKey j = js_trim (mi_idempotencyKey i)" using identity_parse_key [OF Inr] .
  show thesis
  proof (cases "f (js_get m (mi_idempotencyKey j)) j")
    case (Inl e)
    then show thesis using assms(3) Inr that(1) [of e] by (simp add: memory_mark_def)
  next
    case fr: (Inr r)
    obtain e where "js_get m (mi_idempotencyKey j) = Some e" "advances e r" "receipt_ok num r"
      using transition_okD [OF assms(1) fr] memory_okD [OF assms(2)] by metis
    then show thesis using assms(3) Inr fr key that(2) [of r e] by (simp add: memory_mark_def)
  qed
qed

lemma memory_mark_keeps:
  assumes "transition_ok num f"
  shows "keeps (memory_ok num) js_get (memory_mark f i)"
  unfolding keeps_def
proof (intro allI impI)
  fix m assume ok: "memory_ok num m"
  obtain res m' where eq: "memory_mark f i m = (res, m')" by fastforce
  from assms ok eq show "memory_ok num (snd (memory_mark f i m)) \<and>
      (\<forall>k r. js_get m k = Some r \<longrightarrow> (\<exists>r'. js_get (snd (memory_mark f i m)) k = Some r' \<and> advances r r'))"
  proof (cases rule: memory_mark_cases)
    case (failed e)
    with ok eq show ?thesis by simp
  next
    case (marked e r)
    have "mi_idempotencyKey (mr_identity r) = js_trim (mi_idempotencyKey i)"
      using marked(3,4) ok by (auto simp: memory_ok_def advances_def)
    then show ?thesis using memory_set_keeps [OF ok marked(5)] marked eq by force
  qed
qed

lemma memory_reserve_cases:
  assumes "memory_ok num m" and "memory_reserve num i m = (res, m')"
  obtains (failed) e where "res = Inl e" and "m' = m"
  | (fresh) r where "res = Inr (Execute r)" and "js_get m (js_trim (mi_idempotencyKey i)) = None"
      and "m' = js_set (js_trim (mi_idempotencyKey i)) r m" and "receipt_ok num r"
      and "mi_idempotencyKey (mr_identity r) = js_trim (mi_idempotencyKey i)"
  | (existing) r where "m' = m" and "js_get m (js_trim (mi_idempotencyKey i)) = Some r"
      and "res = Inr (if mr_state r = Completed then ReplayCompleted r else NeedsReconciliation r)"
proof (cases "mutationReceiptIdentitySchema_parse i")
  case (Inl e)
  then show thesis using assms(2) that(1) [of e] by (simp add: memory_reserve_def)
next
  case (Inr j)
  note j = identity_parse_key [OF Inr] identity_parse_ok [OF Inr, unfolded identity_ok_def]
  show thesis
  proof (cases "js_get m (mi_idempotencyKey j)")
    case None
    then show thesis using that(2) assms(2) Inr j
      by (auto simp: memory_reserve_def reserveMutationReceipt_def receipt_ok_def identity_ok_def)
  next
    case (Some e)
    have ok: "receipt_ok num e" using memory_okD [OF assms(1) Some] .
    show thesis
    proof (cases "reserveMutationReceipt num (Some e) j")
      case (Inl x)
      then show thesis using that(1) [of x] assms(2) Inr Some by (simp add: memory_reserve_def)
    next
      case q: (Inr q)
      then have "q = (if mr_state e = Completed then ReplayCompleted e else NeedsReconciliation e)"
        using reserve_Some [OF ok] by blast
      then show thesis using that(3) assms(2) Inr Some q j
        by (auto simp: memory_reserve_def split: if_splits)
    qed
  qed
qed

lemma memory_reserve_keeps: "keeps (memory_ok num) js_get (memory_reserve num i)"
  unfolding keeps_def
proof (intro allI impI)
  fix m assume ok: "memory_ok num m"
  obtain res m' where eq: "memory_reserve num i m = (res, m')" by fastforce
  from ok eq show "memory_ok num (snd (memory_reserve num i m)) \<and>
      (\<forall>k r. js_get m k = Some r \<longrightarrow> (\<exists>r'. js_get (snd (memory_reserve num i m)) k = Some r' \<and> advances r r'))"
  proof (cases rule: memory_reserve_cases)
    case (fresh r)
    then show ?thesis using memory_set_keeps [OF ok fresh(4,5)] eq by fastforce
  qed (use ok eq in auto)
qed

interpretation memory: receipt_store "memory_ok num" js_get memory_get "memory_reserve num"
  "memory_markExecuting num" "memory_markReconciliationRequired num" "memory_markCompleted num"
  for num :: "'n \<Rightarrow> string option"
proof unfold_locales
  fix i :: MutationReceiptIdentity and s s' and r :: "'n MutationReceipt"
  assume ok: "memory_ok num s" and clean: "clean_key (mi_idempotencyKey i)"
  show "memory_reserve num i s = (Inr (Execute r), s') \<Longrightarrow>
      js_get s (mi_idempotencyKey i) = None \<and> js_get s' (mi_idempotencyKey i) = Some r"
    using clean by (auto elim!: memory_reserve_cases [OF ok] simp: clean_key_def split: if_splits)
  show "memory_reserve num i s = (Inr (ReplayCompleted r), s') \<Longrightarrow>
      js_get s (mi_idempotencyKey i) = Some r \<and> mr_state r = Completed"
    using clean by (auto elim!: memory_reserve_cases [OF ok] simp: clean_key_def split: if_splits)
  fix v
  assume marked: "memory_markCompleted num i v s = (Inr r, s')"
  show "js_get s' (mi_idempotencyKey i) = Some r \<and> mr_state r = Completed"
    using clean marked
    by (auto dest: completed_state simp: memory_markCompleted_def memory_mark_def clean_key_def identity_parse_key
        split: sum.splits)
qed (auto simp: memory_markExecuting_def memory_markReconciliationRequired_def
    memory_markCompleted_def memory_mark_keeps executing_ok reconciliation_ok completed_ok
    memory_reserve_keeps, auto simp: keeps_def memory_get_def)

end
