(* ===== verification/File_Receipts.thy ===== *)
theory File_Receipts
  imports Mutation_Receipts
begin

text \<open>
  \<open>FileMutationReceiptStore\<close> of
  \<open>services/workspace-agent/src/source-control/file-mutation-receipt-store.ts\<close>: one JSON file
  per idempotency key, replaced by writing a temporary file and renaming it.

  The text of a file is represented by what \<open>JSON.parse\<close> makes of it (\<open>None\<close> when it throws).
  Every call of the file operations may throw: \<open>fs_faults\<close> says, call by call, which ones do
  (calls beyond the list succeed), and a failed write leaves a broken file at its path.
  \<open>fs_random\<close> lists the random suffixes still to be drawn. The directory, the process id and
  SHA-256 are parameters. Methods are serialised per key by \<open>serialize\<close>, so each is one step.
\<close>

record 'n file_store =
  fs_files :: "(string, 'n json option) jsmap"
  fs_faults :: "bool list"
  fs_random :: "string list"

definition io_error :: exn where
  "io_error = PlainError ''EIO''"

text \<open>The outcome of the next file operation.\<close>

definition next_fault :: "'n file_store \<Rightarrow> bool \<times> 'n file_store" where
  "next_fault s = (case fs_faults s of [] \<Rightarrow> (False, s) | f # fs \<Rightarrow> (f, s\<lparr>fs_faults := fs\<rparr>))"

definition ensureDirectory :: "'n file_store \<Rightarrow> unit result \<times> 'n file_store" where
  "ensureDirectory s = (case next_fault s of (f, s1) \<Rightarrow> (if f then Inl io_error else Inr (), s1))"

definition readText :: "string \<Rightarrow> 'n file_store \<Rightarrow> 'n json option option result \<times> 'n file_store" where
  "readText p s = (case next_fault s of (f, s1) \<Rightarrow>
     (if f then Inl io_error else Inr (js_get (fs_files s1) p), s1))"

definition writeText :: "string \<Rightarrow> 'n json \<Rightarrow> 'n file_store \<Rightarrow> unit result \<times> 'n file_store" where
  "writeText p v s = (case next_fault s of (f, s1) \<Rightarrow>
     if f then (Inl io_error, s1\<lparr>fs_files := js_set p None (fs_files s1)\<rparr>)
     else (Inr (), s1\<lparr>fs_files := js_set p (Some v) (fs_files s1)\<rparr>))"

definition rename_file :: "string \<Rightarrow> string \<Rightarrow> 'n file_store \<Rightarrow> unit result \<times> 'n file_store" where
  "rename_file from to s = (case next_fault s of (f, s1) \<Rightarrow>
     if f then (Inl io_error, s1)
     else (case js_get (fs_files s1) from of
             None \<Rightarrow> (Inl io_error, s1)
           | Some c \<Rightarrow> (Inr (), s1\<lparr>fs_files := js_set to c (js_delete from (fs_files s1))\<rparr>)))"

definition remove_file :: "string \<Rightarrow> 'n file_store \<Rightarrow> unit result \<times> 'n file_store" where
  "remove_file p s = (case next_fault s of (f, s1) \<Rightarrow>
     if f then (Inl io_error, s1) else (Inr (), s1\<lparr>fs_files := js_delete p (fs_files s1)\<rparr>))"

definition draw_suffix :: "'n file_store \<Rightarrow> string \<times> 'n file_store" where
  "draw_suffix s = (case fs_random s of [] \<Rightarrow> (''0'', s) | x # xs \<Rightarrow> (x, s\<lparr>fs_random := xs\<rparr>))"

subsection \<open>Methods\<close>

definition receiptPath :: "(string \<Rightarrow> string) \<Rightarrow> string \<Rightarrow> string \<Rightarrow> string" where
  "receiptPath sha256 dir idempotencyKey = dir @ ''/'' @ sha256 idempotencyKey @ ''.json''"

definition readReceipt ::
  "(string \<Rightarrow> string) \<Rightarrow> ('n \<Rightarrow> string option) \<Rightarrow> string \<Rightarrow> string \<Rightarrow> 'n file_store \<Rightarrow>
   'n MutationReceipt option result \<times> 'n file_store" where
  "readReceipt sha256 num dir idempotencyKey s =
     (case readText (receiptPath sha256 dir idempotencyKey) s of
        (Inl e, s1) \<Rightarrow> (Inl e, s1)
      | (Inr None, s1) \<Rightarrow> (Inr None, s1)
      | (Inr (Some None), s1) \<Rightarrow>
          (Inl (PlainError ''Persisted source-control mutation receipt is invalid JSON.''), s1)
      | (Inr (Some (Some v)), s1) \<Rightarrow>
          (case parseMutationReceipt num v of Inl e \<Rightarrow> (Inl e, s1) | Inr r \<Rightarrow> (Inr (Some r), s1)))"

definition writeReceipt ::
  "(string \<Rightarrow> string) \<Rightarrow> ('n \<Rightarrow> string option) \<Rightarrow> string \<Rightarrow> string \<Rightarrow> 'n MutationReceipt \<Rightarrow>
   'n file_store \<Rightarrow> unit result \<times> 'n file_store" where
  "writeReceipt sha256 num dir pid receipt s =
     (let targetPath = receiptPath sha256 dir (mi_idempotencyKey (mr_identity receipt)) in
      case ensureDirectory s of
        (Inl e, s1) \<Rightarrow> (Inl e, s1)
      | (Inr _, s1) \<Rightarrow>
          (case draw_suffix s1 of (suffix, s2) \<Rightarrow>
             let temporaryPath = targetPath @ ''.tmp-'' @ pid @ ''-'' @ suffix in
             case parseMutationReceipt num (receipt_json receipt) of
               Inl e \<Rightarrow> (Inl e, s2)
             | Inr parsed \<Rightarrow>
                 (case writeText temporaryPath (receipt_json parsed) s2 of
                    (Inl e, s3) \<Rightarrow> (Inl e, snd (remove_file temporaryPath s3))
                  | (Inr _, s3) \<Rightarrow>
                      (case rename_file temporaryPath targetPath s3 of
                         (Inl e, s4) \<Rightarrow> (Inl e, snd (remove_file temporaryPath s4))
                       | (Inr _, s4) \<Rightarrow> (Inr (), s4)))))"

definition file_reserve ::
  "(string \<Rightarrow> string) \<Rightarrow> ('n \<Rightarrow> string option) \<Rightarrow> string \<Rightarrow> string \<Rightarrow> MutationReceiptIdentity \<Rightarrow>
   'n file_store \<Rightarrow> 'n MutationReceiptReservation result \<times> 'n file_store" where
  "file_reserve sha256 num dir pid identity s =
     (case readReceipt sha256 num dir (mi_idempotencyKey identity) s of
        (Inl e, s1) \<Rightarrow> (Inl e, s1)
      | (Inr existing, s1) \<Rightarrow>
          (case reserveMutationReceipt num existing identity of
             Inl e \<Rightarrow> (Inl e, s1)
           | Inr (Execute r) \<Rightarrow>
               (case writeReceipt sha256 num dir pid r s1 of
                  (Inl e, s2) \<Rightarrow> (Inl e, s2)
                | (Inr _, s2) \<Rightarrow> (Inr (Execute r), s2))
           | Inr reservation \<Rightarrow> (Inr reservation, s1)))"

text \<open>The three \<open>mark\<close> methods differ in the transition they call.\<close>

definition file_mark ::
  "(string \<Rightarrow> string) \<Rightarrow> ('n \<Rightarrow> string option) \<Rightarrow> string \<Rightarrow> string \<Rightarrow>
   ('n MutationReceipt option \<Rightarrow> MutationReceiptIdentity \<Rightarrow> 'n MutationReceipt result) \<Rightarrow>
   MutationReceiptIdentity \<Rightarrow> 'n file_store \<Rightarrow> 'n MutationReceipt result \<times> 'n file_store" where
  "file_mark sha256 num dir pid transition identity s =
     (case readReceipt sha256 num dir (mi_idempotencyKey identity) s of
        (Inl e, s1) \<Rightarrow> (Inl e, s1)
      | (Inr existing, s1) \<Rightarrow>
          (case transition existing identity of
             Inl e \<Rightarrow> (Inl e, s1)
           | Inr r \<Rightarrow>
               (case writeReceipt sha256 num dir pid r s1 of
                  (Inl e, s2) \<Rightarrow> (Inl e, s2)
                | (Inr _, s2) \<Rightarrow> (Inr r, s2))))"

definition file_markExecuting ::
  "(string \<Rightarrow> string) \<Rightarrow> ('n \<Rightarrow> string option) \<Rightarrow> string \<Rightarrow> string \<Rightarrow> MutationReceiptIdentity \<Rightarrow>
   'n file_store \<Rightarrow> 'n MutationReceipt result \<times> 'n file_store" where
  "file_markExecuting sha256 num dir pid =
     file_mark sha256 num dir pid (markMutationReceiptExecuting num)"

definition file_markReconciliationRequired ::
  "(string \<Rightarrow> string) \<Rightarrow> ('n \<Rightarrow> string option) \<Rightarrow> string \<Rightarrow> string \<Rightarrow> MutationReceiptIdentity \<Rightarrow>
   'n file_store \<Rightarrow> 'n MutationReceipt result \<times> 'n file_store" where
  "file_markReconciliationRequired sha256 num dir pid =
     file_mark sha256 num dir pid (markMutationReceiptReconciliationRequired num)"

definition file_markCompleted ::
  "(string \<Rightarrow> string) \<Rightarrow> ('n \<Rightarrow> string option) \<Rightarrow> string \<Rightarrow> string \<Rightarrow> MutationReceiptIdentity \<Rightarrow>
   'n json \<Rightarrow> 'n file_store \<Rightarrow> 'n MutationReceipt result \<times> 'n file_store" where
  "file_markCompleted sha256 num dir pid identity result =
     file_mark sha256 num dir pid (\<lambda>e i. markMutationReceiptCompleted num e i result) identity"

definition file_get ::
  "(string \<Rightarrow> string) \<Rightarrow> ('n \<Rightarrow> string option) \<Rightarrow> string \<Rightarrow> string \<Rightarrow> 'n file_store \<Rightarrow>
   'n MutationReceipt option result \<times> 'n file_store" where
  "file_get sha256 num dir idempotencyKey s = readReceipt sha256 num dir idempotencyKey s"

subsection \<open>What a write changes\<close>

definition suffix_ok :: "string \<Rightarrow> bool" where
  "suffix_ok x \<longleftrightarrow> x \<noteq> [] \<and>
     list_all (\<lambda>c. (CHR ''a'' \<le> c \<and> c \<le> CHR ''f'') \<or> (CHR ''0'' \<le> c \<and> c \<le> CHR ''9'')) x"

lemma temporary_not_receipt:
  assumes "suffix_ok suffix"
  shows "receiptPath sha256 dir k \<noteq> p @ ''.tmp-'' @ pid @ ''-'' @ suffix"
proof
  assume eq: "receiptPath sha256 dir k = p @ ''.tmp-'' @ pid @ ''-'' @ suffix"
  have "last (receiptPath sha256 dir k) = CHR ''n''" by (simp add: receiptPath_def)
  moreover have "last (p @ ''.tmp-'' @ pid @ ''-'' @ suffix) = last suffix"
    using assms by (simp add: suffix_ok_def)
  moreover have "last suffix \<noteq> CHR ''n''"
  proof -
    have "last suffix \<in> set suffix" using assms by (simp add: suffix_ok_def)
    then have "(CHR ''a'' \<le> last suffix \<and> last suffix \<le> CHR ''f'') \<or>
        (CHR ''0'' \<le> last suffix \<and> last suffix \<le> CHR ''9'')"
      using assms by (auto simp: suffix_ok_def list_all_iff)
    moreover have "\<not> CHR ''n'' \<le> CHR ''f''" "\<not> CHR ''n'' \<le> CHR ''9''" by code_simp+
    ultimately show ?thesis by metis
  qed
  ultimately show False using eq by simp
qed

text \<open>The file of a key, and the receipt it holds.\<close>

definition file_at ::
  "(string \<Rightarrow> string) \<Rightarrow> string \<Rightarrow> 'n file_store \<Rightarrow> string \<Rightarrow> 'n json option option" where
  "file_at sha256 dir s k = js_get (fs_files s) (receiptPath sha256 dir k)"

definition file_receipt ::
  "(string \<Rightarrow> string) \<Rightarrow> ('n \<Rightarrow> string option) \<Rightarrow> string \<Rightarrow> 'n file_store \<Rightarrow> string \<Rightarrow>
   'n MutationReceipt option" where
  "file_receipt sha256 num dir s k =
     (case file_at sha256 dir s k of
        Some (Some v) \<Rightarrow> (case parseMutationReceipt num v of Inl e \<Rightarrow> None | Inr r \<Rightarrow> Some r)
      | _ \<Rightarrow> None)"

definition same_path :: "(string \<Rightarrow> string) \<Rightarrow> string \<Rightarrow> string \<Rightarrow> string \<Rightarrow> bool" where
  "same_path sha256 dir j k \<longleftrightarrow> receiptPath sha256 dir j = receiptPath sha256 dir k"

lemma same_path_file_at: "same_path sha256 dir j k \<Longrightarrow> file_at sha256 dir s j = file_at sha256 dir s k"
  by (simp add: same_path_def file_at_def)

lemma same_path_refl [simp]: "same_path sha256 dir k k"
  by (simp add: same_path_def)

text \<open>Suffixes are hexadecimal, and a receipt file lies at the path of the receipt's own key.\<close>

definition file_ok ::
  "(string \<Rightarrow> string) \<Rightarrow> ('n \<Rightarrow> string option) \<Rightarrow> string \<Rightarrow> 'n file_store \<Rightarrow> bool" where
  "file_ok sha256 num dir s \<longleftrightarrow> list_all suffix_ok (fs_random s) \<and>
     (\<forall>k r. file_receipt sha256 num dir s k = Some r \<longrightarrow>
        same_path sha256 dir (mi_idempotencyKey (mr_identity r)) k)"

lemma next_fault_files [simp]:
  "next_fault s = (f, s') \<Longrightarrow> fs_files s' = fs_files s"
  "next_fault s = (f, s') \<Longrightarrow> fs_random s' = fs_random s"
  by (auto simp: next_fault_def split: list.splits)

lemma readReceipt_effect:
  assumes "readReceipt sha256 num dir k s = (res, s')"
  shows "fs_files s' = fs_files s" and "fs_random s' = fs_random s"
    and "res = Inr (Some r) \<Longrightarrow> file_receipt sha256 num dir s k = Some r"
    and "res = Inr None \<Longrightarrow> file_at sha256 dir s k = None"
  using assms
  by (auto simp: readReceipt_def readText_def file_receipt_def file_at_def
      split: prod.splits sum.splits option.splits if_splits)

text \<open>
  A write replaces the file of the receipt's key when it succeeds, and changes no receipt file
  when any file operation fails.
\<close>

lemma writeReceipt_effect:
  assumes "writeReceipt sha256 num dir pid r s = (res, s')"
    and "list_all suffix_ok (fs_random s)" and "receipt_ok num r"
  shows "list_all suffix_ok (fs_random s')"
    and "file_at sha256 dir s' k =
      (if res = Inr () \<and> same_path sha256 dir k (mi_idempotencyKey (mr_identity r))
       then Some (Some (receipt_json r)) else file_at sha256 dir s k)"
proof -
  let ?target = "receiptPath sha256 dir (mi_idempotencyKey (mr_identity r))"
  obtain d s1 where s1: "ensureDirectory s = (d, s1)" by fastforce
  obtain x s2 where s2: "draw_suffix s1 = (x, s2)" by fastforce
  let ?tmp = "?target @ ''.tmp-'' @ pid @ ''-'' @ x"
  have r1: "fs_random s1 = fs_random s" and f1: "fs_files s1 = fs_files s"
    using s1 by (auto simp: ensureDirectory_def split: prod.splits)
  have x: "suffix_ok x" and r2: "list_all suffix_ok (fs_random s2)" and f2: "fs_files s2 = fs_files s"
    using s2 assms(2) r1 f1 by (auto simp: draw_suffix_def suffix_ok_def split: list.splits)
  have tmp: "receiptPath sha256 dir j \<noteq> ?tmp" for j using temporary_not_receipt [OF x] .
  have parse: "parseMutationReceipt num (receipt_json r) = Inr r" using parse_receipt_json [OF assms(3)] .
  show "list_all suffix_ok (fs_random s')"
    using assms(1) s1 s2 r1 r2 assms(2)
    by (auto simp: writeReceipt_def Let_def parse writeText_def rename_file_def remove_file_def
        split: prod.splits sum.splits if_splits option.splits)
  show "file_at sha256 dir s' k =
      (if res = Inr () \<and> same_path sha256 dir k (mi_idempotencyKey (mr_identity r))
       then Some (Some (receipt_json r)) else file_at sha256 dir s k)"
    using assms(1) s1 s2 f1 f2 tmp [of k] tmp [of "mi_idempotencyKey (mr_identity r)"]
    by (auto simp: writeReceipt_def Let_def parse writeText_def rename_file_def remove_file_def
        file_at_def same_path_def split: prod.splits sum.splits if_splits option.splits)
qed

subsection \<open>The file store implements the interface\<close>

lemma file_receipt_cong:
  "file_at sha256 dir s' k = file_at sha256 dir s k \<Longrightarrow>
   file_receipt sha256 num dir s' k = file_receipt sha256 num dir s k"
  by (simp add: file_receipt_def)

lemma same_path_file_receipt:
  "same_path sha256 dir j k \<Longrightarrow> file_receipt sha256 num dir s j = file_receipt sha256 num dir s k"
  by (simp add: file_receipt_def same_path_file_at)

lemma file_receipt_ok: "file_receipt sha256 num dir s k = Some r \<Longrightarrow> receipt_ok num r"
  by (auto simp: file_receipt_def parse_receipt_ok split: option.splits sum.splits)

lemma file_receipt_written:
  "file_at sha256 dir s k = Some (Some (receipt_json r)) \<Longrightarrow> receipt_ok num r \<Longrightarrow>
   file_receipt sha256 num dir s k = Some r"
  by (simp add: file_receipt_def parse_receipt_json)

lemma read_keeps_receipts:
  assumes "readReceipt sha256 num dir k s = (res, s')" and "file_ok sha256 num dir s"
  shows "file_at sha256 dir s' j = file_at sha256 dir s j"
    and "file_receipt sha256 num dir s' j = file_receipt sha256 num dir s j"
    and "file_ok sha256 num dir s'"
  using readReceipt_effect(1,2) [OF assms(1)] assms(2)
  by (simp_all add: file_at_def file_receipt_def file_ok_def)

text \<open>A write of a receipt that advances the one its file holds.\<close>

lemma write_advances:
  assumes "writeReceipt sha256 num dir pid r s = (res, s')"
    and "file_ok sha256 num dir s" and "receipt_ok num r"
    and "\<And>e. file_receipt sha256 num dir s (mi_idempotencyKey (mr_identity r)) = Some e \<Longrightarrow> advances e r"
  shows "file_ok sha256 num dir s'"
    and "file_receipt sha256 num dir s k = Some e \<Longrightarrow>
      \<exists>e'. file_receipt sha256 num dir s' k = Some e' \<and> advances e e'"
    and "res = Inr () \<Longrightarrow> file_receipt sha256 num dir s' (mi_idempotencyKey (mr_identity r)) = Some r"
proof -
  let ?key = "mi_idempotencyKey (mr_identity r)"
  have sfx: "list_all suffix_ok (fs_random s)" using assms(2) by (simp add: file_ok_def)
  note eff = writeReceipt_effect [OF assms(1) sfx assms(3)]
  have rec: "file_receipt sha256 num dir s' j =
      (if res = Inr () \<and> same_path sha256 dir j ?key then Some r else file_receipt sha256 num dir s j)" for j
    using eff(2) [of j] by (auto simp: file_receipt_def parse_receipt_json [OF assms(3)])
  show "file_ok sha256 num dir s'"
    unfolding file_ok_def rec using eff(1) assms(2) by (auto simp: file_ok_def same_path_def)
  show "\<exists>e'. file_receipt sha256 num dir s' k = Some e' \<and> advances e e'"
    if "file_receipt sha256 num dir s k = Some e"
    using that assms(4) same_path_file_receipt [of sha256 dir k ?key num s] by (auto simp: rec)
  show "res = Inr () \<Longrightarrow> file_receipt sha256 num dir s' ?key = Some r" by (simp add: rec)
qed

lemma file_mark_cases:
  assumes "transition_ok num f" and "file_ok sha256 num dir s"
    and "file_mark sha256 num dir pid f i s = (res, s')"
  shows "file_ok sha256 num dir s' \<and>
    (\<forall>k e. file_receipt sha256 num dir s k = Some e \<longrightarrow>
       (\<exists>e'. file_receipt sha256 num dir s' k = Some e' \<and> advances e e')) \<and>
    (\<forall>r. res = Inr r \<longrightarrow> (\<exists>e. f (Some e) i = Inr r) \<and>
       file_receipt sha256 num dir s' (js_trim (mi_idempotencyKey i)) = Some r)"
proof -
  obtain q s1 where read: "readReceipt sha256 num dir (mi_idempotencyKey i) s = (q, s1)" by fastforce
  note same = read_keeps_receipts [OF read assms(2)]
  show ?thesis
  proof (cases q)
    case (Inl e)
    then show ?thesis using assms(3) read same by (auto simp: file_mark_def)
  next
    case (Inr existing)
    show ?thesis
    proof (cases "f existing i")
      case (Inl e)
      then show ?thesis using assms(3) read same Inr by (auto simp: file_mark_def)
    next
      case fr: (Inr r)
      have "receipt_ok num e" if "existing = Some e" for e
        using readReceipt_effect(3) [OF read] Inr that file_receipt_ok by blast
      then obtain e where e: "existing = Some e" "advances e r" "receipt_ok num r"
        "mutationReceiptIdentitySchema_parse i = Inr (mr_identity e)"
        using transition_okD [OF assms(1) fr] by metis
      have key: "mi_idempotencyKey (mr_identity r) = mi_idempotencyKey (mr_identity e)"
        "mi_idempotencyKey (mr_identity e) = js_trim (mi_idempotencyKey i)"
        using e(2) identity_parse_key [OF e(4)] by (auto simp: advances_def)
      have at: "file_receipt sha256 num dir s (mi_idempotencyKey i) = Some e"
        using readReceipt_effect(3) [OF read] Inr e(1) by blast
      then have "same_path sha256 dir (mi_idempotencyKey (mr_identity e)) (mi_idempotencyKey i)"
        using assms(2) by (simp add: file_ok_def)
      then have "file_receipt sha256 num dir s1 (mi_idempotencyKey (mr_identity r)) = Some e"
        using at same(2) same_path_file_receipt key(1) by metis
      moreover obtain w s2 where wrote: "writeReceipt sha256 num dir pid r s1 = (w, s2)" by fastforce
      ultimately have "file_ok sha256 num dir s2"
        "\<And>k u. file_receipt sha256 num dir s k = Some u \<Longrightarrow>
          \<exists>e'. file_receipt sha256 num dir s2 k = Some e' \<and> advances u e'"
        "w = Inr () \<Longrightarrow> file_receipt sha256 num dir s2 (mi_idempotencyKey (mr_identity r)) = Some r"
        using write_advances [OF wrote same(3) e(3)] e(2) same(2) by auto
      then show ?thesis using assms(3) read Inr fr wrote e(1) key
        by (auto simp: file_mark_def split: sum.splits)
    qed
  qed
qed

lemma file_mark_keeps:
  assumes "transition_ok num f"
  shows "keeps (file_ok sha256 num dir) (file_receipt sha256 num dir) (file_mark sha256 num dir pid f i)"
  unfolding keeps_def using file_mark_cases [OF assms _ surjective_pairing] by blast

lemma file_reserve_cases:
  assumes "file_ok sha256 num dir s" and "clean_key (mi_idempotencyKey i)"
    and "file_reserve sha256 num dir pid i s = (res, s')"
  shows "file_ok sha256 num dir s' \<and>
    (\<forall>k e. file_receipt sha256 num dir s k = Some e \<longrightarrow>
       (\<exists>e'. file_receipt sha256 num dir s' k = Some e' \<and> advances e e')) \<and>
    (\<forall>r. res = Inr (Execute r) \<longrightarrow> file_receipt sha256 num dir s (mi_idempotencyKey i) = None \<and>
       file_receipt sha256 num dir s' (mi_idempotencyKey i) = Some r) \<and>
    (\<forall>r. res = Inr (ReplayCompleted r) \<longrightarrow> file_receipt sha256 num dir s (mi_idempotencyKey i) = Some r \<and>
       mr_state r = Completed)"
proof -
  obtain q s1 where read: "readReceipt sha256 num dir (mi_idempotencyKey i) s = (q, s1)" by fastforce
  note same = read_keeps_receipts [OF read assms(1)]
  consider (failed) e where "q = Inl e" | (found) e where "q = Inr (Some e)" | (none) "q = Inr None"
    by (metis sum.exhaust option.exhaust)
  then show ?thesis
  proof cases
    case failed
    then show ?thesis using assms(3) read same by (auto simp: file_reserve_def)
  next
    case (found e)
    have at: "file_receipt sha256 num dir s (mi_idempotencyKey i) = Some e"
      using readReceipt_effect(3) [OF read] found by blast
    show ?thesis
    proof (cases "reserveMutationReceipt num (Some e) i")
      case (Inl x)
      then show ?thesis using assms(3) read same found by (auto simp: file_reserve_def)
    next
      case (Inr v)
      then have "v = (if mr_state e = Completed then ReplayCompleted e else NeedsReconciliation e)"
        using reserve_Some [OF file_receipt_ok [OF at]] by blast
      then show ?thesis using assms(3) read same found at Inr
        by (auto simp: file_reserve_def split: if_splits)
    qed
  next
    case none
    then have absent: "file_at sha256 dir s (mi_idempotencyKey i) = None"
      using readReceipt_effect(4) [OF read] by blast
    show ?thesis
    proof (cases "reserveMutationReceipt num None i")
      case (Inl e)
      then show ?thesis using assms(3) read same none by (auto simp: file_reserve_def)
    next
      case (Inr v)
      then obtain j where j: "mutationReceiptIdentitySchema_parse i = Inr j"
        "v = Execute \<lparr>mr_identity = j, mr_state = Reserved, mr_result = None\<rparr>" (is "_ = Execute ?r")
        using reserve_None by blast
      have key: "mi_idempotencyKey j = mi_idempotencyKey i"
        using identity_parse_key [OF j(1)] assms(2) by (simp add: clean_key_def)
      have ok: "receipt_ok num ?r" using identity_parse_ok [OF j(1)] by (simp add: receipt_ok_def)
      have no: "file_receipt sha256 num dir s1 (mi_idempotencyKey (mr_identity ?r)) = None"
        using absent same(1) key by (simp add: file_receipt_def)
      obtain w s2 where wrote: "writeReceipt sha256 num dir pid ?r s1 = (w, s2)" by fastforce
      have "file_ok sha256 num dir s2"
        "\<And>k u. file_receipt sha256 num dir s k = Some u \<Longrightarrow>
          \<exists>e'. file_receipt sha256 num dir s2 k = Some e' \<and> advances u e'"
        "w = Inr () \<Longrightarrow> file_receipt sha256 num dir s2 (mi_idempotencyKey i) = Some ?r"
        using write_advances [OF wrote same(3) ok] no same(2) key by auto
      then show ?thesis using assms(3) read none Inr j(2) wrote no same(2) key
        by (auto simp: file_reserve_def split: sum.splits)
    qed
  qed
qed

lemma file_reserve_keeps:
  "clean_key (mi_idempotencyKey i) \<Longrightarrow>
   keeps (file_ok sha256 num dir) (file_receipt sha256 num dir) (file_reserve sha256 num dir pid i)"
  unfolding keeps_def using file_reserve_cases [OF _ _ surjective_pairing] by blast

interpretation files: receipt_store "file_ok sha256 num dir" "file_receipt sha256 num dir"
  "file_get sha256 num dir" "file_reserve sha256 num dir pid" "file_markExecuting sha256 num dir pid"
  "file_markReconciliationRequired sha256 num dir pid" "file_markCompleted sha256 num dir pid"
  for sha256 :: "string \<Rightarrow> string" and num :: "'n \<Rightarrow> string option" and dir pid :: string
proof unfold_locales
  fix key
  show "keeps (file_ok sha256 num dir) (file_receipt sha256 num dir) (file_get sha256 num dir key)"
    unfolding keeps_def file_get_def
    using read_keeps_receipts(2,3) [OF surjective_pairing] by (metis advances_refl)
  fix s s' :: "'n file_store" and r
  assume "file_get sha256 num dir key s = (Inr (Some r), s')"
  then show "file_receipt sha256 num dir s key = Some r"
    using readReceipt_effect(3) [of sha256 num dir key s "Inr (Some r)" s' r] by (simp add: file_get_def)
next
  fix i :: MutationReceiptIdentity and v and s s' :: "'n file_store" and r
  assume ok: "file_ok sha256 num dir s" and clean: "clean_key (mi_idempotencyKey i)"
  {
    assume "file_markCompleted sha256 num dir pid i v s = (Inr r, s')"
    then show "file_receipt sha256 num dir s' (mi_idempotencyKey i) = Some r \<and> mr_state r = Completed"
      using file_mark_cases [OF completed_ok ok] clean completed_state
      by (force simp: file_markCompleted_def clean_key_def)
  }
  {
    assume "file_reserve sha256 num dir pid i s = (Inr (Execute r), s')"
    then show "file_receipt sha256 num dir s (mi_idempotencyKey i) = None \<and>
        file_receipt sha256 num dir s' (mi_idempotencyKey i) = Some r"
      using file_reserve_cases [OF ok clean] by blast
  }
  {
    assume "file_reserve sha256 num dir pid i s = (Inr (ReplayCompleted r), s')"
    then show "file_receipt sha256 num dir s (mi_idempotencyKey i) = Some r \<and> mr_state r = Completed"
      using file_reserve_cases [OF ok clean] by blast
  }
qed (auto simp: file_markExecuting_def file_markReconciliationRequired_def file_markCompleted_def
    file_mark_keeps executing_ok reconciliation_ok completed_ok file_reserve_keeps)

end
