(* ===== verification/Source_Control_Mutation.thy ===== *)
theory Source_Control_Mutation
  imports File_Receipts Source_Control_Policy
begin

text \<open>
  \<open>executeSourceControlMutation\<close> of \<open>services/workspace-agent/src/local-agent.ts\<close>: the one path
  by which every source-control mutation reaches its backend, and the nine methods that call it.

  The method awaits the receipt store and the backend, so calls interleave. \<open>phase\<close> is the
  point between two awaits, and \<open>mutation_step\<close> runs the code from one await to the next; the
  store is any implementation of the five store methods. The backend, the result schema, the
  clock and the random confirmation id are inputs of a step. \<open>ms_invocations\<close> records the
  calls of the backend and \<open>ms_redeemed\<close> the confirmations consumed; the code never reads
  them. Audit metadata is not modelled.
\<close>

subsection \<open>Options\<close>

record OperationContext =
  oc_idempotencyKey :: "string option"
  oc_invocationId :: "string option"
  oc_correlationId :: "string option"

record 'n mutation_options =
  mo_workspace :: ResolvedWorkspace
  mo_operation :: string
  mo_confirmableOperation :: "string option"
  mo_capability :: string
  mo_repository :: "string option"
  mo_canonicalRepositoryAlreadyAuthorized :: bool
  mo_accountOwner :: "string option"
  mo_targetResource :: string
  mo_input :: "'n json"
  mo_context :: OperationContext
  mo_beforeReceipt :: "unit result"
  mo_resultSchema :: "'n json \<Rightarrow> 'n json result"

definition readConfirmationId :: "'n json \<Rightarrow> string option" where
  "readConfirmationId input =
     (case input of
        JObject plain es \<Rightarrow>
          (case map_of es ''confirmationId'' of
             Some (JString s) \<Rightarrow> if s = [] then None else Some s
           | _ \<Rightarrow> None)
      | _ \<Rightarrow> None)"

text \<open>The first operand of a chain of \<open>??\<close> that is not undefined.\<close>

fun first_defined :: "'a option list \<Rightarrow> 'a option" where
  "first_defined [] = None"
| "first_defined (None # xs) = first_defined xs"
| "first_defined (Some x # xs) = Some x"

definition deriveSourceControlIdempotencyKey :: "'n json \<Rightarrow> OperationContext \<Rightarrow> string result" where
  "deriveSourceControlIdempotencyKey input context =
     (case first_defined [oc_idempotencyKey context, readConfirmationId input,
             oc_invocationId context, oc_correlationId context] of
        None \<Rightarrow> Inl (AppError INVALID_ARGUMENT
          ''Source-control mutation requires an idempotency, invocation, correlation or confirmation identity.'')
      | Some v \<Rightarrow> Inr v)"

subsection \<open>State and phases\<close>

record ('s, 'n) store_ops =
  so_get :: "string \<Rightarrow> 's \<Rightarrow> 'n MutationReceipt option result \<times> 's"
  so_reserve :: "MutationReceiptIdentity \<Rightarrow> 's \<Rightarrow> 'n MutationReceiptReservation result \<times> 's"
  so_markExecuting :: "MutationReceiptIdentity \<Rightarrow> 's \<Rightarrow> 'n MutationReceipt result \<times> 's"
  so_markReconciliationRequired :: "MutationReceiptIdentity \<Rightarrow> 's \<Rightarrow> 'n MutationReceipt result \<times> 's"
  so_markCompleted :: "MutationReceiptIdentity \<Rightarrow> 'n json \<Rightarrow> 's \<Rightarrow> 'n MutationReceipt result \<times> 's"

record 's mutation_state =
  ms_store :: 's
  ms_confirmations :: typed_pending
  ms_ttlMs :: int
  ms_redeemed :: "(string \<times> TypedConfirmationBinding) list"
  ms_invocations :: "(string option \<times> MutationReceiptIdentity) list"

record 'n step_env =
  en_now1 :: instant
  en_now2 :: instant
  en_uuid :: string
  en_iso :: "instant \<Rightarrow> string"
  en_backend :: "'n json result"

datatype 'n phase =
    Starting
  | Replaying MutationReceiptIdentity
  | Confirming MutationReceiptIdentity
  | Reserving MutationReceiptIdentity
  | MarkingExecuting MutationReceiptIdentity
  | Invoking MutationReceiptIdentity
  | Completing MutationReceiptIdentity "'n json"
  | Recovering MutationReceiptIdentity exn
  | Settled "'n json result"

definition reconciliation_required :: exn where
  "reconciliation_required = AppError SOURCE_CONTROL_RECONCILIATION_REQUIRED
     ''The source-control mutation requires reconciliation before another backend invocation.''"

definition mutation_binding :: "string \<Rightarrow> MutationReceiptIdentity \<Rightarrow> TypedConfirmationBinding" where
  "mutation_binding operation i =
     \<lparr>tcb_workspaceId = mi_workspaceId i, tcb_operation = operation,
      tcb_targetResource = mi_targetResource i,
      tcb_canonicalArgumentsDigest = mi_canonicalArgumentsDigest i\<rparr>"

text \<open>Everything before the first access to the store: the checks, the digest and the key.\<close>

definition prepare_mutation ::
  "(string \<Rightarrow> string) \<Rightarrow> ('n \<Rightarrow> string option) \<Rightarrow> 'n mutation_options \<Rightarrow>
   MutationReceiptIdentity result" where
  "prepare_mutation sha256 num opts =
     bind_result
       (if mo_canonicalRepositoryAlreadyAuthorized opts then Inr ()
        else assertSourceControlCapability (mo_workspace opts) (mo_capability opts)
               (mo_repository opts) None (mo_accountOwner opts) True) (\<lambda>_.
     bind_result (mo_beforeReceipt opts) (\<lambda>_.
     bind_result (canonicalSourceControlArgumentsDigest sha256 num (mo_input opts)) (\<lambda>digest.
     bind_result (deriveSourceControlIdempotencyKey (mo_input opts) (mo_context opts)) (\<lambda>idempotencyKey.
     Inr \<lparr>mi_workspaceId = rw_id (mo_workspace opts), mi_operation = mo_operation opts,
          mi_targetResource = mo_targetResource opts, mi_canonicalArgumentsDigest = digest,
          mi_idempotencyKey = idempotencyKey\<rparr>))))"

definition replay_result ::
  "'n mutation_options \<Rightarrow> 'n MutationReceipt \<Rightarrow> 'n json result" where
  "replay_result opts r =
     mo_resultSchema opts (case mr_result r of None \<Rightarrow> JUndefined | Some v \<Rightarrow> v)"

definition confirm_mutation ::
  "'n mutation_options \<Rightarrow> 'n step_env \<Rightarrow> MutationReceiptIdentity \<Rightarrow> 's mutation_state \<Rightarrow>
   'n phase \<times> 's mutation_state" where
  "confirm_mutation opts env i st =
     (case mo_confirmableOperation opts of
        None \<Rightarrow> (Reserving i, st)
      | Some operation \<Rightarrow>
          (case readConfirmationId (mo_input opts) of
             None \<Rightarrow>
               (case typed_create (ms_ttlMs st) (en_now1 env) (en_now2 env) (en_uuid env)
                       (mutation_binding operation i) (ms_confirmations st) of
                  (Inl e, p) \<Rightarrow> (Settled (Inl e), st\<lparr>ms_confirmations := p\<rparr>)
                | (Inr (confirmationId, expiresAt), p) \<Rightarrow>
                    (Settled (mo_resultSchema opts (JObject True
                       [(''status'', JString ''confirmation_required''),
                        (''confirmationId'', JString confirmationId),
                        (''expiresAt'', JString (en_iso env expiresAt)),
                        (''operation'', JString operation),
                        (''targetResource'', JString (mi_targetResource i))])),
                     st\<lparr>ms_confirmations := p\<rparr>))
           | Some confirmationId \<Rightarrow>
               (case typed_consume (en_now1 env) (en_now2 env) confirmationId
                       (mutation_binding operation i) (ms_confirmations st) of
                  (Inl e, p) \<Rightarrow> (Settled (Inl e), st\<lparr>ms_confirmations := p\<rparr>)
                | (Inr _, p) \<Rightarrow>
                    (Reserving i, st\<lparr>ms_confirmations := p,
                       ms_redeemed := ms_redeemed st @
                         [(confirmationId, mutation_binding operation i)]\<rparr>))))"

fun mutation_step ::
  "('s, 'n) store_ops \<Rightarrow> (string \<Rightarrow> string) \<Rightarrow> ('n \<Rightarrow> string option) \<Rightarrow> 'n mutation_options \<Rightarrow>
   'n step_env \<Rightarrow> 'n phase \<Rightarrow> 's mutation_state \<Rightarrow> 'n phase \<times> 's mutation_state" where
  "mutation_step ops sha256 num opts env Starting st =
     (case prepare_mutation sha256 num opts of
        Inl e \<Rightarrow> (Settled (Inl e), st)
      | Inr i \<Rightarrow>
          (case so_get ops (mi_idempotencyKey i) (ms_store st) of
             (Inl e, s) \<Rightarrow> (Settled (Inl e), st\<lparr>ms_store := s\<rparr>)
           | (Inr (Some _), s) \<Rightarrow> (Replaying i, st\<lparr>ms_store := s\<rparr>)
           | (Inr None, s) \<Rightarrow> (Confirming i, st\<lparr>ms_store := s\<rparr>)))"
| "mutation_step ops sha256 num opts env (Replaying i) st =
     (case so_reserve ops i (ms_store st) of
        (Inl e, s) \<Rightarrow> (Settled (Inl e), st\<lparr>ms_store := s\<rparr>)
      | (Inr (ReplayCompleted r), s) \<Rightarrow> (Settled (replay_result opts r), st\<lparr>ms_store := s\<rparr>)
      | (Inr _, s) \<Rightarrow> (Settled (Inl reconciliation_required), st\<lparr>ms_store := s\<rparr>))"
| "mutation_step ops sha256 num opts env (Confirming i) st = confirm_mutation opts env i st"
| "mutation_step ops sha256 num opts env (Reserving i) st =
     (case so_reserve ops i (ms_store st) of
        (Inl e, s) \<Rightarrow> (Settled (Inl e), st\<lparr>ms_store := s\<rparr>)
      | (Inr (ReplayCompleted r), s) \<Rightarrow> (Settled (replay_result opts r), st\<lparr>ms_store := s\<rparr>)
      | (Inr (NeedsReconciliation _), s) \<Rightarrow>
          (Settled (Inl reconciliation_required), st\<lparr>ms_store := s\<rparr>)
      | (Inr (Execute _), s) \<Rightarrow> (MarkingExecuting i, st\<lparr>ms_store := s\<rparr>))"
| "mutation_step ops sha256 num opts env (MarkingExecuting i) st =
     (case so_markExecuting ops i (ms_store st) of
        (Inl e, s) \<Rightarrow> (Settled (Inl e), st\<lparr>ms_store := s\<rparr>)
      | (Inr _, s) \<Rightarrow> (Invoking i, st\<lparr>ms_store := s\<rparr>))"
| "mutation_step ops sha256 num opts env (Invoking i) st =
     (let st1 = st\<lparr>ms_invocations := ms_invocations st @ [(mo_confirmableOperation opts, i)]\<rparr> in
      case bind_result (en_backend env) (mo_resultSchema opts) of
        Inl e \<Rightarrow> (Recovering i e, st1)
      | Inr result \<Rightarrow> (Completing i result, st1))"
| "mutation_step ops sha256 num opts env (Completing i result) st =
     (case so_markCompleted ops i result (ms_store st) of
        (Inl e, s) \<Rightarrow> (Recovering i e, st\<lparr>ms_store := s\<rparr>)
      | (Inr _, s) \<Rightarrow> (Settled (Inr result), st\<lparr>ms_store := s\<rparr>))"
| "mutation_step ops sha256 num opts env (Recovering i e) st =
     (case so_markReconciliationRequired ops i (ms_store st) of
        (_, s) \<Rightarrow> (Settled (Inl e), st\<lparr>ms_store := s\<rparr>))"
| "mutation_step ops sha256 num opts env (Settled r) st = (Settled r, st)"

text \<open>One call on its own: seven steps settle it.\<close>

definition executeSourceControlMutation ::
  "('s, 'n) store_ops \<Rightarrow> (string \<Rightarrow> string) \<Rightarrow> ('n \<Rightarrow> string option) \<Rightarrow> 'n mutation_options \<Rightarrow>
   'n step_env \<Rightarrow> 's mutation_state \<Rightarrow> 'n phase \<times> 's mutation_state" where
  "executeSourceControlMutation ops sha256 num opts env st =
     ((\<lambda>(ph, s). mutation_step ops sha256 num opts env ph s) ^^ 7) (Starting, st)"

subsection \<open>The methods that mutate\<close>

text \<open>
  Each method of the agent builds the options of the call. The fields of its parsed input that
  the method reads are arguments, beside the input itself; the current branch and the canonical
  repository of a workspace come from Git.
\<close>

definition localGitRepositoryTarget :: "string \<Rightarrow> string \<Rightarrow> string" where
  "localGitRepositoryTarget workspaceId root = ''git:'' @ workspaceId @ '':'' @ root"

definition or_default :: "'a \<Rightarrow> 'a option \<Rightarrow> 'a" where
  "or_default d v = (case v of None \<Rightarrow> d | Some x \<Rightarrow> x)"

definition sourceControlConfirmationOperation ::
  "ResolvedWorkspace \<Rightarrow> string \<Rightarrow> string option \<Rightarrow> string option" where
  "sourceControlConfirmationOperation workspace operation sourceBranch =
     (let trusted = (rw_confirmationMode workspace = Trusted_workspace \<and>
                     rw_permissionProfile workspace = Full_repo_write);
          trustedFeatureFlow = (operation = ''git_push_branch'' \<or> operation = ''github_create_pull_request'');
          sourceIsProtectedMain = isProtectedMain sourceBranch
      in if trusted \<and> trustedFeatureFlow \<and> (sourceBranch \<noteq> None \<and> sourceBranch \<noteq> Some []) \<and>
            \<not> sourceIsProtectedMain
         then None else Some operation)"

definition assertGitHubRepositoryCapability ::
  "ResolvedWorkspace \<Rightarrow> string \<Rightarrow> string \<Rightarrow> string option \<Rightarrow> bool \<Rightarrow> unit result" where
  "assertGitHubRepositoryCapability workspace capability repository canonicalGitHubRepository mutation =
     (let configuredAdditional =
            (case rw_sourceControl workspace of
               None \<Rightarrow> False
             | Some p \<Rightarrow> list_ex (\<lambda>c. js_lower c = js_lower repository) (sp_additionalRepositories p));
          canonicalRepository = (if configuredAdditional then None else canonicalGitHubRepository)
      in assertSourceControlCapability workspace capability (Some repository) canonicalRepository None mutation)"

definition local_git_options ::
  "string \<Rightarrow> string \<Rightarrow> ResolvedWorkspace \<Rightarrow> string option \<Rightarrow> 'n json \<Rightarrow> OperationContext \<Rightarrow>
   ('n json \<Rightarrow> 'n json result) \<Rightarrow> 'n mutation_options" where
  "local_git_options operation capability workspace root input context schema =
     \<lparr>mo_workspace = workspace, mo_operation = operation, mo_confirmableOperation = None,
      mo_capability = capability, mo_repository = None,
      mo_canonicalRepositoryAlreadyAuthorized = False, mo_accountOwner = None,
      mo_targetResource = localGitRepositoryTarget (rw_id workspace) (or_default ''.'' root),
      mo_input = input, mo_context = context, mo_beforeReceipt = Inr (), mo_resultSchema = schema\<rparr>"

definition gitCreateBranch ::
  "ResolvedWorkspace \<Rightarrow> string option \<Rightarrow> 'n json \<Rightarrow> OperationContext \<Rightarrow>
   ('n json \<Rightarrow> 'n json result) \<Rightarrow> 'n mutation_options" where
  "gitCreateBranch = local_git_options ''git_create_branch'' ''git.branch.write''"

definition gitStagePaths ::
  "ResolvedWorkspace \<Rightarrow> string option \<Rightarrow> 'n json \<Rightarrow> OperationContext \<Rightarrow>
   ('n json \<Rightarrow> 'n json result) \<Rightarrow> 'n mutation_options" where
  "gitStagePaths = local_git_options ''git_stage_paths'' ''git.index.write''"

definition gitUnstagePaths ::
  "ResolvedWorkspace \<Rightarrow> string option \<Rightarrow> 'n json \<Rightarrow> OperationContext \<Rightarrow>
   ('n json \<Rightarrow> 'n json result) \<Rightarrow> 'n mutation_options" where
  "gitUnstagePaths = local_git_options ''git_unstage_paths'' ''git.index.write''"

definition gitCommit ::
  "string result \<Rightarrow> ResolvedWorkspace \<Rightarrow> string option \<Rightarrow> 'n json \<Rightarrow> OperationContext \<Rightarrow>
   ('n json \<Rightarrow> 'n json result) \<Rightarrow> 'n mutation_options" where
  "gitCommit currentGitBranch workspace root input context schema =
     (local_git_options ''git_commit'' ''git.commit.write'' workspace root input context schema)
       \<lparr>mo_beforeReceipt := bind_result currentGitBranch
          (\<lambda>branch. assertTypedGitBranchMutationAllowed ''git_commit'' (Some branch))\<rparr>"

definition gitMergeBranch ::
  "string result \<Rightarrow> ResolvedWorkspace \<Rightarrow> string option \<Rightarrow> 'n json \<Rightarrow> OperationContext \<Rightarrow>
   ('n json \<Rightarrow> 'n json result) \<Rightarrow> 'n mutation_options" where
  "gitMergeBranch currentGitBranch workspace root input context schema =
     (local_git_options ''git_merge_branch'' ''git.merge.write'' workspace root input context schema)
       \<lparr>mo_beforeReceipt := bind_result currentGitBranch
          (\<lambda>branch. assertTypedGitBranchMutationAllowed ''git_merge_branch'' (Some branch))\<rparr>"

definition gitPushBranch ::
  "string \<Rightarrow> string option \<Rightarrow> ResolvedWorkspace \<Rightarrow> string option \<Rightarrow> 'n json \<Rightarrow> OperationContext \<Rightarrow>
   ('n json \<Rightarrow> 'n json result) \<Rightarrow> 'n mutation_options" where
  "gitPushBranch branch remote workspace root input context schema =
     (local_git_options ''git_push_branch'' ''git.remote.push'' workspace root input context schema)
       \<lparr>mo_confirmableOperation :=
          sourceControlConfirmationOperation workspace ''git_push_branch'' (Some branch),
        mo_targetResource :=
          localGitRepositoryTarget (rw_id workspace) (or_default ''.'' root) @ '':'' @
          or_default ''origin'' remote @ '':refs/heads/'' @ branch,
        mo_beforeReceipt := assertTypedGitBranchMutationAllowed ''git_push_branch'' None\<rparr>"

definition githubCreateRepository ::
  "string \<Rightarrow> string \<Rightarrow> ResolvedWorkspace \<Rightarrow> 'n json \<Rightarrow> OperationContext \<Rightarrow>
   ('n json \<Rightarrow> 'n json result) \<Rightarrow> 'n mutation_options" where
  "githubCreateRepository owner name workspace input context schema =
     \<lparr>mo_workspace = workspace, mo_operation = ''github_create_repository'',
      mo_confirmableOperation = Some ''github_create_repository'',
      mo_capability = ''github.repository.create'', mo_repository = None,
      mo_canonicalRepositoryAlreadyAuthorized = False, mo_accountOwner = Some owner,
      mo_targetResource = ''github:'' @ owner @ ''/'' @ name,
      mo_input = input, mo_context = context, mo_beforeReceipt = Inr (), mo_resultSchema = schema\<rparr>"

definition githubCreatePullRequest ::
  "string \<Rightarrow> string \<Rightarrow> string \<Rightarrow> string \<Rightarrow> string option \<Rightarrow> ResolvedWorkspace \<Rightarrow> 'n json \<Rightarrow>
   OperationContext \<Rightarrow> ('n json \<Rightarrow> 'n json result) \<Rightarrow> 'n mutation_options result" where
  "githubCreatePullRequest owner repositoryName head base canonicalGitHubRepository workspace input context schema =
     (let repository = owner @ ''/'' @ repositoryName in
      bind_result (assertGitHubRepositoryCapability workspace ''github.pull_request.create'' repository
        canonicalGitHubRepository True) (\<lambda>_.
      Inr \<lparr>mo_workspace = workspace, mo_operation = ''github_create_pull_request'',
        mo_confirmableOperation =
          sourceControlConfirmationOperation workspace ''github_create_pull_request'' (Some head),
        mo_capability = ''github.pull_request.create'', mo_repository = Some repository,
        mo_canonicalRepositoryAlreadyAuthorized = True, mo_accountOwner = None,
        mo_targetResource = ''github:'' @ repository @ '':pulls:'' @ head @ ''->'' @ base,
        mo_input = input, mo_context = context, mo_beforeReceipt = Inr (), mo_resultSchema = schema\<rparr>))"

definition githubMergePullRequest ::
  "string \<Rightarrow> string \<Rightarrow> nat \<Rightarrow> string option \<Rightarrow> ResolvedWorkspace \<Rightarrow> 'n json \<Rightarrow>
   OperationContext \<Rightarrow> ('n json \<Rightarrow> 'n json result) \<Rightarrow> 'n mutation_options result" where
  "githubMergePullRequest owner repositoryName pullNumber canonicalGitHubRepository workspace input context schema =
     (let repository = owner @ ''/'' @ repositoryName in
      bind_result (assertGitHubRepositoryCapability workspace ''github.pull_request.merge'' repository
        canonicalGitHubRepository True) (\<lambda>_.
      Inr \<lparr>mo_workspace = workspace, mo_operation = ''github_merge_pull_request'',
        mo_confirmableOperation = Some ''github_merge_pull_request'',
        mo_capability = ''github.pull_request.merge'', mo_repository = Some repository,
        mo_canonicalRepositoryAlreadyAuthorized = True, mo_accountOwner = None,
        mo_targetResource = ''github:'' @ repository @ '':pull/'' @ js_digits pullNumber,
        mo_input = input, mo_context = context, mo_beforeReceipt = Inr (), mo_resultSchema = schema\<rparr>))"

subsection \<open>Interleaved calls\<close>

text \<open>Any number of calls on one agent, each at its phase; a step runs one of them.\<close>

inductive system_step ::
  "('s, 'n) store_ops \<Rightarrow> (string \<Rightarrow> string) \<Rightarrow> ('n \<Rightarrow> string option) \<Rightarrow>
   ('n mutation_options \<times> 'n phase) list \<times> 's mutation_state \<Rightarrow>
   ('n mutation_options \<times> 'n phase) list \<times> 's mutation_state \<Rightarrow> bool"
  for ops sha256 num where
  run_call: "i < length calls \<Longrightarrow> calls ! i = (opts, ph) \<Longrightarrow>
    mutation_step ops sha256 num opts env ph st = (ph', st') \<Longrightarrow>
    system_step ops sha256 num (calls, st) (calls[i := (opts, ph')], st')"

definition starting_calls :: "'n mutation_options list \<Rightarrow> ('n mutation_options \<times> 'n phase) list" where
  "starting_calls os = map (\<lambda>opts. (opts, Starting)) os"

text \<open>The idempotency key of every call needs no trimming.\<close>

definition clean_call :: "'n mutation_options \<Rightarrow> bool" where
  "clean_call opts \<longleftrightarrow>
     (case deriveSourceControlIdempotencyKey (mo_input opts) (mo_context opts) of
        Inl e \<Rightarrow> True | Inr k \<Rightarrow> clean_key k)"

fun phase_identity :: "'n phase \<Rightarrow> MutationReceiptIdentity option" where
  "phase_identity (Replaying i) = Some i"
| "phase_identity (Confirming i) = Some i"
| "phase_identity (Reserving i) = Some i"
| "phase_identity (MarkingExecuting i) = Some i"
| "phase_identity (Invoking i) = Some i"
| "phase_identity (Completing i v) = Some i"
| "phase_identity (Recovering i e) = Some i"
| "phase_identity _ = None"

text \<open>A call owns a key from its reservation until it has invoked the backend.\<close>

fun owns :: "string \<Rightarrow> 'n phase \<Rightarrow> bool" where
  "owns k (MarkingExecuting i) \<longleftrightarrow> mi_idempotencyKey i = k"
| "owns k (Invoking i) \<longleftrightarrow> mi_idempotencyKey i = k"
| "owns k _ \<longleftrightarrow> False"

definition owners :: "string \<Rightarrow> ('n mutation_options \<times> 'n phase) list \<Rightarrow> nat" where
  "owners k calls = length (filter (\<lambda>(opts, ph). owns k ph) calls)"

definition invocations :: "string \<Rightarrow> 's mutation_state \<Rightarrow> nat" where
  "invocations k st = length (filter (\<lambda>(c, i). mi_idempotencyKey i = k) (ms_invocations st))"

lemma owners_update:
  assumes "i < length calls" and "calls ! i = (opts, ph)"
  shows "owners k (calls[i := (opts, ph')]) + (if owns k ph then 1 else 0) =
     owners k calls + (if owns k ph' then 1 else 0)"
proof -
  let ?with = "\<lambda>c. take i calls @ c # drop (Suc i) calls"
  have count: "owners k (?with (opts, p)) =
      owners k (take i calls) + (if owns k p then 1 else 0) + owners k (drop (Suc i) calls)" for p
    by (simp add: owners_def)
  have "owners k calls = owners k (?with (opts, ph))"
    using arg_cong [OF id_take_nth_drop [OF assms(1)], of "owners k"] assms(2) by simp
  then show ?thesis using assms(1) by (simp add: count upd_conv_take_nth_drop)
qed

lemma invocations_store [simp]: "invocations k (st\<lparr>ms_store := s\<rparr>) = invocations k st"
  by (simp add: invocations_def)

text \<open>One for true, zero for false.\<close>

abbreviation one_if :: "bool \<Rightarrow> nat" where
  "one_if b \<equiv> (if b then 1 else 0)"

lemma prepare_key:
  assumes "prepare_mutation sha256 num opts = Inr i"
  shows "deriveSourceControlIdempotencyKey (mo_input opts) (mo_context opts) = Inr (mi_idempotencyKey i)"
    and "mi_workspaceId i = rw_id (mo_workspace opts)" and "mi_operation i = mo_operation opts"
    and "mi_targetResource i = mo_targetResource opts"
    and "canonicalSourceControlArgumentsDigest sha256 num (mo_input opts) = Inr (mi_canonicalArgumentsDigest i)"
  using assms by (auto simp: prepare_mutation_def bind_result_Inr_iff)

lemma confirm_store:
  assumes "confirm_mutation opts env i st = (ph', st')"
  shows "ms_store st' = ms_store st" and "ms_invocations st' = ms_invocations st"
    and "ph' = Reserving i \<or> (\<exists>r. ph' = Settled r)"
  using assms
  by (auto simp: confirm_mutation_def split: option.splits prod.splits sum.splits)

context receipt_store
begin

abbreviation ops :: "('s, 'n) store_ops" where
  "ops \<equiv> \<lparr>so_get = get, so_reserve = reserve, so_markExecuting = mark_executing,
     so_markReconciliationRequired = mark_reconciliation, so_markCompleted = mark_completed\<rparr>"

definition settled_store :: "'s \<Rightarrow> 's \<Rightarrow> bool" where
  "settled_store s s' \<longleftrightarrow> ok s' \<and>
     (\<forall>k r. receipt s k = Some r \<longrightarrow> (\<exists>r'. receipt s' k = Some r' \<and> advances r r'))"

lemma keeps_settled: "keeps ok receipt f \<Longrightarrow> ok s \<Longrightarrow> f s = (x, s') \<Longrightarrow> settled_store s s'"
  unfolding settled_store_def using keepsD [of ok receipt f s] by force

lemma settled_refl: "ok s \<Longrightarrow> settled_store s s"
  by (auto simp: settled_store_def)

lemma settled_trans: "settled_store s1 s2 \<Longrightarrow> settled_store s2 s3 \<Longrightarrow> settled_store s1 s3"
  unfolding settled_store_def by (meson advances_trans)

lemmas method_settled =
  keeps_settled [OF get_keeps] keeps_settled [OF reserve_keeps] keeps_settled [OF executing_keeps]
  keeps_settled [OF reconciliation_keeps] keeps_settled [OF completed_keeps]

lemma settled_persists: "settled_store s s' \<Longrightarrow> one_if (receipt s k \<noteq> None) \<le> one_if (receipt s' k \<noteq> None)"
  unfolding settled_store_def by (cases "receipt s k") auto

text \<open>What one step of one call does to the store, to its own key and to the count of its key.\<close>

lemma mutation_step_effect:
  assumes "mutation_step ops sha256 num opts env ph st = (ph', st')" and "ok (ms_store st)"
    and "clean_call opts" and "\<forall>i. phase_identity ph = Some i \<longrightarrow> clean_key (mi_idempotencyKey i)"
  shows "settled_store (ms_store st) (ms_store st')"
    and "phase_identity ph' = Some i \<Longrightarrow> clean_key (mi_idempotencyKey i)"
    and "one_if (owns k ph') + invocations k st' + one_if (receipt (ms_store st) k \<noteq> None)
       \<le> one_if (owns k ph) + invocations k st + one_if (receipt (ms_store st') k \<noteq> None)"
proof -
  have "settled_store (ms_store st) (ms_store st') \<and>
      (phase_identity ph' = Some i \<longrightarrow> clean_key (mi_idempotencyKey i)) \<and>
      one_if (owns k ph') + invocations k st' + one_if (receipt (ms_store st) k \<noteq> None)
       \<le> one_if (owns k ph) + invocations k st + one_if (receipt (ms_store st') k \<noteq> None)"
  proof (cases ph)
    case Starting
    show ?thesis
    proof (cases "prepare_mutation sha256 num opts")
      case (Inl e)
      with assms Starting show ?thesis by (auto intro: settled_refl)
    next
      case (Inr j)
      have clean: "clean_key (mi_idempotencyKey j)"
        using assms(3) prepare_key(1) [OF Inr] by (simp add: clean_call_def)
      obtain g s where g: "get (mi_idempotencyKey j) (ms_store st) = (g, s)" by fastforce
      have "settled_store (ms_store st) s" using method_settled(1) [OF assms(2) g] .
      with assms(1) Starting Inr g clean show ?thesis
        using settled_persists [of "ms_store st" s k]
        by (auto split: sum.splits option.splits)
    qed
  next
    case (Replaying j)
    obtain g s where g: "reserve j (ms_store st) = (g, s)" by fastforce
    have "settled_store (ms_store st) s"
      using method_settled(2) [OF _ assms(2) g] assms(4) Replaying by simp
    with assms(1) Replaying g show ?thesis
      using settled_persists [of "ms_store st" s k]
      by (auto split: sum.splits MutationReceiptReservation.splits)
  next
    case (Confirming j)
    then show ?thesis
      using assms confirm_store [of opts env j st ph' st'] settled_refl [OF assms(2)]
      by (auto simp: invocations_def)
  next
    case (Reserving j)
    obtain g s where g: "reserve j (ms_store st) = (g, s)" by fastforce
    have clean: "clean_key (mi_idempotencyKey j)" using assms(4) Reserving by simp
    have "settled_store (ms_store st) s"
      using method_settled(2) [OF clean assms(2) g] .
    moreover have "receipt (ms_store st) (mi_idempotencyKey j) = None \<and> receipt s (mi_idempotencyKey j) = Some r"
      if "g = Inr (Execute r)" for r
      using reserve_executes [OF assms(2) clean] g that by blast
    ultimately show ?thesis
      using assms(1) Reserving g clean settled_persists [of "ms_store st" s k]
      by (auto split: sum.splits MutationReceiptReservation.splits)
  next
    case (MarkingExecuting j)
    obtain g s where g: "mark_executing j (ms_store st) = (g, s)" by fastforce
    have "settled_store (ms_store st) s" using method_settled(3) [OF assms(2) g] .
    then show ?thesis
      using assms(1,4) MarkingExecuting g settled_persists [of "ms_store st" s k]
      by (auto split: sum.splits)
  next
    case (Invoking j)
    then show ?thesis
      using assms(1,4) settled_refl [OF assms(2)]
      by (auto simp: invocations_def Let_def split: sum.splits)
  next
    case (Completing j v)
    obtain g s where g: "mark_completed j v (ms_store st) = (g, s)" by fastforce
    have "settled_store (ms_store st) s" using method_settled(5) [OF assms(2) g] .
    then show ?thesis
      using assms(1,4) Completing g settled_persists [of "ms_store st" s k]
      by (auto split: sum.splits)
  next
    case (Recovering j e)
    obtain g s where g: "mark_reconciliation j (ms_store st) = (g, s)" by fastforce
    have "settled_store (ms_store st) s" using method_settled(4) [OF assms(2) g] .
    then show ?thesis
      using assms(1) Recovering g settled_persists [of "ms_store st" s k]
      by auto
  next
    case (Settled r)
    then show ?thesis using assms(1) settled_refl [OF assms(2)] by auto
  qed
  then show "settled_store (ms_store st) (ms_store st')"
    and "phase_identity ph' = Some i \<Longrightarrow> clean_key (mi_idempotencyKey i)"
    and "one_if (owns k ph') + invocations k st' + one_if (receipt (ms_store st) k \<noteq> None)
       \<le> one_if (owns k ph) + invocations k st + one_if (receipt (ms_store st') k \<noteq> None)"
    by blast+
qed

definition calls_ok :: "('n mutation_options \<times> 'n phase) list \<Rightarrow> bool" where
  "calls_ok calls \<longleftrightarrow> (\<forall>(opts, ph) \<in> set calls. clean_call opts \<and>
     (\<forall>i. phase_identity ph = Some i \<longrightarrow> clean_key (mi_idempotencyKey i)))"

lemma system_step_effect:
  assumes "system_step ops sha256 num (calls, st) (calls', st')" and "ok (ms_store st)" and "calls_ok calls"
  shows "settled_store (ms_store st) (ms_store st')" and "calls_ok calls'"
    and "owners k calls' + invocations k st' + one_if (receipt (ms_store st) k \<noteq> None)
       \<le> owners k calls + invocations k st + one_if (receipt (ms_store st') k \<noteq> None)"
proof -
  obtain i opts ph ph' env where c: "i < length calls" "calls ! i = (opts, ph)"
    "calls' = calls[i := (opts, ph')]" "mutation_step ops sha256 num opts env ph st = (ph', st')"
    using assms(1) by (auto elim: system_step.cases)
  have call: "clean_call opts" "\<forall>j. phase_identity ph = Some j \<longrightarrow> clean_key (mi_idempotencyKey j)"
    using assms(3) nth_mem [OF c(1)] c(2) by (auto simp: calls_ok_def)
  note eff = mutation_step_effect [OF c(4) assms(2) call]
  show "settled_store (ms_store st) (ms_store st')" by (rule eff(1))
  have "clean_call o1 \<and> (\<forall>j. phase_identity p1 = Some j \<longrightarrow> clean_key (mi_idempotencyKey j))"
    if "(o1, p1) \<in> insert (opts, ph') (set calls)" for o1 p1
    using that assms(3) call(1) eff(2) by (auto simp: calls_ok_def)
  then show "calls_ok calls'"
    using set_update_subset_insert [of calls i "(opts, ph')"] unfolding calls_ok_def c(3) by blast
  show "owners k calls' + invocations k st' + one_if (receipt (ms_store st) k \<noteq> None)
       \<le> owners k calls + invocations k st + one_if (receipt (ms_store st') k \<noteq> None)"
    unfolding c(3) using eff(3) [of k] owners_update [OF c(1,2), of k ph'] by linarith
qed

lemma system_steps_effect:
  assumes "(system_step ops sha256 num)\<^sup>*\<^sup>* (calls, st) (calls', st')"
    and "ok (ms_store st)" and "calls_ok calls"
  shows "settled_store (ms_store st) (ms_store st') \<and> calls_ok calls' \<and>
    owners k calls' + invocations k st' + one_if (receipt (ms_store st) k \<noteq> None)
       \<le> owners k calls + invocations k st + one_if (receipt (ms_store st') k \<noteq> None)"
  using assms(1)
proof (induction rule: rtranclp_induct2)
  case refl
  then show ?case using assms(2,3) settled_refl by simp
next
  case (step calls1 st1 calls2 st2)
  have ok1: "ok (ms_store st1)" using step.IH by (simp add: settled_store_def)
  have calls1: "calls_ok calls1" using step.IH by simp
  note eff = system_step_effect [OF step.hyps(2) ok1 calls1]
  have "settled_store (ms_store st) (ms_store st2)"
    using settled_trans [OF conjunct1 [OF step.IH] eff(1)] .
  moreover have "owners k calls2 + invocations k st2 + one_if (receipt (ms_store st) k \<noteq> None)
       \<le> owners k calls + invocations k st + one_if (receipt (ms_store st2) k \<noteq> None)"
    using step.IH eff(3) [of k] by linarith
  ultimately show ?case using eff(2) by blast
qed

lemma starting_calls_ok: "list_all clean_call os \<Longrightarrow> calls_ok (starting_calls os)"
  by (auto simp: calls_ok_def starting_calls_def list_all_iff)

lemma owners_starting [simp]: "owners k (starting_calls os) = 0"
  by (simp add: owners_def starting_calls_def)

lemma backend_at_most_once:
  assumes "(system_step ops sha256 num)\<^sup>*\<^sup>* (starting_calls os, st) (calls', st')"
    and "ok (ms_store st)" and "list_all clean_call os"
  shows "invocations k st' \<le> invocations k st + one_if (receipt (ms_store st) k = None)"
  using system_steps_effect [OF assms(1,2) starting_calls_ok [OF assms(3)], of k]
  by (auto split: if_splits)

text \<open>A completed receipt is what every later reservation of its key replays.\<close>

lemma completed_is_replayed:
  assumes "mark_completed i v (ms_store st) = (Inr r, s1)" and "ok (ms_store st)"
    and "clean_key (mi_idempotencyKey i)"
    and "(system_step ops sha256 num)\<^sup>*\<^sup>* (calls1, st\<lparr>ms_store := s1\<rparr>) (calls2, st2)" and "calls_ok calls1"
    and "reserve j (ms_store st2) = (Inr q, s3)" and "mi_idempotencyKey j = mi_idempotencyKey i"
  shows "receipt (ms_store st2) (mi_idempotencyKey i) = Some r"
    and "q \<noteq> Execute r'" and "q = ReplayCompleted r' \<Longrightarrow> r' = r"
proof -
  have r: "receipt s1 (mi_idempotencyKey i) = Some r" "mr_state r = Completed"
    using completes [OF assms(2,3,1)] by auto
  have ok1: "ok (ms_store (st\<lparr>ms_store := s1\<rparr>))"
    using method_settled(5) [OF assms(2,1)] by (simp add: settled_store_def)
  have sett: "settled_store s1 (ms_store st2)"
    using system_steps_effect [OF assms(4) ok1 assms(5)] by simp
  then show rec: "receipt (ms_store st2) (mi_idempotencyKey i) = Some r"
    using r unfolding settled_store_def advances_def by metis
  have ok2: "ok (ms_store st2)" using sett by (simp add: settled_store_def)
  show "q \<noteq> Execute r'"
    using reserve_executes [OF ok2, of j r' s3] assms(3,6,7) rec by auto
  show "q = ReplayCompleted r' \<Longrightarrow> r' = r"
    using reserve_replays [OF ok2, of j r' s3] assms(3,6,7) rec by auto
qed

end

subsection \<open>Confirmations before the backend\<close>

text \<open>
  A call whose operation needs a confirmation has redeemed one for its own binding when it
  passes the confirmation, and so has every recorded invocation. This holds for any store.
\<close>

fun past_confirmation :: "'n phase \<Rightarrow> bool" where
  "past_confirmation (Reserving i) \<longleftrightarrow> True"
| "past_confirmation (MarkingExecuting i) \<longleftrightarrow> True"
| "past_confirmation (Invoking i) \<longleftrightarrow> True"
| "past_confirmation _ \<longleftrightarrow> False"

definition redeemed_for :: "'s mutation_state \<Rightarrow> string option \<times> MutationReceiptIdentity \<Rightarrow> bool" where
  "redeemed_for st e \<longleftrightarrow>
     (\<forall>opn. fst e = Some opn \<longrightarrow> mutation_binding opn (snd e) \<in> snd ` set (ms_redeemed st))"

definition confirmed_inv :: "('n mutation_options \<times> 'n phase) list \<times> 's mutation_state \<Rightarrow> bool" where
  "confirmed_inv s \<longleftrightarrow>
     (\<forall>e \<in> set (ms_invocations (snd s)). redeemed_for (snd s) e) \<and>
     (\<forall>(opts, ph) \<in> set (fst s). past_confirmation ph \<longrightarrow>
        redeemed_for (snd s) (mo_confirmableOperation opts, the (phase_identity ph)))"

lemma redeemed_mono:
  "redeemed_for st e \<Longrightarrow> set (ms_redeemed st) \<subseteq> set (ms_redeemed st') \<Longrightarrow> redeemed_for st' e"
  by (auto simp: redeemed_for_def)

lemma confirm_redeems:
  assumes "confirm_mutation opts env i st = (ph', st')"
  shows "set (ms_redeemed st) \<subseteq> set (ms_redeemed st')"
    and "past_confirmation ph' \<Longrightarrow>
      ph' = Reserving i \<and> redeemed_for st' (mo_confirmableOperation opts, i)"
  using assms
  by (auto simp: confirm_mutation_def redeemed_for_def split: option.splits prod.splits sum.splits)

lemma mutation_step_confirmed:
  assumes "mutation_step ops sha256 num opts env ph st = (ph', st')"
    and "past_confirmation ph \<Longrightarrow> redeemed_for st (mo_confirmableOperation opts, the (phase_identity ph))"
  shows "set (ms_redeemed st) \<subseteq> set (ms_redeemed st')"
    and "past_confirmation ph' \<Longrightarrow>
      redeemed_for st' (mo_confirmableOperation opts, the (phase_identity ph'))"
    and "e \<in> set (ms_invocations st') \<Longrightarrow> e \<in> set (ms_invocations st) \<or> redeemed_for st' e"
proof -
  have "set (ms_redeemed st) \<subseteq> set (ms_redeemed st') \<and>
      (past_confirmation ph' \<longrightarrow>
        redeemed_for st' (mo_confirmableOperation opts, the (phase_identity ph'))) \<and>
      (e \<in> set (ms_invocations st') \<longrightarrow> e \<in> set (ms_invocations st) \<or> redeemed_for st' e)"
  proof (cases ph)
    case (Confirming i)
    then show ?thesis using assms(1) confirm_redeems [of opts env i st ph' st']
        confirm_store(2) [of opts env i st ph' st'] by auto
  qed (use assms in \<open>auto simp: Let_def redeemed_for_def
        split: sum.splits prod.splits option.splits MutationReceiptReservation.splits\<close>)
  then show "set (ms_redeemed st) \<subseteq> set (ms_redeemed st')"
    and "past_confirmation ph' \<Longrightarrow>
      redeemed_for st' (mo_confirmableOperation opts, the (phase_identity ph'))"
    and "e \<in> set (ms_invocations st') \<Longrightarrow> e \<in> set (ms_invocations st) \<or> redeemed_for st' e"
    by blast+
qed

lemma system_step_confirmed:
  assumes "system_step ops sha256 num s s'" and "confirmed_inv s"
  shows "confirmed_inv s'"
  using assms
proof (induction rule: system_step.induct)
  case (run_call i calls opts ph env st ph' st')
  have mem: "(opts, ph) \<in> set calls" using run_call(1,2) nth_mem by metis
  have past: "past_confirmation ph \<Longrightarrow>
      redeemed_for st (mo_confirmableOperation opts, the (phase_identity ph))"
    using run_call.prems mem by (auto simp: confirmed_inv_def)
  note eff = mutation_step_confirmed [OF run_call(3)]
  have sub: "set (ms_redeemed st) \<subseteq> set (ms_redeemed st')" using eff(1) past by blast
  have inv: "\<forall>e \<in> set (ms_invocations st). redeemed_for st e"
    using run_call.prems by (simp add: confirmed_inv_def)
  have "redeemed_for st' e" if "e \<in> set (ms_invocations st')" for e
    using eff(3) [OF past that] inv redeemed_mono [OF _ sub] by blast
  moreover have "redeemed_for st' (mo_confirmableOperation o1, the (phase_identity p1))"
    if "(o1, p1) \<in> set (calls[i := (opts, ph')])" and "past_confirmation p1" for o1 p1
  proof -
    have "(o1, p1) = (opts, ph') \<or> (o1, p1) \<in> set calls"
      using that(1) set_update_subset_insert [of calls i "(opts, ph')"] by blast
    then show ?thesis
      using eff(2) past that(2) run_call.prems redeemed_mono [OF _ sub]
      by (auto simp: confirmed_inv_def)
  qed
  ultimately show ?case by (auto simp: confirmed_inv_def)
qed

lemma system_steps_confirmed:
  "(system_step ops sha256 num)\<^sup>*\<^sup>* s s' \<Longrightarrow> confirmed_inv s \<Longrightarrow> confirmed_inv s'"
  by (induction rule: rtranclp_induct) (auto intro: system_step_confirmed)

subsection \<open>The two stores as parameters of the call\<close>

definition file_ops ::
  "(string \<Rightarrow> string) \<Rightarrow> ('n \<Rightarrow> string option) \<Rightarrow> string \<Rightarrow> string \<Rightarrow> ('n file_store, 'n) store_ops" where
  "file_ops sha256 num dir pid =
     \<lparr>so_get = file_get sha256 num dir, so_reserve = file_reserve sha256 num dir pid,
      so_markExecuting = file_markExecuting sha256 num dir pid,
      so_markReconciliationRequired = file_markReconciliationRequired sha256 num dir pid,
      so_markCompleted = file_markCompleted sha256 num dir pid\<rparr>"

definition memory_ops :: "('n \<Rightarrow> string option) \<Rightarrow> ('n receipts, 'n) store_ops" where
  "memory_ops num =
     \<lparr>so_get = memory_get, so_reserve = memory_reserve num, so_markExecuting = memory_markExecuting num,
      so_markReconciliationRequired = memory_markReconciliationRequired num,
      so_markCompleted = memory_markCompleted num\<rparr>"

subsection \<open>A concrete call for the witnesses\<close>

definition demo_workspace :: ResolvedWorkspace where
  "demo_workspace = \<lparr>rw_id = ''w'', rw_permissionProfile = Full_repo_write,
     rw_confirmationMode = Standard,
     rw_sourceControl = Some \<lparr>sp_capabilities = [''git.index.write'', ''git.commit.write''],
       sp_accountOwners = [], sp_additionalRepositories = []\<rparr>\<rparr>"

definition demo_context :: OperationContext where
  "demo_context = \<lparr>oc_idempotencyKey = Some ''k1'', oc_invocationId = None, oc_correlationId = None\<rparr>"

definition demo_call :: "unit mutation_options" where
  "demo_call = gitStagePaths demo_workspace None (JObject True []) demo_context Inr"

definition demo_hash :: "string \<Rightarrow> string" where
  "demo_hash s = replicate 64 (CHR ''a'')"

definition demo_num :: "unit \<Rightarrow> string option" where
  "demo_num n = Some ''0''"

definition demo_state :: "'s \<Rightarrow> 's mutation_state" where
  "demo_state s = \<lparr>ms_store = s, ms_confirmations = [], ms_ttlMs = 1000, ms_redeemed = [],
     ms_invocations = []\<rparr>"

definition demo_env :: "unit step_env" where
  "demo_env = \<lparr>en_now1 = 0, en_now2 = 0, en_uuid = ''u'', en_iso = (\<lambda>n. []),
     en_backend = Inr (JString ''done'')\<rparr>"

definition demo_identity :: MutationReceiptIdentity where
  "demo_identity = \<lparr>mi_workspaceId = ''w'', mi_operation = ''git_stage_paths'',
     mi_targetResource = ''git:w:.'', mi_canonicalArgumentsDigest = demo_hash [],
     mi_idempotencyKey = ''k1''\<rparr>"

definition empty_files :: "unit file_store" where
  "empty_files = \<lparr>fs_files = [], fs_faults = [], fs_random = []\<rparr>"

lemma demo_prepare: "prepare_mutation demo_hash demo_num demo_call = Inr demo_identity"
  by code_simp

lemma demo_clean: "clean_call demo_call"
  by code_simp

lemma empty_files_ok: "file_ok demo_hash demo_num ''d'' empty_files"
  by (simp add: file_ok_def empty_files_def file_receipt_def file_at_def)

end
