(* ===== verification/Source_Control_Safety.thy ===== *)
theory Source_Control_Safety
  imports Source_Control_Mutation
begin

text \<open>
  What the source-control mutation path guarantees: the properties of
  \<open>executeSourceControlMutation\<close> on the file store that the agent uses and on the in-memory
  store, under every interleaving of calls and every pattern of file-system failures.
\<close>

subsection \<open>Running a schedule\<close>

text \<open>A schedule names, step by step, the call that runs next.\<close>

fun run_schedule ::
  "('s, 'n) store_ops \<Rightarrow> (string \<Rightarrow> string) \<Rightarrow> ('n \<Rightarrow> string option) \<Rightarrow> 'n step_env \<Rightarrow> nat list \<Rightarrow>
   ('n mutation_options \<times> 'n phase) list \<times> 's mutation_state \<Rightarrow>
   ('n mutation_options \<times> 'n phase) list \<times> 's mutation_state" where
  "run_schedule ops hash num env [] s = s"
| "run_schedule ops hash num env (i # is) (calls, st) =
     (if i < length calls then
        (case calls ! i of (opts, ph) \<Rightarrow>
           (case mutation_step ops hash num opts env ph st of (ph', st') \<Rightarrow>
              run_schedule ops hash num env is (calls[i := (opts, ph')], st')))
      else run_schedule ops hash num env is (calls, st))"

lemma run_schedule_steps:
  "(system_step ops hash num)\<^sup>*\<^sup>* s (run_schedule ops hash num env is s)"
proof (induction ops hash num env "is" s rule: run_schedule.induct)
  case (2 ops hash num env i "is" calls st)
  show ?case
  proof (cases "i < length calls")
    case True
    obtain opts ph where call: "calls ! i = (opts, ph)" by fastforce
    obtain ph' st' where step: "mutation_step ops hash num opts env ph st = (ph', st')" by fastforce
    have "system_step ops hash num (calls, st) (calls[i := (opts, ph')], st')"
      using True call step by (rule run_call)
    moreover have "(system_step ops hash num)\<^sup>*\<^sup>* (calls[i := (opts, ph')], st')
        (run_schedule ops hash num env is (calls[i := (opts, ph')], st'))"
      using "2.IH"(1) [OF True call [symmetric] step [symmetric]] .
    ultimately show ?thesis using True call step by (auto intro: converse_rtranclp_into_rtranclp)
  next
    case False
    then show ?thesis using "2.IH"(2) by simp
  qed
qed simp

subsection \<open>At most one backend call per idempotency key\<close>


text \<open>Two interleaved calls with one key, and a disk on which the third operation fails.\<close>

definition racing_calls :: "unit mutation_options list" where
  "racing_calls = [demo_call, demo_call]"

definition faulty_files :: "unit file_store" where
  "faulty_files = \<lparr>fs_files = [], fs_faults = [False, False, True], fs_random = []\<rparr>"

definition racing_run :: "(unit mutation_options \<times> unit phase) list \<times> unit file_store mutation_state" where
  "racing_run = run_schedule (file_ops demo_hash demo_num ''d'' ''7'') demo_hash demo_num demo_env
     [0, 1, 0, 1, 0, 1, 0, 1, 1, 1, 1, 0, 0, 0] (starting_calls racing_calls, demo_state faulty_files)"


text \<open>
  The same for the in-memory store.\<close>

theorem memory_backend_at_most_once:
  assumes "(system_step (memory_ops num) hash num2)\<^sup>*\<^sup>* (starting_calls os, st) (calls', st')"
    and "memory_ok num (ms_store st)" and "list_all clean_call os" and "ms_invocations st = []"
  shows "invocations k st' \<le> (if js_get (ms_store st) k = None then 1 else 0)"
  using memory.backend_at_most_once [OF assms(1) [unfolded memory_ops_def] assms(2,3), of k] assms(4)
  by (auto simp: invocations_def split: if_splits)

definition racing_memory_run :: "(unit mutation_options \<times> unit phase) list \<times> unit receipts mutation_state" where
  "racing_memory_run = run_schedule (memory_ops demo_num) demo_hash demo_num demo_env
     [0, 1, 0, 1, 1, 0, 1, 0, 1, 1, 0, 0] (starting_calls racing_calls, demo_state [])"

theorem memory_backend_at_most_once_witness:
  "invocations ''k1'' (snd racing_memory_run) \<le> 1"
proof -
  obtain calls' st' where run: "racing_memory_run = (calls', st')" by (rule prod.exhaust)
  have steps: "(system_step (memory_ops demo_num) demo_hash demo_num)\<^sup>*\<^sup>*
     (starting_calls racing_calls, demo_state []) (calls', st')"
    using run_schedule_steps run unfolding racing_memory_run_def by metis
  have "memory_ok demo_num (ms_store (demo_state ([] :: unit receipts)))"
    by (simp add: memory_ok_def demo_state_def)
  moreover have "list_all clean_call racing_calls" "ms_invocations (demo_state ([] :: unit receipts)) = []"
    using demo_clean by (simp_all add: racing_calls_def demo_state_def)
  ultimately have "invocations ''k1'' st' \<le>
      (if js_get (ms_store (demo_state ([] :: unit receipts))) ''k1'' = None then 1 else 0)"
    by (rule memory_backend_at_most_once [OF steps])
  then show ?thesis by (simp add: run split: if_splits)
qed

subsection \<open>Confirmed before executed\<close>


text \<open>The comparison of confirmation fields evaluates as equality.\<close>

declare safeEqual_iff [code]

definition confirmed_call :: "unit mutation_options" where
  "confirmed_call = demo_call\<lparr>mo_confirmableOperation := Some ''git_push_branch'',
     mo_input := JObject True [(''confirmationId'', JString ''c1'')]\<rparr>"

definition confirmed_start :: "unit receipts mutation_state" where
  "confirmed_start = (demo_state [])\<lparr>ms_confirmations :=
     [(''c1'', \<lparr>tpc_binding = mutation_binding ''git_push_branch'' demo_identity, tpc_expiresAtMs = 5\<rparr>)]\<rparr>"

definition confirmed_run :: "(unit mutation_options \<times> unit phase) list \<times> unit receipts mutation_state" where
  "confirmed_run = run_schedule (memory_ops demo_num) demo_hash demo_num demo_env
     [0, 0, 0, 0, 0, 0] (starting_calls [confirmed_call], confirmed_start)"


subsection \<open>Replays\<close>


definition executed_files :: "unit file_store" where
  "executed_files = ms_store (snd (((\<lambda>(ph, s). mutation_step (file_ops demo_hash demo_num ''d'' ''7'')
     demo_hash demo_num demo_call demo_env ph s) ^^ 5) (Starting, demo_state empty_files)))"

lemma executed_files_eq: "executed_files =
    \<lparr>fs_files = [(''d/'' @ demo_hash [] @ ''.json'',
        Some (receipt_json \<lparr>mr_identity = demo_identity, mr_state = Executing, mr_result = None\<rparr>))],
     fs_faults = [], fs_random = []\<rparr>"
  by code_simp

definition completed_files :: "unit file_store" where
  "completed_files = snd (file_markCompleted demo_hash demo_num ''d'' ''7'' demo_identity (JString ''done'') executed_files)"

definition completed_receipt :: "unit MutationReceipt" where
  "completed_receipt = \<lparr>mr_identity = demo_identity, mr_state = Completed, mr_result = Some (JString ''done'')\<rparr>"


subsection \<open>Calls that are refused, and calls that succeed\<close>

text \<open>
  C24. The protected branch. A commit or a merge while the current branch is main, in any
  spelling, settles with an error before the store or the backend is reached.\<close>

theorem protected_branch_never_mutated:
  assumes "js_lower branch = ''main''"
    and "opts = gitCommit (Inr branch) ws root input ctx schema \<or>
         opts = gitMergeBranch (Inr branch) ws root input ctx schema"
  shows "\<exists>e. executeSourceControlMutation ops hash num opts env st = (Settled (Inl e), st)"
proof -
  have "mo_beforeReceipt opts = Inl (AppError GIT_PROTECTED_BRANCH
      ''The protected main branch cannot be mutated by this typed Git operation.'')"
    using assms by (auto simp: gitCommit_def gitMergeBranch_def assertTypedGitBranchMutationAllowed_def
        isProtectedMain_def Let_def)
  then obtain e where prep: "prepare_mutation hash num opts = Inl e"
    by (cases "if mo_canonicalRepositoryAlreadyAuthorized opts then Inr ()
        else assertSourceControlCapability (mo_workspace opts) (mo_capability opts)
               (mo_repository opts) None (mo_accountOwner opts) True")
      (auto simp: prepare_mutation_def)
  have "((\<lambda>(ph, s). mutation_step ops hash num opts env ph s) ^^ Suc n) (Starting, st) = (Settled (Inl e), st)"
    for n by (induction n) (simp_all add: prep)
  from this [of 6] show ?thesis unfolding executeSourceControlMutation_def by auto
qed

theorem protected_branch_never_mutated_witness:
  "\<exists>e. executeSourceControlMutation (memory_ops demo_num) demo_hash demo_num
     (gitCommit (Inr ''MAIN'') demo_workspace None (JObject True []) demo_context Inr) demo_env (demo_state []) =
     (Settled (Inl e), demo_state [])"
proof -
  have "js_lower ''MAIN'' = ''main''" by code_simp
  then show ?thesis by (rule protected_branch_never_mutated) (rule disjI1, rule refl)
qed


subsection \<open>Success on a healthy disk\<close>

definition healthy :: "'n file_store \<Rightarrow> bool" where
  "healthy s \<longleftrightarrow> fs_faults s = [] \<and> list_all suffix_ok (fs_random s)"

lemma read_healthy:
  assumes "healthy s"
  shows "file_at sha256 dir s k = None \<Longrightarrow> readReceipt sha256 num dir k s = (Inr None, s)"
    and "file_at sha256 dir s k = Some (Some (receipt_json r)) \<Longrightarrow> receipt_ok num r \<Longrightarrow>
      readReceipt sha256 num dir k s = (Inr (Some r), s)"
  using assms
  by (simp_all add: readReceipt_def readText_def next_fault_def healthy_def file_at_def parse_receipt_json)

lemma write_healthy:
  assumes "healthy s" and "receipt_ok num r" and "mr_identity r = i"
  shows "\<exists>s'. writeReceipt sha256 num dir pid r s = (Inr (), s') \<and> healthy s' \<and>
     file_at sha256 dir s' (mi_idempotencyKey i) = Some (Some (receipt_json r))"
proof -
  obtain res s' where w: "writeReceipt sha256 num dir pid r s = (res, s')" by fastforce
  have sfx: "list_all suffix_ok (fs_random s)" and none: "fs_faults s = []"
    using assms(1) by (simp_all add: healthy_def)
  have "fst (writeReceipt sha256 num dir pid r s) = Inr () \<and>
      fs_faults (snd (writeReceipt sha256 num dir pid r s)) = []"
    using none
    by (cases "fs_random s")
      (simp_all add: writeReceipt_def ensureDirectory_def draw_suffix_def writeText_def rename_file_def
        next_fault_def parse_receipt_json [OF assms(2)] Let_def)
  then show ?thesis
    using w writeReceipt_effect [OF w sfx assms(2)] assms(3) by (simp add: healthy_def)
qed

lemma mark_healthy:
  assumes "healthy s" and "file_at sha256 dir s (mi_idempotencyKey i) = Some (Some (receipt_json e))"
    and "receipt_ok num e" and "f (Some e) i = Inr r" and "receipt_ok num r" and "mr_identity r = i"
  shows "\<exists>s'. file_mark sha256 num dir pid f i s = (Inr r, s') \<and> healthy s' \<and>
     file_at sha256 dir s' (mi_idempotencyKey i) = Some (Some (receipt_json r))"
  using write_healthy [OF assms(1,5,6), of sha256 dir pid] read_healthy(2) [OF assms(1,2,3)] assms(4)
  by (auto simp: file_mark_def)

text \<open>
  Liveness on a healthy disk. An authorised mutation with a well-formed identity, a fresh
  key and no confirmation to ask for invokes its backend once, returns the backend's validated
  result and leaves a completed receipt holding that result.\<close>

theorem fresh_mutation_succeeds:
  assumes "prepare_mutation hash num opts = Inr i" and "identity_ok i"
    and "file_at sha256 dir (ms_store st) (mi_idempotencyKey i) = None" and "healthy (ms_store st)"
    and "mo_confirmableOperation opts = None"
    and "en_backend env = Inr v" and "mo_resultSchema opts v = Inr w" and "public_json num w"
  shows "\<exists>st'. executeSourceControlMutation (file_ops sha256 num dir pid) hash num opts env st =
       (Settled (Inr w), st') \<and>
     file_receipt sha256 num dir (ms_store st') (mi_idempotencyKey i) =
       Some \<lparr>mr_identity = i, mr_state = Completed, mr_result = Some w\<rparr> \<and>
     ms_invocations st' = ms_invocations st @ [(None, i)]"
proof -
  let ?r = "\<lambda>state result. \<lparr>mr_identity = i, mr_state = state, mr_result = result\<rparr>"
  have parse: "mutationReceiptIdentitySchema_parse i = Inr i" using assms(2) by (simp add: identity_ok_def)
  have ok: "receipt_ok num (?r Reserved None)" "receipt_ok num (?r Executing None)"
    "receipt_ok num (?r Completed (Some w))"
    using assms(2,8) by (simp_all add: receipt_ok_def)
  obtain s1 where s1: "writeReceipt sha256 num dir pid (?r Reserved None) (ms_store st) = (Inr (), s1)"
    "healthy s1" "file_at sha256 dir s1 (mi_idempotencyKey i) = Some (Some (receipt_json (?r Reserved None)))"
    using write_healthy [OF assms(4) ok(1), of i sha256 dir pid] by auto
  obtain s2 where s2: "file_markExecuting sha256 num dir pid i s1 = (Inr (?r Executing None), s2)"
    "healthy s2" "file_at sha256 dir s2 (mi_idempotencyKey i) = Some (Some (receipt_json (?r Executing None)))"
    using mark_healthy [OF s1(2,3) ok(1), of "markMutationReceiptExecuting num" "?r Executing None"] ok(2) parse
    by (auto simp: markMutationReceiptExecuting_def requireExistingReceipt_def parse_receipt_json ok
        assertSameIdentity_def file_markExecuting_def)
  obtain s3 where s3: "file_markCompleted sha256 num dir pid i w s2 = (Inr (?r Completed (Some w)), s3)"
    "file_at sha256 dir s3 (mi_idempotencyKey i) = Some (Some (receipt_json (?r Completed (Some w))))"
    using mark_healthy [OF s2(2,3) ok(2), of "\<lambda>e j. markMutationReceiptCompleted num e j w" "?r Completed (Some w)"]
      ok(3) parse parsePublic_id [OF assms(8)]
    by (auto simp: markMutationReceiptCompleted_def requireExistingReceipt_def parse_receipt_json ok
        assertSameIdentity_def parseMutationReceiptPublicResult_def file_markCompleted_def)
  have reserve: "file_reserve sha256 num dir pid i (ms_store st) = (Inr (Execute (?r Reserved None)), s1)"
    using read_healthy(1) [OF assms(4,3)] s1(1) parse
    by (simp add: file_reserve_def reserveMutationReceipt_def)
  let ?st = "\<lambda>s. st\<lparr>ms_store := s, ms_invocations := ms_invocations st @ [(None, i)]\<rparr>"
  have "executeSourceControlMutation (file_ops sha256 num dir pid) hash num opts env st =
      (Settled (Inr w), ?st s3)"
    using assms(1,5,6,7) read_healthy(1) [OF assms(4,3)] reserve s2(1) s3(1)
    by (simp add: executeSourceControlMutation_def eval_nat_numeral file_ops_def file_get_def
        confirm_mutation_def Let_def)
  then show ?thesis
    using file_receipt_written [OF s3(2) ok(3)] by simp
qed

theorem fresh_mutation_succeeds_witness:
  "\<exists>st'. executeSourceControlMutation (file_ops demo_hash demo_num ''d'' ''7'') demo_hash demo_num
       demo_call demo_env (demo_state empty_files) = (Settled (Inr (JString ''done'')), st') \<and>
     ms_invocations st' = [(None, demo_identity)]"
proof -
  have "identity_ok demo_identity" by code_simp
  moreover have "file_at demo_hash ''d'' (ms_store (demo_state empty_files)) (mi_idempotencyKey demo_identity) = None"
    "healthy (ms_store (demo_state empty_files))"
    by (simp_all add: file_at_def demo_state_def empty_files_def healthy_def)
  moreover have "mo_confirmableOperation demo_call = None" "en_backend demo_env = Inr (JString ''done'')"
    "mo_resultSchema demo_call (JString ''done'') = Inr (JString ''done'')"
    by (simp_all add: demo_call_def gitStagePaths_def local_git_options_def demo_env_def)
  ultimately show ?thesis
    using fresh_mutation_succeeds [OF demo_prepare, where st = "demo_state empty_files"]
    by (force simp: demo_state_def)
qed

subsection \<open>Keys with surrounding white space\<close>

text \<open>
  The file store reads the receipt of the key as given but writes it under the trimmed key
  of the parsed identity. With surrounding white space in the key, a second reservation is told
  to execute again, and it resets the receipt of the trimmed key, here a completed one.\<close>

theorem untrimmed_key_reserved_again:
  "let i = demo_identity\<lparr>mi_idempotencyKey := '' k1''\<rparr>;
       hash = (\<lambda>s. if s = ''k1'' then demo_hash [] else replicate 64 (CHR ''b''));
       res1 = file_reserve hash demo_num ''d'' ''7'' i completed_files;
       res2 = file_reserve hash demo_num ''d'' ''7'' i (snd res1);
       fresh = \<lparr>mr_identity = demo_identity, mr_state = Reserved, mr_result = None\<rparr>
   in file_receipt hash demo_num ''d'' completed_files ''k1'' = Some completed_receipt \<and>
      fst res1 = Inr (Execute fresh) \<and> fst res2 = Inr (Execute fresh) \<and>
      file_receipt hash demo_num ''d'' (snd res2) ''k1'' = Some fresh"
  by code_simp

end
