(* ===== verification/Relay_Requests.thy ===== *)
theory Relay_Requests
  imports Prelude
begin

text \<open>
  The gateway's side of the relay to a workspace agent:
  \<open>AgentRelayRequestManager\<close> of \<open>services/mcp-gateway/src/relay/request-manager.ts\<close>, with the
  deadlines of \<open>packages/mcp-core/src/timeout-policy.ts\<close> and the retry classification of
  \<open>packages/mcp-core/src/relay-retry-policy.ts\<close>.

  A pending request is an entry of the map; the promise a call returns is named by its request
  id. \<open>rm_settled\<close> lists every call of a promise's \<open>resolve\<close> or \<open>reject\<close>, \<open>rm_sent\<close> every
  message handed to the socket, and \<open>rm_started\<close> the promises created; the code never reads
  them. Timers, abort events, socket callbacks and responses are events of their own, so they
  may come in any order and at any time. Schemas, JSON text and the diagnostic sanitiser are
  parameters; timeouts are whole milliseconds.
\<close>

subsection \<open>Deadlines\<close>

definition MAX_SYNCHRONOUS_OPERATION_TIMEOUT_MS :: int where
  "MAX_SYNCHRONOUS_OPERATION_TIMEOUT_MS = 300000"

definition MAX_BACKGROUND_OPERATION_TIMEOUT_MS :: int where
  "MAX_BACKGROUND_OPERATION_TIMEOUT_MS = 86400000"

definition COMMAND_TERMINATION_GRACE_MS :: int where
  "COMMAND_TERMINATION_GRACE_MS = 30000"

definition BACKGROUND_WAIT_COMPLETION_GRACE_MS :: int where
  "BACKGROUND_WAIT_COMPLETION_GRACE_MS = 1000"

record OperationDeadline =
  od_requestedTimeoutMs :: int
  od_effectiveTimeoutMs :: int
  od_deadlineAt :: instant

definition operationDeadlineSchema_parse :: "OperationDeadline \<Rightarrow> OperationDeadline result" where
  "operationDeadlineSchema_parse d =
     (if 0 < od_requestedTimeoutMs d \<and> od_requestedTimeoutMs d \<le> MAX_BACKGROUND_OPERATION_TIMEOUT_MS \<and>
         0 \<le> od_effectiveTimeoutMs d
      then Inr d else Inl SchemaError)"

definition createOperationDeadline ::
  "int \<Rightarrow> OperationDeadline option \<Rightarrow> instant \<Rightarrow> OperationDeadline result" where
  "createOperationDeadline requestedTimeoutMs upstream now =
     (let requested = min (max 1 requestedTimeoutMs) MAX_BACKGROUND_OPERATION_TIMEOUT_MS;
          requestedDeadline = now + requested;
          deadline = (case upstream of
                        None \<Rightarrow> requestedDeadline
                      | Some u \<Rightarrow> min requestedDeadline (od_deadlineAt u))
      in operationDeadlineSchema_parse
           \<lparr>od_requestedTimeoutMs = (case upstream of None \<Rightarrow> requested | Some u \<Rightarrow> od_requestedTimeoutMs u),
            od_effectiveTimeoutMs = max 0 (deadline - now), od_deadlineAt = deadline\<rparr>)"

definition remainingOperationTimeMs :: "OperationDeadline \<Rightarrow> instant \<Rightarrow> int" where
  "remainingOperationTimeMs deadline now = max 0 (od_deadlineAt deadline - now)"

datatype OperationTerminalReason =
    Timeout | Cancelled | Client_disconnected | Upstream_timeout | Process_failed

record OperationLifecycle =
  ol_deadline :: OperationDeadline
  ol_elapsedMs :: int
  ol_terminatedBy :: string
  ol_reason :: OperationTerminalReason
  ol_diagnostic :: string

definition createOperationLifecycle ::
  "(string \<Rightarrow> string) \<Rightarrow> OperationDeadline \<Rightarrow> instant \<Rightarrow> string \<Rightarrow> OperationTerminalReason \<Rightarrow> string \<Rightarrow>
   instant \<Rightarrow> OperationLifecycle" where
  "createOperationLifecycle sanitize deadline startedAt layer reason diagnostic now =
     \<lparr>ol_deadline = deadline, ol_elapsedMs = max 0 (now - startedAt), ol_terminatedBy = layer,
      ol_reason = reason, ol_diagnostic = sanitize diagnostic\<rparr>"

subsection \<open>Retry classification\<close>

definition RETRYABLE_RELAY_OPERATIONS :: "string list" where
  "RETRYABLE_RELAY_OPERATIONS =
     [''listWorkspaces'', ''listWorkspaceRoots'', ''listFiles'', ''readFile'', ''readBinaryFile'',
      ''runValidation'', ''searchFiles'', ''inspectGit'', ''getWorkspaceContext'',
      ''getBackgroundTask'', ''waitBackgroundTask'', ''listBackgroundTasks'',
      ''readBackgroundTaskLogs'', ''githubGetRepository'', ''githubGetPullRequest'']"

definition isRetryableRelayOperation :: "string \<Rightarrow> bool" where
  "isRetryableRelayOperation operation \<longleftrightarrow> operation \<in> set RETRYABLE_RELAY_OPERATIONS"

record ErrorDetails =
  ed_operation :: string
  ed_reason :: string
  ed_retryable :: bool
  ed_retryAttempted :: bool
  ed_outcome :: string
  ed_connectionGeneration :: nat

definition createAgentUnavailableDetails ::
  "string \<Rightarrow> string \<Rightarrow> string \<Rightarrow> nat \<Rightarrow> bool \<Rightarrow> ErrorDetails" where
  "createAgentUnavailableDetails operation reason outcome connectionGeneration retryAttempted =
     \<lparr>ed_operation = operation, ed_reason = reason,
      ed_retryable = isRetryableRelayOperation operation, ed_retryAttempted = retryAttempted,
      ed_outcome = outcome, ed_connectionGeneration = connectionGeneration\<rparr>"

subsection \<open>Requests\<close>

text \<open>An \<open>AppError\<close> with its attachments.\<close>

record relay_error =
  re_code :: error_code
  re_message :: string
  re_lifecycle :: "OperationLifecycle option"
  re_details :: "ErrorDetails option"

datatype 'w outcome = Resolve 'w | Reject relay_error

datatype relay_message = RequestMessage string | CancelMessage string string

text \<open>What an abort signal carries: an application error of another layer, or something else.\<close>

datatype abort_reason = AppReason relay_error | OtherReason

record PendingRequest =
  pr_operation :: string
  pr_generation :: nat
  pr_startedAt :: instant
  pr_deadline :: OperationDeadline
  pr_watchdogMs :: int
  pr_signal :: bool

record 'w request_manager =
  rm_pending :: "(string, PendingRequest) jsmap"
  rm_started :: "string list"
  rm_settled :: "(string \<times> 'w outcome) list"
  rm_sent :: "relay_message list"

record ('i, 'v, 'w) relay_env =
  rv_requestTimeoutMs :: int
  rv_maxConcurrency :: nat
  rv_maxPayloadBytes :: nat
  rv_generation :: nat
  rv_sanitize :: "string \<Rightarrow> string"
  rv_requestSchema :: "string \<Rightarrow> OperationDeadline \<Rightarrow> string \<Rightarrow> 'i \<Rightarrow> bool"
  rv_payloadBytes :: "string \<Rightarrow> OperationDeadline \<Rightarrow> string \<Rightarrow> 'i \<Rightarrow> nat"
  rv_resultSchema :: "string \<Rightarrow> 'v \<Rightarrow> 'w option"

definition operationCompletionGraceMs :: "string \<Rightarrow> int" where
  "operationCompletionGraceMs operation =
     (if operation = ''runCommand'' then COMMAND_TERMINATION_GRACE_MS
      else if operation = ''waitBackgroundTask'' then BACKGROUND_WAIT_COMPLETION_GRACE_MS
      else 0)"

definition relayInterruption ::
  "(string \<Rightarrow> string) \<Rightarrow> abort_reason \<Rightarrow> OperationDeadline \<Rightarrow> instant \<Rightarrow> instant \<Rightarrow> string \<times> relay_error" where
  "relayInterruption sanitize signal deadline startedAt now =
     (case signal of
        AppReason error \<Rightarrow>
          (case map_option ol_reason (re_lifecycle error) of
             Some Timeout \<Rightarrow> (''upstream_timeout'', error)
           | Some Upstream_timeout \<Rightarrow> (''upstream_timeout'', error)
           | Some Cancelled \<Rightarrow> (''cancelled'', error)
           | Some Client_disconnected \<Rightarrow> (''client_disconnected'', error)
           | _ \<Rightarrow> (if re_code error = AGENT_TIMEOUT then ''upstream_timeout'' else ''cancelled'', error))
      | OtherReason \<Rightarrow>
          (''client_disconnected'',
           \<lparr>re_code = OPERATION_CANCELLED,
            re_message = ''The MCP or HTTP client disconnected before the operation completed.'',
            re_lifecycle = Some (createOperationLifecycle sanitize deadline startedAt ''mcp_server''
              Client_disconnected
              ''The upstream request ended before the relay operation completed.'' now),
            re_details = None\<rparr>))"

definition takePending ::
  "string \<Rightarrow> 'w request_manager \<Rightarrow> PendingRequest option \<times> 'w request_manager" where
  "takePending requestId s =
     (case js_get (rm_pending s) requestId of
        None \<Rightarrow> (None, s)
      | Some p \<Rightarrow> (Some p, s\<lparr>rm_pending := js_delete requestId (rm_pending s)\<rparr>))"

definition settle :: "string \<Rightarrow> 'w outcome \<Rightarrow> 'w request_manager \<Rightarrow> 'w request_manager" where
  "settle requestId out s = s\<lparr>rm_settled := rm_settled s @ [(requestId, out)]\<rparr>"

definition send_message :: "relay_message \<Rightarrow> 'w request_manager \<Rightarrow> 'w request_manager" where
  "send_message m s = s\<lparr>rm_sent := rm_sent s @ [m]\<rparr>"

definition cancelPending ::
  "string \<Rightarrow> string \<Rightarrow> relay_error \<Rightarrow> 'w request_manager \<Rightarrow> 'w request_manager" where
  "cancelPending requestId reason error s =
     (case takePending requestId s of
        (None, s1) \<Rightarrow> s1
      | (Some p, s1) \<Rightarrow> settle requestId (Reject error) (send_message (CancelMessage requestId reason) s1))"

text \<open>
  \<open>call\<close>: the checks that throw, then the promise. \<open>signal\<close> is absent, present, or present and
  already aborted with a reason.
\<close>

definition call ::
  "('i, 'v, 'w) relay_env \<Rightarrow> instant \<Rightarrow> instant \<Rightarrow> instant \<Rightarrow> string \<Rightarrow> string \<Rightarrow> 'i \<Rightarrow> OperationDeadline option \<Rightarrow>
   abort_reason option option \<Rightarrow> 'w request_manager \<Rightarrow> string result \<times> 'w request_manager" where
  "call env now1 startedAt now3 requestId operation input contextDeadline signal s =
     (if length (rm_pending s) \<ge> rv_maxConcurrency env then
        (Inl (AppError AGENT_BUSY ''The local agent reached its concurrency limit.''), s)
      else
        (case (case contextDeadline of
                 Some d \<Rightarrow> createOperationDeadline MAX_SYNCHRONOUS_OPERATION_TIMEOUT_MS (Some d) now1
               | None \<Rightarrow> createOperationDeadline (rv_requestTimeoutMs env) None now1) of
           Inl e \<Rightarrow> (Inl e, s)
         | Inr deadline \<Rightarrow>
             if \<not> rv_requestSchema env requestId deadline operation input then
               (Inl (AppError RELAY_PROTOCOL_ERROR
                  ''Relay request does not match the strict operation schema.''), s)
             else if rv_payloadBytes env requestId deadline operation input > rv_maxPayloadBytes env then
               (Inl (AppError RELAY_PROTOCOL_ERROR ''Relay request exceeds the payload limit.''), s)
             else
               (let s0 = s\<lparr>rm_started := rm_started s @ [requestId]\<rparr>;
                    remainingMs = remainingOperationTimeMs deadline startedAt in
                if remainingMs \<le> 0 then
                  (Inr requestId, settle requestId (Reject
                     \<lparr>re_code = AGENT_TIMEOUT, re_message = ''The relay request deadline has expired.'',
                      re_lifecycle = Some (createOperationLifecycle (rv_sanitize env) deadline startedAt
                        ''gateway'' Upstream_timeout
                        ''Gateway received an already expired operation deadline.'' now3),
                      re_details = None\<rparr>) s0)
                else
                  (let s1 = s0\<lparr>rm_pending := js_set requestId
                         \<lparr>pr_operation = operation, pr_generation = rv_generation env,
                          pr_startedAt = startedAt, pr_deadline = deadline,
                          pr_watchdogMs = remainingMs + operationCompletionGraceMs operation,
                          pr_signal = (signal \<noteq> None)\<rparr> (rm_pending s0)\<rparr>
                   in case signal of
                        Some (Some reason) \<Rightarrow>
                          (let interruption = relayInterruption (rv_sanitize env) reason deadline startedAt now3
                           in (Inr requestId,
                               cancelPending requestId (fst interruption) (snd interruption) s1))
                      | _ \<Rightarrow> (Inr requestId, send_message (RequestMessage requestId) s1)))))"

text \<open>The watchdog timer of a request fires.\<close>

definition on_timeout ::
  "('i, 'v, 'w) relay_env \<Rightarrow> instant \<Rightarrow> string \<Rightarrow> 'w request_manager \<Rightarrow> 'w request_manager" where
  "on_timeout env now requestId s =
     (case js_get (rm_pending s) requestId of
        None \<Rightarrow> s
      | Some p \<Rightarrow>
          cancelPending requestId ''upstream_timeout''
            \<lparr>re_code = AGENT_TIMEOUT, re_message = ''The local agent did not respond in time.'',
             re_lifecycle = Some (createOperationLifecycle (rv_sanitize env) (pr_deadline p)
               (pr_startedAt p) ''gateway'' Upstream_timeout
               ''Gateway relay deadline expired while awaiting the Workspace Agent.'' now),
             re_details = None\<rparr> s)"

text \<open>The abort signal of a request fires; its listener is removed with the request.\<close>

definition on_abort ::
  "('i, 'v, 'w) relay_env \<Rightarrow> instant \<Rightarrow> abort_reason \<Rightarrow> string \<Rightarrow> 'w request_manager \<Rightarrow> 'w request_manager" where
  "on_abort env now reason requestId s =
     (case js_get (rm_pending s) requestId of
        None \<Rightarrow> s
      | Some p \<Rightarrow>
          if pr_signal p then
            (case relayInterruption (rv_sanitize env) reason (pr_deadline p) (pr_startedAt p) now of
               (r, error) \<Rightarrow> cancelPending requestId r error s)
          else s)"

text \<open>The socket reports that a request could not be sent.\<close>

definition on_send_error ::
  "('i, 'v, 'w) relay_env \<Rightarrow> instant \<Rightarrow> string \<Rightarrow> 'w request_manager \<Rightarrow> 'w request_manager" where
  "on_send_error env now requestId s =
     (case takePending requestId s of
        (None, s1) \<Rightarrow> s1
      | (Some p, s1) \<Rightarrow>
          settle requestId (Reject
            \<lparr>re_code = AGENT_UNAVAILABLE, re_message = ''Relay request could not be sent.'',
             re_lifecycle = Some (createOperationLifecycle (rv_sanitize env) (pr_deadline p)
               (pr_startedAt p) ''websocket'' Client_disconnected
               ''The relay WebSocket failed before the request was delivered.'' now),
             re_details = Some (createAgentUnavailableDetails (pr_operation p) ''relay_send_failed''
               ''unknown'' (pr_generation p) False)\<rparr>) s1)"

datatype 'v relay_response = OkResponse string 'v | ErrorResponse string relay_error

definition complete ::
  "('i, 'v, 'w) relay_env \<Rightarrow> 'v relay_response \<Rightarrow> 'w request_manager \<Rightarrow> 'w request_manager" where
  "complete env response s =
     (case response of
        ErrorResponse requestId error \<Rightarrow>
          (case takePending requestId s of
             (None, s1) \<Rightarrow> s1
           | (Some p, s1) \<Rightarrow> settle requestId (Reject error) s1)
      | OkResponse requestId v \<Rightarrow>
          (case takePending requestId s of
             (None, s1) \<Rightarrow> s1
           | (Some p, s1) \<Rightarrow>
               (case rv_resultSchema env (pr_operation p) v of
                  None \<Rightarrow> settle requestId (Reject
                    \<lparr>re_code = RELAY_PROTOCOL_ERROR, re_message = ''The agent returned an invalid result.'',
                     re_lifecycle = None, re_details = None\<rparr>) s1
                | Some w \<Rightarrow> settle requestId (Resolve w) s1)))"

definition unavailable :: "string \<Rightarrow> string \<Rightarrow> PendingRequest \<Rightarrow> relay_error" where
  "unavailable message reason p =
     \<lparr>re_code = AGENT_UNAVAILABLE, re_message = message, re_lifecycle = None,
      re_details = Some (createAgentUnavailableDetails (pr_operation p) reason ''unknown''
        (pr_generation p) False)\<rparr>"

text \<open>The body shared by the two loops: take the request and reject it.\<close>

definition reject_one :: "string \<Rightarrow> string \<Rightarrow> string \<Rightarrow> 'w request_manager \<Rightarrow> 'w request_manager" where
  "reject_one message reason requestId s =
     (case takePending requestId s of
        (None, s1) \<Rightarrow> s1
      | (Some p, s1) \<Rightarrow> settle requestId (Reject (unavailable message reason p)) s1)"

definition rejectAll :: "string \<Rightarrow> string \<Rightarrow> 'w request_manager \<Rightarrow> 'w request_manager" where
  "rejectAll message reason s =
     fold (reject_one message reason) (map fst (rm_pending s)) s"

definition rejectGeneration :: "nat \<Rightarrow> string \<Rightarrow> string \<Rightarrow> 'w request_manager \<Rightarrow> 'w request_manager" where
  "rejectGeneration generation message reason s =
     fold (reject_one message reason)
       (map fst (filter (\<lambda>(requestId, candidate). pr_generation candidate = generation) (rm_pending s))) s"

subsection \<open>Events\<close>

text \<open>
  The events of a manager, in any order: a call with a fresh random id, a timer, an abort, a
  failed send, a response (expected, late or unknown), the loss of one connection generation and
  the shutdown. The options of the manager are fixed; the connection generation may change
  from call to call.
\<close>

inductive relay_step ::
  "('i, 'v, 'w) relay_env \<Rightarrow> 'w request_manager \<Rightarrow> 'w request_manager \<Rightarrow> bool"
  for env :: "('i, 'v, 'w) relay_env" where
  call_event: "requestId \<notin> set (rm_started s) \<Longrightarrow>
    relay_step env s
      (snd (call (env\<lparr>rv_generation := g\<rparr>) now1 now2 now3 requestId operation input deadline signal s))"
| timeout_event: "relay_step env s (on_timeout env now requestId s)"
| abort_event: "relay_step env s (on_abort env now reason requestId s)"
| send_error_event: "relay_step env s (on_send_error env now requestId s)"
| response_event: "relay_step env s (complete env response s)"
| shutdown_event: "relay_step env s (rejectAll message why s)"
| generation_event: "relay_step env s (rejectGeneration generation message why s)"

definition new_manager :: "'w request_manager" where
  "new_manager = \<lparr>rm_pending = [], rm_started = [], rm_settled = [], rm_sent = []\<rparr>"

text \<open>Every promise created is either pending or settled, never both, and settled once.\<close>

definition relay_inv :: "nat \<Rightarrow> 'w request_manager \<Rightarrow> bool" where
  "relay_inv limit s \<longleftrightarrow>
     js_wf (rm_pending s) \<and> length (rm_pending s) \<le> limit \<and>
     distinct (rm_started s) \<and> distinct (map fst (rm_settled s)) \<and>
     set (rm_started s) = fst ` set (rm_pending s) \<union> fst ` set (rm_settled s) \<and>
     fst ` set (rm_pending s) \<inter> fst ` set (rm_settled s) = {}"

lemma set_fst_delete: "fst ` set (js_delete k m) = fst ` set m - {k}"
  by (auto simp: AList.delete_eq image_iff)

lemma set_fst_set: "fst ` set (js_set k v m) = insert k (fst ` set m)"
  using dom_update [of k v m] by (simp add: dom_map_of_conv_image_fst [symmetric] update_conv')

lemma js_get_mem: "js_get m k = Some v \<Longrightarrow> k \<in> fst ` set m"
  by (force dest: map_of_SomeD)

text \<open>Taking a pending request and settling its promise.\<close>

lemma settle_taken_inv:
  assumes "relay_inv limit s" and "takePending k s = (Some p, s1)"
  shows "relay_inv limit (settle k out s1)"
proof -
  have get: "js_get (rm_pending s) k = Some p"
    and s1: "s1 = s\<lparr>rm_pending := js_delete k (rm_pending s)\<rparr>"
    using assms(2) by (auto simp: takePending_def split: option.splits)
  have k: "k \<in> fst ` set (rm_pending s)" using js_get_mem [OF get] .
  show ?thesis
    unfolding relay_inv_def s1 settle_def
  proof (intro conjI)
    show "length (rm_pending (s\<lparr>rm_pending := js_delete k (rm_pending s),
        rm_settled := rm_settled (s\<lparr>rm_pending := js_delete k (rm_pending s)\<rparr>) @ [(k, out)]\<rparr>)) \<le> limit"
      using assms(1) js_delete_length_le [of k "rm_pending s"] by (simp add: relay_inv_def)
  qed (use assms(1) k in \<open>auto simp: relay_inv_def js_wf_delete set_fst_delete\<close>)
qed

lemma takePending_None: "takePending k s = (None, s1) \<Longrightarrow> s1 = s"
  by (auto simp: takePending_def split: option.splits)

lemma send_inv [simp]: "relay_inv limit (send_message m s) = relay_inv limit s"
  by (simp add: relay_inv_def send_message_def)

lemma settle_send: "settle k out (send_message m s) = send_message m (settle k out s)"
  by (simp add: settle_def send_message_def)

lemma cancelPending_inv: "relay_inv limit s \<Longrightarrow> relay_inv limit (cancelPending k r e s)"
  by (auto simp: cancelPending_def settle_send settle_taken_inv dest: takePending_None
      split: prod.splits option.splits)

lemma reject_one_inv: "relay_inv limit s \<Longrightarrow> relay_inv limit (reject_one m r k s)"
  by (auto simp: reject_one_def settle_taken_inv dest: takePending_None split: prod.splits option.splits)

lemma fold_reject_inv: "relay_inv limit s \<Longrightarrow> relay_inv limit (fold (reject_one m r) ks s)"
  by (induction ks arbitrary: s) (auto intro: reject_one_inv)

lemma call_inv:
  assumes "relay_inv limit s" and "k \<notin> set (rm_started s)" and "rv_maxConcurrency env = limit"
  shows "relay_inv limit (snd (call env n1 n2 n3 k opn inp d sig s))"
proof (cases "length (rm_pending s) \<ge> rv_maxConcurrency env")
  case True
  then show ?thesis using assms(1) by (simp add: call_def)
next
  case room: False
  have fresh: "k \<notin> fst ` set (rm_pending s)" "k \<notin> fst ` set (rm_settled s)"
    using assms(1,2) by (auto simp: relay_inv_def)
  have noget: "js_get (rm_pending s) k = None" using fresh(1) by (simp add: map_of_eq_None_iff)
  have started: "relay_inv limit (settle k out (s\<lparr>rm_started := rm_started s @ [k]\<rparr>))" for out
    using assms(1,2) fresh by (auto simp: relay_inv_def settle_def)
  have added: "relay_inv limit (s\<lparr>rm_started := rm_started s @ [k], rm_pending := js_set k p (rm_pending s)\<rparr>)" for p
    using assms room fresh noget
    by (auto simp: relay_inv_def js_wf_set js_set_length set_fst_set)
  show ?thesis
    using room assms(1)
    by (auto simp: call_def Let_def started added cancelPending_inv
        split: sum.splits option.splits)
qed

lemma relay_step_inv:
  "relay_step env s s' \<Longrightarrow> relay_inv (rv_maxConcurrency env) s \<Longrightarrow> relay_inv (rv_maxConcurrency env) s'"
  by (induction rule: relay_step.induct)
    (auto simp: call_inv on_timeout_def on_abort_def on_send_error_def complete_def rejectAll_def
      rejectGeneration_def cancelPending_inv fold_reject_inv settle_taken_inv dest: takePending_None
      split: option.splits prod.splits relay_response.splits)

lemma relay_steps_inv:
  "(relay_step env)\<^sup>*\<^sup>* s s' \<Longrightarrow> relay_inv (rv_maxConcurrency env) s \<Longrightarrow> relay_inv (rv_maxConcurrency env) s'"
  by (induction rule: rtranclp_induct) (auto intro: relay_step_inv)

lemma new_manager_inv: "relay_inv limit new_manager"
  by (simp add: relay_inv_def new_manager_def)

subsection \<open>Rejecting many requests\<close>

lemma reject_one_pending: "rm_pending (reject_one m r k s) = js_delete k (rm_pending s)"
  by (auto simp: reject_one_def takePending_def settle_def delete_id map_of_eq_None_iff
      split: option.splits)

lemma reject_one_started [simp]: "rm_started (reject_one m r k s) = rm_started s"
  by (auto simp: reject_one_def takePending_def settle_def split: option.splits)

lemma fold_reject_pending:
  "rm_pending (fold (reject_one m r) ks s) = filter (\<lambda>(k, p). k \<notin> set ks) (rm_pending s)"
proof (induction ks arbitrary: s)
  case (Cons k ks)
  have "rm_pending (fold (reject_one m r) (k # ks) s) =
      filter (\<lambda>(j, p). j \<notin> set ks) (filter (\<lambda>(j, p). k \<noteq> j) (rm_pending s))"
    by (simp add: Cons reject_one_pending AList.delete_eq case_prod_unfold)
  also have "\<dots> = filter (\<lambda>(j, p). j \<notin> set (k # ks)) (rm_pending s)"
    by (auto simp: case_prod_unfold intro!: filter_cong)
  finally show ?case .
qed simp

lemma fold_reject_started [simp]: "rm_started (fold (reject_one m r) ks s) = rm_started s"
  by (induction ks arbitrary: s) auto

lemma rejectAll_pending: "rm_pending (rejectAll m r s) = []"
  by (force simp: rejectAll_def fold_reject_pending filter_empty_conv)

lemma js_wf_unique: "js_wf m \<Longrightarrow> (k, p) \<in> set m \<Longrightarrow> (k, q) \<in> set m \<Longrightarrow> q = p"
  unfolding js_wf_def by (metis map_of_is_SomeI option.inject)

lemma rejectGeneration_pending:
  assumes "js_wf (rm_pending s)"
  shows "rm_pending (rejectGeneration g m r s) = filter (\<lambda>(k, p). pr_generation p \<noteq> g) (rm_pending s)"
proof -
  let ?gone = "filter (\<lambda>(k, p). pr_generation p = g) (rm_pending s)"
  have "k \<notin> fst ` set ?gone \<longleftrightarrow> pr_generation p \<noteq> g" if kp: "(k, p) \<in> set (rm_pending s)" for k p
  proof
    show "pr_generation p \<noteq> g" if "k \<notin> fst ` set ?gone"
    proof
      assume "pr_generation p = g"
      with kp have "(k, p) \<in> set ?gone" by simp
      then have "fst (k, p) \<in> fst ` set ?gone" by (rule imageI)
      with that show False by simp
    qed
    show "k \<notin> fst ` set ?gone" if "pr_generation p \<noteq> g"
      using that js_wf_unique [OF assms kp] by auto
  qed
  then show ?thesis
    unfolding rejectGeneration_def fold_reject_pending by (auto intro!: filter_cong)
qed

subsection \<open>Properties\<close>

text \<open>
  C12. No promise is lost and none is settled twice. After any sequence of events, the promises
  created are exactly those pending and those settled, no promise is both, each is settled at
  most once, and never more than the configured number of requests is pending.\<close>

theorem relay_promise_settled_once:
  assumes "(relay_step env)\<^sup>*\<^sup>* new_manager s"
  shows "distinct (map fst (rm_settled s)) \<and>
     (\<forall>k. k \<in> set (rm_started s) \<longleftrightarrow>
        (js_has (rm_pending s) k \<noteq> (k \<in> fst ` set (rm_settled s)))) \<and>
     length (rm_pending s) \<le> rv_maxConcurrency env"
proof -
  have "relay_inv (rv_maxConcurrency env) s" using relay_steps_inv [OF assms new_manager_inv] .
  then show ?thesis unfolding relay_inv_def by (auto simp: map_of_eq_None_iff)
qed

definition demo_relay :: "(unit, unit, unit) relay_env" where
  "demo_relay = \<lparr>rv_requestTimeoutMs = 1000, rv_maxConcurrency = 2, rv_maxPayloadBytes = 100,
     rv_generation = 1, rv_sanitize = (\<lambda>s. s), rv_requestSchema = (\<lambda>r d p i. True),
     rv_payloadBytes = (\<lambda>r d p i. 50), rv_resultSchema = (\<lambda>p v. Some v)\<rparr>"

definition called_manager :: "unit request_manager" where
  "called_manager = snd (call demo_relay 0 0 0 ''r1'' ''readFile'' () None None new_manager)"

definition answered_manager :: "unit request_manager" where
  "answered_manager = complete demo_relay (OkResponse ''r1'' ()) (complete demo_relay (OkResponse ''r1'' ()) called_manager)"

lemma called_manager_reached: "(relay_step demo_relay)\<^sup>*\<^sup>* new_manager called_manager"
proof -
  have "relay_step demo_relay new_manager
      (snd (call (demo_relay\<lparr>rv_generation := 1\<rparr>) 0 0 0 ''r1'' ''readFile'' () None None new_manager))"
    by (rule call_event) (simp add: new_manager_def)
  moreover have "demo_relay\<lparr>rv_generation := 1\<rparr> = demo_relay" by (simp add: demo_relay_def)
  ultimately show ?thesis by (simp add: called_manager_def r_into_rtranclp)
qed

lemma answered_manager_reached: "(relay_step demo_relay)\<^sup>*\<^sup>* new_manager answered_manager"
  unfolding answered_manager_def
  by (rule rtranclp.rtrancl_into_rtrancl, rule rtranclp.rtrancl_into_rtrancl [OF called_manager_reached],
      rule response_event, rule response_event)

theorem relay_promise_settled_once_witness:
  "distinct (map fst (rm_settled answered_manager)) \<and> ''r1'' \<in> set (rm_started answered_manager) \<and>
   rm_settled answered_manager = [(''r1'', Resolve ())]"
proof -
  have "rm_settled answered_manager = [(''r1'', Resolve ())]"
    "''r1'' \<in> set (rm_started answered_manager)"
    by code_simp+
  then show ?thesis using relay_promise_settled_once [OF answered_manager_reached] by blast
qed

text \<open>
  C25. Loss of a connection. Rejecting a generation removes exactly the pending requests of that
  generation and settles each of them; the shutdown settles every promise there is, so no
  caller waits forever.\<close>

theorem relay_disconnect_settles:
  assumes "(relay_step env)\<^sup>*\<^sup>* new_manager s"
  shows "rm_pending (rejectGeneration g m r s) = filter (\<lambda>(k, p). pr_generation p \<noteq> g) (rm_pending s) \<and>
     (\<forall>k p. js_get (rm_pending s) k = Some p \<longrightarrow> pr_generation p = g \<longrightarrow>
        k \<in> fst ` set (rm_settled (rejectGeneration g m r s))) \<and>
     set (rm_started s) = fst ` set (rm_settled (rejectAll m r s))"
proof -
  have inv: "relay_inv (rv_maxConcurrency env) s" using relay_steps_inv [OF assms new_manager_inv] .
  then have wf: "js_wf (rm_pending s)" by (simp add: relay_inv_def)
  have gen: "relay_inv (rv_maxConcurrency env) (rejectGeneration g m r s)"
    and all: "relay_inv (rv_maxConcurrency env) (rejectAll m r s)"
    using inv by (simp_all add: rejectGeneration_def rejectAll_def fold_reject_inv)
  have "set (rm_started s) = fst ` set (rm_settled (rejectAll m r s))"
    using all unfolding relay_inv_def rejectAll_pending by (simp add: rejectAll_def)
  moreover have "k \<in> fst ` set (rm_settled (rejectGeneration g m r s))"
    if "js_get (rm_pending s) k = Some p" and "pr_generation p = g" for k p
  proof -
    have "k \<in> set (rm_started s)" using inv js_get_mem [OF that(1)] by (simp add: relay_inv_def)
    then have "k \<in> fst ` set (rm_pending (rejectGeneration g m r s)) \<union>
        fst ` set (rm_settled (rejectGeneration g m r s))"
      using gen unfolding relay_inv_def by (simp add: rejectGeneration_def)
    moreover have "k \<notin> fst ` set (rm_pending (rejectGeneration g m r s))"
      using that js_in_set_get [OF wf] by (auto simp: rejectGeneration_pending [OF wf])
    ultimately show ?thesis by blast
  qed
  ultimately show ?thesis using rejectGeneration_pending [OF wf] by blast
qed

theorem relay_disconnect_settles_witness:
  "rm_pending (rejectGeneration 1 ''lost'' ''agent_disconnected'' called_manager) = [] \<and>
   ''r1'' \<in> fst ` set (rm_settled (rejectGeneration 1 ''lost'' ''agent_disconnected'' called_manager))"
proof -
  have "rm_pending called_manager = [(''r1'', \<lparr>pr_operation = ''readFile'', pr_generation = 1,
      pr_startedAt = 0, pr_deadline = \<lparr>od_requestedTimeoutMs = 1000, od_effectiveTimeoutMs = 1000,
      od_deadlineAt = 1000\<rparr>, pr_watchdogMs = 1000, pr_signal = False\<rparr>)]"
    by code_simp
  then show ?thesis
    using relay_disconnect_settles [OF called_manager_reached, of 1 "''lost''" "''agent_disconnected''"] by simp
qed

text \<open>
  Deadlines only shrink. A deadline derived from an upstream one never lies after it, nor
  more than the requested (capped) time ahead; the time left at any later instant is at most
  the effective timeout.\<close>

theorem deadline_never_extended:
  assumes "createOperationDeadline requested upstream now = Inr d" and "now \<le> later"
  shows "(\<forall>u. upstream = Some u \<longrightarrow> od_deadlineAt d \<le> od_deadlineAt u) \<and>
     od_deadlineAt d \<le> now + max 1 (min requested MAX_BACKGROUND_OPERATION_TIMEOUT_MS) \<and>
     od_effectiveTimeoutMs d = remainingOperationTimeMs d now \<and>
     remainingOperationTimeMs d later \<le> od_effectiveTimeoutMs d"
  using assms
  by (auto simp: createOperationDeadline_def operationDeadlineSchema_parse_def remainingOperationTimeMs_def
      MAX_BACKGROUND_OPERATION_TIMEOUT_MS_def Let_def split: option.splits if_splits)

theorem deadline_never_extended_witness:
  "\<exists>d. createOperationDeadline 5000 (Some \<lparr>od_requestedTimeoutMs = 100, od_effectiveTimeoutMs = 100,
       od_deadlineAt = 1100\<rparr>) 1050 = Inr d \<and> od_deadlineAt d \<le> 1100"
proof -
  let ?u = "\<lparr>od_requestedTimeoutMs = 100, od_effectiveTimeoutMs = 100, od_deadlineAt = 1100\<rparr> :: OperationDeadline"
  have "createOperationDeadline 5000 (Some ?u) 1050 =
      Inr \<lparr>od_requestedTimeoutMs = 100, od_effectiveTimeoutMs = 50, od_deadlineAt = 1100\<rparr>" by code_simp
  from this deadline_never_extended [OF this, of 1060] show ?thesis by simp
qed

end
