(* ===== verification/Operation_Registry.thy ===== *)
theory Operation_Registry
  imports Relay_Requests Json
begin

text \<open>
  Cancellation of MCP requests in the gateway:
  \<open>services/mcp-gateway/src/mcp/operation-registry.ts\<close>.

  An \<open>AbortController\<close> is named by the token of its operation, and \<open>og_aborted\<close> maps the token
  of every aborted controller to the reason it was aborted with (a second \<open>abort\<close> of one
  controller has no effect). A pending entry carries an identity, since its \<open>release\<close> compares
  object references. Random tokens, SHA-256, request headers and the text of a number are
  arguments.
\<close>

subsection \<open>Keys\<close>

datatype 'n McpRequestId = IdString string | IdNumber 'n

definition request_id_text :: "('n \<Rightarrow> string) \<Rightarrow> 'n McpRequestId \<Rightarrow> string" where
  "request_id_text str requestId =
     (case requestId of
        IdString s \<Rightarrow> ''string:'' @ s
      | IdNumber n \<Rightarrow> ''number:'' @ str n)"

definition operationKey :: "(string \<Rightarrow> string) \<Rightarrow> ('n \<Rightarrow> string) \<Rightarrow> string \<Rightarrow> 'n McpRequestId \<Rightarrow> string" where
  "operationKey sha256 str principalKey requestId =
     principalKey @ '':'' @ sha256 (request_id_text str requestId)"

record AuthenticatedRequest =
  ar_subject :: "string option"
  ar_clientId :: "string option"
  ar_token :: "string option"
  ar_header :: "string \<Rightarrow> string option"
  ar_ip :: "string option"
  ar_remoteAddress :: "string option"
  ar_mcpRequestId :: "string option"

definition defined_nonempty :: "string option \<Rightarrow> bool" where
  "defined_nonempty v \<longleftrightarrow> (case v of None \<Rightarrow> False | Some s \<Rightarrow> s \<noteq> [])"

definition readOpaquePrincipalHeader :: "AuthenticatedRequest \<Rightarrow> string \<Rightarrow> string option" where
  "readOpaquePrincipalHeader request name =
     (case map_option js_trim (ar_header request name) of
        None \<Rightarrow> None
      | Some value \<Rightarrow>
          if value = [] \<or> length value > 512 then None
          else if list_ex (\<lambda>c. (of_char c :: nat) < 0x21 \<or> (of_char c :: nat) > 0x7e \<or> c = CHR '','') value
          then None else Some value)"

text \<open>\<open>JSON.stringify\<close> of an array of strings.\<close>

definition stringify_strings :: "string list \<Rightarrow> string" where
  "stringify_strings xs = ''['' @ join_with '','' (map json_quote xs) @ '']''"

definition createMcpPrincipalKey :: "(string \<Rightarrow> string) \<Rightarrow> bool \<Rightarrow> AuthenticatedRequest \<Rightarrow> string" where
  "createMcpPrincipalKey sha256 ignoreMcpSessionId request =
     (let text = (\<lambda>v. case v of None \<Rightarrow> [] | Some s \<Rightarrow> s);
          known = (\<lambda>v. case v of None \<Rightarrow> ''unknown'' | Some s \<Rightarrow> s);
          openAiSubject = readOpaquePrincipalHeader request ''x-openai-subject'';
          openAiSession = readOpaquePrincipalHeader request ''x-openai-session'';
          mcpSessionId = readOpaquePrincipalHeader request ''mcp-session-id''
      in if ar_subject request \<noteq> None \<or> defined_nonempty (ar_clientId request) then
           ''identity:'' @ sha256 (text (ar_subject request) @ '':'' @ text (ar_clientId request))
         else if defined_nonempty (ar_token request) then ''auth:'' @ sha256 (text (ar_token request))
         else if openAiSubject \<noteq> None \<and> openAiSession \<noteq> None then
           ''openai:'' @ sha256 (stringify_strings [text openAiSubject, text openAiSession])
         else if \<not> ignoreMcpSessionId \<and> mcpSessionId \<noteq> None then
           ''session:'' @ sha256 (text mcpSessionId)
         else
           ''anonymous:'' @ sha256
             (known (case ar_ip request of None \<Rightarrow> ar_remoteAddress request | Some a \<Rightarrow> Some a) @ '':'' @
              known (ar_header request ''user-agent'')))"

definition createMcpOperationScopeKey ::
  "(string \<Rightarrow> string) \<Rightarrow> AuthenticatedRequest \<Rightarrow> string \<Rightarrow> string result" where
  "createMcpOperationScopeKey sha256 request principalKey =
     (case readOpaquePrincipalHeader request ''mcp-session-id'' of
        Some mcpSessionId \<Rightarrow> Inr (''mcp-session:'' @ sha256 (stringify_strings [principalKey, mcpSessionId]))
      | None \<Rightarrow>
          (case ar_mcpRequestId request of
             Some requestId \<Rightarrow>
               if requestId = [] then
                 Inl (AppError INTERNAL_ERROR ''The MCP request lifecycle id is unavailable.'')
               else Inr (''request:'' @ sha256 (stringify_strings [principalKey, requestId]))
           | None \<Rightarrow> Inl (AppError INTERNAL_ERROR ''The MCP request lifecycle id is unavailable.'')))"

definition createMcpSessionScopeKey ::
  "(string \<Rightarrow> string) \<Rightarrow> AuthenticatedRequest \<Rightarrow> string \<Rightarrow> string option" where
  "createMcpSessionScopeKey sha256 request principalKey =
     (case readOpaquePrincipalHeader request ''mcp-session-id'' of
        Some mcpSessionId \<Rightarrow> Some (''mcp-session:'' @ sha256 (stringify_strings [principalKey, mcpSessionId]))
      | None \<Rightarrow>
          (case (readOpaquePrincipalHeader request ''x-openai-subject'',
                 readOpaquePrincipalHeader request ''x-openai-session'') of
             (Some subject, Some session) \<Rightarrow>
               Some (''openai-session:'' @ sha256 (stringify_strings [principalKey, subject, session]))
           | _ \<Rightarrow> None))"

definition createMcpCancellationScopeKey ::
  "(string \<Rightarrow> string) \<Rightarrow> AuthenticatedRequest \<Rightarrow> string \<Rightarrow> string" where
  "createMcpCancellationScopeKey sha256 request principalKey =
     (case createMcpSessionScopeKey sha256 request principalKey of None \<Rightarrow> principalKey | Some k \<Rightarrow> k)"

subsection \<open>Messages\<close>

definition json_fields :: "'n json \<Rightarrow> (string \<Rightarrow> 'n json option) option" where
  "json_fields v =
     (case v of
        JObject plain es \<Rightarrow> Some (map_of es)
      | JArray xs \<Rightarrow> Some (\<lambda>k. None)
      | _ \<Rightarrow> None)"

definition message_list :: "'n json \<Rightarrow> 'n json list" where
  "message_list body = (case body of JArray xs \<Rightarrow> xs | _ \<Rightarrow> [body])"

definition json_request_id :: "'n json option \<Rightarrow> 'n McpRequestId option" where
  "json_request_id v =
     (case v of
        Some (JString s) \<Rightarrow> Some (IdString s)
      | Some (JNumber n) \<Rightarrow> Some (IdNumber n)
      | _ \<Rightarrow> None)"

definition cancellation_of :: "'n json \<Rightarrow> ('n McpRequestId \<times> string option) list" where
  "cancellation_of message =
     (case json_fields message of
        None \<Rightarrow> []
      | Some field \<Rightarrow>
          if field ''method'' \<noteq> Some (JString ''notifications/cancelled'') then []
          else
            (case Option.bind (field ''params'') json_fields of
               None \<Rightarrow> []
             | Some params \<Rightarrow>
                 (case json_request_id (params ''requestId'') of
                    None \<Rightarrow> []
                  | Some requestId \<Rightarrow>
                      [(requestId,
                        (case params ''reason'' of Some (JString r) \<Rightarrow> Some (take 256 r) | _ \<Rightarrow> None))])))"

definition extractMcpCancellationNotifications ::
  "'n json \<Rightarrow> ('n McpRequestId \<times> string option) list" where
  "extractMcpCancellationNotifications body = concat (map cancellation_of (message_list body))"

definition tool_call_of :: "'n json \<Rightarrow> 'n McpRequestId list" where
  "tool_call_of message =
     (case json_fields message of
        None \<Rightarrow> []
      | Some field \<Rightarrow>
          if field ''method'' \<noteq> Some (JString ''tools/call'') then []
          else (case json_request_id (field ''id'') of None \<Rightarrow> [] | Some requestId \<Rightarrow> [requestId]))"

fun keep_first :: "('n McpRequestId \<Rightarrow> string) \<Rightarrow> string set \<Rightarrow> 'n McpRequestId list \<Rightarrow> 'n McpRequestId list" where
  "keep_first key seen [] = []"
| "keep_first key seen (r # rs) =
     (if key r \<in> seen then keep_first key seen rs
      else r # keep_first key (insert (key r) seen) rs)"

definition extractMcpToolCallRequestIds :: "('n \<Rightarrow> string) \<Rightarrow> 'n json \<Rightarrow> 'n McpRequestId list" where
  "extractMcpToolCallRequestIds str body =
     keep_first (request_id_text str) {} (concat (map tool_call_of (message_list body)))"

subsection \<open>The registry\<close>

record PendingOperation =
  po_ref :: nat
  po_cancelled :: bool
  po_reason :: "string option"

record operation_registry =
  og_active :: "(string, string) jsmap"
  og_cancellationTargets :: "(string, string list) jsmap"
  og_pending :: "(string, (string, PendingOperation) jsmap) jsmap"
  og_aborted :: "(string, string option) jsmap"
  og_nextRef :: nat

definition abort_controller :: "string \<Rightarrow> string option \<Rightarrow> operation_registry \<Rightarrow> operation_registry" where
  "abort_controller token reason r =
     (if js_has (og_aborted r) token then r
      else r\<lparr>og_aborted := js_set token reason (og_aborted r)\<rparr>)"

definition inner :: "(string, 'a list) jsmap \<Rightarrow> string \<Rightarrow> 'a list" where
  "inner m key = (case js_get m key of None \<Rightarrow> [] | Some x \<Rightarrow> x)"

text \<open>The registration that \<open>registerPending\<close> returns: its key, its id and its entry.\<close>

record pending_registration =
  pg_key :: string
  pg_lifecycleId :: string
  pg_ref :: nat

text \<open>The methods on the key that \<open>operationKey\<close> makes of a scope and a request id.\<close>

definition register_at ::
  "string \<Rightarrow> string \<Rightarrow> operation_registry \<Rightarrow> pending_registration \<times> operation_registry" where
  "register_at key requestLifecycleId r =
     (let entry = \<lparr>po_ref = og_nextRef r, po_cancelled = False, po_reason = None\<rparr> in
      (\<lparr>pg_key = key, pg_lifecycleId = requestLifecycleId, pg_ref = og_nextRef r\<rparr>,
       r\<lparr>og_pending := js_set key (js_set requestLifecycleId entry (inner (og_pending r) key)) (og_pending r),
         og_nextRef := Suc (og_nextRef r)\<rparr>))"

text \<open>Deleting an id from the inner map of a key, and the inner map when it becomes empty.\<close>

definition drop_pending :: "string \<Rightarrow> string \<Rightarrow> operation_registry \<Rightarrow> operation_registry" where
  "drop_pending key requestLifecycleId r =
     (let rest = js_delete requestLifecycleId (inner (og_pending r) key) in
      r\<lparr>og_pending := (if rest = [] then js_delete key (og_pending r)
                        else js_set key rest (og_pending r))\<rparr>)"

definition release_pending :: "pending_registration \<Rightarrow> operation_registry \<Rightarrow> operation_registry" where
  "release_pending g r =
     (case js_get (inner (og_pending r) (pg_key g)) (pg_lifecycleId g) of
        None \<Rightarrow> r
      | Some entry \<Rightarrow>
          if po_ref entry \<noteq> pg_ref g then r else drop_pending (pg_key g) (pg_lifecycleId g) r)"

record operation_registration =
  on_token :: string
  on_key :: string
  on_cancellationKey :: string

definition begin_at ::
  "string \<Rightarrow> string \<Rightarrow> string \<Rightarrow> string option \<Rightarrow> operation_registry \<Rightarrow>
   operation_registration result \<times> operation_registry" where
  "begin_at token key cancellationKey requestLifecycleId r =
     (if js_has (og_active r) key then
        (Inl (AppError RELAY_PROTOCOL_ERROR
           ''A request with the same MCP request id is already active for this operation scope.''), r)
      else
        (let r1 = r\<lparr>og_active := js_set key token (og_active r),
                    og_cancellationTargets := js_set cancellationKey
                      (inner (og_cancellationTargets r) cancellationKey @ [token])
                      (og_cancellationTargets r)\<rparr>;
             r2 = (case requestLifecycleId of
                     None \<Rightarrow> r1
                   | Some i \<Rightarrow>
                       (case js_get (inner (og_pending r1) cancellationKey) i of
                          None \<Rightarrow> r1
                        | Some entry \<Rightarrow>
                            (let r1' = drop_pending cancellationKey i r1 in
                             if po_cancelled entry then abort_controller token (po_reason entry) r1'
                             else r1')))
         in (Inr \<lparr>on_token = token, on_key = key, on_cancellationKey = cancellationKey\<rparr>, r2)))"

definition release_operation :: "operation_registration \<Rightarrow> operation_registry \<Rightarrow> operation_registry" where
  "release_operation g r =
     (if js_get (og_active r) (on_key g) = Some (on_token g) then
        (let rest = filter (\<lambda>t. t \<noteq> on_token g) (inner (og_cancellationTargets r) (on_cancellationKey g))
         in r\<lparr>og_active := js_delete (on_key g) (og_active r),
              og_cancellationTargets :=
                (if js_has (og_cancellationTargets r) (on_cancellationKey g) \<and> rest = []
                 then js_delete (on_cancellationKey g) (og_cancellationTargets r)
                 else if js_has (og_cancellationTargets r) (on_cancellationKey g)
                 then js_set (on_cancellationKey g) rest (og_cancellationTargets r)
                 else og_cancellationTargets r)\<rparr>)
      else r)"

definition cancel_at ::
  "string \<Rightarrow> string option \<Rightarrow> operation_registry \<Rightarrow> bool \<times> operation_registry" where
  "cancel_at key reason r =
     (let targets = inner (og_cancellationTargets r) key;
          r1 = fold (\<lambda>t. abort_controller t reason) targets r;
          pendings = inner (og_pending r1) key;
          r2 = (if pendings = [] then r1
                else r1\<lparr>og_pending := js_set key
                  (map (\<lambda>(i, p). (i, p\<lparr>po_cancelled := True, po_reason := reason\<rparr>)) pendings)
                  (og_pending r1)\<rparr>)
      in (targets \<noteq> [] \<or> pendings \<noteq> [], r2))"

definition clear_operations :: "operation_registry \<Rightarrow> operation_registry" where
  "clear_operations r =
     (fold (\<lambda>t. abort_controller t (Some ''gateway shutdown'')) (js_values (og_active r)) r)
       \<lparr>og_active := [], og_cancellationTargets := [], og_pending := []\<rparr>"

text \<open>The public methods.\<close>

definition registerPending ::
  "(string \<Rightarrow> string) \<Rightarrow> ('n \<Rightarrow> string) \<Rightarrow> string \<Rightarrow> 'n McpRequestId \<Rightarrow> string \<Rightarrow> operation_registry \<Rightarrow>
   pending_registration \<times> operation_registry" where
  "registerPending sha256 str cancellationScopeKey requestId requestLifecycleId r =
     register_at (operationKey sha256 str cancellationScopeKey requestId) requestLifecycleId r"

definition begin_operation ::
  "(string \<Rightarrow> string) \<Rightarrow> ('n \<Rightarrow> string) \<Rightarrow> string \<Rightarrow> string \<Rightarrow> 'n McpRequestId \<Rightarrow> string option \<Rightarrow>
   string option \<Rightarrow> operation_registry \<Rightarrow> operation_registration result \<times> operation_registry" where
  "begin_operation sha256 str token operationScopeKey requestId cancellationScopeKey requestLifecycleId r =
     begin_at token (operationKey sha256 str operationScopeKey requestId)
       (operationKey sha256 str
         (case cancellationScopeKey of None \<Rightarrow> operationScopeKey | Some k \<Rightarrow> k) requestId)
       requestLifecycleId r"

definition cancel_operation ::
  "(string \<Rightarrow> string) \<Rightarrow> ('n \<Rightarrow> string) \<Rightarrow> string \<Rightarrow> 'n McpRequestId \<Rightarrow> string option \<Rightarrow>
   operation_registry \<Rightarrow> bool \<times> operation_registry" where
  "cancel_operation sha256 str cancellationScopeKey requestId reason r =
     cancel_at (operationKey sha256 str cancellationScopeKey requestId) reason r"

subsection \<open>Operation contexts\<close>

text \<open>
  The controller of an operation context follows three signals: the SDK's, the registration's and
  the HTTP request's. \<open>context_abort\<close> is its \<open>abort\<close> closure on the controller's reason.
\<close>

definition context_abort ::
  "(string \<Rightarrow> string) \<Rightarrow> OperationDeadline \<Rightarrow> instant \<Rightarrow> instant \<Rightarrow> abort_reason \<Rightarrow>
   OperationTerminalReason \<Rightarrow> string \<Rightarrow> relay_error option \<Rightarrow> relay_error option" where
  "context_abort sanitize deadline startedAt now signalReason reason diagnostic controller =
     (case controller of
        Some e \<Rightarrow> Some e
      | None \<Rightarrow>
          (case signalReason of
             AppReason e \<Rightarrow> Some e
           | OtherReason \<Rightarrow>
               Some \<lparr>re_code = OPERATION_CANCELLED,
                     re_message = (if reason = Cancelled
                       then ''The MCP request was cancelled by the client.''
                       else ''The HTTP client disconnected before the MCP operation completed.''),
                     re_lifecycle = Some (createOperationLifecycle sanitize deadline startedAt
                       ''mcp_server'' reason diagnostic now),
                     re_details = None\<rparr>))"

datatype context_signal = SdkSignal | RegistrationSignal | RequestSignal

fun signal_listener :: "context_signal \<Rightarrow> OperationTerminalReason \<times> string" where
  "signal_listener SdkSignal = (Cancelled, ''The MCP SDK cancelled the active tool request.'')"
| "signal_listener RegistrationSignal =
     (Cancelled, ''An MCP cancellation notification matched the active operation scope and request id.'')"
| "signal_listener RequestSignal =
     (Client_disconnected, ''The inbound HTTP request ended before the tool operation completed.'')"

definition fire_signal ::
  "(string \<Rightarrow> string) \<Rightarrow> OperationDeadline \<Rightarrow> instant \<Rightarrow> instant \<Rightarrow> context_signal \<Rightarrow> abort_reason \<Rightarrow>
   relay_error option \<Rightarrow> relay_error option" where
  "fire_signal sanitize deadline startedAt now which signalReason controller =
     context_abort sanitize deadline startedAt now signalReason
       (fst (signal_listener which)) (snd (signal_listener which)) controller"

text \<open>Creating a context: register the operation, then follow the signals already aborted, in order.\<close>

definition gateway_context ::
  "(string \<Rightarrow> string) \<Rightarrow> ('n \<Rightarrow> string) \<Rightarrow> (string \<Rightarrow> string) \<Rightarrow> instant \<Rightarrow> instant \<Rightarrow> string \<Rightarrow> string \<Rightarrow>
   string \<Rightarrow> string option \<Rightarrow> 'n McpRequestId \<Rightarrow> int \<Rightarrow> abort_reason option \<Rightarrow> abort_reason option \<Rightarrow>
   operation_registry \<Rightarrow>
   (operation_registration \<times> OperationDeadline \<times> relay_error option) result \<times> operation_registry" where
  "gateway_context sha256 str sanitize startedAt now token operationScopeKey cancellationScopeKey
     requestLifecycleId requestId requestedTimeoutMs sdk http r =
     (case createOperationDeadline requestedTimeoutMs None startedAt of
        Inl e \<Rightarrow> (Inl e, r)
      | Inr deadline \<Rightarrow>
          (case begin_operation sha256 str token operationScopeKey requestId (Some cancellationScopeKey)
                  requestLifecycleId r of
             (Inl e, r1) \<Rightarrow> (Inl e, r1)
           | (Inr registration, r1) \<Rightarrow>
               (let follow = (\<lambda>which reason c. case reason of
                        None \<Rightarrow> c
                      | Some x \<Rightarrow> fire_signal sanitize deadline startedAt now which x c);
                    registered = (if js_has (og_aborted r1) token then Some OtherReason else None);
                    controller = follow RequestSignal http
                      (follow RegistrationSignal registered (follow SdkSignal sdk None))
                in (Inr (registration, deadline, controller), r1))))"

subsection \<open>Aborting controllers\<close>

lemma abort_get [simp]:
  "js_get (og_aborted (abort_controller t reason r)) u =
     (if u = t \<and> js_get (og_aborted r) t = None then Some reason else js_get (og_aborted r) u)"
  by (auto simp: abort_controller_def)

lemma abort_frame [simp]:
  "og_active (abort_controller t reason r) = og_active r"
  "og_cancellationTargets (abort_controller t reason r) = og_cancellationTargets r"
  "og_pending (abort_controller t reason r) = og_pending r"
  by (simp_all add: abort_controller_def)

lemma fold_abort_get:
  "js_get (og_aborted (fold (\<lambda>t. abort_controller t reason) ts r)) u =
     (if u \<in> set ts \<and> js_get (og_aborted r) u = None then Some reason else js_get (og_aborted r) u)"
  by (induction ts arbitrary: r) auto

lemma fold_abort_frame [simp]:
  "og_active (fold (\<lambda>t. abort_controller t reason) ts r) = og_active r"
  "og_cancellationTargets (fold (\<lambda>t. abort_controller t reason) ts r) = og_cancellationTargets r"
  "og_pending (fold (\<lambda>t. abort_controller t reason) ts r) = og_pending r"
  by (induction ts arbitrary: r) auto

lemma cancel_frame:
  "og_active (snd (cancel_at key reason r)) = og_active r"
  "og_cancellationTargets (snd (cancel_at key reason r)) = og_cancellationTargets r"
  "js_get (og_aborted (snd (cancel_at key reason r))) u =
     (if u \<in> set (inner (og_cancellationTargets r) key) \<and> js_get (og_aborted r) u = None
      then Some reason else js_get (og_aborted r) u)"
  by (simp_all add: cancel_at_def Let_def fold_abort_get)

subsection \<open>Cancellation targets are the live operations\<close>

text \<open>
  The registry with the registrations it has handed out. A release may be called any number of
  times and in any order; a new operation has a fresh token.
\<close>

inductive registry_step ::
  "operation_registry \<times> operation_registration list \<Rightarrow>
   operation_registry \<times> operation_registration list \<Rightarrow> bool" where
  begin_step: "token \<notin> on_token ` set gs \<Longrightarrow> begin_at token key ckey lifecycle r = (Inr g, r') \<Longrightarrow>
    registry_step (r, gs) (r', g # gs)"
| refused_step: "begin_at token key ckey lifecycle r = (Inl e, r') \<Longrightarrow> registry_step (r, gs) (r', gs)"
| release_step: "g \<in> set gs \<Longrightarrow> registry_step (r, gs) (release_operation g r, gs)"
| cancel_step: "registry_step (r, gs) (snd (cancel_at key reason r), gs)"
| register_step: "registry_step (r, gs) (snd (register_at key lifecycle r), gs)"
| release_pending_step: "registry_step (r, gs) (release_pending pg r, gs)"
| clear_step: "registry_step (r, gs) (clear_operations r, gs)"

definition live :: "operation_registry \<Rightarrow> operation_registration \<Rightarrow> bool" where
  "live r g \<longleftrightarrow> js_get (og_active r) (on_key g) = Some (on_token g)"

definition registry_inv :: "operation_registry \<times> operation_registration list \<Rightarrow> bool" where
  "registry_inv s \<longleftrightarrow>
     inj_on on_token (set (snd s)) \<and>
     (\<forall>k t. js_get (og_active (fst s)) k = Some t \<longrightarrow> (\<exists>g \<in> set (snd s). on_key g = k \<and> on_token g = t)) \<and>
     (\<forall>ck t. t \<in> set (inner (og_cancellationTargets (fst s)) ck) \<longleftrightarrow>
        (\<exists>g \<in> set (snd s). on_token g = t \<and> on_cancellationKey g = ck \<and> live (fst s) g))"

lemma inner_set: "inner (js_set k v m) j = (if j = k then v else inner m j)"
  by (simp add: inner_def)

lemma inner_delete: "inner (js_delete k m) j = (if j = k then [] else inner m j)"
  by (simp add: inner_def)

lemma drop_pending_frame [simp]:
  "og_active (drop_pending k i r) = og_active r"
  "og_cancellationTargets (drop_pending k i r) = og_cancellationTargets r"
  "og_aborted (drop_pending k i r) = og_aborted r"
  by (simp_all add: drop_pending_def Let_def)

lemma begin_effect:
  assumes "begin_at token key ckey lifecycle r = (Inr g, r')"
  shows "g = \<lparr>on_token = token, on_key = key, on_cancellationKey = ckey\<rparr>"
    and "js_get (og_active r) key = None"
    and "og_active r' = js_set key token (og_active r)"
    and "inner (og_cancellationTargets r') ck =
      inner (og_cancellationTargets r) ck @ (if ck = ckey then [token] else [])"
  using assms
  by (auto simp: begin_at_def Let_def inner_set split: if_splits option.splits)

lemma release_effect:
  assumes "live r g"
  shows "og_active (release_operation g r) = js_delete (on_key g) (og_active r)"
    and "inner (og_cancellationTargets (release_operation g r)) ck =
      (if ck = on_cancellationKey g then filter (\<lambda>t. t \<noteq> on_token g) (inner (og_cancellationTargets r) ck)
       else inner (og_cancellationTargets r) ck)"
  using assms
  by (auto simp: release_operation_def live_def Let_def inner_set inner_delete inner_def split: option.splits)

lemma begin_registry_inv:
  assumes "registry_inv (r, gs)" and "token \<notin> on_token ` set gs"
    and "begin_at token key ckey lifecycle r = (Inr g, r')"
  shows "registry_inv (r', g # gs)"
proof -
  note eff = begin_effect [OF assms(3)]
  have old: "live r' h \<longleftrightarrow> live r h" if "h \<in> set gs" for h
  proof (cases "on_key h = key")
    case True
    have "on_token h \<noteq> token" using that assms(2) by force
    then show ?thesis using True eff(2,3) by (simp add: live_def)
  qed (simp add: live_def eff(3))
  have new: "live r' g" by (simp add: live_def eff(1,3))
  show ?thesis
    unfolding registry_inv_def fst_conv snd_conv
  proof (intro conjI allI impI)
    show "inj_on on_token (set (g # gs))"
      using assms(1,2) eff(1) by (auto simp: registry_inv_def)
    show "\<exists>h \<in> set (g # gs). on_key h = k \<and> on_token h = t" if "js_get (og_active r') k = Some t" for k t
      using that assms(1) eff(1,3) by (auto simp: registry_inv_def split: if_splits)
    show "(t \<in> set (inner (og_cancellationTargets r') ck)) =
        (\<exists>h \<in> set (g # gs). on_token h = t \<and> on_cancellationKey h = ck \<and> live r' h)" for ck t
    proof -
      have "t \<in> set (inner (og_cancellationTargets r) ck) \<longleftrightarrow>
          (\<exists>h \<in> set gs. on_token h = t \<and> on_cancellationKey h = ck \<and> live r' h)"
        using assms(1) old by (simp add: registry_inv_def)
      then show ?thesis using eff(1,4) new by auto
    qed
  qed
qed

lemma release_registry_inv:
  assumes "registry_inv (r, gs)" and "g \<in> set gs"
  shows "registry_inv (release_operation g r, gs)"
proof (cases "live r g")
  case False
  then show ?thesis using assms(1) by (simp add: release_operation_def live_def)
next
  case True
  note eff = release_effect [OF True]
  have inj: "inj_on on_token (set gs)" using assms(1) by (simp add: registry_inv_def)
  have live': "live (release_operation g r) h \<longleftrightarrow> live r h \<and> h \<noteq> g" if "h \<in> set gs" for h
    using True inj_onD [OF inj] that assms(2) by (auto simp: live_def eff(1))
  show ?thesis
    unfolding registry_inv_def fst_conv snd_conv
  proof (intro conjI allI impI)
    show "\<exists>h \<in> set gs. on_key h = k \<and> on_token h = t"
      if "js_get (og_active (release_operation g r)) k = Some t" for k t
      using that assms(1) by (auto simp: registry_inv_def eff(1) split: if_splits)
    have "t \<in> set (inner (og_cancellationTargets r) ck) \<longleftrightarrow>
        (\<exists>h \<in> set gs. on_token h = t \<and> on_cancellationKey h = ck \<and> live r h)" for ck t
      using assms(1) by (simp add: registry_inv_def)
    then show "(t \<in> set (inner (og_cancellationTargets (release_operation g r)) ck)) =
        (\<exists>h \<in> set gs. on_token h = t \<and> on_cancellationKey h = ck \<and> live (release_operation g r) h)" for ck t
      using live' inj_onD [OF inj] assms(2) unfolding eff(2) by auto
  qed (rule inj)
qed

lemma registry_step_inv: "registry_step s s' \<Longrightarrow> registry_inv s \<Longrightarrow> registry_inv s'"
proof (induction rule: registry_step.induct)
  case (begin_step token gs key ckey lifecycle r g r')
  then show ?case using begin_registry_inv by blast
next
  case (release_step g gs r)
  then show ?case using release_registry_inv by blast
next
  case (refused_step token key ckey lifecycle r e r' gs)
  then show ?case by (auto simp: begin_at_def Let_def split: if_splits)
next
  case (release_pending_step r gs pg)
  then show ?case by (auto simp: release_pending_def registry_inv_def live_def split: option.splits)
next
  case (clear_step r gs)
  then show ?case by (simp add: registry_inv_def clear_operations_def inner_def live_def)
qed (auto simp: registry_inv_def live_def cancel_frame register_at_def Let_def)

definition empty_registry :: operation_registry where
  "empty_registry = \<lparr>og_active = [], og_cancellationTargets = [], og_pending = [], og_aborted = [],
     og_nextRef = 0\<rparr>"

lemma empty_registry_inv: "registry_inv (empty_registry, [])"
  by (simp add: registry_inv_def empty_registry_def inner_def live_def)

lemma registry_steps_inv: "registry_step\<^sup>*\<^sup>* (empty_registry, []) s \<Longrightarrow> registry_inv s"
  by (induction rule: rtranclp_induct) (auto intro: empty_registry_inv registry_step_inv)

subsection \<open>Properties\<close>

text \<open>
  A cancellation reaches exactly the live operations of its scope and request id. After any
  sequence of calls, cancelling aborts precisely the controllers of the registrations under that
  cancellation key that are still active and not yet aborted; the abort state of every other
  controller stays as it was, so released operations and other callers are never affected.\<close>

theorem cancel_reaches_live_operations:
  assumes "registry_step\<^sup>*\<^sup>* (empty_registry, []) (r, gs)"
  shows "js_get (og_aborted (snd (cancel_operation sha256 str scope rid reason r))) t =
     (if js_get (og_aborted r) t = None \<and>
         (\<exists>g \<in> set gs. on_token g = t \<and> on_cancellationKey g = operationKey sha256 str scope rid \<and> live r g)
      then Some reason else js_get (og_aborted r) t)"
  using registry_steps_inv [OF assms]
  unfolding cancel_operation_def cancel_frame registry_inv_def by auto

definition demo_key :: string where
  "demo_key = operationKey (\<lambda>s. ''h'') (\<lambda>n :: unit. ''0'') ''scope'' (IdString ''1'')"

definition demo_active :: operation_registry where
  "demo_active = snd (begin_at ''tok'' ''op'' demo_key None empty_registry)"

definition demo_registration :: operation_registration where
  "demo_registration = \<lparr>on_token = ''tok'', on_key = ''op'', on_cancellationKey = demo_key\<rparr>"

lemma demo_active_reached: "registry_step\<^sup>*\<^sup>* (empty_registry, []) (demo_active, [demo_registration])"
proof -
  have "begin_at ''tok'' ''op'' demo_key None empty_registry = (Inr demo_registration, demo_active)"
    by code_simp
  then show ?thesis by (intro r_into_rtranclp begin_step) auto
qed

theorem cancel_reaches_live_operations_witness:
  "js_get (og_aborted (snd (cancel_operation (\<lambda>s. ''h'') (\<lambda>n :: unit. ''0'') ''scope'' (IdString ''1'')
     (Some ''stop'') demo_active))) ''tok'' = Some (Some ''stop'')"
proof -
  have "js_get (og_aborted demo_active) ''tok'' = None" "live demo_active demo_registration"
    by code_simp+
  then show ?thesis
    using cancel_reaches_live_operations [OF demo_active_reached, of "\<lambda>s. ''h''" "\<lambda>n :: unit. ''0''" "''scope''"
        "IdString ''1''" "Some ''stop''" "''tok''"]
    by (simp add: demo_registration_def demo_key_def)
qed

text \<open>
  An early cancellation is not lost. When a request is registered as pending, cancelled
  before its operation begins, and then begins under the same lifecycle id, its controller is
  aborted from the start with the reason of the cancellation, whatever else the registry
  holds.\<close>

theorem early_cancellation_kept:
  assumes "registerPending sha256 str scope rid lifecycle r = (pg, r1)"
    and "cancel_operation sha256 str scope rid reason r1 = (matched, r2)"
    and "begin_operation sha256 str token opScope rid (Some scope) (Some lifecycle) r2 = (Inr g, r3)"
    and "js_get (og_aborted r) token = None"
    and "token \<notin> set (inner (og_cancellationTargets r) (operationKey sha256 str scope rid))"
  shows "matched \<and> js_get (og_aborted r3) token = Some reason"
proof -
  let ?key = "operationKey sha256 str scope rid"
  let ?p = "\<lparr>po_ref = og_nextRef r, po_cancelled = False, po_reason = None\<rparr>"
  let ?pend = "js_set lifecycle ?p (inner (og_pending r) ?key)"
  have r1: "inner (og_pending r1) ?key = ?pend" "og_aborted r1 = og_aborted r"
    "og_cancellationTargets r1 = og_cancellationTargets r"
    using assms(1) by (auto simp: registerPending_def register_at_def Let_def inner_set)
  have ne: "?pend \<noteq> []"
    using js_get_set [of lifecycle ?p "inner (og_pending r) ?key" lifecycle] by (metis map_of.simps(1) option.distinct(1))
  have m: "js_get (map (\<lambda>(i, p). (i, p\<lparr>po_cancelled := True, po_reason := reason\<rparr>)) xs) i =
      map_option (\<lambda>p. p\<lparr>po_cancelled := True, po_reason := reason\<rparr>) (js_get xs i)" for xs i
    by (induction xs) auto
  have r2: "matched" "js_get (inner (og_pending r2) ?key) lifecycle =
      Some (?p\<lparr>po_cancelled := True, po_reason := reason\<rparr>)"
    using assms(2) ne by (auto simp: cancel_operation_def cancel_at_def Let_def r1 inner_set m)
  have ab: "js_get (og_aborted r2) token = None"
    using assms(2,4,5) cancel_frame(3) [of ?key reason r1 token] by (simp add: cancel_operation_def r1)
  have "js_get (og_aborted r3) token = Some reason"
    using assms(3) r2(2) ab
    by (auto simp: begin_operation_def begin_at_def Let_def split: if_splits)
  with r2(1) show ?thesis by simp
qed

theorem early_cancellation_kept_witness:
  "let r1 = snd (registerPending (\<lambda>s. ''h'') (\<lambda>n :: unit. ''0'') ''scope'' (IdString ''1'') ''life'' empty_registry);
       r2 = snd (cancel_operation (\<lambda>s. ''h'') (\<lambda>n :: unit. ''0'') ''scope'' (IdString ''1'') (Some ''stop'') r1);
       r3 = snd (begin_operation (\<lambda>s. ''h'') (\<lambda>n :: unit. ''0'') ''tok'' ''op'' (IdString ''1'')
              (Some ''scope'') (Some ''life'') r2)
   in js_get (og_aborted r3) ''tok'' = Some (Some ''stop'')"
proof -
  define r1 where "r1 = snd (registerPending (\<lambda>s. ''h'') (\<lambda>n :: unit. ''0'') ''scope'' (IdString ''1'') ''life'' empty_registry)"
  define r2 where "r2 = snd (cancel_operation (\<lambda>s. ''h'') (\<lambda>n :: unit. ''0'') ''scope'' (IdString ''1'') (Some ''stop'') r1)"
  define r3 where "r3 = snd (begin_operation (\<lambda>s. ''h'') (\<lambda>n :: unit. ''0'') ''tok'' ''op'' (IdString ''1'')
              (Some ''scope'') (Some ''life'') r2)"
  have eqs: "registerPending (\<lambda>s. ''h'') (\<lambda>n :: unit. ''0'') ''scope'' (IdString ''1'') ''life'' empty_registry =
      (\<lparr>pg_key = ''scope:h'', pg_lifecycleId = ''life'', pg_ref = 0\<rparr>, r1)"
    "cancel_operation (\<lambda>s. ''h'') (\<lambda>n :: unit. ''0'') ''scope'' (IdString ''1'') (Some ''stop'') r1 = (True, r2)"
    "begin_operation (\<lambda>s. ''h'') (\<lambda>n :: unit. ''0'') ''tok'' ''op'' (IdString ''1'')
       (Some ''scope'') (Some ''life'') r2 =
       (Inr \<lparr>on_token = ''tok'', on_key = ''op:h'', on_cancellationKey = ''scope:h''\<rparr>, r3)"
    unfolding r3_def r2_def r1_def by code_simp+
  have "js_get (og_aborted r3) ''tok'' = Some (Some ''stop'')"
    using early_cancellation_kept [OF eqs] by (simp add: empty_registry_def inner_def)
  then show ?thesis by (simp add: r1_def r2_def r3_def)
qed

text \<open>
  Operation keys are unambiguous. With digests of 64 characters that do not collide on the
  two request ids, equal operation keys come from the same scope and the same request id, so
  that two principals, or a string and a number id, never share an entry.\<close>

theorem operation_key_unambiguous:
  assumes "\<forall>x. length (sha256 x) = 64"
    and "sha256 (request_id_text str rid) = sha256 (request_id_text str rid') \<longrightarrow>
           request_id_text str rid = request_id_text str rid'"
    and "inj str" and "operationKey sha256 str scope rid = operationKey sha256 str scope' rid'"
  shows "scope = scope' \<and> rid = rid'"
proof -
  have "scope @ '':'' = scope' @ '':'' \<and> sha256 (request_id_text str rid) = sha256 (request_id_text str rid')"
    using assms(1,4) append_eq_append_conv [of "sha256 (request_id_text str rid)"
        "sha256 (request_id_text str rid')" "scope @ '':''" "scope' @ '':''"]
    by (simp add: operationKey_def)
  then have "scope = scope'" and "request_id_text str rid = request_id_text str rid'"
    using assms(2) by auto
  moreover from this(2) have "rid = rid'"
    using injD [OF assms(3)] by (auto simp: request_id_text_def split: McpRequestId.splits)
  ultimately show ?thesis by simp
qed

theorem operation_key_unambiguous_witness:
  "let h = (\<lambda>s. replicate 63 (CHR ''a'') @ [last s]); str = (\<lambda>n :: unit. ''0'') in
   operationKey h str ''p'' (IdString ''1'') \<noteq> operationKey h str ''p'' (IdNumber ())"
proof -
  let ?h = "\<lambda>s. replicate 63 (CHR ''a'') @ [last s]"
  have "inj (\<lambda>n :: unit. ''0'')" by (simp add: inj_def)
  moreover have "?h (request_id_text (\<lambda>n :: unit. ''0'') (IdString ''1'')) \<noteq>
      ?h (request_id_text (\<lambda>n :: unit. ''0'') (IdNumber ()))"
    by (simp add: request_id_text_def)
  ultimately show ?thesis
    using operation_key_unambiguous [of ?h "\<lambda>n :: unit. ''0''" "IdString ''1''" "IdNumber ()" "''p''" "''p''"]
    by (auto simp: Let_def)
qed

end
