(* ===== verification/Edge_Protocol.thy ===== *)
theory Edge_Protocol
  imports Typed_Confirmations
begin

text \<open>
  The messages between the edge gateway and the connector:
  \<open>packages/edge-protocol/src/index.ts\<close>.

  The platform behind the parsers is a record of parameters: \<open>JSON.parse\<close> (\<open>None\<close> when it
  throws), the pathname that \<open>new URL\<close> gives a path on a fixed base (\<open>None\<close> when it throws),
  \<open>Date.parse\<close> (\<open>None\<close> when not finite) and \<open>toISOString\<close>. A parsed number is an integer or
  another number: the code only asks for integers. \<open>JSON.stringify\<close> is defined here.
\<close>

subsection \<open>Values\<close>

datatype js_number = JsInt int | JsOther

type_synonym js_value = "js_number json"

record platform =
  pf_json_parse :: "string \<Rightarrow> js_value option"
  pf_url_pathname :: "string \<Rightarrow> string option"
  pf_date_parse :: "string \<Rightarrow> instant option"
  pf_toISOString :: "instant \<Rightarrow> string"

text \<open>\<open>value.key\<close> on an object, \<open>undefined\<close> when the key is absent.\<close>

definition prop_of :: "(string \<times> 'n json) list \<Rightarrow> string \<Rightarrow> 'n json" where
  "prop_of es k = (case map_of es k of None \<Rightarrow> JUndefined | Some v \<Rightarrow> v)"

definition isRecord :: "'n json \<Rightarrow> (string \<times> 'n json) list option" where
  "isRecord v = (case v of JObject plain es \<Rightarrow> Some es | _ \<Rightarrow> None)"

definition parseRecord :: "platform \<Rightarrow> string \<Rightarrow> (string \<times> js_value) list option" where
  "parseRecord pf text = Option.bind (pf_json_parse pf text) isRecord"

definition string_value :: "'n json \<Rightarrow> string option" where
  "string_value v = (case v of JString s \<Rightarrow> Some s | _ \<Rightarrow> None)"

definition isStringRecord :: "'n json \<Rightarrow> (string \<times> string) list option" where
  "isStringRecord v =
     (case isRecord v of
        None \<Rightarrow> None
      | Some es \<Rightarrow>
          if list_all (\<lambda>(k, x). string_value x \<noteq> None) es
          then Some (map (\<lambda>(k, x). (k, the (string_value x))) es) else None)"

definition utf8ByteLength :: "string \<Rightarrow> nat" where
  "utf8ByteLength value = length (buffer_from value)"

subsection \<open>Routes\<close>

datatype EdgeHttpMethod = GET | POST | DELETE

text \<open>
  \<open>toUpperCase\<close> followed by \<open>isEdgeHttpMethod\<close>. No letter outside a to z has an upper-case form
  made of the letters of the three names, so the other code units stay as they are.
\<close>

definition js_upper_char :: "char \<Rightarrow> char" where
  "js_upper_char c = (let n = (of_char c :: nat) in if 97 \<le> n \<and> n \<le> 122 then char_of (n - 32) else c)"

definition isEdgeHttpMethod :: "string \<Rightarrow> EdgeHttpMethod option" where
  "isEdgeHttpMethod m =
     (if m = ''GET'' then Some GET else if m = ''POST'' then Some POST
      else if m = ''DELETE'' then Some DELETE else None)"

definition normalizedMethod :: "string \<Rightarrow> EdgeHttpMethod option" where
  "normalizedMethod m = isEdgeHttpMethod (map js_upper_char m)"

definition pathnameFromEdgePath :: "platform \<Rightarrow> string \<Rightarrow> string option" where
  "pathnameFromEdgePath pf path =
     (if take 1 path \<noteq> ''/'' \<or> take 2 path = ''//'' then None else pf_url_pathname pf path)"

definition route_methods :: "string \<Rightarrow> EdgeHttpMethod list" where
  "route_methods pathname =
     (if pathname = ''/mcp'' then [POST, GET, DELETE]
      else if pathname = ''/authorize'' then [GET, POST]
      else if pathname \<in> {''/.well-known/oauth-authorization-server'',
                ''/.well-known/oauth-protected-resource'', ''/.well-known/oauth-protected-resource/mcp''} then [GET]
      else if pathname \<in> {''/token'', ''/register'', ''/revoke''} then [POST]
      else [])"

definition isAllowedEdgeRequest :: "platform \<Rightarrow> string \<Rightarrow> string \<Rightarrow> bool" where
  "isAllowedEdgeRequest pf method path \<longleftrightarrow>
     (case normalizedMethod method of
        None \<Rightarrow> False
      | Some m \<Rightarrow>
          (case pathnameFromEdgePath pf path of
             None \<Rightarrow> False
           | Some pathname \<Rightarrow> m \<in> set (route_methods pathname)))"

subsection \<open>Principals and runtime identities\<close>

record AuthenticatedEdgePrincipal =
  pr_subject :: string
  pr_scopes :: "string list"
  pr_ownerScope :: "string option"

definition bounded_string :: "nat \<Rightarrow> 'n json \<Rightarrow> string option" where
  "bounded_string n v =
     (case string_value v of None \<Rightarrow> None | Some s \<Rightarrow> if s = [] \<or> length s > n then None else Some s)"

definition parse_scopes :: "'n json \<Rightarrow> string list option" where
  "parse_scopes v =
     (case v of
        JArray xs \<Rightarrow>
          if xs = [] \<or> length xs > 64 \<or> \<not> list_all (\<lambda>x. bounded_string 256 x \<noteq> None) xs then None
          else (let scopes = map (\<lambda>x. the (string_value x)) xs in
                if distinct scopes then Some scopes else None)
      | _ \<Rightarrow> None)"

definition parseAuthenticatedEdgePrincipal :: "'n json \<Rightarrow> AuthenticatedEdgePrincipal option" where
  "parseAuthenticatedEdgePrincipal v =
     (case isRecord v of
        None \<Rightarrow> None
      | Some es \<Rightarrow>
          let allowed = (if prop_of es ''ownerScope'' = JUndefined then [''scopes'', ''subject'']
                         else [''ownerScope'', ''scopes'', ''subject'']) in
          if sort (map fst es) \<noteq> allowed then None else
          (case bounded_string 512 (prop_of es ''subject'') of
             None \<Rightarrow> None
           | Some subject \<Rightarrow>
          (case parse_scopes (prop_of es ''scopes'') of
             None \<Rightarrow> None
           | Some scopes \<Rightarrow>
          if prop_of es ''ownerScope'' = JUndefined then
            Some \<lparr>pr_subject = subject, pr_scopes = scopes, pr_ownerScope = None\<rparr>
          else (case bounded_string 256 (prop_of es ''ownerScope'') of
                  None \<Rightarrow> None
                | Some owner \<Rightarrow>
                    Some \<lparr>pr_subject = subject, pr_scopes = scopes, pr_ownerScope = Some owner\<rparr>))))"

record ConnectorRuntimeIdentity =
  ci_connectorInstanceId :: string
  ci_connectionGeneration :: int
  ci_processStartedAt :: string
  ci_catalogContractRevision :: string
  ci_toolSetRevision :: string
  ci_toolCount :: int
  ci_serverVersion :: string
  ci_nodePid :: int
  ci_hostPid :: int

definition isPositiveSafeInteger :: "js_value \<Rightarrow> int option" where
  "isPositiveSafeInteger v =
     (case v of JNumber (JsInt n) \<Rightarrow> if n \<le> 2 ^ 53 - 1 \<and> n > 0 then Some n else None | _ \<Rightarrow> None)"

definition char_in :: "char \<Rightarrow> char \<Rightarrow> char \<Rightarrow> bool" where
  "char_in a b c \<longleftrightarrow> a \<le> c \<and> c \<le> b"

definition hex_char_i :: "char \<Rightarrow> bool" where
  "hex_char_i c \<longleftrightarrow> char_in (CHR ''0'') (CHR ''9'') c \<or> char_in (CHR ''a'') (CHR ''f'') c \<or>
     char_in (CHR ''A'') (CHR ''F'') c"

text \<open>The class of each of the 36 positions of a UUID.\<close>

definition uuid_pattern :: "(char \<Rightarrow> bool) list" where
  "uuid_pattern =
     replicate 8 hex_char_i @ [\<lambda>c. c = CHR ''-''] @ replicate 4 hex_char_i @ [\<lambda>c. c = CHR ''-''] @
     [char_in (CHR ''1'') (CHR ''8'')] @ replicate 3 hex_char_i @ [\<lambda>c. c = CHR ''-''] @
     [\<lambda>c. c \<in> set ''89abAB''] @ replicate 3 hex_char_i @ [\<lambda>c. c = CHR ''-''] @ replicate 12 hex_char_i"

definition isUuid :: "string \<Rightarrow> bool" where
  "isUuid s \<longleftrightarrow> list_all2 (\<lambda>p c. p c) uuid_pattern s"

definition isIsoTimestamp :: "platform \<Rightarrow> string \<Rightarrow> bool" where
  "isIsoTimestamp pf s \<longleftrightarrow>
     (if s = [] \<or> length s > 64 then False
      else (case pf_date_parse pf s of None \<Rightarrow> False | Some t \<Rightarrow> pf_toISOString pf t = s))"

definition string_where :: "(string \<Rightarrow> bool) \<Rightarrow> 'n json \<Rightarrow> string option" where
  "string_where p v = (case string_value v of None \<Rightarrow> None | Some s \<Rightarrow> if p s then Some s else None)"

definition runtime_keys :: "string list" where
  "runtime_keys = [''catalogContractRevision'', ''connectionGeneration'', ''connectorInstanceId'', ''hostPid'',
     ''nodePid'', ''processStartedAt'', ''serverVersion'', ''toolCount'', ''toolSetRevision'', ''version'']"

definition parseConnectorRuntimeIdentity :: "platform \<Rightarrow> js_value \<Rightarrow> ConnectorRuntimeIdentity option" where
  "parseConnectorRuntimeIdentity pf v =
     Option.bind (isRecord v) (\<lambda>es.
     if sort (map fst es) \<noteq> runtime_keys then None else
     if prop_of es ''version'' \<noteq> JNumber (JsInt 1) then None else
     Option.bind (string_where isUuid (prop_of es ''connectorInstanceId'')) (\<lambda>connectorInstanceId.
     Option.bind (isPositiveSafeInteger (prop_of es ''connectionGeneration'')) (\<lambda>connectionGeneration.
     Option.bind (string_where (isIsoTimestamp pf) (prop_of es ''processStartedAt'')) (\<lambda>processStartedAt.
     Option.bind (string_where is_sha256_hex (prop_of es ''catalogContractRevision'')) (\<lambda>catalogContractRevision.
     Option.bind (string_where is_sha256_hex (prop_of es ''toolSetRevision'')) (\<lambda>toolSetRevision.
     Option.bind (isPositiveSafeInteger (prop_of es ''toolCount'')) (\<lambda>toolCount.
     Option.bind (bounded_string 256 (prop_of es ''serverVersion'')) (\<lambda>serverVersion.
     Option.bind (isPositiveSafeInteger (prop_of es ''nodePid'')) (\<lambda>nodePid.
     Option.bind (isPositiveSafeInteger (prop_of es ''hostPid'')) (\<lambda>hostPid.
     Some \<lparr>ci_connectorInstanceId = connectorInstanceId, ci_connectionGeneration = connectionGeneration,
            ci_processStartedAt = processStartedAt, ci_catalogContractRevision = catalogContractRevision,
            ci_toolSetRevision = toolSetRevision, ci_toolCount = toolCount, ci_serverVersion = serverVersion,
            ci_nodePid = nodePid, ci_hostPid = hostPid\<rparr>))))))))))"

subsection \<open>Messages\<close>

definition EDGE_PROTOCOL_VERSION :: int where
  "EDGE_PROTOCOL_VERSION = 3"

definition MAX_EDGE_REQUEST_BODY_BYTES :: nat where
  "MAX_EDGE_REQUEST_BODY_BYTES = 4 * 1024 * 1024"

definition MAX_EDGE_RESPONSE_BODY_BYTES :: nat where
  "MAX_EDGE_RESPONSE_BODY_BYTES = 4 * 1024 * 1024"

record EdgeHttpRequestMessage =
  rq_requestId :: string
  rq_method :: EdgeHttpMethod
  rq_path :: string
  rq_headers :: "(string \<times> string) list"
  rq_body :: string
  rq_principal :: AuthenticatedEdgePrincipal

record EdgeHttpResponseMessage =
  rs_requestId :: string
  rs_status :: int
  rs_headers :: "(string \<times> string) list option"
  rs_body :: string

datatype cancel_reason = Timeout | Client_disconnected | Connector_replaced

datatype EdgeToConnectorMessage =
    EdgeHello
  | EdgeHttpRequest EdgeHttpRequestMessage
  | EdgeHttpCancel string cancel_reason

datatype ConnectorToEdgeMessage =
    ConnectorReady "ConnectorRuntimeIdentity option"
  | EdgeHttpResponse EdgeHttpResponseMessage

definition isCancelReason :: "'n json \<Rightarrow> cancel_reason option" where
  "isCancelReason v =
     Option.bind (string_value v) (\<lambda>s.
       if s = ''timeout'' then Some Timeout
       else if s = ''client_disconnected'' then Some Client_disconnected
       else if s = ''connector_replaced'' then Some Connector_replaced else None)"

definition requestId_of :: "(string \<times> js_value) list \<Rightarrow> string option" where
  "requestId_of es = string_where (\<lambda>s. s \<noteq> []) (prop_of es ''requestId'')"

definition parse_http_request :: "platform \<Rightarrow> (string \<times> js_value) list \<Rightarrow> EdgeHttpRequestMessage option" where
  "parse_http_request pf es =
     Option.bind (requestId_of es) (\<lambda>requestId.
     Option.bind (string_value (prop_of es ''method'')) (\<lambda>method.
     Option.bind (string_value (prop_of es ''path'')) (\<lambda>path.
     if \<not> isAllowedEdgeRequest pf method path then None else
     Option.bind (isStringRecord (prop_of es ''headers'')) (\<lambda>headers.
     Option.bind (string_value (prop_of es ''body'')) (\<lambda>body.
     Option.bind (parseAuthenticatedEdgePrincipal (prop_of es ''principal'')) (\<lambda>principal.
     Some \<lparr>rq_requestId = requestId, rq_method = the (normalizedMethod method), rq_path = path,
            rq_headers = headers, rq_body = body, rq_principal = principal\<rparr>))))))"

definition parseEdgeToConnectorMessage :: "platform \<Rightarrow> string \<Rightarrow> EdgeToConnectorMessage option" where
  "parseEdgeToConnectorMessage pf text =
     Option.bind (parseRecord pf text) (\<lambda>es.
     if prop_of es ''protocolVersion'' \<noteq> JNumber (JsInt EDGE_PROTOCOL_VERSION) then None else
     Option.bind (string_value (prop_of es ''type'')) (\<lambda>type.
     if type = ''edge-hello'' then Some EdgeHello
     else if type = ''http-cancel'' then
       Option.bind (requestId_of es) (\<lambda>requestId.
       Option.bind (isCancelReason (prop_of es ''reason'')) (\<lambda>reason. Some (EdgeHttpCancel requestId reason)))
     else if type \<noteq> ''http-request'' then None
     else map_option EdgeHttpRequest (parse_http_request pf es)))"

definition parse_status :: "js_value \<Rightarrow> int option" where
  "parse_status v = (case v of JNumber (JsInt n) \<Rightarrow> if n < 100 \<or> n > 599 then None else Some n | _ \<Rightarrow> None)"

definition parse_headers :: "'n json \<Rightarrow> (string \<times> string) list option option" where
  "parse_headers v = (if v = JUndefined then Some None else map_option Some (isStringRecord v))"

definition parse_http_response :: "(string \<times> js_value) list \<Rightarrow> EdgeHttpResponseMessage option" where
  "parse_http_response es =
     Option.bind (requestId_of es) (\<lambda>requestId.
     Option.bind (parse_status (prop_of es ''status'')) (\<lambda>status.
     Option.bind (string_value (prop_of es ''body'')) (\<lambda>body.
     Option.bind (parse_headers (prop_of es ''headers'')) (\<lambda>headers.
     Some \<lparr>rs_requestId = requestId, rs_status = status, rs_headers = headers, rs_body = body\<rparr>))))"

definition parseConnectorToEdgeMessage :: "platform \<Rightarrow> string \<Rightarrow> ConnectorToEdgeMessage option" where
  "parseConnectorToEdgeMessage pf text =
     Option.bind (parseRecord pf text) (\<lambda>es.
     if prop_of es ''protocolVersion'' \<noteq> JNumber (JsInt EDGE_PROTOCOL_VERSION) then None else
     Option.bind (string_value (prop_of es ''type'')) (\<lambda>type.
     if type = ''connector-ready'' then
       (if prop_of es ''runtime'' = JUndefined then Some (ConnectorReady None)
        else map_option (\<lambda>r. ConnectorReady (Some r))
               (parseConnectorRuntimeIdentity pf (prop_of es ''runtime'')))
     else if type \<noteq> ''http-response'' then None
     else map_option EdgeHttpResponse (parse_http_response es)))"

subsection \<open>The text of a message\<close>

text \<open>
  \<open>JSON.stringify\<close>: \<open>None\<close> is \<open>undefined\<close>, which an array writes as \<open>null\<close> and an object
  leaves out.
\<close>

fun json_stringify :: "('n \<Rightarrow> string) \<Rightarrow> 'n json \<Rightarrow> string option" where
  "json_stringify num JUndefined = None"
| "json_stringify num JNull = Some ''null''"
| "json_stringify num (JBool b) = Some (if b then ''true'' else ''false'')"
| "json_stringify num (JNumber n) = Some (num n)"
| "json_stringify num (JString s) = Some (json_quote s)"
| "json_stringify num (JArray xs) =
     Some (''['' @ join_with '','' (map (\<lambda>x. case json_stringify num x of None \<Rightarrow> ''null'' | Some t \<Rightarrow> t) xs) @ '']'')"
| "json_stringify num (JObject plain es) =
     Some (''{'' @ join_with '','' (concat (map (\<lambda>(k, x).
        case json_stringify num x of None \<Rightarrow> [] | Some t \<Rightarrow> [json_quote k @ '':'' @ t]) es)) @ ''}'')"
| "json_stringify num (JUnsupported t) = None"

definition method_text :: "EdgeHttpMethod \<Rightarrow> string" where
  "method_text m = (case m of GET \<Rightarrow> ''GET'' | POST \<Rightarrow> ''POST'' | DELETE \<Rightarrow> ''DELETE'')"

definition reason_text :: "cancel_reason \<Rightarrow> string" where
  "reason_text r = (case r of Timeout \<Rightarrow> ''timeout'' | Client_disconnected \<Rightarrow> ''client_disconnected''
     | Connector_replaced \<Rightarrow> ''connector_replaced'')"

definition strings_json :: "(string \<times> string) list \<Rightarrow> 'n json" where
  "strings_json hs = JObject True (map (\<lambda>(k, s). (k, JString s)) hs)"

definition principal_json :: "AuthenticatedEdgePrincipal \<Rightarrow> 'n json" where
  "principal_json p =
     JObject True ([(''subject'', JString (pr_subject p)), (''scopes'', JArray (map JString (pr_scopes p)))] @
       (case pr_ownerScope p of None \<Rightarrow> [] | Some owner \<Rightarrow> [(''ownerScope'', JString owner)]))"

definition runtime_json :: "ConnectorRuntimeIdentity \<Rightarrow> js_value" where
  "runtime_json r = JObject True
     [(''version'', JNumber (JsInt 1)), (''connectorInstanceId'', JString (ci_connectorInstanceId r)),
      (''connectionGeneration'', JNumber (JsInt (ci_connectionGeneration r))),
      (''processStartedAt'', JString (ci_processStartedAt r)),
      (''catalogContractRevision'', JString (ci_catalogContractRevision r)),
      (''toolSetRevision'', JString (ci_toolSetRevision r)),
      (''toolCount'', JNumber (JsInt (ci_toolCount r))), (''serverVersion'', JString (ci_serverVersion r)),
      (''nodePid'', JNumber (JsInt (ci_nodePid r))), (''hostPid'', JNumber (JsInt (ci_hostPid r)))]"

definition message_header :: "string \<Rightarrow> (string \<times> js_value) list" where
  "message_header type =
     [(''type'', JString type), (''protocolVersion'', JNumber (JsInt EDGE_PROTOCOL_VERSION))]"

definition edge_message_json :: "EdgeToConnectorMessage \<Rightarrow> js_value" where
  "edge_message_json m =
     (case m of
        EdgeHello \<Rightarrow> JObject True (message_header ''edge-hello'')
      | EdgeHttpRequest r \<Rightarrow> JObject True (message_header ''http-request'' @
          [(''requestId'', JString (rq_requestId r)), (''method'', JString (method_text (rq_method r))),
           (''path'', JString (rq_path r)), (''headers'', strings_json (rq_headers r)),
           (''body'', JString (rq_body r)), (''principal'', principal_json (rq_principal r))])
      | EdgeHttpCancel i reason \<Rightarrow> JObject True (message_header ''http-cancel'' @
          [(''requestId'', JString i), (''reason'', JString (reason_text reason))]))"

definition connector_message_json :: "ConnectorToEdgeMessage \<Rightarrow> js_value" where
  "connector_message_json m =
     (case m of
        ConnectorReady runtime \<Rightarrow> JObject True (message_header ''connector-ready'' @
          (case runtime of None \<Rightarrow> [] | Some r \<Rightarrow> [(''runtime'', runtime_json r)]))
      | EdgeHttpResponse r \<Rightarrow> JObject True (message_header ''http-response'' @
          [(''requestId'', JString (rs_requestId r)), (''status'', JNumber (JsInt (rs_status r)))] @
          (case rs_headers r of None \<Rightarrow> [] | Some hs \<Rightarrow> [(''headers'', strings_json hs)]) @
          [(''body'', JString (rs_body r))]))"

subsection \<open>Well-formed messages\<close>

definition principal_ok :: "AuthenticatedEdgePrincipal \<Rightarrow> bool" where
  "principal_ok p \<longleftrightarrow>
     pr_subject p \<noteq> [] \<and> length (pr_subject p) \<le> 512 \<and>
     pr_scopes p \<noteq> [] \<and> length (pr_scopes p) \<le> 64 \<and> distinct (pr_scopes p) \<and>
     list_all (\<lambda>s. s \<noteq> [] \<and> length s \<le> 256) (pr_scopes p) \<and>
     (case pr_ownerScope p of None \<Rightarrow> True | Some s \<Rightarrow> s \<noteq> [] \<and> length s \<le> 256)"

definition safe_positive :: "int \<Rightarrow> bool" where
  "safe_positive n \<longleftrightarrow> n \<le> 2 ^ 53 - 1 \<and> n > 0"

definition runtime_ok :: "platform \<Rightarrow> ConnectorRuntimeIdentity \<Rightarrow> bool" where
  "runtime_ok pf r \<longleftrightarrow>
     isUuid (ci_connectorInstanceId r) \<and> isIsoTimestamp pf (ci_processStartedAt r) \<and>
     is_sha256_hex (ci_catalogContractRevision r) \<and> is_sha256_hex (ci_toolSetRevision r) \<and>
     ci_serverVersion r \<noteq> [] \<and> length (ci_serverVersion r) \<le> 256 \<and>
     safe_positive (ci_connectionGeneration r) \<and> safe_positive (ci_toolCount r) \<and>
     safe_positive (ci_nodePid r) \<and> safe_positive (ci_hostPid r)"

definition edge_message_ok :: "platform \<Rightarrow> EdgeToConnectorMessage \<Rightarrow> bool" where
  "edge_message_ok pf m \<longleftrightarrow>
     (case m of
        EdgeHello \<Rightarrow> True
      | EdgeHttpRequest r \<Rightarrow> rq_requestId r \<noteq> [] \<and>
          isAllowedEdgeRequest pf (method_text (rq_method r)) (rq_path r) \<and> principal_ok (rq_principal r)
      | EdgeHttpCancel i reason \<Rightarrow> i \<noteq> [])"

definition connector_message_ok :: "platform \<Rightarrow> ConnectorToEdgeMessage \<Rightarrow> bool" where
  "connector_message_ok pf m \<longleftrightarrow>
     (case m of
        ConnectorReady runtime \<Rightarrow> (case runtime of None \<Rightarrow> True | Some r \<Rightarrow> runtime_ok pf r)
      | EdgeHttpResponse r \<Rightarrow> rs_requestId r \<noteq> [] \<and> 100 \<le> rs_status r \<and> rs_status r \<le> 599)"

lemma string_value_iff [simp]: "string_value v = Some s \<longleftrightarrow> v = JString s"
  by (cases v) (auto simp: string_value_def)

lemma string_of_JString [simp]: "string_value (JString s) = Some s"
  by (simp add: string_value_def)

lemma string_where_iff [simp]: "string_where p v = Some s \<longleftrightarrow> v = JString s \<and> p s"
  by (auto simp: string_where_def split: option.splits)

lemma bounded_string_iff [simp]:
  "bounded_string n v = Some s \<longleftrightarrow> v = JString s \<and> s \<noteq> [] \<and> length s \<le> n"
  by (auto simp: bounded_string_def split: option.splits)

lemma scopes_iff [simp]:
  "parse_scopes v = Some ss \<longleftrightarrow> v = JArray (map JString ss) \<and> ss \<noteq> [] \<and> length ss \<le> 64 \<and>
     distinct ss \<and> list_all (\<lambda>s. s \<noteq> [] \<and> length s \<le> 256) ss"
proof
  assume *: "parse_scopes v = Some ss"
  then obtain xs where v: "v = JArray xs" and xs: "xs \<noteq> []" "length xs \<le> 64" "ss = map (\<lambda>x. the (string_value x)) xs"
    and all: "list_all (\<lambda>x. bounded_string 256 x \<noteq> None) xs" and d: "distinct ss"
    by (auto simp: parse_scopes_def Let_def split: json.splits if_splits)
  have "x = JString (the (string_value x)) \<and> the (string_value x) \<noteq> [] \<and> length (the (string_value x)) \<le> 256"
    if "x \<in> set xs" for x
    using all that by (auto simp: list_all_iff)
  note each = this
  have "map (\<lambda>x. JString (the (string_value x))) xs = xs"
    by (rule map_idI) (use each in simp)
  then have "xs = map JString ss" by (simp add: xs(3) comp_def)
  moreover have "list_all (\<lambda>s. s \<noteq> [] \<and> length s \<le> 256) ss"
    using each by (simp add: xs(3) list_all_iff)
  ultimately show "v = JArray (map JString ss) \<and> ss \<noteq> [] \<and> length ss \<le> 64 \<and>
     distinct ss \<and> list_all (\<lambda>s. s \<noteq> [] \<and> length s \<le> 256) ss"
    using v xs(1,2) d by auto
next
  assume *: "v = JArray (map JString ss) \<and> ss \<noteq> [] \<and> length ss \<le> 64 \<and>
     distinct ss \<and> list_all (\<lambda>s. s \<noteq> [] \<and> length s \<le> 256) ss"
  then have "list_all (\<lambda>x. bounded_string 256 x \<noteq> None) (map JString ss)"
    by (auto simp: list_all_iff)
  moreover have "map (\<lambda>x. the (string_value x)) (map JString ss) = ss"
    by (induction ss) auto
  ultimately show "parse_scopes v = Some ss" using * by (auto simp: parse_scopes_def Let_def comp_def)
qed

lemma isStringRecord_strings_json [simp]: "isStringRecord (strings_json hs) = Some hs"
  by (induction hs) (auto simp: isStringRecord_def isRecord_def strings_json_def split: if_splits)

lemma principal_parsed_ok: "parseAuthenticatedEdgePrincipal v = Some p \<Longrightarrow> principal_ok p"
  by (auto simp: parseAuthenticatedEdgePrincipal_def principal_ok_def Let_def
      split: option.splits if_splits)

lemma principal_keys_sorted:
  "sort [''subject'', ''scopes''] = [''scopes'', ''subject'']"
  "sort [''subject'', ''scopes'', ''ownerScope''] = [''ownerScope'', ''scopes'', ''subject'']"
  by code_simp+

lemma parse_scopes_JStrings:
  "\<lbrakk>ss \<noteq> []; length ss \<le> 64; distinct ss; list_all (\<lambda>s. s \<noteq> [] \<and> length s \<le> 256) ss\<rbrakk> \<Longrightarrow>
   parse_scopes (JArray (map JString ss)) = Some ss"
  by simp

lemma bounded_string_JString:
  "s \<noteq> [] \<Longrightarrow> length s \<le> n \<Longrightarrow> bounded_string n (JString s) = Some s"
  by simp

lemma principal_round_trip:
  "principal_ok p \<Longrightarrow> parseAuthenticatedEdgePrincipal (principal_json p) = Some p"
  by (cases p, cases "pr_ownerScope p")
    (simp_all add: parseAuthenticatedEdgePrincipal_def principal_json_def principal_ok_def isRecord_def
      prop_of_def Let_def principal_keys_sorted parse_scopes_JStrings bounded_string_JString
      del: scopes_iff bounded_string_iff)

lemma isPositiveSafeInteger_iff [simp]:
  "isPositiveSafeInteger v = Some n \<longleftrightarrow> v = JNumber (JsInt n) \<and> safe_positive n"
  by (auto simp: isPositiveSafeInteger_def safe_positive_def split: json.splits js_number.splits)

lemma runtime_parsed_ok: "parseConnectorRuntimeIdentity pf v = Some r \<Longrightarrow> runtime_ok pf r"
  by (auto simp: parseConnectorRuntimeIdentity_def runtime_ok_def bind_eq_Some_conv split: if_splits)

lemma runtime_json_defined [simp]: "runtime_json r \<noteq> JUndefined"
  by (simp add: runtime_json_def)

lemma runtime_round_trip:
  "runtime_ok pf r \<Longrightarrow> parseConnectorRuntimeIdentity pf (runtime_json r) = Some r"
  by (cases r) (simp add: parseConnectorRuntimeIdentity_def runtime_json_def runtime_ok_def isRecord_def
      prop_of_def runtime_keys_def bind_eq_Some_conv)

lemma method_text_normalized [simp]: "normalizedMethod (method_text m) = Some m"
  by (cases m; hypsubst; code_simp)

lemma allowed_method_text:
  assumes "isAllowedEdgeRequest pf method path"
  shows "isAllowedEdgeRequest pf (method_text (the (normalizedMethod method))) path"
  using assms by (auto simp: isAllowedEdgeRequest_def split: option.splits)

lemma reason_round_trip [simp]: "isCancelReason (JString (reason_text r)) = Some r"
  by (cases r) (simp_all add: isCancelReason_def reason_text_def)

lemma status_iff [simp]: "parse_status v = Some n \<longleftrightarrow> v = JNumber (JsInt n) \<and> 100 \<le> n \<and> n \<le> 599"
  by (auto simp: parse_status_def split: json.splits js_number.splits)

lemma headers_round_trip [simp]:
  "parse_headers JUndefined = Some None" "parse_headers (strings_json hs) = Some (Some hs)"
  by (simp_all add: parse_headers_def, simp add: strings_json_def)

lemma edge_parsed_ok:
  "parseEdgeToConnectorMessage pf text = Some m \<Longrightarrow> edge_message_ok pf m"
  by (auto simp: parseEdgeToConnectorMessage_def edge_message_ok_def parse_http_request_def requestId_of_def
      bind_eq_Some_conv intro: principal_parsed_ok allowed_method_text split: if_splits)

lemma connector_parsed_ok:
  "parseConnectorToEdgeMessage pf text = Some m \<Longrightarrow> connector_message_ok pf m"
  by (auto simp: parseConnectorToEdgeMessage_def connector_message_ok_def parse_http_response_def requestId_of_def
      bind_eq_Some_conv intro: runtime_parsed_ok split: if_splits)

lemma edge_round_trip:
  assumes "edge_message_ok pf m" and "pf_json_parse pf text = Some (edge_message_json m)"
  shows "parseEdgeToConnectorMessage pf text = Some m"
  using assms
  by (cases m) (auto simp: parseEdgeToConnectorMessage_def parseRecord_def isRecord_def edge_message_json_def
      edge_message_ok_def message_header_def prop_of_def parse_http_request_def requestId_of_def
      principal_round_trip bind_eq_Some_conv)

lemma connector_round_trip:
  assumes "connector_message_ok pf m" and "pf_json_parse pf text = Some (connector_message_json m)"
  shows "parseConnectorToEdgeMessage pf text = Some m"
  using assms
  by (cases m) (auto simp: parseConnectorToEdgeMessage_def parseRecord_def isRecord_def connector_message_json_def
      connector_message_ok_def message_header_def prop_of_def parse_http_response_def requestId_of_def
      runtime_round_trip bind_eq_Some_conv split: option.splits)

subsection \<open>Properties\<close>

text \<open>
  C28. What the two parsers accept is well formed. A message that the connector accepts from the
  edge names a request, a method and a path on the list of routes, and a principal within its
  bounds with distinct scopes; a message that the edge accepts from a connector has a status
  between 100 and 599 or a runtime identity whose every field has its documented form.\<close>

theorem parsed_messages_well_formed:
  "(\<forall>m. parseEdgeToConnectorMessage pf text = Some m \<longrightarrow> edge_message_ok pf m) \<and>
   (\<forall>m. parseConnectorToEdgeMessage pf text = Some m \<longrightarrow> connector_message_ok pf m)"
  by (blast intro: edge_parsed_ok connector_parsed_ok)

definition demo_principal :: AuthenticatedEdgePrincipal where
  "demo_principal = \<lparr>pr_subject = ''owner'', pr_scopes = [''mcp:read'', ''mcp:write''], pr_ownerScope = Some ''o1''\<rparr>"

definition demo_request :: EdgeHttpRequestMessage where
  "demo_request = \<lparr>rq_requestId = ''r1'', rq_method = POST, rq_path = ''/mcp'',
     rq_headers = [(''accept'', ''*/*'')], rq_body = ''{}'', rq_principal = demo_principal\<rparr>"

definition demo_response :: EdgeHttpResponseMessage where
  "demo_response = \<lparr>rs_requestId = ''r1'', rs_status = 200, rs_headers = None, rs_body = ''ok''\<rparr>"

definition demo_number :: "js_number \<Rightarrow> string" where
  "demo_number n = (if n = JsInt 3 then ''3'' else if n = JsInt 200 then ''200'' else ''0'')"

text \<open>A \<open>JSON.parse\<close> that knows the texts of two values, and a path parser for plain paths.\<close>

definition demo_platform :: platform where
  "demo_platform = \<lparr>pf_json_parse = (\<lambda>t.
      if Some t = json_stringify demo_number (edge_message_json (EdgeHttpRequest demo_request))
      then Some (edge_message_json (EdgeHttpRequest demo_request))
      else if Some t = json_stringify demo_number (connector_message_json (EdgeHttpResponse demo_response))
      then Some (connector_message_json (EdgeHttpResponse demo_response)) else None),
    pf_url_pathname = Some, pf_date_parse = (\<lambda>t. None), pf_toISOString = (\<lambda>t. [])\<rparr>"

lemma demo_request_ok: "edge_message_ok demo_platform (EdgeHttpRequest demo_request)"
  by (simp add: edge_message_ok_def demo_request_def demo_platform_def demo_principal_def principal_ok_def
      isAllowedEdgeRequest_def pathnameFromEdgePath_def route_methods_def)

lemma demo_response_ok: "connector_message_ok demo_platform (EdgeHttpResponse demo_response)"
  by (simp add: connector_message_ok_def demo_response_def)

definition demo_request_text :: string where
  "demo_request_text = the (json_stringify demo_number (edge_message_json (EdgeHttpRequest demo_request)))"

lemma demo_request_text_parses:
  "pf_json_parse demo_platform demo_request_text = Some (edge_message_json (EdgeHttpRequest demo_request))"
  by (simp add: demo_platform_def demo_request_text_def edge_message_json_def)

theorem parsed_messages_well_formed_witness:
  "parseEdgeToConnectorMessage demo_platform demo_request_text = Some (EdgeHttpRequest demo_request) \<and>
   edge_message_ok demo_platform (EdgeHttpRequest demo_request)"
proof -
  have "parseEdgeToConnectorMessage demo_platform demo_request_text = Some (EdgeHttpRequest demo_request)"
    by (rule edge_round_trip [OF demo_request_ok demo_request_text_parses])
  with parsed_messages_well_formed [of demo_platform demo_request_text] show ?thesis by blast
qed

text \<open>
  C29. Both directions of the edge protocol round-trip. When \<open>JSON.parse\<close> undoes
  \<open>JSON.stringify\<close> on the two messages, every well-formed message that one side sends is
  parsed by the other side to exactly that message.\<close>

theorem edge_messages_round_trip:
  assumes "edge_message_ok pf m" and "connector_message_ok pf c"
    and "\<forall>t. json_stringify num (edge_message_json m) = Some t \<longrightarrow> pf_json_parse pf t = Some (edge_message_json m)"
    and "\<forall>t. json_stringify num (connector_message_json c) = Some t \<longrightarrow>
           pf_json_parse pf t = Some (connector_message_json c)"
  shows "\<exists>t u. json_stringify num (edge_message_json m) = Some t \<and> parseEdgeToConnectorMessage pf t = Some m \<and>
     json_stringify num (connector_message_json c) = Some u \<and> parseConnectorToEdgeMessage pf u = Some c"
proof -
  obtain t where "json_stringify num (edge_message_json m) = Some t"
    by (cases m) (auto simp: edge_message_json_def)
  moreover obtain u where "json_stringify num (connector_message_json c) = Some u"
    by (cases c) (auto simp: connector_message_json_def)
  ultimately show ?thesis
    using assms edge_round_trip connector_round_trip by blast
qed

theorem edge_messages_round_trip_witness:
  "parseEdgeToConnectorMessage demo_platform
     (the (json_stringify demo_number (edge_message_json (EdgeHttpRequest demo_request)))) =
       Some (EdgeHttpRequest demo_request) \<and>
   parseConnectorToEdgeMessage demo_platform
     (the (json_stringify demo_number (connector_message_json (EdgeHttpResponse demo_response)))) =
       Some (EdgeHttpResponse demo_response)"
proof -
  have differ: "json_stringify demo_number (connector_message_json (EdgeHttpResponse demo_response)) \<noteq>
      json_stringify demo_number (edge_message_json (EdgeHttpRequest demo_request))"
    by code_simp
  have "\<exists>t u. json_stringify demo_number (edge_message_json (EdgeHttpRequest demo_request)) = Some t \<and>
      parseEdgeToConnectorMessage demo_platform t = Some (EdgeHttpRequest demo_request) \<and>
      json_stringify demo_number (connector_message_json (EdgeHttpResponse demo_response)) = Some u \<and>
      parseConnectorToEdgeMessage demo_platform u = Some (EdgeHttpResponse demo_response)"
    by (rule edge_messages_round_trip [OF demo_request_ok demo_response_ok])
      (use differ in \<open>simp_all add: demo_platform_def\<close>)
  then show ?thesis by auto
qed

end
