(* ===== verification/Contract_Rollout.thy ===== *)
theory Contract_Rollout
  imports Edge_Protocol
begin

text \<open>
  The edge gateway's contract rollout and connector handover:
  \<open>services/mcp-edge-gateway/src/contract-compatibility.ts\<close> and \<open>connector-handover.ts\<close>.

  \<open>EXPECTED_MCP_CONTRACT_REVISION\<close> comes from a file the build generates: it is the argument
  \<open>expected\<close>, and it may differ from one deployment to the next. The stored state is an unknown
  value; once the guard accepts it, the code reads it as a record with the declared fields.
  \<open>preparedAt\<close> and \<open>promotedAt\<close> are not checked, so they stay unknown values. Other keys of the
  stored object, which no code reads, are not carried along. \<open>localeCompare\<close> is a parameter.
\<close>

definition isMcpContractRevision :: "js_value \<Rightarrow> bool" where
  "isMcpContractRevision v \<longleftrightarrow> (case v of JString s \<Rightarrow> is_sha256_hex s | _ \<Rightarrow> False)"

record McpContractRolloutState =
  cr_activeContractRevision :: string
  cr_candidateContractRevision :: "string option"
  cr_previousContractRevision :: "string option"
  cr_preparedAt :: js_value
  cr_promotedAt :: js_value

text \<open>An optional revision is absent, or valid and different from the active one.\<close>

definition optional_revision_ok :: "js_value \<Rightarrow> js_value \<Rightarrow> bool" where
  "optional_revision_ok active v \<longleftrightarrow> v = JUndefined \<or> (isMcpContractRevision v \<and> v \<noteq> active)"

definition isMcpContractRolloutState :: "js_value \<Rightarrow> bool" where
  "isMcpContractRolloutState v \<longleftrightarrow>
     (case isRecord v of
        None \<Rightarrow> False
      | Some es \<Rightarrow>
          prop_of es ''version'' = JNumber (JsInt 1) \<and>
          isMcpContractRevision (prop_of es ''activeContractRevision'') \<and>
          optional_revision_ok (prop_of es ''activeContractRevision'') (prop_of es ''candidateContractRevision'') \<and>
          optional_revision_ok (prop_of es ''activeContractRevision'') (prop_of es ''previousContractRevision''))"

text \<open>Reading an accepted value, and the value that is stored.\<close>

definition rollout_state_of :: "js_value \<Rightarrow> McpContractRolloutState" where
  "rollout_state_of v = (let es = the (isRecord v) in
     \<lparr>cr_activeContractRevision = the (string_value (prop_of es ''activeContractRevision'')),
      cr_candidateContractRevision = string_value (prop_of es ''candidateContractRevision''),
      cr_previousContractRevision = string_value (prop_of es ''previousContractRevision''),
      cr_preparedAt = prop_of es ''preparedAt'', cr_promotedAt = prop_of es ''promotedAt''\<rparr>)"

definition optional_value :: "string option \<Rightarrow> js_value" where
  "optional_value r = (case r of None \<Rightarrow> JUndefined | Some s \<Rightarrow> JString s)"

definition rollout_state_json :: "McpContractRolloutState \<Rightarrow> js_value" where
  "rollout_state_json s = JObject True
     [(''version'', JNumber (JsInt 1)), (''activeContractRevision'', JString (cr_activeContractRevision s)),
      (''candidateContractRevision'', optional_value (cr_candidateContractRevision s)),
      (''previousContractRevision'', optional_value (cr_previousContractRevision s)),
      (''preparedAt'', cr_preparedAt s), (''promotedAt'', cr_promotedAt s)]"

definition reconcileMcpContractRolloutState ::
  "string \<Rightarrow> js_value \<Rightarrow> string option \<Rightarrow> string \<Rightarrow> McpContractRolloutState \<times> bool" where
  "reconcileMcpContractRolloutState expected current observedRuntimeRevision now =
     (if isMcpContractRolloutState current then
        (let s = rollout_state_of current in
         if cr_candidateContractRevision s \<noteq> None \<or> cr_activeContractRevision s = expected then (s, False)
         else (s\<lparr>cr_candidateContractRevision := Some expected, cr_preparedAt := JString now\<rparr>, True))
      else if isMcpContractRevision (optional_value observedRuntimeRevision) \<and>
              observedRuntimeRevision \<noteq> Some expected then
        (\<lparr>cr_activeContractRevision = the observedRuntimeRevision,
          cr_candidateContractRevision = Some expected, cr_previousContractRevision = None,
          cr_preparedAt = JString now, cr_promotedAt = JUndefined\<rparr>, True)
      else
        (\<lparr>cr_activeContractRevision = expected, cr_candidateContractRevision = None,
          cr_previousContractRevision = None, cr_preparedAt = JUndefined, cr_promotedAt = JUndefined\<rparr>, True))"

definition isExpectedContractPrepared :: "string \<Rightarrow> McpContractRolloutState \<Rightarrow> bool" where
  "isExpectedContractPrepared expected s \<longleftrightarrow>
     cr_activeContractRevision s = expected \<or> cr_candidateContractRevision s = Some expected"

definition isConnectorContractCompatible :: "string option \<Rightarrow> McpContractRolloutState \<Rightarrow> bool" where
  "isConnectorContractCompatible revision s \<longleftrightarrow>
     (case revision of
        None \<Rightarrow> False
      | Some r \<Rightarrow> isMcpContractRevision (JString r) \<and>
          (r = cr_activeContractRevision s \<or> Some r = cr_candidateContractRevision s))"

datatype rollout_code =
    Build_contract_mismatch | Active_contract_mismatch | Candidate_contract_mismatch
  | Candidate_not_ready | Previous_contract_mismatch | Previous_not_ready

definition promoteMcpContractRolloutState ::
  "string \<Rightarrow> McpContractRolloutState \<Rightarrow> string \<Rightarrow> string \<Rightarrow> string option \<Rightarrow> string \<Rightarrow>
   rollout_code + McpContractRolloutState \<times> bool" where
  "promoteMcpContractRolloutState expected s expectedActive expectedCandidate candidateReady now =
     (if expectedCandidate \<noteq> expected then Inl Build_contract_mismatch
      else if cr_activeContractRevision s = expectedCandidate \<and> cr_candidateContractRevision s = None then
        Inr (s, True)
      else if cr_activeContractRevision s \<noteq> expectedActive then Inl Active_contract_mismatch
      else if cr_candidateContractRevision s \<noteq> Some expectedCandidate then Inl Candidate_contract_mismatch
      else if candidateReady \<noteq> Some expectedCandidate then Inl Candidate_not_ready
      else Inr (\<lparr>cr_activeContractRevision = expectedCandidate, cr_candidateContractRevision = None,
                  cr_previousContractRevision = Some (cr_activeContractRevision s),
                  cr_preparedAt = JUndefined, cr_promotedAt = JString now\<rparr>, False))"

definition rollbackMcpContractRolloutState ::
  "string \<Rightarrow> McpContractRolloutState \<Rightarrow> string \<Rightarrow> string \<Rightarrow> string option \<Rightarrow> string \<Rightarrow>
   rollout_code + McpContractRolloutState \<times> bool" where
  "rollbackMcpContractRolloutState expected s expectedActive expectedPrevious previousReady now =
     (if expectedActive \<noteq> expected then Inl Build_contract_mismatch
      else if cr_activeContractRevision s = expectedPrevious \<and>
              cr_candidateContractRevision s = Some expectedActive then Inr (s, True)
      else if cr_activeContractRevision s \<noteq> expectedActive then Inl Active_contract_mismatch
      else if cr_previousContractRevision s \<noteq> Some expectedPrevious then Inl Previous_contract_mismatch
      else if previousReady \<noteq> Some expectedPrevious then Inl Previous_not_ready
      else Inr (\<lparr>cr_activeContractRevision = expectedPrevious,
                  cr_candidateContractRevision = Some expectedActive,
                  cr_previousContractRevision = None, cr_preparedAt = JString now, cr_promotedAt = JUndefined\<rparr>, False))"

subsection \<open>Connector handover\<close>

definition runtime_started :: "platform \<Rightarrow> ConnectorRuntimeIdentity option \<Rightarrow> instant option" where
  "runtime_started pf r = pf_date_parse pf (case r of None \<Rightarrow> [] | Some c \<Rightarrow> ci_processStartedAt c)"

definition runtime_id :: "ConnectorRuntimeIdentity option \<Rightarrow> string" where
  "runtime_id r = (case r of None \<Rightarrow> [] | Some c \<Rightarrow> ci_connectorInstanceId c)"

definition runtime_generation :: "ConnectorRuntimeIdentity option \<Rightarrow> int" where
  "runtime_generation r = (case r of None \<Rightarrow> 0 | Some c \<Rightarrow> ci_connectionGeneration c)"

definition isPreferredConnectorRuntime ::
  "platform \<Rightarrow> (string \<Rightarrow> string \<Rightarrow> int) \<Rightarrow> ConnectorRuntimeIdentity option \<Rightarrow>
   ConnectorRuntimeIdentity option \<Rightarrow> bool" where
  "isPreferredConnectorRuntime pf localeCompare candidate current \<longleftrightarrow>
     (case (runtime_started pf candidate, runtime_started pf current) of
        (Some a, Some b) \<Rightarrow>
          if a \<noteq> b then a > b
          else if runtime_id candidate = runtime_id current then
            runtime_generation candidate > runtime_generation current
          else localeCompare (runtime_id candidate) (runtime_id current) > 0
      | (Some a, None) \<Rightarrow> True
      | (None, _) \<Rightarrow> False)"

definition selectPreferredConnectorProtocol :: "nat \<Rightarrow> nat \<Rightarrow> bool \<Rightarrow> bool \<Rightarrow> nat option" where
  "selectPreferredConnectorProtocol edgeVersion legacyVersion v3Ready legacyReady =
     (if v3Ready then Some edgeVersion else if legacyReady then Some legacyVersion else None)"

subsection \<open>Deployments, promotions and rollbacks\<close>

text \<open>
  The stored state under any sequence of restarts (each with the revision of its build),
  promotions and rollbacks. A refused request leaves the state.
\<close>

definition keep_state ::
  "McpContractRolloutState \<Rightarrow> rollout_code + McpContractRolloutState \<times> bool \<Rightarrow> McpContractRolloutState" where
  "keep_state s res = (case res of Inl c \<Rightarrow> s | Inr (s', _) \<Rightarrow> s')"

inductive rollout_step :: "McpContractRolloutState \<Rightarrow> McpContractRolloutState \<Rightarrow> bool" where
  restart: "is_sha256_hex expected \<Longrightarrow>
    rollout_step s (fst (reconcileMcpContractRolloutState expected (rollout_state_json s) observed now))"
| promote: "is_sha256_hex expected \<Longrightarrow>
    rollout_step s (keep_state s (promoteMcpContractRolloutState expected s a c ready now))"
| rollback: "is_sha256_hex expected \<Longrightarrow>
    rollout_step s (keep_state s (rollbackMcpContractRolloutState expected s a p ready now))"

subsection \<open>Well-formed states\<close>

definition other_revision :: "string \<Rightarrow> string option \<Rightarrow> bool" where
  "other_revision active r \<longleftrightarrow> (case r of None \<Rightarrow> True | Some x \<Rightarrow> is_sha256_hex x \<and> x \<noteq> active)"

definition rollout_state_ok :: "McpContractRolloutState \<Rightarrow> bool" where
  "rollout_state_ok s \<longleftrightarrow> is_sha256_hex (cr_activeContractRevision s) \<and>
     other_revision (cr_activeContractRevision s) (cr_candidateContractRevision s) \<and>
     other_revision (cr_activeContractRevision s) (cr_previousContractRevision s)"

lemma other_revision_simps [simp]:
  "other_revision a None" "other_revision a (Some x) \<longleftrightarrow> is_sha256_hex x \<and> x \<noteq> a"
  by (simp_all add: other_revision_def)

lemma revision_iff: "isMcpContractRevision v \<longleftrightarrow> (\<exists>s. v = JString s \<and> is_sha256_hex s)"
  by (cases v) (auto simp: isMcpContractRevision_def)

lemma optional_revision_iff:
  "optional_revision_ok (JString a) v \<longleftrightarrow> v = optional_value (string_value v) \<and> other_revision a (string_value v)"
  by (cases v) (auto simp: optional_revision_ok_def revision_iff optional_value_def other_revision_def string_value_def)

lemma string_value_optional [simp]: "string_value (optional_value r) = r"
  by (cases r) (simp_all add: optional_value_def string_value_def)

lemma accepted_state_ok: "isMcpContractRolloutState v \<Longrightarrow> rollout_state_ok (rollout_state_of v)"
  by (auto simp: isMcpContractRolloutState_def rollout_state_ok_def rollout_state_of_def revision_iff
      optional_revision_iff split: option.splits)

lemma stored_state_accepted: "isMcpContractRolloutState (rollout_state_json s) \<longleftrightarrow> rollout_state_ok s"
  by (auto simp: isMcpContractRolloutState_def rollout_state_ok_def rollout_state_json_def isRecord_def
      prop_of_def revision_iff optional_revision_iff)

lemma stored_state_read [simp]: "rollout_state_of (rollout_state_json s) = s"
  by (cases s) (simp add: rollout_state_of_def rollout_state_json_def isRecord_def prop_of_def)

lemma reconcile_ok:
  assumes "is_sha256_hex expected"
  shows "rollout_state_ok (fst (reconcileMcpContractRolloutState expected current observed now))"
proof (cases "isMcpContractRolloutState current")
  case True
  with accepted_state_ok [OF True] assms show ?thesis
    by (auto simp: reconcileMcpContractRolloutState_def rollout_state_ok_def Let_def)
next
  case False
  with assms show ?thesis
    by (auto simp: reconcileMcpContractRolloutState_def rollout_state_ok_def revision_iff optional_value_def
        split: option.splits)
qed

lemma promote_ok:
  "rollout_state_ok s \<Longrightarrow> is_sha256_hex expected \<Longrightarrow>
   rollout_state_ok (keep_state s (promoteMcpContractRolloutState expected s a c ready now))"
  by (auto simp: keep_state_def promoteMcpContractRolloutState_def rollout_state_ok_def)

lemma rollback_ok:
  "rollout_state_ok s \<Longrightarrow> is_sha256_hex expected \<Longrightarrow>
   rollout_state_ok (keep_state s (rollbackMcpContractRolloutState expected s a p ready now))"
  by (auto simp: keep_state_def rollbackMcpContractRolloutState_def rollout_state_ok_def)

lemma rollout_step_ok: "rollout_step s s' \<Longrightarrow> rollout_state_ok s \<Longrightarrow> rollout_state_ok s'"
  by (induction rule: rollout_step.induct) (auto intro: reconcile_ok promote_ok rollback_ok)

lemma rollout_steps_ok: "rollout_step\<^sup>*\<^sup>* s s' \<Longrightarrow> rollout_state_ok s \<Longrightarrow> rollout_state_ok s'"
  by (induction rule: rtranclp_induct) (auto intro: rollout_step_ok)

subsection \<open>Properties\<close>

definition demo_revision :: "char \<Rightarrow> string" where
  "demo_revision c = replicate 64 c"

lemma demo_revision_ok: "is_sha256_hex (demo_revision (CHR ''1''))" "is_sha256_hex (demo_revision (CHR ''2''))"
  by code_simp+

text \<open>
  C30. From whatever value is in storage, a first start and then any sequence of restarts with
  other builds, promotions and rollbacks leave a state that, once stored, the guard accepts
  and reads back unchanged: valid revisions, with the candidate and the previous one different
  from the active one. A connector that serves the active revision is always compatible.\<close>

theorem rollout_state_always_valid:
  assumes "is_sha256_hex expected"
    and "rollout_step\<^sup>*\<^sup>* (fst (reconcileMcpContractRolloutState expected stored observed now)) s"
  shows "isMcpContractRolloutState (rollout_state_json s) \<and> rollout_state_of (rollout_state_json s) = s \<and>
     isConnectorContractCompatible (Some (cr_activeContractRevision s)) s"
  using rollout_steps_ok [OF assms(2) reconcile_ok [OF assms(1)]]
  by (simp add: stored_state_accepted isConnectorContractCompatible_def rollout_state_ok_def revision_iff)

theorem rollout_state_always_valid_witness:
  "isMcpContractRolloutState (rollout_state_json (keep_state
     (fst (reconcileMcpContractRolloutState (demo_revision (CHR ''2'')) JNull (Some (demo_revision (CHR ''1''))) ''t''))
     (promoteMcpContractRolloutState (demo_revision (CHR ''2''))
       (fst (reconcileMcpContractRolloutState (demo_revision (CHR ''2'')) JNull (Some (demo_revision (CHR ''1''))) ''t''))
       (demo_revision (CHR ''1'')) (demo_revision (CHR ''2'')) (Some (demo_revision (CHR ''2''))) ''u'')))"
  by (rule conjunct1 [OF rollout_state_always_valid [OF demo_revision_ok(2)]])
    (rule r_into_rtranclp, rule promote, rule demo_revision_ok(2))


definition prepared_state :: McpContractRolloutState where
  "prepared_state = \<lparr>cr_activeContractRevision = demo_revision (CHR ''1''),
     cr_candidateContractRevision = Some (demo_revision (CHR ''2'')), cr_previousContractRevision = None,
     cr_preparedAt = JString ''t'', cr_promotedAt = JUndefined\<rparr>"


definition tie_break ::
  "(string \<Rightarrow> string \<Rightarrow> int) \<Rightarrow> ConnectorRuntimeIdentity option \<Rightarrow> ConnectorRuntimeIdentity option \<Rightarrow> bool" where
  "tie_break lc x y \<longleftrightarrow> (if runtime_id x = runtime_id y then runtime_generation x > runtime_generation y
     else lc (runtime_id x) (runtime_id y) > 0)"

lemma tie_break_trans:
  assumes asym: "\<forall>x y. lc x y > 0 \<longrightarrow> \<not> lc y x > 0"
    and trans: "\<forall>x y z. lc x y > 0 \<longrightarrow> lc y z > 0 \<longrightarrow> lc x z > 0"
    and xy: "tie_break lc x y" and yz: "tie_break lc y z"
  shows "tie_break lc x z"
proof (cases "runtime_id x = runtime_id y \<or> runtime_id y = runtime_id z")
  case True
  with xy yz show ?thesis by (auto simp: tie_break_def split: if_splits)
next
  case False
  then have "lc (runtime_id x) (runtime_id y) > 0" "lc (runtime_id y) (runtime_id z) > 0"
    using xy yz by (simp_all add: tie_break_def)
  note pos = this
  have "runtime_id x \<noteq> runtime_id z"
    using asym [rule_format, OF pos(1)] pos(2) by auto
  moreover have "lc (runtime_id x) (runtime_id z) > 0"
    by (rule trans [rule_format, OF pos])
  ultimately show ?thesis by (simp add: tie_break_def)
qed

lemma preferred_iff:
  "isPreferredConnectorRuntime pf lc x y \<longleftrightarrow>
     (\<exists>a. runtime_started pf x = Some a \<and>
       (\<forall>b. runtime_started pf y = Some b \<longrightarrow> a > b \<or> (a = b \<and> tie_break lc x y)))"
  by (auto simp: isPreferredConnectorRuntime_def tie_break_def split: option.splits)

text \<open>
  Handover cannot flip back and forth. When string comparison is antisymmetric and transitive,
  the preference between connector runtimes is a strict order: no runtime is preferred to itself,
  two runtimes are never each preferred to the other, and preference is transitive.\<close>

theorem handover_preference_strict_order:
  assumes "\<forall>x y. localeCompare x y > 0 \<longrightarrow> \<not> localeCompare y x > 0"
    and "\<forall>x y z. localeCompare x y > 0 \<longrightarrow> localeCompare y z > 0 \<longrightarrow> localeCompare x z > 0"
  shows "\<not> isPreferredConnectorRuntime pf localeCompare a a \<and>
     \<not> (isPreferredConnectorRuntime pf localeCompare a b \<and> isPreferredConnectorRuntime pf localeCompare b a) \<and>
     (isPreferredConnectorRuntime pf localeCompare a b \<longrightarrow> isPreferredConnectorRuntime pf localeCompare b c \<longrightarrow>
        isPreferredConnectorRuntime pf localeCompare a c)"
proof -
  let ?p = "isPreferredConnectorRuntime pf localeCompare"
  have irr: "\<not> ?p x x" for x
    by (auto simp: preferred_iff tie_break_def)
  have trans: "?p x z" if xyz: "?p x y" "?p y z" for x y z
  proof -
    obtain a b where ab: "runtime_started pf x = Some a" "runtime_started pf y = Some b"
      using xyz unfolding preferred_iff by blast
    show ?thesis
    proof (cases "runtime_started pf z")
      case None
      with ab show ?thesis by (simp add: preferred_iff)
    next
      case (Some c)
      with ab xyz have "a > b \<or> (a = b \<and> tie_break localeCompare x y)" "b > c \<or> (b = c \<and> tie_break localeCompare y z)"
        by (auto simp: preferred_iff)
      then have "a > c \<or> (a = c \<and> tie_break localeCompare x z)"
        using tie_break_trans [OF assms] by fastforce
      with ab Some show ?thesis by (simp add: preferred_iff)
    qed
  qed
  show ?thesis using irr trans by blast
qed

definition demo_runtime :: "string \<Rightarrow> int \<Rightarrow> ConnectorRuntimeIdentity option" where
  "demo_runtime started generation = Some \<lparr>ci_connectorInstanceId = ''c1'', ci_connectionGeneration = generation,
     ci_processStartedAt = started, ci_catalogContractRevision = [], ci_toolSetRevision = [], ci_toolCount = 1,
     ci_serverVersion = ''1'', ci_nodePid = 1, ci_hostPid = 1\<rparr>"

definition demo_clock :: platform where
  "demo_clock = \<lparr>pf_json_parse = (\<lambda>t. None), pf_url_pathname = Some,
     pf_date_parse = (\<lambda>t. if t = [] then None else Some (int (length t))), pf_toISOString = (\<lambda>t. [])\<rparr>"

theorem handover_preference_strict_order_witness:
  "isPreferredConnectorRuntime demo_clock (\<lambda>x y. int (length x) - int (length y))
     (demo_runtime ''2026'' 2) (demo_runtime ''26'' 7)"
proof -
  let ?p = "isPreferredConnectorRuntime demo_clock (\<lambda>x y. int (length x) - int (length y))"
  have "?p (demo_runtime ''2026'' 2) (demo_runtime ''2026'' 1) \<and> ?p (demo_runtime ''2026'' 1) (demo_runtime ''26'' 7)"
    by (simp add: isPreferredConnectorRuntime_def runtime_started_def runtime_id_def runtime_generation_def
        demo_runtime_def demo_clock_def)
  with handover_preference_strict_order [of "\<lambda>x y. int (length x) - int (length y)" demo_clock
      "demo_runtime ''2026'' 2" "demo_runtime ''2026'' 1" "demo_runtime ''26'' 7"]
  show ?thesis by simp
qed

end
