(* ===== verification/Edge_Trust.thy ===== *)
theory Edge_Trust
  imports Edge_Protocol
begin

text \<open>
  How the gateway behind the connector trusts a relayed request:
  \<open>services/mcp-gateway/src/edge/internal-trust.ts\<close>.

  The principal travels in a header as the unpadded base64url text of its JSON. \<open>Buffer\<close>'s
  base64url coding is defined on byte lists. The parameters are \<open>parse_bytes\<close>, the value of
  \<open>JSON.parse(buffer.toString("utf8"))\<close>, and the SHA-256 digest.
\<close>

subsection \<open>Base64url\<close>

definition base64url_alphabet :: string where
  "base64url_alphabet = ''ABCDEFGHIJKLMNOPQRSTUVWXYZabcdefghijklmnopqrstuvwxyz0123456789-_''"

definition b64_char :: "nat \<Rightarrow> char" where
  "b64_char n = base64url_alphabet ! n"

fun index_of :: "'a \<Rightarrow> 'a list \<Rightarrow> nat" where
  "index_of x [] = 0"
| "index_of x (y # ys) = (if x = y then 0 else Suc (index_of x ys))"

definition b64_value :: "char \<Rightarrow> nat" where
  "b64_value c = index_of c base64url_alphabet"

fun base64url_encode :: "nat list \<Rightarrow> string" where
  "base64url_encode [] = []"
| "base64url_encode [a] = [b64_char (a div 4), b64_char (a mod 4 * 16)]"
| "base64url_encode [a, b] =
     [b64_char (a div 4), b64_char (a mod 4 * 16 + b div 16), b64_char (b mod 16 * 4)]"
| "base64url_encode (a # b # c # bs) =
     [b64_char (a div 4), b64_char (a mod 4 * 16 + b div 16), b64_char (b mod 16 * 4 + c div 64),
      b64_char (c mod 64)] @ base64url_encode bs"

text \<open>\<open>Buffer.from(value, "base64url")\<close> on texts over the alphabet: a single last digit is dropped.\<close>

fun base64url_decode :: "string \<Rightarrow> nat list" where
  "base64url_decode [] = []"
| "base64url_decode [x] = []"
| "base64url_decode [x, y] = [b64_value x * 4 + b64_value y div 16]"
| "base64url_decode [x, y, z] =
     [b64_value x * 4 + b64_value y div 16, b64_value y mod 16 * 16 + b64_value z div 4]"
| "base64url_decode (x # y # z # w # cs) =
     [b64_value x * 4 + b64_value y div 16, b64_value y mod 16 * 16 + b64_value z div 4,
      b64_value z mod 4 * 64 + b64_value w] @ base64url_decode cs"

definition BASE64URL_PATTERN :: "string \<Rightarrow> bool" where
  "BASE64URL_PATTERN s \<longleftrightarrow> s \<noteq> [] \<and> list_all (\<lambda>c. c \<in> set base64url_alphabet) s"

lemma b64_value_char [simp]: "n < 64 \<Longrightarrow> b64_value (b64_char n) = n"
proof -
  have "list_all (\<lambda>n. b64_value (b64_char n) = n) [0..<64]"
    by code_simp
  then show "n < 64 \<Longrightarrow> b64_value (b64_char n) = n" by (simp add: list_all_iff)
qed

lemma b64_char_in_alphabet [simp]: "n < 64 \<Longrightarrow> b64_char n \<in> set base64url_alphabet"
  unfolding b64_char_def by (rule nth_mem) (simp add: base64url_alphabet_def)

lemma base64url_round_trip:
  "list_all (\<lambda>b. b < 256) bs \<Longrightarrow> base64url_decode (base64url_encode bs) = bs"
  by (induction bs rule: base64url_encode.induct) (auto simp: less_mult_imp_div_less)

lemma base64url_alphabet_only:
  "list_all (\<lambda>b. b < 256) bs \<Longrightarrow> list_all (\<lambda>c. c \<in> set base64url_alphabet) (base64url_encode bs)"
  by (induction bs rule: base64url_encode.induct) auto

lemma base64url_length: "length (base64url_encode bs) = (4 * length bs + 2) div 3"
  by (induction bs rule: base64url_encode.induct) auto

lemma utf8_bytes: "list_all (\<lambda>b. b < 256) (buffer_from s)"
proof -
  have "b < 256" if "b \<in> set (utf8_char c)" for b c
  proof -
    have "(of_char c :: nat) < 256" by simp
    then have "(of_char c :: nat) div 64 < 4" by (simp add: less_mult_imp_div_less)
    with that show ?thesis by (auto simp: utf8_char_def Let_def split: if_splits)
  qed
  then show ?thesis by (auto simp: buffer_from_def list_all_iff)
qed

subsection \<open>Assertions and principals\<close>

definition MAX_PRINCIPAL_HEADER_BYTES :: nat where
  "MAX_PRINCIPAL_HEADER_BYTES = 8 * 1024"

definition EDGE_INTERNAL_ASSERTION_HEADER :: string where
  "EDGE_INTERNAL_ASSERTION_HEADER = ''x-mcp-edge-internal-assertion''"

definition EDGE_INTERNAL_PRINCIPAL_HEADER :: string where
  "EDGE_INTERNAL_PRINCIPAL_HEADER = ''x-mcp-edge-principal''"

definition assertValidEdgeInternalAssertion :: "string \<Rightarrow> unit result" where
  "assertValidEdgeInternalAssertion v =
     (if length v < 43 \<or> length v > 128 \<or> \<not> BASE64URL_PATTERN v then
        Inl (PlainError ''Edge internal assertion must be a base64url value derived from at least 32 random bytes.'')
      else Inr ())"

text \<open>A principal has no numbers, so the number format of the JSON text does not matter.\<close>

definition principal_text :: "AuthenticatedEdgePrincipal \<Rightarrow> string" where
  "principal_text p = the (json_stringify (\<lambda>n::js_number. []) (principal_json p))"

definition encodeEdgeAuthenticatedPrincipal :: "AuthenticatedEdgePrincipal \<Rightarrow> string" where
  "encodeEdgeAuthenticatedPrincipal p = base64url_encode (buffer_from (principal_text p))"

definition decodeEdgeAuthenticatedPrincipal ::
  "(nat list \<Rightarrow> js_value option) \<Rightarrow> string \<Rightarrow> AuthenticatedEdgePrincipal option" where
  "decodeEdgeAuthenticatedPrincipal parse_bytes v =
     (if length v = 0 \<or> length v > MAX_PRINCIPAL_HEADER_BYTES \<or> \<not> BASE64URL_PATTERN v then None
      else
        (let buffer = base64url_decode v in
         if base64url_encode buffer \<noteq> v then None
         else Option.bind (parse_bytes buffer) parseAuthenticatedEdgePrincipal))"

record auth_info =
  au_token :: string
  au_clientId :: string
  au_scopes :: "string list"
  au_subject :: string
  au_ownerScope :: "string option"

text \<open>
  The middleware: the request's headers (lower-case names) and the new authentication, or the
  status 401. \<open>Inr\<close> is a request handed on, without the two internal headers.
\<close>

definition edge_trusted_authentication ::
  "(string \<Rightarrow> nat list) \<Rightarrow> (nat list \<Rightarrow> js_value option) \<Rightarrow> string \<Rightarrow> (string, string) jsmap \<Rightarrow>
   nat + (string, string) jsmap \<times> auth_info" where
  "edge_trusted_authentication digest parse_bytes internalAssertion headers =
     (let assertion = (case js_get headers EDGE_INTERNAL_ASSERTION_HEADER of None \<Rightarrow> [] | Some v \<Rightarrow> v);
          encodedPrincipal = (case js_get headers EDGE_INTERNAL_PRINCIPAL_HEADER of None \<Rightarrow> [] | Some v \<Rightarrow> v) in
      if assertion = [] \<or> encodedPrincipal = [] \<or> digest internalAssertion \<noteq> digest assertion then Inl 401
      else
        (case decodeEdgeAuthenticatedPrincipal parse_bytes encodedPrincipal of
           None \<Rightarrow> Inl 401
         | Some pr \<Rightarrow>
             Inr (js_delete EDGE_INTERNAL_PRINCIPAL_HEADER (js_delete EDGE_INTERNAL_ASSERTION_HEADER headers),
               \<lparr>au_token = ''edge-trusted'', au_clientId = ''edge-control-plane'',
                 au_scopes = pr_scopes pr, au_subject = pr_subject pr,
                 au_ownerScope = pr_ownerScope pr\<rparr>)))"

lemma decode_encode_principal:
  assumes "principal_ok p" and "parse_bytes (buffer_from (principal_text p)) = Some (principal_json p)"
    and "length (encodeEdgeAuthenticatedPrincipal p) \<le> MAX_PRINCIPAL_HEADER_BYTES"
  shows "decodeEdgeAuthenticatedPrincipal parse_bytes (encodeEdgeAuthenticatedPrincipal p) = Some p"
proof -
  have ne: "principal_text p \<noteq> []"
    by (simp add: principal_text_def principal_json_def)
  then have "buffer_from (principal_text p) \<noteq> []"
    using buffer_from_inj [of "principal_text p" "[]"] by simp
  then have enc: "encodeEdgeAuthenticatedPrincipal p \<noteq> []"
    by (cases "buffer_from (principal_text p)" rule: base64url_encode.cases)
      (auto simp: encodeEdgeAuthenticatedPrincipal_def)
  have "base64url_decode (encodeEdgeAuthenticatedPrincipal p) = buffer_from (principal_text p)"
    by (simp add: encodeEdgeAuthenticatedPrincipal_def base64url_round_trip utf8_bytes)
  with assms enc show ?thesis
    by (simp add: decodeEdgeAuthenticatedPrincipal_def Let_def BASE64URL_PATTERN_def principal_round_trip
        base64url_alphabet_only utf8_bytes flip: encodeEdgeAuthenticatedPrincipal_def)
      (simp add: encodeEdgeAuthenticatedPrincipal_def base64url_alphabet_only utf8_bytes)
qed

subsection \<open>Principals too large for the header\<close>

lemma buffer_from_length: "length (buffer_from s) \<ge> length s"
proof (induction s)
  case (Cons c s)
  have "length (utf8_char c) \<ge> 1" by (auto simp: utf8_char_def Let_def)
  with Cons show ?case by simp
qed simp

lemma json_quote_length: "length (json_quote s) \<ge> length s + 2"
proof -
  have "length (concat (map json_escape s)) \<ge> length s"
  proof (induction s)
    case (Cons c s)
    have "length (json_escape c) \<ge> 1" by (auto simp: json_escape_def Let_def)
    with Cons show ?case by simp
  qed simp
  then show ?thesis by (simp add: json_quote_def)
qed

lemma join_with_length: "length (join_with sep xs) \<ge> sum_list (map length xs)"
  by (induction sep xs rule: join_with.induct) auto

lemma principal_text_length: "length (principal_text p) \<ge> sum_list (map length (pr_scopes p))"
proof -
  have "sum_list (map length (pr_scopes p)) \<le> sum_list (map length (map json_quote (pr_scopes p)))"
  proof (induction "pr_scopes p" arbitrary: p)
    case (Cons x xs)
    have "sum_list (map length xs) \<le> sum_list (map length (map json_quote xs))"
      using Cons.hyps(1) [of "p\<lparr>pr_scopes := xs\<rparr>"] by simp
    with json_quote_length [of x] show ?case
      by (simp add: Cons.hyps(2) [symmetric])
  qed simp
  also have "\<dots> \<le> length (join_with '','' (map json_quote (pr_scopes p)))"
    by (rule join_with_length)
  also have "\<dots> \<le> length (principal_text p)"
    by (cases "pr_ownerScope p") (simp_all add: principal_text_def principal_json_def comp_def)
  finally show ?thesis .
qed

theorem large_principal_refused:
  assumes "sum_list (map length (pr_scopes p)) \<ge> 6145"
  shows "decodeEdgeAuthenticatedPrincipal parse_bytes (encodeEdgeAuthenticatedPrincipal p) = None"
proof -
  have "6145 \<le> length (buffer_from (principal_text p))"
    using assms principal_text_length [of p] buffer_from_length [of "principal_text p"] by linarith
  then have "length (encodeEdgeAuthenticatedPrincipal p) > 8192"
    by (simp add: encodeEdgeAuthenticatedPrincipal_def base64url_length)
  then show ?thesis
    by (simp add: decodeEdgeAuthenticatedPrincipal_def MAX_PRINCIPAL_HEADER_BYTES_def)
qed

definition wide_principal :: AuthenticatedEdgePrincipal where
  "wide_principal = \<lparr>pr_subject = ''owner'',
     pr_scopes = map (\<lambda>n. replicate n (CHR ''s'')) [193..<257], pr_ownerScope = None\<rparr>"

theorem wide_principal_refused:
  "principal_ok wide_principal \<and>
   decodeEdgeAuthenticatedPrincipal parse_bytes (encodeEdgeAuthenticatedPrincipal wide_principal) = None"
proof -
  have "distinct (pr_scopes wide_principal)"
    by (auto simp: wide_principal_def distinct_map inj_on_def)
  then have "principal_ok wide_principal"
    by (auto simp: principal_ok_def wide_principal_def list_all_iff)
  moreover have "sum_list (map length (pr_scopes wide_principal)) = (\<Sum>n\<leftarrow>[193..<257]. n)"
    by (simp add: wide_principal_def comp_def)
  moreover have "\<dots> \<ge> 6145" by code_simp
  ultimately show ?thesis using large_principal_refused by simp
qed

end
