(* ===== verification/Edge_Connector.thy ===== *)
theory Edge_Connector
  imports Edge_Trust Complex_Main
begin

text \<open>
  The connector between the edge gateway and the local gateway:
  \<open>services/mcp-gateway/src/edge/connector.ts\<close>.

  One call of a handler is one function: it returns the actions on the socket, in order, and the
  new state. An abort controller is a number; \<open>co_aborted\<close> holds the controllers that were
  aborted, with the reason. \<open>co_inflight\<close> holds the calls of \<open>forwardRequest\<close> that have not
  ended: they outlive the connection they came from. Log entries are left out. A parsed URL is a
  record of its parts; \<open>resolve\<close> gives the origin and the text of \<open>new URL(path, localBaseUrl)\<close>
  (\<open>None\<close> when it throws), and the answer of \<open>fetch\<close> is an argument.
\<close>

subsection \<open>Configuration\<close>

record url_parts =
  u_protocol :: string
  u_hostname :: string
  u_pathname :: string
  u_username :: string
  u_password :: string
  u_search :: string
  u_hash :: string

definition invalid_url :: exn where
  "invalid_url = TypeError ''Invalid URL''"

definition validateEdgeUrl :: "url_parts option \<Rightarrow> url_parts result" where
  "validateEdgeUrl v =
     (case v of
        None \<Rightarrow> Inl invalid_url
      | Some url \<Rightarrow>
          if u_protocol url \<notin> {''ws:'', ''wss:''} then
            Inl (AppError INVALID_ARGUMENT ''Edge connector URL must use ws or wss.'')
          else if u_pathname url \<noteq> ''/connector'' \<or> u_username url \<noteq> [] \<or> u_password url \<noteq> [] \<or>
                  u_search url \<noteq> [] \<or> u_hash url \<noteq> [] then
            Inl (AppError INVALID_ARGUMENT ''Edge connector URL must be an origin plus /connector without credentials, query, or fragment.'')
          else Inr url)"

definition validateLocalBaseUrl :: "url_parts option \<Rightarrow> url_parts result" where
  "validateLocalBaseUrl v =
     (case v of
        None \<Rightarrow> Inl invalid_url
      | Some url \<Rightarrow>
          if u_protocol url \<noteq> ''http:'' \<or> u_hostname url \<notin> {''127.0.0.1'', ''localhost'', ''[::1]''} \<or>
             u_username url \<noteq> [] \<or> u_password url \<noteq> [] \<or> u_search url \<noteq> [] \<or> u_hash url \<noteq> [] \<or>
             u_pathname url \<noteq> ''/'' then
            Inl (AppError INVALID_ARGUMENT ''Local Gateway URL must be a loopback HTTP origin.'')
          else Inr url)"

record EdgeConnectorOptions =
  eo_edgeUrl :: "url_parts option"
  eo_token :: string
  eo_internalAssertion :: string
  eo_localBaseUrl :: "url_parts option"
  eo_runtimeIdentity :: "ConnectorRuntimeIdentity option"
  eo_maxPayloadBytes :: "js_number option"
  eo_maxConcurrentRequests :: "js_number option"
  eo_heartbeatIntervalMs :: "js_number option"
  eo_reconnectMinMs :: "js_number option"
  eo_reconnectMaxMs :: "js_number option"

record connector_config =
  cf_edgeUrl :: url_parts
  cf_localBaseUrl :: url_parts
  cf_token :: string
  cf_internalAssertion :: string
  cf_runtimeIdentity :: "ConnectorRuntimeIdentity option"
  cf_maxPayloadBytes :: int
  cf_maxConcurrentRequests :: int
  cf_heartbeatIntervalMs :: int
  cf_reconnectMinMs :: int
  cf_reconnectMaxMs :: int

definition positive_setting :: "string \<Rightarrow> int \<Rightarrow> js_number option \<Rightarrow> int result" where
  "positive_setting name fallback v =
     (case v of
        None \<Rightarrow> Inr fallback
      | Some (JsInt n) \<Rightarrow>
          if safe_positive n then Inr n
          else Inl (AppError INVALID_ARGUMENT (name @ '' must be a positive integer.''))
      | Some JsOther \<Rightarrow> Inl (AppError INVALID_ARGUMENT (name @ '' must be a positive integer.'')))"

definition edge_connector_new :: "EdgeConnectorOptions \<Rightarrow> connector_config result" where
  "edge_connector_new options =
     bind_result (validateEdgeUrl (eo_edgeUrl options)) (\<lambda>edgeUrl.
     bind_result (validateLocalBaseUrl (eo_localBaseUrl options)) (\<lambda>localBaseUrl.
     if length (eo_token options) < 32 then
       Inl (AppError INVALID_ARGUMENT ''Connector token must contain at least 32 characters.'')
     else
     bind_result (assertValidEdgeInternalAssertion (eo_internalAssertion options)) (\<lambda>_.
     bind_result (positive_setting ''maxPayloadBytes'' (24 * 1024 * 1024) (eo_maxPayloadBytes options)) (\<lambda>payload.
     bind_result (positive_setting ''maxConcurrentRequests'' 8 (eo_maxConcurrentRequests options)) (\<lambda>concurrent.
     bind_result (positive_setting ''heartbeatIntervalMs'' 30000 (eo_heartbeatIntervalMs options)) (\<lambda>heartbeat.
     bind_result (positive_setting ''reconnectMinMs'' 1000 (eo_reconnectMinMs options)) (\<lambda>minMs.
     bind_result (positive_setting ''reconnectMaxMs'' 30000 (eo_reconnectMaxMs options)) (\<lambda>maxMs.
     if maxMs < minMs then
       Inl (AppError INVALID_ARGUMENT ''reconnectMaxMs must be greater than or equal to reconnectMinMs.'')
     else
       Inr \<lparr>cf_edgeUrl = edgeUrl\<lparr>u_search := ''?protocol=3''\<rparr>, cf_localBaseUrl = localBaseUrl,
             cf_token = eo_token options, cf_internalAssertion = eo_internalAssertion options,
             cf_runtimeIdentity = eo_runtimeIdentity options, cf_maxPayloadBytes = payload,
             cf_maxConcurrentRequests = concurrent, cf_heartbeatIntervalMs = heartbeat,
             cf_reconnectMinMs = minMs, cf_reconnectMaxMs = maxMs\<rparr>))))))))"

subsection \<open>State\<close>

record ConnectionState =
  cs_generation :: int
  cs_protocolReady :: bool
  cs_connectionStartedAtMs :: instant
  cs_connectedAtMs :: "instant option"
  cs_readyAtMs :: "instant option"
  cs_pingCount :: nat
  cs_pongCount :: nat
  cs_heartbeatTimeout :: bool
  cs_isAlive :: bool
  cs_open :: bool

record connector =
  co_activeRequests :: "(string, nat) jsmap"
  co_aborted :: "(nat, string) jsmap"
  co_controllers :: nat
  co_inflight :: "(EdgeHttpRequestMessage \<times> nat) list"
  co_stopped :: bool
  co_generation :: int
  co_connectionFailures :: nat
  co_consecutiveFailures :: nat
  co_offlineSinceMs :: "instant option"

definition new_connector :: connector where
  "new_connector = \<lparr>co_activeRequests = [], co_aborted = [], co_controllers = 0, co_inflight = [],
     co_stopped = False, co_generation = 0, co_connectionFailures = 0, co_consecutiveFailures = 0,
     co_offlineSinceMs = None\<rparr>"

datatype connector_action =
    CloseSocket nat string
  | TerminateSocket
  | PingSocket
  | SendMessage ConnectorToEdgeMessage

text \<open>\<open>controller.abort(reason)\<close>: the first reason stays.\<close>

definition abort_controller :: "nat \<Rightarrow> string \<Rightarrow> connector \<Rightarrow> connector" where
  "abort_controller k reason co =
     (if js_get (co_aborted co) k = None then co\<lparr>co_aborted := js_set k reason (co_aborted co)\<rparr> else co)"

definition abortAllRequests :: "string \<Rightarrow> connector \<Rightarrow> connector" where
  "abortAllRequests reason co =
     (fold (\<lambda>k. abort_controller k reason) (js_values (co_activeRequests co)) co)\<lparr>co_activeRequests := []\<rparr>"

definition stop_connector :: "connector \<Rightarrow> connector" where
  "stop_connector co = abortAllRequests ''connector_stopped'' (co\<lparr>co_stopped := True\<rparr>)"

definition currentOfflineDurationMs :: "instant \<Rightarrow> connector \<Rightarrow> int" where
  "currentOfflineDurationMs now co =
     (case co_offlineSinceMs co of None \<Rightarrow> 0 | Some since \<Rightarrow> max 0 (now - since))"

definition error_response :: "string \<Rightarrow> int \<Rightarrow> (string \<times> string) list \<Rightarrow> string \<Rightarrow> EdgeHttpResponseMessage" where
  "error_response requestId status extra error =
     \<lparr>rs_requestId = requestId, rs_status = status,
      rs_headers = Some ((''content-type'', ''application/json; charset=utf-8'') # extra),
      rs_body = the (json_stringify (\<lambda>n::js_number. []) (JObject True [(''error'', JString error)]))\<rparr>"

definition sendResponse :: "bool \<Rightarrow> EdgeHttpResponseMessage \<Rightarrow> connector_action list" where
  "sendResponse socketOpen response = (if socketOpen then [SendMessage (EdgeHttpResponse response)] else [])"

subsection \<open>Messages from the edge\<close>

definition handle_hello ::
  "connector_config \<Rightarrow> instant \<Rightarrow> ConnectionState \<Rightarrow> connector \<Rightarrow>
   connector_action list \<times> ConnectionState \<times> connector" where
  "handle_hello cfg now conn co =
     (if cs_protocolReady conn then ([CloseSocket 1008 ''duplicate edge hello''], conn, co)
      else
        (let runtime = map_option (\<lambda>r. r\<lparr>ci_connectionGeneration := cs_generation conn\<rparr>) (cf_runtimeIdentity cfg) in
         ([SendMessage (ConnectorReady runtime)],
          conn\<lparr>cs_protocolReady := True, cs_readyAtMs := Some now\<rparr>,
          co\<lparr>co_offlineSinceMs := None, co_consecutiveFailures := 0\<rparr>)))"

definition handle_request ::
  "connector_config \<Rightarrow> EdgeHttpRequestMessage \<Rightarrow> ConnectionState \<Rightarrow> connector \<Rightarrow>
   connector_action list \<times> ConnectionState \<times> connector" where
  "handle_request cfg message conn co =
     (if js_get (co_activeRequests co) (rq_requestId message) \<noteq> None then
        ([CloseSocket 1008 ''duplicate request id''], conn, co)
      else if int (length (co_activeRequests co)) \<ge> cf_maxConcurrentRequests cfg then
        (sendResponse (cs_open conn)
           (error_response (rq_requestId message) 503 [(''retry-after'', ''1'')] ''connector_busy''), conn, co)
      else
        (let controller = co_controllers co in
         ([], conn,
          co\<lparr>co_activeRequests := js_set (rq_requestId message) controller (co_activeRequests co),
              co_controllers := Suc controller,
              co_inflight := co_inflight co @ [(message, controller)]\<rparr>)))"

text \<open>\<open>byteLength\<close> and \<open>text\<close> are the size of the received buffer and its UTF-8 text.\<close>

definition handleMessage ::
  "connector_config \<Rightarrow> platform \<Rightarrow> instant \<Rightarrow> bool \<Rightarrow> nat \<Rightarrow> string \<Rightarrow> ConnectionState \<Rightarrow> connector \<Rightarrow>
   connector_action list \<times> ConnectionState \<times> connector" where
  "handleMessage cfg pf now isBinary byteLength text conn co =
     (if isBinary then ([CloseSocket 1003 ''binary messages are not supported''], conn, co)
      else if int byteLength > cf_maxPayloadBytes cfg then ([CloseSocket 1009 ''message too large''], conn, co)
      else
        (case parseEdgeToConnectorMessage pf text of
           None \<Rightarrow> ([CloseSocket 1008 ''invalid edge message''], conn, co)
         | Some message \<Rightarrow>
             (case message of
                EdgeHello \<Rightarrow> handle_hello cfg now conn co
              | _ \<Rightarrow>
                if \<not> cs_protocolReady conn then ([CloseSocket 1008 ''edge hello required''], conn, co)
                else
                  (case message of
                     EdgeHello \<Rightarrow> ([], conn, co)
                   | EdgeHttpCancel requestId reason \<Rightarrow>
                       (case js_get (co_activeRequests co) requestId of
                          None \<Rightarrow> ([], conn, co)
                        | Some k \<Rightarrow> ([], conn, abort_controller k (reason_text reason) co))
                   | EdgeHttpRequest request \<Rightarrow> handle_request cfg request conn co))))"

subsection \<open>Forwarding\<close>

definition connector_REQUEST_HEADER_ALLOWLIST :: "string list" where
  "connector_REQUEST_HEADER_ALLOWLIST = [''accept'', ''content-type'', ''mcp-protocol-version'',
     ''mcp-session-id'', ''origin'', ''x-openai-session'', ''x-openai-subject'']"

definition connector_RESPONSE_HEADER_ALLOWLIST :: "string list" where
  "connector_RESPONSE_HEADER_ALLOWLIST = [''allow'', ''cache-control'', ''content-type'', ''location'',
     ''mcp-protocol-version'', ''mcp-session-id'', ''origin'', ''retry-after'', ''www-authenticate'']"

text \<open>
  \<open>Headers.set\<close> strips white space at both ends of the value and throws a \<open>TypeError\<close> when a NUL
  or a line break is left.
\<close>

definition http_space :: "char \<Rightarrow> bool" where
  "http_space c \<longleftrightarrow> (of_char c :: nat) \<in> {9, 10, 13, 32}"

definition header_value :: "string \<Rightarrow> string result" where
  "header_value v =
     (let t = rev (dropWhile http_space (rev (dropWhile http_space v))) in
      if list_ex (\<lambda>c. (of_char c :: nat) \<in> {0, 10, 13}) t then Inl (TypeError ''Invalid header value'') else Inr t)"

definition headers_set :: "string \<Rightarrow> string \<Rightarrow> (string, string) jsmap \<Rightarrow> (string, string) jsmap result" where
  "headers_set name v headers = bind_result (header_value v) (\<lambda>t. Inr (js_set name t headers))"

fun collectAllowedHeaders ::
  "string list \<Rightarrow> (string \<times> string) list \<Rightarrow> (string, string) jsmap \<Rightarrow> (string, string) jsmap result" where
  "collectAllowedHeaders allowlist [] result = Inr result"
| "collectAllowedHeaders allowlist ((name, v) # rest) result =
     (if js_lower name \<in> set allowlist then
        bind_result (headers_set (js_lower name) v result) (collectAllowedHeaders allowlist rest)
      else collectAllowedHeaders allowlist rest result)"

definition collectHeaders :: "string list \<Rightarrow> (string \<times> string) list \<Rightarrow> (string, string) jsmap" where
  "collectHeaders allowlist headers =
     fold (\<lambda>(name, v) result.
       if js_lower name \<in> set allowlist then js_set (js_lower name) v result else result) headers []"

record fetch_request =
  fr_url :: string
  fr_method :: EdgeHttpMethod
  fr_headers :: "(string, string) jsmap"
  fr_body :: "string option"

datatype fetch_outcome =
    FetchResponse int "(string \<times> string) list" string
  | FetchFailed

definition forward_headers ::
  "connector_config \<Rightarrow> EdgeHttpRequestMessage \<Rightarrow> (string, string) jsmap result" where
  "forward_headers cfg message =
     bind_result (collectAllowedHeaders connector_REQUEST_HEADER_ALLOWLIST (rq_headers message) []) (\<lambda>headers.
     bind_result (headers_set EDGE_INTERNAL_ASSERTION_HEADER (cf_internalAssertion cfg) headers) (\<lambda>headers1.
     headers_set EDGE_INTERNAL_PRINCIPAL_HEADER (encodeEdgeAuthenticatedPrincipal (rq_principal message)) headers1))"

text \<open>What \<open>forwardRequest\<close> does before the \<open>fetch\<close>: an error response, or the request it sends.\<close>

definition forward_start ::
  "connector_config \<Rightarrow> platform \<Rightarrow> string \<Rightarrow> (string \<Rightarrow> (string \<times> string) option) \<Rightarrow>
   EdgeHttpRequestMessage \<Rightarrow> (EdgeHttpResponseMessage + fetch_request) result" where
  "forward_start cfg pf localOrigin resolve message =
     (if utf8ByteLength (rq_body message) > MAX_EDGE_REQUEST_BODY_BYTES then
        Inr (Inl (error_response (rq_requestId message) 413 [] ''request_too_large''))
      else if \<not> isAllowedEdgeRequest pf (method_text (rq_method message)) (rq_path message) then
        Inr (Inl (error_response (rq_requestId message) 404 [] ''edge_route_not_allowed''))
      else
        (case resolve (rq_path message) of
           None \<Rightarrow> Inl invalid_url
         | Some (origin, href) \<Rightarrow>
             if origin \<noteq> localOrigin then
               Inr (Inl (error_response (rq_requestId message) 400 [] ''invalid_local_route''))
             else
               bind_result (forward_headers cfg message) (\<lambda>headers.
               Inr (Inr \<lparr>fr_url = href, fr_method = rq_method message, fr_headers = headers,
                 fr_body = (if rq_method message = GET \<or> rq_body message = [] then None
                            else Some (rq_body message))\<rparr>))))"

definition forward_finish ::
  "EdgeHttpRequestMessage \<Rightarrow> bool \<Rightarrow> fetch_outcome \<Rightarrow> EdgeHttpResponseMessage option" where
  "forward_finish message aborted outcome =
     (case outcome of
        FetchResponse status headers body \<Rightarrow>
          if utf8ByteLength body > MAX_EDGE_RESPONSE_BODY_BYTES then
            Some (error_response (rq_requestId message) 502 [] ''gateway_response_too_large'')
          else
            Some \<lparr>rs_requestId = rq_requestId message, rs_status = status,
                   rs_headers = Some (collectHeaders connector_RESPONSE_HEADER_ALLOWLIST headers), rs_body = body\<rparr>
      | FetchFailed \<Rightarrow>
          if aborted then None
          else Some (error_response (rq_requestId message) 502 [] ''local_gateway_unavailable''))"

text \<open>
  The end of a forwarded request: its response, or the close that the handler of \<open>message\<close> makes
  after an exception, and the \<open>finally\<close> block of \<open>handleMessage\<close>, which removes the request id.
\<close>

definition forward_actions ::
  "connector_config \<Rightarrow> platform \<Rightarrow> string \<Rightarrow> (string \<Rightarrow> (string \<times> string) option) \<Rightarrow> bool \<Rightarrow>
   EdgeHttpRequestMessage \<Rightarrow> bool \<Rightarrow> fetch_outcome \<Rightarrow> connector_action list" where
  "forward_actions cfg pf localOrigin resolve socketOpen message aborted outcome =
     (case forward_start cfg pf localOrigin resolve message of
        Inl e \<Rightarrow> if socketOpen then [CloseSocket 1011 ''message handler failed''] else []
      | Inr (Inl response) \<Rightarrow> sendResponse socketOpen response
      | Inr (Inr request) \<Rightarrow>
          (case forward_finish message aborted outcome of
             None \<Rightarrow> []
           | Some response \<Rightarrow> sendResponse socketOpen response))"

definition request_finished :: "nat \<Rightarrow> connector \<Rightarrow> connector" where
  "request_finished i co =
     (if i < length (co_inflight co) then
        co\<lparr>co_activeRequests := js_delete (rq_requestId (fst (co_inflight co ! i))) (co_activeRequests co),
            co_inflight := take i (co_inflight co) @ drop (Suc i) (co_inflight co)\<rparr>
      else co)"

subsection \<open>Connections\<close>

definition connectOnce :: "instant \<Rightarrow> connector \<Rightarrow> ConnectionState \<times> connector" where
  "connectOnce now co =
     (let generation = co_generation co + 1 in
      (\<lparr>cs_generation = generation, cs_protocolReady = False, cs_connectionStartedAtMs = now,
        cs_connectedAtMs = None, cs_readyAtMs = None, cs_pingCount = 0, cs_pongCount = 0,
        cs_heartbeatTimeout = False, cs_isAlive = True, cs_open = False\<rparr>,
       co\<lparr>co_generation := generation\<rparr>))"

definition on_open :: "instant \<Rightarrow> ConnectionState \<Rightarrow> ConnectionState" where
  "on_open now conn = conn\<lparr>cs_connectedAtMs := Some now, cs_open := True\<rparr>"

definition on_heartbeat :: "ConnectionState \<Rightarrow> connector_action list \<times> ConnectionState" where
  "on_heartbeat conn =
     (if \<not> cs_isAlive conn then ([TerminateSocket], conn\<lparr>cs_heartbeatTimeout := True\<rparr>)
      else ([PingSocket], conn\<lparr>cs_isAlive := False, cs_pingCount := cs_pingCount conn + 1\<rparr>))"

definition on_pong :: "ConnectionState \<Rightarrow> ConnectionState" where
  "on_pong conn = conn\<lparr>cs_isAlive := True, cs_pongCount := cs_pongCount conn + 1\<rparr>"

definition on_ping :: "ConnectionState \<Rightarrow> ConnectionState" where
  "on_ping conn = conn\<lparr>cs_isAlive := True\<rparr>"

definition on_close :: "instant \<Rightarrow> string \<Rightarrow> ConnectionState \<Rightarrow> connector \<Rightarrow> connector" where
  "on_close endedAtMs codeText conn co =
     (let co1 = (if cs_protocolReady conn then co
                 else co\<lparr>co_connectionFailures := co_connectionFailures co + 1,
                          co_consecutiveFailures := co_consecutiveFailures co + 1\<rparr>);
          co2 = (if co_offlineSinceMs co1 = None then co1\<lparr>co_offlineSinceMs := Some endedAtMs\<rparr> else co1)
      in abortAllRequests (''socket_closed_'' @ codeText) co2)"

datatype close_classification = Normal | Service_restart | Abnormal

definition classifyClose :: "nat \<Rightarrow> close_classification" where
  "classifyClose code = (if code = 1000 then Normal else if code = 1012 then Service_restart else Abnormal)"

subsection \<open>Reconnecting\<close>

definition next_backoff :: "connector_config \<Rightarrow> bool \<Rightarrow> int \<Rightarrow> int" where
  "next_backoff cfg healthy reconnectDelay =
     (if healthy then cf_reconnectMinMs cfg else min (reconnectDelay * 2) (cf_reconnectMaxMs cfg))"

text \<open>The delays of \<open>run\<close> for the outcomes of its connections, in order.\<close>

fun backoffs :: "connector_config \<Rightarrow> int \<Rightarrow> bool list \<Rightarrow> int list" where
  "backoffs cfg reconnectDelay [] = []"
| "backoffs cfg reconnectDelay (healthy # rest) =
     (let d = next_backoff cfg healthy reconnectDelay in d # backoffs cfg d rest)"

text \<open>\<open>Math.round\<close> rounds halves up. The arithmetic is that of real numbers.\<close>

definition addJitter :: "int \<Rightarrow> real \<Rightarrow> int" where
  "addJitter delayMs random =
     (let sample = min 1 (max 0 random) in
      max 1 \<lfloor>real_of_int delayMs * (8 / 10 + sample * (4 / 10)) + 1 / 2\<rfloor>)"

subsection \<open>Runs of the connector\<close>

datatype connector_event =
    Connect instant
  | Opened instant
  | HeartbeatTick
  | PongReceived
  | PingReceived
  | Received instant bool nat string
  | Finished nat
  | Closed instant string
  | Stopped

fun connector_step ::
  "connector_config \<Rightarrow> platform \<Rightarrow> connector_event \<Rightarrow> connector \<times> ConnectionState option \<Rightarrow>
   connector \<times> ConnectionState option" where
  "connector_step cfg pf (Connect now) (co, conn) =
     (if conn = None \<and> \<not> co_stopped co then (case connectOnce now co of (c, co') \<Rightarrow> (co', Some c))
      else (co, conn))"
| "connector_step cfg pf (Opened now) (co, conn) = (co, map_option (on_open now) conn)"
| "connector_step cfg pf HeartbeatTick (co, conn) = (co, map_option (snd \<circ> on_heartbeat) conn)"
| "connector_step cfg pf PongReceived (co, conn) = (co, map_option on_pong conn)"
| "connector_step cfg pf PingReceived (co, conn) = (co, map_option on_ping conn)"
| "connector_step cfg pf (Received now isBinary byteLength text) (co, conn) =
     (case conn of
        None \<Rightarrow> (co, None)
      | Some c \<Rightarrow> (case handleMessage cfg pf now isBinary byteLength text c co of (acts, c', co') \<Rightarrow> (co', Some c')))"
| "connector_step cfg pf (Finished i) (co, conn) = (request_finished i co, conn)"
| "connector_step cfg pf (Closed now code) (co, conn) =
     (case conn of None \<Rightarrow> (co, None) | Some c \<Rightarrow> (on_close now code c co, None))"
| "connector_step cfg pf Stopped (co, conn) = (stop_connector co, conn)"

definition connector_run :: "connector_config \<Rightarrow> platform \<Rightarrow> connector_event list \<Rightarrow> connector \<times> ConnectionState option" where
  "connector_run cfg pf evs = fold (connector_step cfg pf) evs (new_connector, None)"

text \<open>The request ids that a run receives.\<close>

fun event_request_ids :: "platform \<Rightarrow> connector_event \<Rightarrow> string list" where
  "event_request_ids pf (Received now isBinary byteLength text) =
     (case parseEdgeToConnectorMessage pf text of Some (EdgeHttpRequest r) \<Rightarrow> [rq_requestId r] | _ \<Rightarrow> [])"
| "event_request_ids pf _ = []"

text \<open>The forwarded requests that nothing has aborted.\<close>

definition is_aborted :: "connector \<Rightarrow> nat \<Rightarrow> bool" where
  "is_aborted co k \<longleftrightarrow> js_get (co_aborted co) k \<noteq> None"

definition live_requests :: "connector \<Rightarrow> (EdgeHttpRequestMessage \<times> nat) list" where
  "live_requests co = filter (\<lambda>p. \<not> is_aborted co (snd p)) (co_inflight co)"

definition connector_inv :: "connector_config \<Rightarrow> string set \<Rightarrow> connector \<Rightarrow> bool" where
  "connector_inv cfg used co \<longleftrightarrow>
     js_wf (co_activeRequests co) \<and>
     int (length (co_activeRequests co)) \<le> cf_maxConcurrentRequests cfg \<and>
     distinct (map (\<lambda>p. rq_requestId (fst p)) (co_inflight co)) \<and>
     (\<forall>p \<in> set (co_inflight co). rq_requestId (fst p) \<in> used) \<and>
     (\<forall>p \<in> set (live_requests co). js_get (co_activeRequests co) (rq_requestId (fst p)) = Some (snd p))"

lemma connector_inv_mono: "connector_inv cfg used co \<Longrightarrow> used \<subseteq> used' \<Longrightarrow> connector_inv cfg used' co"
  by (auto simp: connector_inv_def)

lemma connector_inv_cong:
  assumes "connector_inv cfg used co" "co_activeRequests co' = co_activeRequests co"
    "co_inflight co' = co_inflight co" "co_aborted co' = co_aborted co"
  shows "connector_inv cfg used co'"
  using assms by (simp add: connector_inv_def live_requests_def is_aborted_def)

lemma abort_controller_fields [simp]:
  "co_activeRequests (abort_controller k r co) = co_activeRequests co"
  "co_inflight (abort_controller k r co) = co_inflight co"
  "is_aborted (abort_controller k r co) j \<longleftrightarrow> j = k \<or> is_aborted co j"
  by (auto simp: abort_controller_def is_aborted_def)

lemma abort_fold_fields [simp]:
  "co_activeRequests (fold (\<lambda>k. abort_controller k r) ks co) = co_activeRequests co"
  "co_inflight (fold (\<lambda>k. abort_controller k r) ks co) = co_inflight co"
  "is_aborted (fold (\<lambda>k. abort_controller k r) ks co) j \<longleftrightarrow> j \<in> set ks \<or> is_aborted co j"
  by (induction ks arbitrary: co) auto

lemma live_requests_iff:
  "p \<in> set (live_requests co) \<longleftrightarrow> p \<in> set (co_inflight co) \<and> \<not> is_aborted co (snd p)"
  by (auto simp: live_requests_def)

lemma is_aborted_update [simp]:
  "is_aborted (co\<lparr>co_activeRequests := a\<rparr>) k = is_aborted co k"
  "is_aborted (co\<lparr>co_inflight := i\<rparr>) k = is_aborted co k"
  "is_aborted (co\<lparr>co_controllers := n\<rparr>) k = is_aborted co k"
  by (simp_all add: is_aborted_def)

lemma abortAll_inv:
  assumes "connector_inv cfg used co" and "0 \<le> cf_maxConcurrentRequests cfg"
  shows "connector_inv cfg used (abortAllRequests reason co)"
proof -
  have "live_requests (abortAllRequests reason co) = []"
  proof (rule ccontr)
    assume "live_requests (abortAllRequests reason co) \<noteq> []"
    then obtain p where "p \<in> set (live_requests (abortAllRequests reason co))"
      using hd_in_set by blast
    then have p: "p \<in> set (live_requests co)" "snd p \<notin> set (js_values (co_activeRequests co))"
      by (auto simp: live_requests_iff abortAllRequests_def)
    with assms(1) have "js_get (co_activeRequests co) (rq_requestId (fst p)) = Some (snd p)"
      by (simp add: connector_inv_def)
    from js_get_in_set [OF this] p(2) show False by (force simp: image_iff)
  qed
  with assms show ?thesis
    by (simp add: connector_inv_def abortAllRequests_def)
qed

lemma request_inv:
  assumes "connector_inv cfg used co" and "rq_requestId m \<notin> used"
    and "handle_request cfg m conn co = (acts, conn', co')"
  shows "connector_inv cfg (insert (rq_requestId m) used) co'"
proof (cases "js_get (co_activeRequests co) (rq_requestId m) = None \<and>
    int (length (co_activeRequests co)) < cf_maxConcurrentRequests cfg")
  case True
  then have co': "co' = co\<lparr>co_activeRequests := js_set (rq_requestId m) (co_controllers co) (co_activeRequests co),
      co_controllers := Suc (co_controllers co), co_inflight := co_inflight co @ [(m, co_controllers co)]\<rparr>"
    using assms(3) by (auto simp: handle_request_def Let_def)
  have "length (js_set (rq_requestId m) (co_controllers co) (co_activeRequests co)) \<le>
      Suc (length (co_activeRequests co))"
    by (simp add: js_set_length)
  with True assms(1,2) show ?thesis
    unfolding co' connector_inv_def
    by (auto simp: js_wf_set live_requests_def image_iff)
next
  case False
  then have "co' = co" using assms(3) by (auto simp: handle_request_def split: if_splits)
  with assms(1) show ?thesis by (auto intro: connector_inv_mono)
qed

lemma finished_inv:
  assumes "connector_inv cfg used co"
  shows "connector_inv cfg used (request_finished i co)"
proof (cases "i < length (co_inflight co)")
  case True
  let ?r = "rq_requestId (fst (co_inflight co ! i))"
  let ?rest = "take i (co_inflight co) @ drop (Suc i) (co_inflight co)"
  have split: "co_inflight co = take i (co_inflight co) @ co_inflight co ! i # drop (Suc i) (co_inflight co)"
    by (rule id_take_nth_drop [OF True])
  have "distinct (map (\<lambda>p. rq_requestId (fst p)) (take i (co_inflight co) @ co_inflight co ! i # drop (Suc i) (co_inflight co)))"
    using assms split by (simp add: connector_inv_def)
  then have other: "rq_requestId (fst p) \<noteq> ?r" if "p \<in> set ?rest" for p
    using that by (auto simp: image_iff)
  have sub: "p \<in> set (co_inflight co)" if "p \<in> set ?rest" for p
    using that by (auto dest: in_set_takeD in_set_dropD)
  have "distinct (map (\<lambda>p. rq_requestId (fst p)) ?rest)"
    using \<open>distinct (map _ (take i _ @ _ # _))\<close> by auto
  with assms True other sub show ?thesis
    using js_delete_length_le [of ?r "co_activeRequests co"]
    by (auto simp: connector_inv_def request_finished_def js_wf_delete live_requests_iff)
qed (use assms in \<open>simp add: request_finished_def\<close>)

lemma abort_inv: "connector_inv cfg used co \<Longrightarrow> connector_inv cfg used (abort_controller k r co)"
  by (auto simp: connector_inv_def live_requests_iff)

lemma hello_inv:
  "connector_inv cfg used co \<Longrightarrow> handle_hello cfg now conn co = (acts, conn', co') \<Longrightarrow> connector_inv cfg used co'"
  by (auto simp: handle_hello_def Let_def elim: connector_inv_cong split: if_splits)

lemma message_inv:
  assumes "connector_inv cfg used co" and "set (event_request_ids pf (Received now b n text)) \<inter> used = {}"
    and "handleMessage cfg pf now b n text conn co = (acts, conn', co')"
  shows "connector_inv cfg (used \<union> set (event_request_ids pf (Received now b n text))) co'"
proof -
  have same: "connector_inv cfg (used \<union> X) co" for X
    using assms(1) by (rule connector_inv_mono) simp
  show ?thesis
  proof (cases "parseEdgeToConnectorMessage pf text")
    case None
    with assms(1,3) show ?thesis by (auto simp: handleMessage_def split: if_splits)
  next
    case (Some m)
    show ?thesis
    proof (cases m)
      case EdgeHello
      with Some assms(1,3) hello_inv [OF assms(1)] show ?thesis
        by (auto simp: handleMessage_def split: if_splits)
    next
      case (EdgeHttpRequest r)
      with Some assms same [of "{rq_requestId r}"] request_inv [OF assms(1), of r conn acts conn' co'] show ?thesis
        by (auto simp: handleMessage_def split: if_splits)
    next
      case (EdgeHttpCancel i reason)
      with Some assms show ?thesis
        by (auto simp: handleMessage_def abort_inv split: if_splits option.splits)
    qed
  qed
qed

lemma connector_step_inv:
  assumes "connector_inv cfg used co" and "0 \<le> cf_maxConcurrentRequests cfg"
    and "set (event_request_ids pf ev) \<inter> used = {}"
  shows "connector_inv cfg (used \<union> set (event_request_ids pf ev)) (fst (connector_step cfg pf ev (co, conn)))"
proof (cases ev)
  case (Connect now)
  with assms(1) show ?thesis
    by (auto simp: connectOnce_def Let_def elim: connector_inv_cong)
next
  case (Received now b n body)
  with assms message_inv [OF assms(1)] connector_inv_mono [OF assms(1)] show ?thesis
    by (auto simp del: event_request_ids.simps split: option.splits prod.splits)
next
  case (Closed now code)
  have "connector_inv cfg used (on_close now code c co)" for c
    unfolding on_close_def Let_def
    by (rule abortAll_inv [OF connector_inv_cong [OF assms(1)] assms(2)]) simp_all
  with Closed assms(1) show ?thesis by (auto split: option.splits)
next
  case Stopped
  have "connector_inv cfg used (stop_connector co)"
    unfolding stop_connector_def
    by (rule abortAll_inv [OF connector_inv_cong [OF assms(1)] assms(2)]) simp_all
  with Stopped show ?thesis by simp
qed (use assms(1) in \<open>simp_all add: finished_inv\<close>)

lemma connector_run_inv:
  assumes "0 \<le> cf_maxConcurrentRequests cfg" and "distinct (concat (map (event_request_ids pf) evs))"
  shows "connector_inv cfg (set (concat (map (event_request_ids pf) evs))) (fst (connector_run cfg pf evs))"
  using assms(2)
proof (induction evs rule: rev_induct)
  case Nil
  with assms(1) show ?case
    by (simp add: connector_run_def new_connector_def connector_inv_def live_requests_def)
next
  case (snoc ev evs)
  obtain co conn where run: "connector_run cfg pf evs = (co, conn)" by fastforce
  have "connector_inv cfg (set (concat (map (event_request_ids pf) evs)) \<union> set (event_request_ids pf ev))
      (fst (connector_step cfg pf ev (co, conn)))"
    by (rule connector_step_inv) (use snoc run assms(1) in auto)
  with run show ?case by (simp add: connector_run_def)
qed

lemma live_requests_bounded:
  assumes "connector_inv cfg used co"
  shows "length (live_requests co) \<le> length (co_activeRequests co)"
proof -
  let ?ids = "map (\<lambda>p. rq_requestId (fst p)) (live_requests co)"
  have "distinct ?ids"
    using assms unfolding connector_inv_def live_requests_def
    by (metis (no_types, lifting) distinct_map_filter)
  then have "length ?ids = card (set ?ids)" by (rule distinct_card [symmetric])
  also have "\<dots> \<le> card (fst ` set (co_activeRequests co))"
    using assms by (intro card_mono) (auto simp: connector_inv_def dest!: map_of_SomeD intro: rev_image_eqI)
  also have "\<dots> \<le> length (co_activeRequests co)"
    by (metis card_image_le card_length finite_set le_trans)
  finally show ?thesis by simp
qed

subsection \<open>Forwarded headers\<close>

lemma header_value_base64:
  assumes "list_all (\<lambda>c. c \<in> set base64url_alphabet) s"
  shows "header_value s = Inr s"
proof -
  have alphabet: "list_all (\<lambda>c. \<not> http_space c \<and> (of_char c :: nat) \<notin> {0, 10, 13}) base64url_alphabet"
    by code_simp
  then have each: "\<not> http_space c" "(of_char c :: nat) \<notin> {0, 10, 13}" if "c \<in> set s" for c
    using assms that by (auto simp: list_all_iff simp del: insert_iff)
  have keep: "dropWhile http_space t = t" if "\<forall>c \<in> set t. \<not> http_space c" for t
    using that by (cases t) auto
  have "rev (dropWhile http_space (rev (dropWhile http_space s))) = s"
    using each(1) by (simp add: keep)
  moreover have "\<not> list_ex (\<lambda>c. (of_char c :: nat) \<in> {0, 10, 13}) s"
    using each(2) by (auto simp: list_ex_iff simp del: insert_iff)
  ultimately show ?thesis by (simp add: header_value_def Let_def)
qed

lemma collected_headers_allowed:
  "collectAllowedHeaders allowlist hs result = Inr headers \<Longrightarrow> fst ` set result \<subseteq> set allowlist \<Longrightarrow>
   fst ` set headers \<subseteq> set allowlist"
proof (induction hs arbitrary: result)
  case (Cons h hs)
  obtain name v where h: "h = (name, v)" by fastforce
  show ?case
  proof (cases "js_lower name \<in> set allowlist")
    case True
    with Cons.prems(1) h obtain t where
      "collectAllowedHeaders allowlist hs (js_set (js_lower name) t result) = Inr headers"
      by (auto simp: headers_set_def bind_result_Inr_iff)
    then show ?thesis
      by (rule Cons.IH) (use True Cons.prems(2) in \<open>simp add: dom_update\<close>)
  qed (use Cons h in auto)
qed simp

lemma guard_Inr: "(if c then Inl e else r) = Inr x \<longleftrightarrow> \<not> c \<and> r = Inr x"
  by simp

lemma positive_setting_pos: "positive_setting name d v = Inr x \<Longrightarrow> 0 < d \<Longrightarrow> 0 < x"
  by (auto simp: positive_setting_def safe_positive_def split: option.splits js_number.splits if_splits)

lemma local_url_loopback:
  "validateLocalBaseUrl v = Inr u \<Longrightarrow> u_hostname u \<in> {''127.0.0.1'', ''localhost'', ''[::1]''}"
  unfolding validateLocalBaseUrl_def by (cases v) (simp_all add: guard_Inr del: insert_iff)

lemma connector_config_valid:
  assumes "edge_connector_new options = Inr cfg"
  shows "BASE64URL_PATTERN (cf_internalAssertion cfg)" "cf_internalAssertion cfg \<noteq> []"
    "0 < cf_maxConcurrentRequests cfg" "0 < cf_reconnectMinMs cfg"
    "cf_reconnectMinMs cfg \<le> cf_reconnectMaxMs cfg"
    "u_hostname (cf_localBaseUrl cfg) \<in> {''127.0.0.1'', ''localhost'', ''[::1]''}"
proof -
  from assms obtain edgeUrl localUrl payload concurrent heartbeat minMs maxMs where
    url: "validateLocalBaseUrl (eo_localBaseUrl options) = Inr localUrl"
    and assertion: "assertValidEdgeInternalAssertion (eo_internalAssertion options) = Inr ()"
    and conc: "positive_setting ''maxConcurrentRequests'' 8 (eo_maxConcurrentRequests options) = Inr concurrent"
    and minMs: "positive_setting ''reconnectMinMs'' 1000 (eo_reconnectMinMs options) = Inr minMs"
    and le: "minMs \<le> maxMs"
    and cfg: "cfg = \<lparr>cf_edgeUrl = edgeUrl\<lparr>u_search := ''?protocol=3''\<rparr>, cf_localBaseUrl = localUrl,
             cf_token = eo_token options, cf_internalAssertion = eo_internalAssertion options,
             cf_runtimeIdentity = eo_runtimeIdentity options, cf_maxPayloadBytes = payload,
             cf_maxConcurrentRequests = concurrent, cf_heartbeatIntervalMs = heartbeat,
             cf_reconnectMinMs = minMs, cf_reconnectMaxMs = maxMs\<rparr>"
    unfolding edge_connector_new_def bind_result_Inr_iff guard_Inr by (auto simp: not_less)
  show "BASE64URL_PATTERN (cf_internalAssertion cfg)" "cf_internalAssertion cfg \<noteq> []"
    using assertion by (auto simp: cfg assertValidEdgeInternalAssertion_def BASE64URL_PATTERN_def split: if_splits)
  show "0 < cf_maxConcurrentRequests cfg" "0 < cf_reconnectMinMs cfg"
    using positive_setting_pos [OF conc] positive_setting_pos [OF minMs] by (simp_all add: cfg)
  show "cf_reconnectMinMs cfg \<le> cf_reconnectMaxMs cfg" using le by (simp add: cfg)
  show "u_hostname (cf_localBaseUrl cfg) \<in> {''127.0.0.1'', ''localhost'', ''[::1]''}"
    using local_url_loopback [OF url] by (simp add: cfg)
qed

lemma forward_headers_Inr:
  assumes "BASE64URL_PATTERN (cf_internalAssertion cfg)" and "forward_headers cfg m = Inr headers"
  shows "\<exists>hs. headers = js_set EDGE_INTERNAL_PRINCIPAL_HEADER (encodeEdgeAuthenticatedPrincipal (rq_principal m))
     (js_set EDGE_INTERNAL_ASSERTION_HEADER (cf_internalAssertion cfg) hs) \<and>
     fst ` set hs \<subseteq> set connector_REQUEST_HEADER_ALLOWLIST"
proof -
  have "header_value (cf_internalAssertion cfg) = Inr (cf_internalAssertion cfg)"
    using assms(1) by (simp add: header_value_base64 BASE64URL_PATTERN_def)
  moreover have "header_value (encodeEdgeAuthenticatedPrincipal (rq_principal m)) =
      Inr (encodeEdgeAuthenticatedPrincipal (rq_principal m))"
    by (simp add: header_value_base64 encodeEdgeAuthenticatedPrincipal_def base64url_alphabet_only utf8_bytes)
  moreover obtain hs where hs: "collectAllowedHeaders connector_REQUEST_HEADER_ALLOWLIST (rq_headers m) [] = Inr hs"
    using assms(2) by (auto simp: forward_headers_def bind_result_Inr_iff)
  moreover have "fst ` set hs \<subseteq> set connector_REQUEST_HEADER_ALLOWLIST"
    by (rule collected_headers_allowed [OF hs]) simp
  ultimately show ?thesis
    using assms(2) by (intro exI [of _ hs]) (auto simp: forward_headers_def headers_set_def)
qed

subsection \<open>Backoff\<close>

lemma backoffs_bounded:
  assumes "0 < cf_reconnectMinMs cfg" "cf_reconnectMinMs cfg \<le> cf_reconnectMaxMs cfg"
  shows "cf_reconnectMinMs cfg \<le> d \<Longrightarrow> x \<in> set (backoffs cfg d hs) \<Longrightarrow>
    cf_reconnectMinMs cfg \<le> x \<and> x \<le> cf_reconnectMaxMs cfg"
proof (induction hs arbitrary: d)
  case (Cons h hs)
  let ?n = "next_backoff cfg h d"
  have "cf_reconnectMinMs cfg \<le> ?n" "?n \<le> cf_reconnectMaxMs cfg"
    using assms Cons.prems(1) by (auto simp: next_backoff_def)
  with Cons show ?case by (auto simp: Let_def)
qed simp

lemma min_scaled:
  fixes a p M :: int
  assumes "1 \<le> p" "0 < M" "0 < a"
  shows "min (min a M * p) M = min (a * p) M"
proof (cases "a \<le> M")
  case False
  have "M \<le> M * p" "a \<le> a * p"
    using assms mult_left_mono [of 1 p M] mult_left_mono [of 1 p a] by simp_all
  with False show ?thesis by (simp add: min_def)
qed (simp add: min_def)

lemma backoffs_failures:
  assumes "k < length hs" and "\<forall>h \<in> set (take (Suc k) hs). \<not> h" and "0 < d" and "d \<le> cf_reconnectMaxMs cfg"
  shows "backoffs cfg d hs ! k = min (d * 2 ^ Suc k) (cf_reconnectMaxMs cfg)"
  using assms
proof (induction hs arbitrary: d k)
  case (Cons h hs)
  have h: "\<not> h" using Cons.prems(2) by simp
  show ?case
  proof (cases k)
    case 0
    with h show ?thesis by (simp add: next_backoff_def Let_def)
  next
    case (Suc j)
    let ?M = "cf_reconnectMaxMs cfg"
    have "backoffs cfg (min (d * 2) ?M) hs ! j = min (min (d * 2) ?M * 2 ^ Suc j) ?M"
      by (rule Cons.IH) (use Cons.prems Suc in auto)
    also have "\<dots> = min (d * 2 ^ Suc k) ?M"
      using min_scaled [of "2 ^ Suc j" ?M "d * 2", OF one_le_power] Cons.prems(3,4) by (simp add: Suc mult.assoc)
    finally show ?thesis using h Suc by (simp add: next_backoff_def Let_def)
  qed
qed simp

lemma addJitter_bounds:
  assumes "0 < d"
  shows "8 / 10 * real_of_int d - 1 \<le> real_of_int (addJitter d r)"
    "real_of_int (addJitter d r) \<le> 12 / 10 * real_of_int d + 1" "1 \<le> addJitter d r"
proof -
  define s where "s = min 1 (max 0 r)"
  have s: "0 \<le> s" "s \<le> 1" by (auto simp: s_def)
  define x where "x = real_of_int d * (8 / 10 + s * (4 / 10))"
  have x: "real_of_int d * (8 / 10) \<le> x" "x \<le> real_of_int d * (12 / 10)"
    unfolding x_def using s assms by (auto intro!: mult_left_mono)
  have j: "addJitter d r = max 1 \<lfloor>x + 1 / 2\<rfloor>"
    by (simp add: addJitter_def s_def x_def Let_def)
  have floor: "real_of_int \<lfloor>x + 1 / 2\<rfloor> \<le> x + 1 / 2" "x + 1 / 2 < real_of_int \<lfloor>x + 1 / 2\<rfloor> + 1"
    by linarith+
  have d: "1 \<le> real_of_int d" using assms by simp
  show "8 / 10 * real_of_int d - 1 \<le> real_of_int (addJitter d r)"
    using x floor unfolding j max_def by simp linarith
  show "real_of_int (addJitter d r) \<le> 12 / 10 * real_of_int d + 1"
    using x floor d unfolding j max_def by simp linarith
  show "1 \<le> addJitter d r" by (simp add: j)
qed

subsection \<open>An example configuration\<close>

definition demo_options :: EdgeConnectorOptions where
  "demo_options = \<lparr>
     eo_edgeUrl = Some \<lparr>u_protocol = ''wss:'', u_hostname = ''edge'', u_pathname = ''/connector'', u_username = [],
       u_password = [], u_search = [], u_hash = []\<rparr>,
     eo_token = replicate 32 (CHR ''t''), eo_internalAssertion = replicate 43 (CHR ''a''),
     eo_localBaseUrl = Some \<lparr>u_protocol = ''http:'', u_hostname = ''127.0.0.1'', u_pathname = ''/'', u_username = [],
       u_password = [], u_search = [], u_hash = []\<rparr>,
     eo_runtimeIdentity = None, eo_maxPayloadBytes = None, eo_maxConcurrentRequests = Some (JsInt 2),
     eo_heartbeatIntervalMs = None, eo_reconnectMinMs = None, eo_reconnectMaxMs = None\<rparr>"

definition demo_config :: connector_config where
  "demo_config = (case edge_connector_new demo_options of Inr cfg \<Rightarrow> cfg)"

lemma demo_config_new: "edge_connector_new demo_options = Inr demo_config"
  by (simp add: demo_config_def demo_options_def edge_connector_new_def validateEdgeUrl_def validateLocalBaseUrl_def
      assertValidEdgeInternalAssertion_def BASE64URL_PATTERN_def base64url_alphabet_def positive_setting_def
      safe_positive_def list_all_iff)

lemma demo_config_fields [simp]:
  "cf_maxConcurrentRequests demo_config = 2" "cf_maxPayloadBytes demo_config = 24 * 1024 * 1024"
  "cf_runtimeIdentity demo_config = None" "cf_internalAssertion demo_config = replicate 43 (CHR ''a'')"
  "cf_reconnectMinMs demo_config = 1000" "cf_reconnectMaxMs demo_config = 30000"
  by (simp_all add: demo_config_def demo_options_def edge_connector_new_def validateEdgeUrl_def validateLocalBaseUrl_def
      assertValidEdgeInternalAssertion_def BASE64URL_PATTERN_def base64url_alphabet_def positive_setting_def
      safe_positive_def list_all_iff)

text \<open>A platform on which the texts h, r and c are a hello, a request and its cancellation.\<close>

definition letters_platform :: platform where
  "letters_platform = \<lparr>pf_json_parse = (\<lambda>t.
      if t = ''h'' then Some (edge_message_json EdgeHello)
      else if t = ''r'' then Some (edge_message_json (EdgeHttpRequest demo_request))
      else if t = ''c'' then Some (edge_message_json (EdgeHttpCancel ''r1'' Timeout)) else None),
    pf_url_pathname = Some, pf_date_parse = (\<lambda>t. None), pf_toISOString = (\<lambda>t. [])\<rparr>"

lemma letters_parsed [simp]:
  "parseEdgeToConnectorMessage letters_platform ''h'' = Some EdgeHello"
  "parseEdgeToConnectorMessage letters_platform ''r'' = Some (EdgeHttpRequest demo_request)"
  "parseEdgeToConnectorMessage letters_platform ''c'' = Some (EdgeHttpCancel ''r1'' Timeout)"
proof -
  have "edge_message_ok letters_platform (EdgeHttpRequest demo_request)"
    by (simp add: edge_message_ok_def demo_request_def letters_platform_def demo_principal_def principal_ok_def
        isAllowedEdgeRequest_def pathnameFromEdgePath_def route_methods_def)
  then show "parseEdgeToConnectorMessage letters_platform ''r'' = Some (EdgeHttpRequest demo_request)"
    by (rule edge_round_trip) (simp add: letters_platform_def)
  show "parseEdgeToConnectorMessage letters_platform ''h'' = Some EdgeHello"
    by (rule edge_round_trip) (simp_all add: letters_platform_def edge_message_ok_def)
  show "parseEdgeToConnectorMessage letters_platform ''c'' = Some (EdgeHttpCancel ''r1'' Timeout)"
    by (rule edge_round_trip) (simp_all add: letters_platform_def edge_message_ok_def)
qed

lemmas connector_eval = connector_run_def new_connector_def connectOnce_def on_open_def handleMessage_def
  handle_hello_def handle_request_def on_close_def abortAllRequests_def abort_controller_def request_finished_def
  live_requests_def is_aborted_def demo_request_def Let_def

text \<open>
  Request ids have to be fresh. When the edge repeats a request id on a new connection while the
  aborted call of the old connection has not ended, the \<open>finally\<close> block of the old call removes
  the entry of the new one: the new request runs on, but no cancel message reaches it.
\<close>

theorem reused_request_id_not_cancellable:
  "case connector_run demo_config letters_platform
      [Connect 0, Opened 1, Received 2 False 1 ''h'', Received 3 False 1 ''r'', Closed 4 ''1006'',
       Connect 5, Opened 6, Received 7 False 1 ''h'', Received 8 False 1 ''r'', Finished 0,
       Received 9 False 1 ''c''] of
     (co, conn) \<Rightarrow> live_requests co = [(demo_request, 1)] \<and> co_activeRequests co = []"
  by (simp add: connector_eval)

subsection \<open>Properties\<close>



text \<open>
  C15. The connector never works on more requests than its limit, and each of them can be
  cancelled. Whatever connections, messages, cancellations, completions and closes a run has,
  if no request id occurs twice, then at most \<open>maxConcurrentRequests\<close> forwarded requests are
  not aborted, each is registered under its id, and the cancel message for that id aborts it.\<close>

theorem connector_requests_bounded:
  assumes cfg: "edge_connector_new options = Inr cfg"
    and ids: "distinct (concat (map (event_request_ids pf) evs))"
    and run: "connector_run cfg pf evs = (co, conn)"
  shows "int (length (live_requests co)) \<le> cf_maxConcurrentRequests cfg \<and>
     (\<forall>m k c now n text reason acts c' co'.
        (m, k) \<in> set (live_requests co) \<longrightarrow> cs_protocolReady c \<longrightarrow> int n \<le> cf_maxPayloadBytes cfg \<longrightarrow>
        parseEdgeToConnectorMessage pf text = Some (EdgeHttpCancel (rq_requestId m) reason) \<longrightarrow>
        handleMessage cfg pf now False n text c co = (acts, c', co') \<longrightarrow> is_aborted co' k)"
proof -
  have inv: "connector_inv cfg (set (concat (map (event_request_ids pf) evs))) co"
    using connector_run_inv [OF _ ids, of cfg] connector_config_valid(3) [OF cfg] run by simp
  have bound: "int (length (co_activeRequests co)) \<le> cf_maxConcurrentRequests cfg"
    using inv by (simp add: connector_inv_def)
  have registered: "js_get (co_activeRequests co) (rq_requestId m) = Some k" if "(m, k) \<in> set (live_requests co)" for m k
    using inv that by (force simp: connector_inv_def)
  show ?thesis
    using live_requests_bounded [OF inv] bound registered by (auto simp: handleMessage_def)
qed

theorem connector_requests_bounded_witness:
  "case connector_run demo_config letters_platform
      [Connect 0, Opened 1, Received 2 False 1 ''h'', Received 3 False 1 ''r''] of
     (co, conn) \<Rightarrow> live_requests co = [(demo_request, 0)] \<and> int (length (live_requests co)) \<le> 2 \<and>
       (case handleMessage demo_config letters_platform 4 False 1 ''c'' (the conn) co of
          (acts, c', co') \<Rightarrow> is_aborted co' 0)"
proof -
  let ?evs = "[Connect 0, Opened 1, Received 2 False 1 ''h'', Received 3 False 1 ''r'']"
  obtain co conn where run: "connector_run demo_config letters_platform ?evs = (co, conn)" by fastforce
  obtain acts c' co' where cancel: "handleMessage demo_config letters_platform 4 False 1 ''c'' (the conn) co = (acts, c', co')"
    using prod_cases3 by blast
  have live: "live_requests co = [(demo_request, 0)]" and ready: "cs_protocolReady (the conn)"
    using run by (auto simp: connector_eval)
  have "rq_requestId demo_request = ''r1''" by (simp add: demo_request_def)
  moreover have "distinct (concat (map (event_request_ids letters_platform) ?evs))" by simp
  note bounded = connector_requests_bounded [OF demo_config_new this run]
  ultimately have "is_aborted co' 0"
    using bounded [THEN conjunct2, rule_format, of demo_request 0 "the conn" 1 "''c''" Timeout 4 acts c' co']
      live ready cancel letters_parsed(3) by simp
  with bounded [THEN conjunct1] live cancel run show ?thesis by simp
qed

text \<open>
  The delays between reconnections. Every delay of a run lies between the configured minimum
  and maximum; after \<open>k + 1\<close> failures in a row from the start it is the minimum doubled
  \<open>k + 1\<close> times, capped by the maximum; a healthy connection resets it; and jitter moves a
  delay by at most a fifth, up to rounding, and never below one millisecond.\<close>

theorem reconnect_delays_bounded:
  assumes cfg: "edge_connector_new options = Inr cfg"
  shows "(\<forall>d \<in> set (backoffs cfg (cf_reconnectMinMs cfg) hs).
      cf_reconnectMinMs cfg \<le> d \<and> d \<le> cf_reconnectMaxMs cfg \<and> 1 \<le> addJitter d r \<and>
      8 / 10 * real_of_int d - 1 \<le> real_of_int (addJitter d r) \<and>
      real_of_int (addJitter d r) \<le> 12 / 10 * real_of_int d + 1) \<and>
    (\<forall>k < length hs. (\<forall>h \<in> set (take (Suc k) hs). \<not> h) \<longrightarrow>
      backoffs cfg (cf_reconnectMinMs cfg) hs ! k =
        min (cf_reconnectMinMs cfg * 2 ^ Suc k) (cf_reconnectMaxMs cfg)) \<and>
    (\<forall>d. next_backoff cfg True d = cf_reconnectMinMs cfg)"
proof -
  note valid = connector_config_valid [OF cfg]
  have "cf_reconnectMinMs cfg \<le> d \<and> d \<le> cf_reconnectMaxMs cfg"
    if "d \<in> set (backoffs cfg (cf_reconnectMinMs cfg) hs)" for d
    using backoffs_bounded [OF valid(4,5) order_refl that] .
  moreover have "0 < d" if "cf_reconnectMinMs cfg \<le> d" for d
    using that valid(4) by simp
  ultimately show ?thesis
    using addJitter_bounds backoffs_failures [OF _ _ valid(4,5)] by (auto simp: next_backoff_def)
qed

theorem reconnect_delays_bounded_witness:
  "backoffs demo_config 1000 [False, False, True, False] = [2000, 4000, 1000, 2000] \<and>
   backoffs demo_config 1000 [False, False, True, False] ! 1 = min (1000 * 2 ^ Suc 1) 30000 \<and>
   real_of_int (addJitter 4000 1) \<le> 12 / 10 * 4000 + 1"
proof -
  have run: "backoffs demo_config 1000 [False, False, True, False] = [2000, 4000, 1000, 2000]"
    by (simp add: next_backoff_def Let_def)
  note bounded = reconnect_delays_bounded [OF demo_config_new, of "[False, False, True, False]" 1]
  have "4000 \<in> set (backoffs demo_config (cf_reconnectMinMs demo_config) [False, False, True, False])"
    by (simp add: next_backoff_def Let_def)
  with bounded [THEN conjunct1] have "real_of_int (addJitter 4000 1) \<le> 12 / 10 * real_of_int 4000 + 1"
    by blast
  moreover have "backoffs demo_config (cf_reconnectMinMs demo_config) [False, False, True, False] ! 1 =
      min (cf_reconnectMinMs demo_config * 2 ^ Suc 1) (cf_reconnectMaxMs demo_config)"
    by (rule bounded [THEN conjunct2, THEN conjunct1, rule_format]) auto
  ultimately show ?thesis using run by simp
qed

end
