(* ===== verification/Browser_Sessions.thy ===== *)
theory Browser_Sessions
  imports Task_Registry Json
begin

text \<open>
  The persisted state of the browser worker: the session and tab records of
  \<open>services/browser-worker/domain/browser-session-model.ts\<close> and the versioned registry file of
  \<open>domain/session-registry.ts\<close> with its consistency rules, its recovery and its migrations.

  A field whose schema is a single literal (\<open>driver\<close>, \<open>profileType\<close>, \<open>ownership\<close>, \<open>browser\<close>,
  \<open>tabGroup\<close>, \<open>schemaVersion\<close>) is not stored in the records; a tab without its task is the
  record that a tab extends. \<open>is_url\<close> is the URL check of zod. A timestamp is its instant, so
  sorting by \<open>localeCompare\<close> on ISO timestamps is sorting by instant.
\<close>

subsection \<open>Sessions and tabs\<close>

datatype BrowserOperationMode = Mode_auto | Mode_interactive | Mode_efficient | Mode_diagnostic

datatype BrowserSessionState = Starting | Connected | Disconnected | Failed

record BrowserSession =
  bs_sessionId :: string
  bs_mode :: BrowserOperationMode
  bs_state :: BrowserSessionState
  bs_routingReason :: "string option"
  bs_routingPolicyReason :: "string option"
  bs_createdAt :: instant
  bs_lastUsedAt :: instant

record BrowserSessionRoutingMetadata =
  rm_mode :: "BrowserOperationMode option"
  rm_routingReason :: "string option"
  rm_routingPolicyReason :: "string option"

datatype tab_lifecycle = Task_scoped | Persistent_tab | External_tab

record UnifiedBrowserTabV4 =
  ut_tabId :: string
  ut_sessionId :: string
  ut_remoteTabId :: string
  ut_remoteIndex :: int
  ut_purpose :: string
  ut_reusable :: bool
  ut_protected :: bool
  ut_sticky :: bool
  ut_createdAt :: instant
  ut_lastUsedAt :: instant
  ut_url :: "string option"
  ut_requestedUrl :: "string option"
  ut_title :: "string option"
  ut_lockedUrl :: "string option"

record UnifiedBrowserTab = UnifiedBrowserTabV4 +
  ut_taskId :: string
  ut_lifecycle :: tab_lifecycle

definition optional_ok :: "('a \<Rightarrow> bool) \<Rightarrow> 'a option \<Rightarrow> bool" where
  "optional_ok P v \<longleftrightarrow> (case v of None \<Rightarrow> True | Some x \<Rightarrow> P x)"

definition string_ok :: "nat \<Rightarrow> nat \<Rightarrow> string \<Rightarrow> bool" where
  "string_ok least most s \<longleftrightarrow> least \<le> length s \<and> length s \<le> most"

definition browserSessionSchema_ok :: "'z BrowserSession_scheme \<Rightarrow> bool" where
  "browserSessionSchema_ok s \<longleftrightarrow>
     string_ok 1 128 (bs_sessionId s) \<and>
     optional_ok (string_ok 1 200) (bs_routingReason s) \<and>
     optional_ok (string_ok 1 200) (bs_routingPolicyReason s)"

definition unifiedBrowserTabV4Schema_ok :: "(string \<Rightarrow> bool) \<Rightarrow> 'z UnifiedBrowserTabV4_scheme \<Rightarrow> bool" where
  "unifiedBrowserTabV4Schema_ok is_url t \<longleftrightarrow>
     string_ok 1 128 (ut_tabId t) \<and> string_ok 1 128 (ut_sessionId t) \<and>
     string_ok 1 256 (ut_remoteTabId t) \<and> 0 \<le> ut_remoteIndex t \<and> string_ok 1 200 (ut_purpose t) \<and>
     optional_ok is_url (ut_url t) \<and> optional_ok is_url (ut_requestedUrl t) \<and>
     optional_ok (string_ok 0 500) (ut_title t) \<and> optional_ok is_url (ut_lockedUrl t)"

definition unifiedBrowserTabSchema_ok :: "(string \<Rightarrow> bool) \<Rightarrow> UnifiedBrowserTab \<Rightarrow> bool" where
  "unifiedBrowserTabSchema_ok is_url t \<longleftrightarrow>
     unifiedBrowserTabV4Schema_ok is_url t \<and> string_ok 1 128 (ut_taskId t)"

definition createBrowserSession :: "string \<Rightarrow> instant \<Rightarrow> BrowserSessionRoutingMetadata \<Rightarrow> BrowserSession" where
  "createBrowserSession newId now routing =
     \<lparr>bs_sessionId = newId,
      bs_mode = (case rm_mode routing of None \<Rightarrow> Mode_interactive | Some mode \<Rightarrow> mode),
      bs_state = Disconnected, bs_routingReason = rm_routingReason routing,
      bs_routingPolicyReason = rm_routingPolicyReason routing, bs_createdAt = now, bs_lastUsedAt = now\<rparr>"

definition applyBrowserSessionRouting :: "BrowserSession \<Rightarrow> BrowserSessionRoutingMetadata \<Rightarrow> BrowserSession" where
  "applyBrowserSessionRouting session routing =
     session
     \<lparr>bs_mode := (case rm_mode routing of None \<Rightarrow> bs_mode session | Some mode \<Rightarrow> mode),
      bs_routingReason := (case rm_routingReason routing of None \<Rightarrow> bs_routingReason session | Some x \<Rightarrow> Some x),
      bs_routingPolicyReason :=
        (case rm_routingPolicyReason routing of None \<Rightarrow> bs_routingPolicyReason session | Some x \<Rightarrow> Some x)\<rparr>"

definition touchBrowserSession :: "BrowserSession \<Rightarrow> BrowserSessionState option \<Rightarrow> instant \<Rightarrow> BrowserSession" where
  "touchBrowserSession session state now =
     session\<lparr>bs_state := (case state of None \<Rightarrow> bs_state session | Some s \<Rightarrow> s), bs_lastUsedAt := now\<rparr>"

text \<open>The tab id of the driver is \<open>None\<close> or empty when it has no stable page id.\<close>

definition remoteTabIdFor :: "string option \<Rightarrow> string result" where
  "remoteTabIdFor tabId =
     (case tabId of
        Some (c # cs) \<Rightarrow> Inr (''direct:page:'' @ c # cs)
      | _ \<Rightarrow> Inl (PlainError ''The direct browser engine requires a stable page id.''))"

subsection \<open>The stored registry\<close>

datatype navigation_operation = Navigate | Click | Press | Go_back | Go_forward

record BrowserNavigationTransition =
  nt_operation :: navigation_operation
  nt_startedAt :: string
  nt_expiresAt :: string
  nt_expectedUrl :: "string option"

record BrowserTabBinding =
  tb_tabId :: string
  tb_sessionId :: string
  tb_remoteTabId :: string
  tb_remoteIndex :: int
  tb_url :: string
  tb_title :: string
  tb_remoteTabCount :: "int option"
  tb_navigation :: "BrowserNavigationTransition option"

definition browserNavigationTransitionSchema_ok :: "(string \<Rightarrow> bool) \<Rightarrow> BrowserNavigationTransition \<Rightarrow> bool" where
  "browserNavigationTransitionSchema_ok is_url n \<longleftrightarrow>
     nt_startedAt n \<noteq> [] \<and> nt_expiresAt n \<noteq> [] \<and> optional_ok is_url (nt_expectedUrl n)"

definition browserTabBindingSchema_ok :: "(string \<Rightarrow> bool) \<Rightarrow> 'z BrowserTabBinding_scheme \<Rightarrow> bool" where
  "browserTabBindingSchema_ok is_url b \<longleftrightarrow>
     string_ok 1 128 (tb_tabId b) \<and> string_ok 1 128 (tb_sessionId b) \<and>
     string_ok 1 256 (tb_remoteTabId b) \<and> 0 \<le> tb_remoteIndex b \<and> is_url (tb_url b) \<and>
     string_ok 0 500 (tb_title b) \<and> optional_ok (\<lambda>n. 0 \<le> n) (tb_remoteTabCount b) \<and>
     optional_ok (browserNavigationTransitionSchema_ok is_url) (tb_navigation b)"

datatype legacy_driver = Driver_direct | Driver_mcp | Driver_cli
datatype legacy_profile = Default_chrome | Isolated_profile | Persistent_profile

record legacy_session = BrowserSession +
  ls_driver :: legacy_driver
  ls_profileType :: legacy_profile
  ls_fallbackFrom :: "legacy_driver option"
  ls_fallbackReason :: "string option"

record legacy_tab = UnifiedBrowserTabV4 +
  lt_driver :: legacy_driver

record legacy_binding = BrowserTabBinding +
  lb_driver :: legacy_driver

record registry_v3 =
  r3_updatedAt :: instant
  r3_sessions :: "legacy_session list"
  r3_tabs :: "legacy_tab list"
  r3_bindings :: "legacy_binding list"

record registry_v4 =
  r4_updatedAt :: instant
  r4_sessions :: "BrowserSession list"
  r4_tabs :: "UnifiedBrowserTabV4 list"
  r4_bindings :: "BrowserTabBinding list"

text \<open>Versions 5 and 6 differ in the lifecycle version of their tasks only.\<close>

record BrowserSessionRegistryData =
  rd_updatedAt :: instant
  rd_sessions :: "BrowserSession list"
  rd_tasks :: "BrowserTask list"
  rd_tabs :: "UnifiedBrowserTab list"
  rd_bindings :: "BrowserTabBinding list"

definition registryV3StorageSchema_ok :: "(string \<Rightarrow> bool) \<Rightarrow> registry_v3 \<Rightarrow> bool" where
  "registryV3StorageSchema_ok is_url d \<longleftrightarrow>
     length (r3_sessions d) \<le> 100 \<and>
     list_all (\<lambda>s. browserSessionSchema_ok s \<and> optional_ok (string_ok 1 500) (ls_fallbackReason s)) (r3_sessions d) \<and>
     length (r3_tabs d) \<le> 500 \<and>
     list_all (\<lambda>t. unifiedBrowserTabV4Schema_ok is_url t \<and> ut_requestedUrl t = None) (r3_tabs d) \<and>
     length (r3_bindings d) \<le> 500 \<and> list_all (browserTabBindingSchema_ok is_url) (r3_bindings d)"

definition registryV4StorageSchema_ok :: "(string \<Rightarrow> bool) \<Rightarrow> registry_v4 \<Rightarrow> bool" where
  "registryV4StorageSchema_ok is_url d \<longleftrightarrow>
     length (r4_sessions d) \<le> 100 \<and> list_all browserSessionSchema_ok (r4_sessions d) \<and>
     length (r4_tabs d) \<le> 500 \<and> list_all (unifiedBrowserTabV4Schema_ok is_url) (r4_tabs d) \<and>
     length (r4_bindings d) \<le> 500 \<and> list_all (browserTabBindingSchema_ok is_url) (r4_bindings d)"

definition registry_storage_ok :: "nat \<Rightarrow> (string \<Rightarrow> bool) \<Rightarrow> BrowserSessionRegistryData \<Rightarrow> bool" where
  "registry_storage_ok lifecycleVersion is_url d \<longleftrightarrow>
     length (rd_sessions d) \<le> 100 \<and> list_all browserSessionSchema_ok (rd_sessions d) \<and>
     length (rd_tasks d) \<le> 500 \<and>
     list_all (\<lambda>t. browserTaskFields_ok t \<and> bt_lifecycleVersion t = lifecycleVersion) (rd_tasks d) \<and>
     length (rd_tabs d) \<le> 500 \<and> list_all (unifiedBrowserTabSchema_ok is_url) (rd_tabs d) \<and>
     length (rd_bindings d) \<le> 500 \<and> list_all (browserTabBindingSchema_ok is_url) (rd_bindings d)"

definition registryV5StorageSchema_ok :: "(string \<Rightarrow> bool) \<Rightarrow> BrowserSessionRegistryData \<Rightarrow> bool" where
  "registryV5StorageSchema_ok = registry_storage_ok LEGACY_BROWSER_TASK_LIFECYCLE_VERSION"

definition registryV6StorageSchema_ok :: "(string \<Rightarrow> bool) \<Rightarrow> BrowserSessionRegistryData \<Rightarrow> bool" where
  "registryV6StorageSchema_ok = registry_storage_ok CURRENT_BROWSER_TASK_LIFECYCLE_VERSION"

subsection \<open>Consistency\<close>

text \<open>The issues that a refinement adds; a document is accepted when there is none.\<close>

fun unique_issues :: "string \<Rightarrow> string list \<Rightarrow> string list \<Rightarrow> string list" where
  "unique_issues label [] seen = []"
| "unique_issues label (key # keys) seen =
     (if key \<in> set seen then [''Duplicate '' @ label @ '': '' @ key @ ''.''] else []) @
     unique_issues label keys (key # seen)"

definition assertUnique :: "'a list \<Rightarrow> ('a \<Rightarrow> string) \<Rightarrow> string \<Rightarrow> string list" where
  "assertUnique values keyOf label = unique_issues label (map keyOf values) []"

text \<open>A \<open>Map\<close> built from pairs: the last pair of a key counts.\<close>

definition map_by :: "('a \<Rightarrow> string) \<Rightarrow> 'a list \<Rightarrow> string \<Rightarrow> 'a option" where
  "map_by keyOf values = map_of (rev (map (\<lambda>v. (keyOf v, v)) values))"

definition binding_matches :: "BrowserTabBinding \<Rightarrow> 'z UnifiedBrowserTabV4_scheme \<Rightarrow> bool" where
  "binding_matches binding tab \<longleftrightarrow>
     tb_sessionId binding = ut_sessionId tab \<and> tb_remoteTabId binding = ut_remoteTabId tab \<and>
     tb_remoteIndex binding = ut_remoteIndex tab"

definition registryV4_issues :: "registry_v4 \<Rightarrow> string list" where
  "registryV4_issues d =
     assertUnique (r4_sessions d) bs_sessionId ''sessionId'' @
     assertUnique (r4_tabs d) ut_tabId ''tabId'' @
     assertUnique (r4_bindings d) tb_tabId ''binding tabId'' @
     concat (map (\<lambda>tab.
       case map_by bs_sessionId (r4_sessions d) (ut_sessionId tab) of
         None \<Rightarrow> [''Tab '' @ ut_tabId tab @ '' references a missing session.'']
       | Some session \<Rightarrow>
           (case map_by tb_tabId (r4_bindings d) (ut_tabId tab) of
              None \<Rightarrow> [''Tab '' @ ut_tabId tab @ '' is missing its remote binding.'']
            | Some binding \<Rightarrow>
                if \<not> binding_matches binding tab
                then [''Tab '' @ ut_tabId tab @ '' has an inconsistent remote binding.''] else [])) (r4_tabs d)) @
     concat (map (\<lambda>binding.
       if map_by ut_tabId (r4_tabs d) (tb_tabId binding) = None
       then [''Binding '' @ tb_tabId binding @ '' does not have a registered tab.''] else []) (r4_bindings d))"

definition terminal_task :: "BrowserTask \<Rightarrow> bool" where
  "terminal_task task \<longleftrightarrow> bt_state task = Finished \<or> bt_state task = Expired"

definition tab_issues :: "BrowserSessionRegistryData \<Rightarrow> UnifiedBrowserTab \<Rightarrow> string list" where
  "tab_issues d tab =
     (if map_by bs_sessionId (rd_sessions d) (ut_sessionId tab) = None
      then [''Tab '' @ ut_tabId tab @ '' references a missing session.''] else []) @
     (case map_by bt_taskId (rd_tasks d) (ut_taskId tab) of
        None \<Rightarrow> [''Tab '' @ ut_tabId tab @ '' references a missing task.'']
      | Some task \<Rightarrow>
          if ut_tabId tab \<notin> set (bt_tabIds task)
          then [''Task '' @ bt_taskId task @ '' does not reference tab '' @ ut_tabId tab @ ''.'']
          else if terminal_task task
          then [''Terminal task '' @ bt_taskId task @ '' cannot retain tab '' @ ut_tabId tab @ ''.''] else []) @
     (case map_by tb_tabId (rd_bindings d) (ut_tabId tab) of
        None \<Rightarrow> [''Tab '' @ ut_tabId tab @ '' is missing its remote binding.'']
      | Some binding \<Rightarrow>
          if \<not> binding_matches binding tab
          then [''Tab '' @ ut_tabId tab @ '' has an inconsistent remote binding.''] else [])"

definition task_issues :: "BrowserSessionRegistryData \<Rightarrow> BrowserTask \<Rightarrow> string list" where
  "task_issues d task =
     assertUnique (bt_tabIds task) id (''tab id in task '' @ bt_taskId task) @
     (if terminal_task task \<and> bt_tabIds task \<noteq> []
      then [''Terminal task '' @ bt_taskId task @ '' must not retain tabs.''] else []) @
     concat (map (\<lambda>tabId.
       case map_by ut_tabId (rd_tabs d) tabId of
         None \<Rightarrow> [''Task '' @ bt_taskId task @ '' references missing tab '' @ tabId @ ''.'']
       | Some tab \<Rightarrow>
           if ut_taskId tab \<noteq> bt_taskId task
           then [''Task '' @ bt_taskId task @ '' crosses into tab '' @ tabId @ '' owned by another task.''] else [])
       (bt_tabIds task))"

definition registryV6_issues :: "BrowserSessionRegistryData \<Rightarrow> string list" where
  "registryV6_issues d =
     assertUnique (rd_sessions d) bs_sessionId ''sessionId'' @
     assertUnique (rd_tasks d) bt_taskId ''taskId'' @
     assertUnique (rd_tabs d) ut_tabId ''tabId'' @
     assertUnique (rd_bindings d) tb_tabId ''binding tabId'' @
     concat (map (tab_issues d) (rd_tabs d)) @
     concat (map (task_issues d) (rd_tasks d)) @
     concat (map (\<lambda>binding.
       if map_by ut_tabId (rd_tabs d) (tb_tabId binding) = None
       then [''Binding '' @ tb_tabId binding @ '' does not have a registered tab.''] else []) (rd_bindings d))"

definition registryV4Schema_parse :: "(string \<Rightarrow> bool) \<Rightarrow> registry_v4 \<Rightarrow> registry_v4 result" where
  "registryV4Schema_parse is_url d =
     (if registryV4StorageSchema_ok is_url d \<and> registryV4_issues d = [] then Inr d else Inl SchemaError)"

definition registryV6Schema_parse ::
  "(string \<Rightarrow> bool) \<Rightarrow> BrowserSessionRegistryData \<Rightarrow> BrowserSessionRegistryData result" where
  "registryV6Schema_parse is_url d =
     (if registryV6StorageSchema_ok is_url d \<and> registryV6_issues d = [] then Inr d else Inl SchemaError)"

subsection \<open>Recovery and migration\<close>

fun dedup_into :: "('a \<Rightarrow> string) \<Rightarrow> 'a list \<Rightarrow> 'a list \<Rightarrow> 'a list" where
  "dedup_into keyOf [] kept = kept"
| "dedup_into keyOf (v # vs) kept =
     dedup_into keyOf vs (if keyOf v \<in> set (map keyOf kept) then kept else kept @ [v])"

definition deduplicateBy :: "('a \<Rightarrow> string) \<Rightarrow> 'a list \<Rightarrow> 'a list" where
  "deduplicateBy keyOf values = dedup_into keyOf values []"

definition recovered_session :: "BrowserSession \<Rightarrow> BrowserSession" where
  "recovered_session session =
     (if bs_state session = Starting \<or> bs_state session = Connected
      then session\<lparr>bs_state := Disconnected\<rparr> else session)"

definition recovered_sessions :: "BrowserSession list \<Rightarrow> BrowserSession list" where
  "recovered_sessions sessions =
     map recovered_session (deduplicateBy bs_sessionId (sort_key (\<lambda>s. - bs_lastUsedAt s) sessions))"

definition tab_recoverable ::
  "(string \<Rightarrow> BrowserSession option) \<Rightarrow> (string \<Rightarrow> BrowserTabBinding option) \<Rightarrow> UnifiedBrowserTabV4 \<Rightarrow> bool" where
  "tab_recoverable sessionMap bindingMap tab \<longleftrightarrow>
     sessionMap (ut_sessionId tab) \<noteq> None \<and>
     (case bindingMap (ut_tabId tab) of None \<Rightarrow> False | Some binding \<Rightarrow> binding_matches binding tab)"

definition recovered_v4 :: "registry_v4 \<Rightarrow> registry_v4" where
  "recovered_v4 d =
     (let originalStates = map_by bs_sessionId (r4_sessions d);
          sessions = recovered_sessions (r4_sessions d);
          sessionMap = map_by bs_sessionId sessions;
          bindings = deduplicateBy tb_tabId (r4_bindings d);
          bindingMap = map_by tb_tabId bindings;
          tabs = filter (tab_recoverable sessionMap bindingMap) (deduplicateBy ut_tabId (r4_tabs d));
          tabIds = set (map ut_tabId tabs);
          tabSessionIds = set (map ut_sessionId tabs);
          retainedSessions = filter (\<lambda>session.
              bs_sessionId session \<in> tabSessionIds \<or>
              map_option bs_state (originalStates (bs_sessionId session)) = Some Disconnected) sessions;
          retainedSessionIds = set (map bs_sessionId retainedSessions)
      in \<lparr>r4_updatedAt = r4_updatedAt d,
          r4_sessions = retainedSessions,
          r4_tabs = filter (\<lambda>tab. ut_sessionId tab \<in> retainedSessionIds) tabs,
          r4_bindings = filter (\<lambda>binding. tb_tabId binding \<in> tabIds \<and> tb_sessionId binding \<in> retainedSessionIds)
            bindings\<rparr>)"

definition recoverV4Registry :: "(string \<Rightarrow> bool) \<Rightarrow> registry_v4 \<Rightarrow> registry_v4 result" where
  "recoverV4Registry is_url d = registryV4Schema_parse is_url (recovered_v4 d)"

definition as_v4 :: "BrowserSessionRegistryData \<Rightarrow> registry_v4" where
  "as_v4 d =
     \<lparr>r4_updatedAt = rd_updatedAt d, r4_sessions = rd_sessions d,
      r4_tabs = map UnifiedBrowserTabV4.truncate (rd_tabs d), r4_bindings = rd_bindings d\<rparr>"

definition recovered_task :: "string set \<Rightarrow> BrowserTask \<Rightarrow> BrowserTask" where
  "recovered_task retainedTabIds task =
     task\<lparr>bt_state := (if bt_state task = Active \<or> bt_state task = Finishing then Suspended else bt_state task),
          bt_tabIds := (if terminal_task task then [] else filter (\<lambda>t. t \<in> retainedTabIds) (bt_tabIds task))\<rparr>"

definition restored_tab ::
  "(string \<Rightarrow> bool) \<Rightarrow> (string \<Rightarrow> UnifiedBrowserTab option) \<Rightarrow> string set \<Rightarrow> UnifiedBrowserTabV4 \<Rightarrow>
   UnifiedBrowserTab option result" where
  "restored_tab is_url originalTabs restorableTaskIds tab =
     (case originalTabs (ut_tabId tab) of
        None \<Rightarrow> Inr None
      | Some original \<Rightarrow>
          if ut_taskId original \<notin> restorableTaskIds then Inr None
          else
            (let restored = UnifiedBrowserTabV4.extend tab
                   (UnifiedBrowserTab.fields (ut_taskId original) (ut_lifecycle original)) in
             if unifiedBrowserTabSchema_ok is_url restored then Inr (Some restored) else Inl SchemaError))"

definition present :: "'a option list \<Rightarrow> 'a list" where
  "present values = map the (filter (\<lambda>v. v \<noteq> None) values)"

definition recoverV6Registry ::
  "(string \<Rightarrow> bool) \<Rightarrow> BrowserSessionRegistryData \<Rightarrow> BrowserSessionRegistryData result" where
  "recoverV6Registry is_url d =
     (let originalTabs = map_by ut_tabId (rd_tabs d) in
      bind_result (recoverV4Registry is_url (as_v4 d)) (\<lambda>recoveredV4.
      let retainedTabIds = set (map ut_tabId (r4_tabs recoveredV4)) in
      bind_result (collect (map (\<lambda>task. browserTaskSchema_parse (recovered_task retainedTabIds task))
        (deduplicateBy bt_taskId (rd_tasks d)))) (\<lambda>tasks.
      let restorableTaskIds = set (map bt_taskId
            (filter (\<lambda>task. bt_state task = Active \<or> bt_state task = Suspended) tasks)) in
      bind_result (collect (map (restored_tab is_url originalTabs restorableTaskIds) (r4_tabs recoveredV4))) (\<lambda>found.
      let tabs = present found; finalTabIds = set (map ut_tabId tabs) in
      registryV6Schema_parse is_url
        \<lparr>rd_updatedAt = rd_updatedAt d,
         rd_sessions = r4_sessions recoveredV4,
         rd_tasks = map (\<lambda>task. task\<lparr>bt_tabIds := filter (\<lambda>t. t \<in> finalTabIds) (bt_tabIds task)\<rparr>) tasks,
         rd_tabs = tabs,
         rd_bindings = filter (\<lambda>binding. tb_tabId binding \<in> finalTabIds) (r4_bindings recoveredV4)\<rparr>))))"

definition migrated_task :: "BrowserTask \<Rightarrow> BrowserTask" where
  "migrated_task task =
     task\<lparr>bt_state := (if bt_state task = Finished then Finished else Expired),
          bt_tabIds := [],
          bt_expiresAt := (if bt_state task = Finished \<or> bt_state task = Expired
             then bt_expiresAt task else bt_lastActivityAt task),
          bt_lifecycleVersion := CURRENT_BROWSER_TASK_LIFECYCLE_VERSION\<rparr>"

definition migrateV5Registry ::
  "(string \<Rightarrow> bool) \<Rightarrow> BrowserSessionRegistryData \<Rightarrow> BrowserSessionRegistryData result" where
  "migrateV5Registry is_url d =
     bind_result (recoverV4Registry is_url (as_v4 d)) (\<lambda>recoveredV4.
     bind_result (collect (map (\<lambda>task. browserTaskSchema_parse (migrated_task task))
       (deduplicateBy bt_taskId (rd_tasks d)))) (\<lambda>tasks.
     registryV6Schema_parse is_url
       \<lparr>rd_updatedAt = rd_updatedAt d, rd_sessions = r4_sessions recoveredV4, rd_tasks = tasks,
        rd_tabs = [], rd_bindings = []\<rparr>))"

definition LEGACY_UNCLAIMED_OWNER_SCOPE_HASH :: string where
  "LEGACY_UNCLAIMED_OWNER_SCOPE_HASH = ''legacy-unclaimed''"

definition session_task_id :: "string \<Rightarrow> string" where
  "session_task_id sessionId = ''task-'' @ sessionId"

definition session_task :: "instant \<Rightarrow> UnifiedBrowserTabV4 list \<Rightarrow> BrowserSession \<Rightarrow> BrowserTask" where
  "session_task now tabs session =
     \<lparr>bt_taskId = session_task_id (bs_sessionId session),
      bt_ownerScopeHash = LEGACY_UNCLAIMED_OWNER_SCOPE_HASH,
      bt_state = Suspended,
      bt_tabIds = map ut_tabId (filter (\<lambda>tab. ut_sessionId tab = bs_sessionId session) tabs),
      bt_createdAt = bs_createdAt session,
      bt_lastActivityAt = bs_lastUsedAt session,
      bt_expiresAt = now + 10 * 60 * 1000,
      bt_lifecycleVersion = LEGACY_BROWSER_TASK_LIFECYCLE_VERSION\<rparr>"

definition legacyBrowserTaskSchema_parse :: "BrowserTask \<Rightarrow> BrowserTask result" where
  "legacyBrowserTaskSchema_parse t =
     (if browserTaskFields_ok t \<and> bt_lifecycleVersion t = LEGACY_BROWSER_TASK_LIFECYCLE_VERSION
      then Inr t else Inl SchemaError)"

definition migrateV4Registry ::
  "(string \<Rightarrow> bool) \<Rightarrow> instant \<Rightarrow> registry_v4 \<Rightarrow> BrowserSessionRegistryData result" where
  "migrateV4Registry is_url now d =
     bind_result (recoverV4Registry is_url d) (\<lambda>recovered.
     bind_result (collect (map (\<lambda>session. legacyBrowserTaskSchema_parse (session_task now (r4_tabs recovered) session))
       (r4_sessions recovered))) (\<lambda>tasks.
     let v5 =
       \<lparr>rd_updatedAt = r4_updatedAt recovered, rd_sessions = r4_sessions recovered, rd_tasks = tasks,
        rd_tabs = map (\<lambda>tab. UnifiedBrowserTabV4.extend tab
          (UnifiedBrowserTab.fields (session_task_id (ut_sessionId tab)) Task_scoped)) (r4_tabs recovered),
        rd_bindings = r4_bindings recovered\<rparr> in
     if registryV5StorageSchema_ok is_url v5 then migrateV5Registry is_url v5 else Inl SchemaError))"

definition migrateV3Registry ::
  "(string \<Rightarrow> bool) \<Rightarrow> instant \<Rightarrow> registry_v3 \<Rightarrow> BrowserSessionRegistryData result" where
  "migrateV3Registry is_url now d =
     bind_result (collect (map (\<lambda>s. if browserSessionSchema_ok s then Inr (BrowserSession.truncate s) else Inl SchemaError)
       (filter (\<lambda>s. ls_driver s = Driver_direct \<and> ls_profileType s = Persistent_profile) (r3_sessions d)))) (\<lambda>sessions.
     let sessionIds = set (map bs_sessionId sessions) in
     bind_result (collect (map (\<lambda>t. if unifiedBrowserTabV4Schema_ok is_url t then Inr (UnifiedBrowserTabV4.truncate t) else Inl SchemaError)
       (filter (\<lambda>t. lt_driver t = Driver_direct \<and> ut_sessionId t \<in> sessionIds) (r3_tabs d)))) (\<lambda>tabs.
     let tabIds = set (map ut_tabId tabs) in
     bind_result (collect (map (\<lambda>b. if browserTabBindingSchema_ok is_url b then Inr (BrowserTabBinding.truncate b) else Inl SchemaError)
       (filter (\<lambda>b. lb_driver b = Driver_direct \<and> tb_sessionId b \<in> sessionIds \<and> tb_tabId b \<in> tabIds)
         (r3_bindings d)))) (\<lambda>bindings.
     let v4 = \<lparr>r4_updatedAt = r3_updatedAt d, r4_sessions = sessions, r4_tabs = tabs, r4_bindings = bindings\<rparr> in
     if registryV4StorageSchema_ok is_url v4 then migrateV4Registry is_url now v4 else Inl SchemaError)))"

definition emptyRegistry :: BrowserSessionRegistryData where
  "emptyRegistry = \<lparr>rd_updatedAt = 0, rd_sessions = [], rd_tasks = [], rd_tabs = [], rd_bindings = []\<rparr>"


subsection \<open>Loading and saving\<close>

datatype stored_document =
    Doc_v6 BrowserSessionRegistryData
  | Doc_v5 BrowserSessionRegistryData
  | Doc_v4 registry_v4
  | Doc_v3 registry_v3
  | Doc_v2_or_v1
  | Doc_other

text \<open>What reading the file gives: \<open>ENOENT\<close>, another error, or the parsed JSON.\<close>

datatype registry_file = File_missing | File_unreadable exn | File_document stored_document

definition load_document ::
  "(string \<Rightarrow> bool) \<Rightarrow> instant \<Rightarrow> stored_document \<Rightarrow> BrowserSessionRegistryData result" where
  "load_document is_url now doc =
     (case doc of
        Doc_v6 d \<Rightarrow> if registryV6StorageSchema_ok is_url d then recoverV6Registry is_url d else Inl SchemaError
      | Doc_v5 d \<Rightarrow> if registryV5StorageSchema_ok is_url d then migrateV5Registry is_url d else Inl SchemaError
      | Doc_v4 d \<Rightarrow> if registryV4StorageSchema_ok is_url d then migrateV4Registry is_url now d else Inl SchemaError
      | Doc_v3 d \<Rightarrow> if registryV3StorageSchema_ok is_url d then migrateV3Registry is_url now d else Inl SchemaError
      | Doc_v2_or_v1 \<Rightarrow> Inr emptyRegistry
      | Doc_other \<Rightarrow> Inl SchemaError)"

definition load_registry :: "(string \<Rightarrow> bool) \<Rightarrow> instant \<Rightarrow> registry_file \<Rightarrow> BrowserSessionRegistryData result" where
  "load_registry is_url now stored =
     (case stored of
        File_missing \<Rightarrow> Inr emptyRegistry
      | File_unreadable e \<Rightarrow> Inl e
      | File_document doc \<Rightarrow> load_document is_url now doc)"

definition TRANSIENT_RENAME_CODES :: "string list" where
  "TRANSIENT_RENAME_CODES = [''EACCES'', ''EBUSY'', ''EEXIST'', ''ENOTEMPTY'', ''EPERM'']"

datatype rename_outcome = Renamed | Rename_failed "string option" exn

function renameWithRetry :: "(nat \<Rightarrow> rename_outcome) \<Rightarrow> nat \<Rightarrow> nat \<Rightarrow> unit result" where
  "renameWithRetry rename attempts attempt =
     (if attempt < attempts then
        (case rename attempt of
           Renamed \<Rightarrow> Inr ()
         | Rename_failed code e \<Rightarrow>
             if code = None \<or> the code \<notin> set TRANSIENT_RENAME_CODES \<or> attempt = attempts - 1 then Inl e
             else renameWithRetry rename attempts (attempt + 1))
      else Inr ())"
  by pat_completeness auto
termination by (relation "measure (\<lambda>(rename, attempts, attempt). attempts - attempt)") auto

declare renameWithRetry.simps [simp del]

text \<open>The outcomes of the file operations of one save.\<close>

record save_io =
  si_mkdir :: "exn option"
  si_writeFile :: "exn option"
  si_rename :: "nat \<Rightarrow> rename_outcome"

definition persist :: "save_io \<Rightarrow> BrowserSessionRegistryData \<Rightarrow> registry_file \<Rightarrow> unit result \<times> registry_file" where
  "persist io d stored =
     (case si_mkdir io of
        Some e \<Rightarrow> (Inl e, stored)
      | None \<Rightarrow>
          (case si_writeFile io of
             Some e \<Rightarrow> (Inl e, stored)
           | None \<Rightarrow>
               (case renameWithRetry (si_rename io) 6 0 of
                  Inl e \<Rightarrow> (Inl e, stored)
                | Inr u \<Rightarrow> (Inr (), File_document (Doc_v6 d)))))"

record save_call =
  sv_sessions :: "BrowserSession list"
  sv_tabs :: "UnifiedBrowserTab list"
  sv_bindings :: "BrowserTabBinding list"
  sv_tasks :: "BrowserTask list"
  sv_now :: instant
  sv_io :: save_io

definition saved_data :: "save_call \<Rightarrow> BrowserSessionRegistryData" where
  "saved_data call =
     \<lparr>rd_updatedAt = sv_now call, rd_sessions = sv_sessions call, rd_tasks = sv_tasks call,
      rd_tabs = sv_tabs call, rd_bindings = sv_bindings call\<rparr>"

text \<open>Calls of \<open>save\<close> run one after the other, each after the previous one ended in any way.\<close>

definition save_registry ::
  "(string \<Rightarrow> bool) \<Rightarrow> save_call \<Rightarrow> registry_file \<Rightarrow> unit result \<times> registry_file" where
  "save_registry is_url call stored =
     (if sv_tabs call \<noteq> [] \<and> sv_tasks call = [] then
        (Inl (PlainError ''Browser tasks are required when persisted tabs are present.''), stored)
      else
        (case registryV6Schema_parse is_url (saved_data call) of
           Inl e \<Rightarrow> (Inl e, stored)
         | Inr d \<Rightarrow> persist (sv_io call) d stored))"

subsection \<open>Keys\<close>

lemma unique_issues_Nil: "unique_issues label keys seen = [] \<longleftrightarrow> distinct keys \<and> set keys \<inter> set seen = {}"
  by (induction keys arbitrary: seen) auto

lemma assertUnique_Nil [simp]: "assertUnique vals keyOf label = [] \<longleftrightarrow> distinct (map keyOf vals)"
  by (simp add: assertUnique_def unique_issues_Nil)

lemma concat_map_Nil: "concat (map f xs) = [] \<longleftrightarrow> (\<forall>x \<in> set xs. f x = [])"
  by auto

lemma if_single_Nil: "(if P then [x] else []) = [] \<longleftrightarrow> \<not> P"
  by simp

lemma map_by_None: "map_by keyOf vals k = None \<longleftrightarrow> k \<notin> keyOf ` set vals"
  by (auto simp: map_by_def map_of_eq_None_iff image_iff)

lemma map_by_Some: "map_by keyOf vals k = Some v \<Longrightarrow> v \<in> set vals \<and> keyOf v = k"
  by (auto simp: map_by_def dest: map_of_SomeD)

lemma map_by_distinct:
  assumes "distinct (map keyOf vals)" "v \<in> set vals"
  shows "map_by keyOf vals (keyOf v) = Some v"
proof -
  have "distinct (map fst (rev (map (\<lambda>v. (keyOf v, v)) vals)))"
    using assms(1) by (simp add: rev_map [symmetric] comp_def)
  moreover have "(keyOf v, v) \<in> set (rev (map (\<lambda>v. (keyOf v, v)) vals))" using assms(2) by auto
  ultimately show ?thesis by (simp only: map_by_def map_of_eq_Some_iff)
qed

lemma dedup_into_props:
  assumes "distinct (map keyOf kept)"
  shows "distinct (map keyOf (dedup_into keyOf vals kept))"
    and "set (dedup_into keyOf vals kept) \<subseteq> set vals \<union> set kept"
    and "keyOf ` set (dedup_into keyOf vals kept) = keyOf ` (set vals \<union> set kept)"
    and "length (dedup_into keyOf vals kept) \<le> length vals + length kept"
  using assms by (induction keyOf vals kept rule: dedup_into.induct) (auto simp: Let_def split: if_splits)

lemmas deduplicateBy_props =
  dedup_into_props [of _ "[]", simplified, folded deduplicateBy_def]

lemma dedup_into_distinct: "distinct (map keyOf (kept @ vals)) \<Longrightarrow> dedup_into keyOf vals kept = kept @ vals"
  by (induction vals arbitrary: kept) auto

lemma deduplicateBy_distinct: "distinct (map keyOf vals) \<Longrightarrow> deduplicateBy keyOf vals = vals"
  by (simp add: deduplicateBy_def dedup_into_distinct)

lemma dedup_into_map:
  "(\<And>v. keyOf' (f v) = keyOf v) \<Longrightarrow> dedup_into keyOf' (map f vals) (map f kept) = map f (dedup_into keyOf vals kept)"
proof (induction vals arbitrary: kept)
  case (Cons v vs)
  from Cons.IH [of "if keyOf v \<in> keyOf ` set kept then kept else kept @ [v]"] Cons.prems show ?case
    by (auto simp: image_image split: if_splits)
qed simp


subsection \<open>Consistency as a predicate\<close>

definition bound_tab :: "BrowserTabBinding list \<Rightarrow> 'z UnifiedBrowserTabV4_scheme \<Rightarrow> bool" where
  "bound_tab bindings tab \<longleftrightarrow> (\<exists>b. map_by tb_tabId bindings (ut_tabId tab) = Some b \<and> binding_matches b tab)"

lemma registryV4_issues_Nil:
  "registryV4_issues d = [] \<longleftrightarrow>
   distinct (map bs_sessionId (r4_sessions d)) \<and> distinct (map ut_tabId (r4_tabs d)) \<and>
   distinct (map tb_tabId (r4_bindings d)) \<and>
   (\<forall>tab \<in> set (r4_tabs d). ut_sessionId tab \<in> bs_sessionId ` set (r4_sessions d) \<and> bound_tab (r4_bindings d) tab) \<and>
   (\<forall>b \<in> set (r4_bindings d). tb_tabId b \<in> ut_tabId ` set (r4_tabs d))"
proof -
  have "(case map_by bs_sessionId (r4_sessions d) (ut_sessionId tab) of
          None \<Rightarrow> [''Tab '' @ ut_tabId tab @ '' references a missing session.'']
        | Some session \<Rightarrow>
            (case map_by tb_tabId (r4_bindings d) (ut_tabId tab) of
               None \<Rightarrow> [''Tab '' @ ut_tabId tab @ '' is missing its remote binding.'']
             | Some binding \<Rightarrow>
                 if \<not> binding_matches binding tab
                 then [''Tab '' @ ut_tabId tab @ '' has an inconsistent remote binding.''] else [])) = [] \<longleftrightarrow>
      ut_sessionId tab \<in> bs_sessionId ` set (r4_sessions d) \<and> bound_tab (r4_bindings d) tab" for tab :: UnifiedBrowserTabV4
    using map_by_None [of bs_sessionId "r4_sessions d" "ut_sessionId tab"]
    by (auto simp: bound_tab_def split: option.splits)
  then show ?thesis
    by (simp only: registryV4_issues_def append_is_Nil_conv concat_map_Nil if_single_Nil assertUnique_Nil map_by_None not_not)
qed

definition tab_consistent :: "BrowserSessionRegistryData \<Rightarrow> UnifiedBrowserTab \<Rightarrow> bool" where
  "tab_consistent d tab \<longleftrightarrow>
     ut_sessionId tab \<in> bs_sessionId ` set (rd_sessions d) \<and>
     (\<exists>task. map_by bt_taskId (rd_tasks d) (ut_taskId tab) = Some task \<and> ut_tabId tab \<in> set (bt_tabIds task) \<and>
        \<not> terminal_task task) \<and>
     bound_tab (rd_bindings d) tab"

definition task_consistent :: "BrowserSessionRegistryData \<Rightarrow> BrowserTask \<Rightarrow> bool" where
  "task_consistent d task \<longleftrightarrow>
     distinct (bt_tabIds task) \<and> (terminal_task task \<longrightarrow> bt_tabIds task = []) \<and>
     (\<forall>tabId \<in> set (bt_tabIds task). \<exists>tab. map_by ut_tabId (rd_tabs d) tabId = Some tab \<and> ut_taskId tab = bt_taskId task)"

lemma tab_issues_Nil: "tab_issues d tab = [] \<longleftrightarrow> tab_consistent d tab"
  using map_by_None [of bs_sessionId "rd_sessions d" "ut_sessionId tab"]
  by (auto simp: tab_issues_def tab_consistent_def bound_tab_def split: option.splits)

lemma task_issues_Nil: "task_issues d task = [] \<longleftrightarrow> task_consistent d task"
proof -
  have "(case map_by ut_tabId (rd_tabs d) tabId of
         None \<Rightarrow> [''Task '' @ bt_taskId task @ '' references missing tab '' @ tabId @ ''.'']
       | Some tab \<Rightarrow>
           if ut_taskId tab \<noteq> bt_taskId task
           then [''Task '' @ bt_taskId task @ '' crosses into tab '' @ tabId @ '' owned by another task.''] else []) = [] \<longleftrightarrow>
      (\<exists>tab. map_by ut_tabId (rd_tabs d) tabId = Some tab \<and> ut_taskId tab = bt_taskId task)" for tabId
    by (auto split: option.splits)
  then show ?thesis
    by (auto simp: task_issues_def task_consistent_def concat_map_Nil simp del: concat_eq_Nil_conv)
qed

lemma registryV6_issues_Nil:
  "registryV6_issues d = [] \<longleftrightarrow>
   distinct (map bs_sessionId (rd_sessions d)) \<and> distinct (map bt_taskId (rd_tasks d)) \<and>
   distinct (map ut_tabId (rd_tabs d)) \<and> distinct (map tb_tabId (rd_bindings d)) \<and>
   (\<forall>tab \<in> set (rd_tabs d). tab_consistent d tab) \<and> (\<forall>task \<in> set (rd_tasks d). task_consistent d task) \<and>
   (\<forall>b \<in> set (rd_bindings d). tb_tabId b \<in> ut_tabId ` set (rd_tabs d))"
  by (simp only: registryV6_issues_def append_is_Nil_conv concat_map_Nil if_single_Nil assertUnique_Nil map_by_None not_not
      tab_issues_Nil task_issues_Nil)

subsection \<open>Recovery\<close>

lemma recovered_session_fields [simp]:
  "bs_sessionId (recovered_session x) = bs_sessionId x"
  "bs_state (recovered_session x) \<noteq> Starting" "bs_state (recovered_session x) \<noteq> Connected"
  "browserSessionSchema_ok (recovered_session x) = browserSessionSchema_ok x"
  by (simp_all add: recovered_session_def browserSessionSchema_ok_def)

lemma recovered_sessions_props:
  "distinct (map bs_sessionId (recovered_sessions xs))"
  "bs_sessionId ` set (recovered_sessions xs) = bs_sessionId ` set xs"
  "set (recovered_sessions xs) \<subseteq> recovered_session ` set xs"
  "length (recovered_sessions xs) \<le> length xs"
proof -
  let ?ys = "deduplicateBy bs_sessionId (sort_key (\<lambda>s. - bs_lastUsedAt s) xs)"
  have keys: "map bs_sessionId (map recovered_session ?ys) = map bs_sessionId ?ys" by (simp add: comp_def)
  show "distinct (map bs_sessionId (recovered_sessions xs))"
    by (simp only: recovered_sessions_def keys deduplicateBy_props(1))
  have "bs_sessionId ` recovered_session ` set ?ys = bs_sessionId ` set ?ys" by (simp add: image_image)
  then show "bs_sessionId ` set (recovered_sessions xs) = bs_sessionId ` set xs"
    by (simp add: recovered_sessions_def deduplicateBy_props(3))
  show "set (recovered_sessions xs) \<subseteq> recovered_session ` set xs"
    using deduplicateBy_props(2) [of bs_sessionId "sort_key (\<lambda>s. - bs_lastUsedAt s) xs"]
    by (auto simp: recovered_sessions_def)
  show "length (recovered_sessions xs) \<le> length xs"
    using deduplicateBy_props(4) [of bs_sessionId "sort_key (\<lambda>s. - bs_lastUsedAt s) xs"]
    by (simp add: recovered_sessions_def)
qed

text \<open>The recovery of version 4 always gives a consistent registry.\<close>

lemma recovered_v4_consistent: "registryV4_issues (recovered_v4 d) = []"
proof -
  define S where "S = recovered_sessions (r4_sessions d)"
  define B where "B = deduplicateBy tb_tabId (r4_bindings d)"
  define T where "T = filter (tab_recoverable (map_by bs_sessionId S) (map_by tb_tabId B)) (deduplicateBy ut_tabId (r4_tabs d))"
  define R where "R = filter (\<lambda>session. bs_sessionId session \<in> set (map ut_sessionId T) \<or>
      map_option bs_state (map_by bs_sessionId (r4_sessions d) (bs_sessionId session)) = Some Disconnected) S"
  have rec: "r4_sessions (recovered_v4 d) = R"
    "r4_tabs (recovered_v4 d) = filter (\<lambda>tab. ut_sessionId tab \<in> set (map bs_sessionId R)) T"
    "r4_bindings (recovered_v4 d) =
       filter (\<lambda>b. tb_tabId b \<in> set (map ut_tabId T) \<and> tb_sessionId b \<in> set (map bs_sessionId R)) B"
    by (simp_all add: recovered_v4_def Let_def S_def B_def T_def R_def)
  have tab: "ut_sessionId t \<in> bs_sessionId ` set R" "\<exists>b. map_by tb_tabId B (ut_tabId t) = Some b \<and> binding_matches b t"
    if "t \<in> set T" for t
  proof -
    from that have t: "tab_recoverable (map_by bs_sessionId S) (map_by tb_tabId B) t" by (simp add: T_def)
    then obtain x where "x \<in> set S" "bs_sessionId x = ut_sessionId t" by (auto simp: tab_recoverable_def map_by_None)
    with that have "x \<in> set R" by (auto simp: R_def)
    with \<open>bs_sessionId x = ut_sessionId t\<close> show "ut_sessionId t \<in> bs_sessionId ` set R" by force
    from t show "\<exists>b. map_by tb_tabId B (ut_tabId t) = Some b \<and> binding_matches b t"
      by (auto simp: tab_recoverable_def split: option.splits)
  qed
  have tabs: "r4_tabs (recovered_v4 d) = T" using tab(1) by (simp add: rec)
  have dB: "distinct (map tb_tabId (r4_bindings (recovered_v4 d)))"
    by (simp only: rec, rule distinct_map_filter) (simp add: B_def deduplicateBy_props)
  have "bound_tab (r4_bindings (recovered_v4 d)) t" if t: "t \<in> set T" for t
  proof -
    obtain b where b: "map_by tb_tabId B (ut_tabId t) = Some b" "binding_matches b t" using tab(2) [OF t] by blast
    have "b \<in> set B" "tb_tabId b = ut_tabId t" using map_by_Some [OF b(1)] by auto
    moreover have "tb_sessionId b \<in> bs_sessionId ` set R" using b(2) tab(1) [OF t] by (simp add: binding_matches_def)
    ultimately have "b \<in> set (r4_bindings (recovered_v4 d))" using t by (auto simp: rec)
    from map_by_distinct [OF dB this] b(2) show ?thesis
      using \<open>tb_tabId b = ut_tabId t\<close> by (auto simp: bound_tab_def)
  qed
  moreover have "distinct (map bs_sessionId R)" "distinct (map ut_tabId T)"
    by (simp_all add: R_def S_def T_def distinct_map_filter recovered_sessions_props deduplicateBy_props)
  ultimately show ?thesis
    using tab(1) dB unfolding registryV4_issues_Nil tabs by (auto simp: rec)
qed

lemma recovered_v4_storage:
  assumes "registryV4StorageSchema_ok is_url d"
  shows "registryV4StorageSchema_ok is_url (recovered_v4 d)"
proof -
  have "length (r4_sessions (recovered_v4 d)) \<le> length (r4_sessions d)"
    "length (r4_tabs (recovered_v4 d)) \<le> length (r4_tabs d)"
    "length (r4_bindings (recovered_v4 d)) \<le> length (r4_bindings d)"
    unfolding recovered_v4_def Let_def registry_v4.simps
    by (rule le_trans [OF length_filter_le], simp add: recovered_sessions_props deduplicateBy_props)
       (rule le_trans [OF length_filter_le le_trans [OF length_filter_le]], simp add: deduplicateBy_props,
        rule le_trans [OF length_filter_le], simp add: deduplicateBy_props)
  moreover have sub: "set (r4_sessions (recovered_v4 d)) \<subseteq> recovered_session ` set (r4_sessions d)"
    using recovered_sessions_props(3) [of "r4_sessions d"] by (auto simp: recovered_v4_def Let_def)
  moreover have "set (r4_tabs (recovered_v4 d)) \<subseteq> set (r4_tabs d)"
    "set (r4_bindings (recovered_v4 d)) \<subseteq> set (r4_bindings d)"
    using deduplicateBy_props(2) [of ut_tabId "r4_tabs d"] deduplicateBy_props(2) [of tb_tabId "r4_bindings d"]
    by (auto simp: recovered_v4_def Let_def)
  moreover have "\<forall>x \<in> set (r4_sessions (recovered_v4 d)). browserSessionSchema_ok x"
    using sub assms by (auto simp: registryV4StorageSchema_ok_def list_all_iff)
  ultimately show ?thesis using assms
    unfolding registryV4StorageSchema_ok_def list_all_iff by (meson le_trans subsetD)
qed

lemma recoverV4Registry_total:
  "registryV4StorageSchema_ok is_url d \<Longrightarrow> recoverV4Registry is_url d = Inr (recovered_v4 d)"
  by (simp add: recoverV4Registry_def registryV4Schema_parse_def recovered_v4_storage recovered_v4_consistent)


lemma recoverable_consistent:
  assumes "registryV4_issues d = []" "tab \<in> set (r4_tabs d)"
  shows "tab_recoverable (map_by bs_sessionId (recovered_sessions (r4_sessions d))) (map_by tb_tabId (r4_bindings d)) tab"
  using assms recovered_sessions_props(2) [of "r4_sessions d"]
  by (auto simp: registryV4_issues_Nil tab_recoverable_def map_by_None bound_tab_def dest!: bspec)

text \<open>The recovery of a consistent registry drops sessions only.\<close>

lemma recovered_v4_of_consistent:
  assumes "registryV4_issues d = []"
  shows "r4_tabs (recovered_v4 d) = r4_tabs d" and "r4_bindings (recovered_v4 d) = r4_bindings d"
    and "r4_sessions (recovered_v4 d) = filter (\<lambda>session. bs_sessionId session \<in> ut_sessionId ` set (r4_tabs d) \<or>
      map_option bs_state (map_by bs_sessionId (r4_sessions d) (bs_sessionId session)) = Some Disconnected)
      (recovered_sessions (r4_sessions d))"
proof -
  note ok = assms [unfolded registryV4_issues_Nil]
  have dedup: "deduplicateBy tb_tabId (r4_bindings d) = r4_bindings d" "deduplicateBy ut_tabId (r4_tabs d) = r4_tabs d"
    using ok by (simp_all add: deduplicateBy_distinct)
  have all: "filter (tab_recoverable (map_by bs_sessionId (recovered_sessions (r4_sessions d))) (map_by tb_tabId (r4_bindings d)))
      (r4_tabs d) = r4_tabs d"
    using recoverable_consistent [OF assms] by (simp add: filter_id_conv)
  show sessions: "r4_sessions (recovered_v4 d) = filter (\<lambda>session. bs_sessionId session \<in> ut_sessionId ` set (r4_tabs d) \<or>
      map_option bs_state (map_by bs_sessionId (r4_sessions d) (bs_sessionId session)) = Some Disconnected)
      (recovered_sessions (r4_sessions d))"
    by (simp only: recovered_v4_def Let_def dedup all set_map registry_v4.simps)
  have retained: "ut_sessionId t \<in> bs_sessionId ` set (r4_sessions (recovered_v4 d))" if "t \<in> set (r4_tabs d)" for t
  proof -
    from that ok have "ut_sessionId t \<in> bs_sessionId ` set (recovered_sessions (r4_sessions d))"
      by (simp add: recovered_sessions_props)
    then obtain x where x: "x \<in> set (recovered_sessions (r4_sessions d))" "bs_sessionId x = ut_sessionId t" by force
    with that have "x \<in> set (r4_sessions (recovered_v4 d))" by (simp add: sessions)
    with x(2) show ?thesis by force
  qed
  have kept: "r4_tabs (recovered_v4 d) =
      filter (\<lambda>tab. ut_sessionId tab \<in> bs_sessionId ` set (r4_sessions (recovered_v4 d))) (r4_tabs d)"
    "r4_bindings (recovered_v4 d) = filter (\<lambda>b. tb_tabId b \<in> ut_tabId ` set (r4_tabs d) \<and>
      tb_sessionId b \<in> bs_sessionId ` set (r4_sessions (recovered_v4 d))) (r4_bindings d)"
    by (simp_all only: recovered_v4_def Let_def dedup all set_map registry_v4.simps)
  from retained show "r4_tabs (recovered_v4 d) = r4_tabs d" by (simp add: kept(1) filter_id_conv)
  have "tb_tabId b \<in> ut_tabId ` set (r4_tabs d) \<and> tb_sessionId b \<in> bs_sessionId ` set (r4_sessions (recovered_v4 d))"
    if b: "b \<in> set (r4_bindings d)" for b
  proof -
    from ok b obtain t where t: "t \<in> set (r4_tabs d)" "tb_tabId b = ut_tabId t" by auto
    with ok b have "binding_matches b t" using map_by_distinct [of tb_tabId "r4_bindings d" b] by (auto simp: bound_tab_def)
    with retained [OF t(1)] t show ?thesis by (auto simp: binding_matches_def)
  qed
  then show "r4_bindings (recovered_v4 d) = r4_bindings d" by (simp add: kept(2) filter_id_conv)
qed

lemma collect_Inr: "collect (map (\<lambda>x. Inr (f x)) xs) = Inr (map f xs)"
  by (induction xs) auto

lemma map_by_map:
  assumes "\<And>v. keyOf' (f v) = keyOf v"
  shows "map_by keyOf' (map f vs) k = map_option f (map_by keyOf vs k)"
  using assms by (induction vs rule: rev_induct) (auto simp: map_by_def)

lemma truncate_fields [simp]:
  "ut_tabId (UnifiedBrowserTabV4.truncate t) = ut_tabId t"
  "ut_sessionId (UnifiedBrowserTabV4.truncate t) = ut_sessionId t"
  "binding_matches b (UnifiedBrowserTabV4.truncate t) = binding_matches b t"
  "bound_tab bs (UnifiedBrowserTabV4.truncate t) = bound_tab bs t"
  "unifiedBrowserTabV4Schema_ok is_url (UnifiedBrowserTabV4.truncate t) = unifiedBrowserTabV4Schema_ok is_url t"
  by (simp_all add: UnifiedBrowserTabV4.truncate_def binding_matches_def bound_tab_def unifiedBrowserTabV4Schema_ok_def)

lemma extend_truncate:
  "UnifiedBrowserTabV4.extend (UnifiedBrowserTabV4.truncate t) (UnifiedBrowserTab.fields (ut_taskId t) (ut_lifecycle t)) = t"
  by (cases t) (simp add: UnifiedBrowserTabV4.defs UnifiedBrowserTab.defs)

lemma as_v4_consistent: "registryV6_issues d = [] \<Longrightarrow> registryV4_issues (as_v4 d) = []"
  by (auto simp: registryV6_issues_Nil registryV4_issues_Nil as_v4_def tab_consistent_def comp_def image_image)

lemma as_v4_storage: "registry_storage_ok n is_url d \<Longrightarrow> registryV4StorageSchema_ok is_url (as_v4 d)"
  by (auto simp: registry_storage_ok_def registryV4StorageSchema_ok_def as_v4_def list_all_iff unifiedBrowserTabSchema_ok_def)

definition suspended_task :: "BrowserTask \<Rightarrow> BrowserTask" where
  "suspended_task task =
     task\<lparr>bt_state := (if bt_state task = Active \<or> bt_state task = Finishing then Suspended else bt_state task)\<rparr>"

lemma suspended_task_fields [simp]:
  "bt_taskId (suspended_task t) = bt_taskId t" "bt_tabIds (suspended_task t) = bt_tabIds t"
  "terminal_task (suspended_task t) = terminal_task t"
  "browserTaskFields_ok (suspended_task t) = browserTaskFields_ok t"
  "bt_lifecycleVersion (suspended_task t) = bt_lifecycleVersion t"
  by (simp_all add: suspended_task_def terminal_task_def browserTaskFields_ok_def)

definition reloaded :: "BrowserSessionRegistryData \<Rightarrow> BrowserSessionRegistryData" where
  "reloaded d = d\<lparr>rd_sessions := r4_sessions (recovered_v4 (as_v4 d)), rd_tasks := map suspended_task (rd_tasks d)\<rparr>"

lemma reloaded_ok:
  assumes "registryV6StorageSchema_ok is_url d" "registryV6_issues d = []"
  shows "registryV6Schema_parse is_url (reloaded d) = Inr (reloaded d)"
proof -
  note ok = assms(2) [unfolded registryV6_issues_Nil]
  note v4 = as_v4_consistent [OF assms(2)]
  have storage: "registryV4StorageSchema_ok is_url (recovered_v4 (as_v4 d))"
    using assms(1) as_v4_storage recovered_v4_storage by (simp add: registryV6StorageSchema_ok_def)
  have "registryV6StorageSchema_ok is_url (reloaded d)"
    using assms(1) storage
    by (simp add: registryV6StorageSchema_ok_def registry_storage_ok_def registryV4StorageSchema_ok_def reloaded_def list_all_iff)
  moreover have "distinct (map bs_sessionId (rd_sessions (reloaded d)))"
    using recovered_v4_consistent [of "as_v4 d"] by (simp add: registryV4_issues_Nil reloaded_def)
  moreover have "distinct (map bt_taskId (rd_tasks (reloaded d)))" using ok by (simp add: reloaded_def comp_def)
  moreover have "tab_consistent (reloaded d) tab" if tab: "tab \<in> set (rd_tabs d)" for tab
  proof -
    have "UnifiedBrowserTabV4.truncate tab \<in> set (r4_tabs (recovered_v4 (as_v4 d)))"
      using tab by (simp add: recovered_v4_of_consistent(1) [OF v4]) (simp add: as_v4_def)
    then have "ut_sessionId tab \<in> bs_sessionId ` set (rd_sessions (reloaded d))"
      using recovered_v4_consistent [of "as_v4 d"] by (auto simp: registryV4_issues_Nil reloaded_def)
    moreover have "tab_consistent d tab" using ok tab by blast
    ultimately show ?thesis
      by (auto simp: tab_consistent_def reloaded_def map_by_map [of bt_taskId suspended_task bt_taskId])
  qed
  moreover have "task_consistent (reloaded d) (suspended_task task)" if "task \<in> set (rd_tasks d)" for task
    using ok that by (auto simp: task_consistent_def reloaded_def)
  ultimately show ?thesis
    using ok by (auto simp: registryV6Schema_parse_def registryV6_issues_Nil reloaded_def)
qed


lemma task_tabs_kept:
  assumes "task_consistent d task"
  shows "filter (\<lambda>t. t \<in> ut_tabId ` set (rd_tabs d)) (bt_tabIds task) = bt_tabIds task"
  using assms by (auto simp: filter_id_conv task_consistent_def dest!: bspec map_by_Some)

lemma recovered_task_consistent:
  assumes "task_consistent d task"
  shows "recovered_task (ut_tabId ` set (rd_tabs d)) task = suspended_task task"
  using assms task_tabs_kept [OF assms]
  by (simp add: recovered_task_def suspended_task_def task_consistent_def)

lemma suspended_task_same_tabs: "bt_tabIds task = ids \<Longrightarrow> (suspended_task task)\<lparr>bt_tabIds := ids\<rparr> = suspended_task task"
  by (simp add: suspended_task_def)

text \<open>A consistent registry is recovered with all its tabs, tasks and bindings.\<close>

lemma recoverV6_of_consistent:
  assumes storage: "registryV6StorageSchema_ok is_url d" and issues: "registryV6_issues d = []"
  shows "recoverV6Registry is_url d = Inr (reloaded d)"
proof -
  note ok = issues [unfolded registryV6_issues_Nil]
  note v4 = recovered_v4_of_consistent [OF as_v4_consistent [OF issues]]
  have rec: "recoverV4Registry is_url (as_v4 d) = Inr (recovered_v4 (as_v4 d))"
    using storage by (simp add: recoverV4Registry_total as_v4_storage registryV6StorageSchema_ok_def)
  have tabs: "r4_tabs (recovered_v4 (as_v4 d)) = map UnifiedBrowserTabV4.truncate (rd_tabs d)"
    "r4_bindings (recovered_v4 (as_v4 d)) = rd_bindings d" by (simp_all add: v4) (simp_all add: as_v4_def)
  have ids: "ut_tabId ` UnifiedBrowserTabV4.truncate ` set (rd_tabs d) = ut_tabId ` set (rd_tabs d)"
    by (simp add: image_image)
  have parse: "browserTaskSchema_parse (recovered_task (ut_tabId ` set (rd_tabs d)) task) = Inr (suspended_task task)"
    if "task \<in> set (rd_tasks d)" for task
    using that ok storage
    by (simp add: recovered_task_consistent browserTaskSchema_parse_def registryV6StorageSchema_ok_def registry_storage_ok_def
        list_all_iff)
  have tasks: "collect (map (\<lambda>task. browserTaskSchema_parse (recovered_task (ut_tabId ` set (rd_tabs d)) task))
      (deduplicateBy bt_taskId (rd_tasks d))) = Inr (map suspended_task (rd_tasks d))"
    using ok parse by (simp add: deduplicateBy_distinct collect_Inr cong: map_cong)
  define restorable where "restorable = bt_taskId `
    set (filter (\<lambda>task. bt_state task = Active \<or> bt_state task = Suspended) (map suspended_task (rd_tasks d)))"
  have restore: "restored_tab is_url (map_by ut_tabId (rd_tabs d)) restorable (UnifiedBrowserTabV4.truncate tab) = Inr (Some tab)"
    if tab: "tab \<in> set (rd_tabs d)" for tab
  proof -
    from tab ok obtain task where "map_by bt_taskId (rd_tasks d) (ut_taskId tab) = Some task" "\<not> terminal_task task"
      by (auto simp: tab_consistent_def)
    then have "task \<in> set (rd_tasks d)" "bt_taskId task = ut_taskId tab" "bt_state (suspended_task task) = Suspended"
      by (auto dest: map_by_Some simp: terminal_task_def suspended_task_def) (cases "bt_state task"; simp)
    then have "ut_taskId tab \<in> restorable" by (force simp: restorable_def)
    moreover have "map_by ut_tabId (rd_tabs d) (ut_tabId tab) = Some tab" using ok tab by (simp add: map_by_distinct)
    moreover have "unifiedBrowserTabSchema_ok is_url tab"
      using storage tab by (simp add: registryV6StorageSchema_ok_def registry_storage_ok_def list_all_iff)
    ultimately show ?thesis by (simp add: restored_tab_def extend_truncate)
  qed
  have found: "collect (map (restored_tab is_url (map_by ut_tabId (rd_tabs d)) restorable) (map UnifiedBrowserTabV4.truncate (rd_tabs d))) =
      Inr (map Some (rd_tabs d))"
    using restore by (simp add: collect_Inr comp_def cong: map_cong)
  have filters: "map (\<lambda>task. task\<lparr>bt_tabIds := filter (\<lambda>t. t \<in> ut_tabId ` set (rd_tabs d)) (bt_tabIds task)\<rparr>)
        (map suspended_task (rd_tasks d)) = map suspended_task (rd_tasks d)"
    "filter (\<lambda>b. tb_tabId b \<in> ut_tabId ` set (rd_tabs d)) (rd_bindings d) = rd_bindings d"
    using ok by (simp_all add: task_tabs_kept suspended_task_same_tabs filter_id_conv)
  have present: "present (map Some (rd_tabs d)) = rd_tabs d" by (simp add: present_def comp_def filter_map)
  have "reloaded d = \<lparr>rd_updatedAt = rd_updatedAt d, rd_sessions = r4_sessions (recovered_v4 (as_v4 d)),
      rd_tasks = map suspended_task (rd_tasks d), rd_tabs = rd_tabs d, rd_bindings = rd_bindings d\<rparr>"
    by (simp add: reloaded_def)
  then show ?thesis
    using reloaded_ok [OF storage issues]
    by (simp only: recoverV6Registry_def Let_def rec bind_result_simps ids tasks restorable_def [symmetric] found present
        set_map filters tabs)
qed


subsection \<open>What a load returns\<close>

lemma registryV6Schema_parse_Inr:
  "registryV6Schema_parse is_url d = Inr r \<longleftrightarrow> r = d \<and> registryV6StorageSchema_ok is_url d \<and> registryV6_issues d = []"
  by (auto simp: registryV6Schema_parse_def)

lemma recoverV4Registry_Inr: "recoverV4Registry is_url d = Inr r \<Longrightarrow> r = recovered_v4 d"
  by (auto simp: recoverV4Registry_def registryV4Schema_parse_def split: if_splits)

lemma collect_Inr_in:
  "collect (map f xs) = Inr ys \<Longrightarrow> y \<in> set ys \<Longrightarrow> \<exists>x \<in> set xs. f x = Inr y"
proof (induction xs arbitrary: ys)
  case (Cons x xs)
  then show ?case by (cases "f x") (auto split: sum.splits)
qed simp

lemma recovered_v4_states:
  "session \<in> set (r4_sessions (recovered_v4 d)) \<Longrightarrow> bs_state session \<in> {Disconnected, Failed}"
  using recovered_sessions_props(3) [of "r4_sessions d"]
  by (cases "bs_state session") (auto simp: recovered_v4_def Let_def)

lemma browserTaskSchema_parse_Inr: "browserTaskSchema_parse t = Inr r \<Longrightarrow> r = t"
  by (simp add: browserTaskSchema_parse_def split: if_splits)

lemma recovered_task_state: "bt_state (recovered_task ids x) \<in> {Suspended, Finished, Expired}"
  by (cases "bt_state x") (simp_all add: recovered_task_def)

lemma migrated_task_state: "bt_state (migrated_task x) \<in> {Suspended, Finished, Expired}"
  by (simp add: migrated_task_def)

text \<open>No session of a loaded registry is connected and no task is active.\<close>

definition at_rest :: "BrowserSessionRegistryData \<Rightarrow> bool" where
  "at_rest d \<longleftrightarrow>
     (\<forall>session \<in> set (rd_sessions d). bs_state session \<in> {Disconnected, Failed}) \<and>
     (\<forall>task \<in> set (rd_tasks d). bt_state task \<in> {Suspended, Finished, Expired})"

definition loaded_ok :: "(string \<Rightarrow> bool) \<Rightarrow> BrowserSessionRegistryData \<Rightarrow> bool" where
  "loaded_ok is_url d \<longleftrightarrow> registryV6StorageSchema_ok is_url d \<and> registryV6_issues d = [] \<and> at_rest d"

lemma recoverV6_loaded_ok:
  assumes "recoverV6Registry is_url d = Inr r"
  shows "loaded_ok is_url r"
proof -
  from assms obtain v4 tasks found where v4: "recoverV4Registry is_url (as_v4 d) = Inr v4"
    and tasks: "collect (map (\<lambda>task. browserTaskSchema_parse (recovered_task (set (map ut_tabId (r4_tabs v4))) task))
      (deduplicateBy bt_taskId (rd_tasks d))) = Inr tasks"
    and r: "registryV6Schema_parse is_url
      \<lparr>rd_updatedAt = rd_updatedAt d, rd_sessions = r4_sessions v4,
       rd_tasks = map (\<lambda>task. task\<lparr>bt_tabIds := filter (\<lambda>t. t \<in> set (map ut_tabId (present found))) (bt_tabIds task)\<rparr>) tasks,
       rd_tabs = present found,
       rd_bindings = filter (\<lambda>b. tb_tabId b \<in> set (map ut_tabId (present found))) (r4_bindings v4)\<rparr> = Inr r"
    unfolding recoverV6Registry_def Let_def bind_result_Inr_iff by blast
  have "bt_state task \<in> {Suspended, Finished, Expired}" if "task \<in> set tasks" for task
    using collect_Inr_in [OF tasks that] browserTaskSchema_parse_Inr recovered_task_state by blast
  moreover have "bs_state session \<in> {Disconnected, Failed}" if "session \<in> set (r4_sessions v4)" for session
    using recoverV4Registry_Inr [OF v4] recovered_v4_states that by blast
  ultimately show ?thesis using r by (auto simp: registryV6Schema_parse_Inr loaded_ok_def at_rest_def)
qed

lemma migrateV5_loaded_ok:
  assumes "migrateV5Registry is_url d = Inr r"
  shows "loaded_ok is_url r \<and> rd_tabs r = [] \<and> rd_bindings r = []"
proof -
  from assms obtain v4 tasks where v4: "recoverV4Registry is_url (as_v4 d) = Inr v4"
    and tasks: "collect (map (\<lambda>task. browserTaskSchema_parse (migrated_task task)) (deduplicateBy bt_taskId (rd_tasks d))) = Inr tasks"
    and r: "registryV6Schema_parse is_url
      \<lparr>rd_updatedAt = rd_updatedAt d, rd_sessions = r4_sessions v4, rd_tasks = tasks, rd_tabs = [], rd_bindings = []\<rparr> = Inr r"
    unfolding migrateV5Registry_def Let_def bind_result_Inr_iff by blast
  have "bt_state task \<in> {Suspended, Finished, Expired}" if "task \<in> set tasks" for task
    using collect_Inr_in [OF tasks that] browserTaskSchema_parse_Inr migrated_task_state by blast
  moreover have "bs_state session \<in> {Disconnected, Failed}" if "session \<in> set (r4_sessions v4)" for session
    using recoverV4Registry_Inr [OF v4] recovered_v4_states that by blast
  ultimately show ?thesis using r by (auto simp: registryV6Schema_parse_Inr loaded_ok_def at_rest_def)
qed

lemma migrateV4_loaded_ok: "migrateV4Registry is_url now d = Inr r \<Longrightarrow> loaded_ok is_url r"
  unfolding migrateV4Registry_def Let_def bind_result_Inr_iff
  by (auto split: if_splits dest: migrateV5_loaded_ok)

lemma migrateV3_loaded_ok: "migrateV3Registry is_url now d = Inr r \<Longrightarrow> loaded_ok is_url r"
  unfolding migrateV3Registry_def Let_def bind_result_Inr_iff
  by (auto split: if_splits dest: migrateV4_loaded_ok)

lemma emptyRegistry_loaded_ok: "loaded_ok is_url emptyRegistry"
  by (simp add: loaded_ok_def at_rest_def emptyRegistry_def registryV6StorageSchema_ok_def registry_storage_ok_def
      registryV6_issues_Nil)

lemma load_document_ok: "load_document is_url now doc = Inr r \<Longrightarrow> loaded_ok is_url r"
  by (cases doc) (auto simp: load_document_def emptyRegistry_loaded_ok split: if_splits
      dest: recoverV6_loaded_ok migrateV5_loaded_ok migrateV4_loaded_ok migrateV3_loaded_ok)

lemma recovered_sessions_set:
  assumes "distinct (map bs_sessionId xs)"
  shows "set (recovered_sessions xs) = recovered_session ` set xs"
proof -
  have "distinct (map bs_sessionId (sort_key (\<lambda>s. - bs_lastUsedAt s) xs))"
    using assms by (simp add: distinct_map)
  then show ?thesis by (simp add: recovered_sessions_def deduplicateBy_distinct)
qed

lemma reloaded_sessions:
  assumes "registryV6_issues d = []"
  shows "set (rd_sessions (reloaded d)) = recovered_session ` {s \<in> set (rd_sessions d).
    bs_state s = Disconnected \<or> (\<exists>tab \<in> set (rd_tabs d). ut_sessionId tab = bs_sessionId s)}"
proof -
  have distinct: "distinct (map bs_sessionId (rd_sessions d))" using assms by (simp add: registryV6_issues_Nil)
  have "set (rd_sessions (reloaded d)) = {s \<in> recovered_session ` set (rd_sessions d).
      bs_sessionId s \<in> ut_sessionId ` set (rd_tabs d) \<or>
      map_option bs_state (map_by bs_sessionId (rd_sessions d) (bs_sessionId s)) = Some Disconnected}"
    using recovered_v4_of_consistent(3) [OF as_v4_consistent [OF assms]] recovered_sessions_set [OF distinct]
    by (simp add: reloaded_def) (simp add: as_v4_def image_image)
  also have "\<dots> = recovered_session ` {s \<in> set (rd_sessions d).
      bs_state s = Disconnected \<or> (\<exists>tab \<in> set (rd_tabs d). ut_sessionId tab = bs_sessionId s)}"
    using map_by_distinct [OF distinct] by (auto simp: image_iff) (metis, metis)
  finally show ?thesis .
qed

lemma save_registry_Inr:
  assumes "save_registry is_url call stored = (Inr (), stored')"
  shows "stored' = File_document (Doc_v6 (saved_data call))" "registryV6StorageSchema_ok is_url (saved_data call)"
    "registryV6_issues (saved_data call) = []"
  using assms
  by (auto simp: save_registry_def registryV6Schema_parse_def persist_def split: if_splits option.splits sum.splits)

text \<open>A migration from version 5 always succeeds and ends every task.\<close>

lemma migrated_task_fields [simp]:
  "bt_taskId (migrated_task t) = bt_taskId t" "bt_tabIds (migrated_task t) = []" "terminal_task (migrated_task t)"
  "browserTaskFields_ok t \<Longrightarrow> browserTaskFields_ok (migrated_task t)"
  "bt_lifecycleVersion (migrated_task t) = CURRENT_BROWSER_TASK_LIFECYCLE_VERSION"
  by (simp_all add: migrated_task_def terminal_task_def browserTaskFields_ok_def)

definition migrated_v5 :: "BrowserSessionRegistryData \<Rightarrow> BrowserSessionRegistryData" where
  "migrated_v5 d = \<lparr>rd_updatedAt = rd_updatedAt d, rd_sessions = r4_sessions (recovered_v4 (as_v4 d)),
     rd_tasks = map migrated_task (deduplicateBy bt_taskId (rd_tasks d)), rd_tabs = [], rd_bindings = []\<rparr>"

lemma migrateV5_total:
  assumes "registryV5StorageSchema_ok is_url d"
  shows "migrateV5Registry is_url d = Inr (migrated_v5 d)"
proof -
  note storage = assms [unfolded registryV5StorageSchema_ok_def]
  have rec: "recoverV4Registry is_url (as_v4 d) = Inr (recovered_v4 (as_v4 d))"
    by (simp add: recoverV4Registry_total as_v4_storage [OF storage])
  note v4 = recovered_v4_storage [OF as_v4_storage [OF storage]]
  have fields: "browserTaskFields_ok task" if "task \<in> set (deduplicateBy bt_taskId (rd_tasks d))" for task
    using that deduplicateBy_props(2) [of bt_taskId "rd_tasks d"] storage by (auto simp: registry_storage_ok_def list_all_iff)
  have tasks: "collect (map (\<lambda>task. browserTaskSchema_parse (migrated_task task)) (deduplicateBy bt_taskId (rd_tasks d))) =
      Inr (map migrated_task (deduplicateBy bt_taskId (rd_tasks d)))"
    using fields by (simp add: browserTaskSchema_parse_def collect_Inr cong: map_cong)
  have "length (deduplicateBy bt_taskId (rd_tasks d)) \<le> 500"
    using deduplicateBy_props(4) [of bt_taskId "rd_tasks d"] storage by (simp add: registry_storage_ok_def)
  then have "registryV6StorageSchema_ok is_url (migrated_v5 d)"
    using v4 fields
    by (auto simp: registryV6StorageSchema_ok_def registry_storage_ok_def registryV4StorageSchema_ok_def migrated_v5_def list_all_iff)
  moreover have "registryV6_issues (migrated_v5 d) = []"
    using recovered_v4_consistent [of "as_v4 d"]
    by (simp add: registryV6_issues_Nil registryV4_issues_Nil migrated_v5_def comp_def deduplicateBy_props task_consistent_def)
  ultimately show ?thesis
    by (simp add: migrateV5Registry_def rec tasks registryV6Schema_parse_def migrated_v5_def)
qed

lemma collect_not_Inr: "x \<in> set xs \<Longrightarrow> f x = Inl e \<Longrightarrow> \<exists>e'. collect (map f xs) = Inl e'"
proof (induction xs)
  case (Cons y ys)
  then show ?case by (cases "f y") (auto split: sum.splits)
qed simp

lemma session_task_ok:
  assumes "registryV4StorageSchema_ok is_url d" "session \<in> set (r4_sessions d)"
  shows "legacyBrowserTaskSchema_parse (session_task now (r4_tabs d) session) =
    (if length (bs_sessionId session) \<le> 123 then Inr (session_task now (r4_tabs d) session) else Inl SchemaError)"
proof -
  have "length (filter (\<lambda>tab. ut_sessionId tab = bs_sessionId session) (r4_tabs d)) \<le> 500"
    using assms(1) le_trans [OF length_filter_le] by (auto simp: registryV4StorageSchema_ok_def)
  moreover have "list_all id_length_ok (map ut_tabId (filter (\<lambda>tab. ut_sessionId tab = bs_sessionId session) (r4_tabs d)))"
    using assms(1)
    by (auto simp: registryV4StorageSchema_ok_def list_all_iff unifiedBrowserTabV4Schema_ok_def id_length_ok_def string_ok_def)
  ultimately show ?thesis
    by (auto simp: legacyBrowserTaskSchema_parse_def browserTaskFields_ok_def session_task_def session_task_id_def id_length_ok_def
        LEGACY_UNCLAIMED_OWNER_SCOPE_HASH_def)
qed

lemma migrateV4_short_ids:
  assumes storage: "registryV4StorageSchema_ok is_url d"
    and short: "\<forall>session \<in> set (r4_sessions (recovered_v4 d)). length (bs_sessionId session) \<le> 123"
  shows "is_ok (migrateV4Registry is_url now d)"
proof -
  note v4 = recovered_v4_storage [OF storage]
  let ?tasks = "map (session_task now (r4_tabs (recovered_v4 d))) (r4_sessions (recovered_v4 d))"
  have tasks: "collect (map (\<lambda>session. legacyBrowserTaskSchema_parse (session_task now (r4_tabs (recovered_v4 d)) session))
      (r4_sessions (recovered_v4 d))) = Inr ?tasks"
    using short by (simp add: session_task_ok [OF v4] collect_Inr cong: map_cong)
  have fields: "browserTaskFields_ok task \<and> bt_lifecycleVersion task = LEGACY_BROWSER_TASK_LIFECYCLE_VERSION" if "task \<in> set ?tasks" for task
    using that short session_task_ok [OF v4, of _ now] by (force simp: legacyBrowserTaskSchema_parse_def split: if_splits)
  have tabs: "string_ok 1 128 (session_task_id (ut_sessionId tab))" if "tab \<in> set (r4_tabs (recovered_v4 d))" for tab
  proof -
    from that recovered_v4_consistent [of d] obtain x where "x \<in> set (r4_sessions (recovered_v4 d))" "ut_sessionId tab = bs_sessionId x"
      by (auto simp: registryV4_issues_Nil)
    with short show ?thesis by (simp add: string_ok_def session_task_id_def)
  qed
  have "registryV5StorageSchema_ok is_url
     \<lparr>rd_updatedAt = r4_updatedAt (recovered_v4 d), rd_sessions = r4_sessions (recovered_v4 d), rd_tasks = ?tasks,
      rd_tabs = map (\<lambda>tab. UnifiedBrowserTabV4.extend tab
        (UnifiedBrowserTab.fields (session_task_id (ut_sessionId tab)) Task_scoped)) (r4_tabs (recovered_v4 d)),
      rd_bindings = r4_bindings (recovered_v4 d)\<rparr>"
    using v4 fields tabs
    by (auto simp: registryV5StorageSchema_ok_def registry_storage_ok_def registryV4StorageSchema_ok_def list_all_iff
        unifiedBrowserTabSchema_ok_def unifiedBrowserTabV4Schema_ok_def UnifiedBrowserTabV4.defs UnifiedBrowserTab.defs)
  then show ?thesis
    by (simp add: migrateV4Registry_def recoverV4Registry_total [OF storage] tasks migrateV5_total)
qed

lemma migrateV4_long_id:
  assumes storage: "registryV4StorageSchema_ok is_url d"
    and long: "session \<in> set (r4_sessions (recovered_v4 d))" "123 < length (bs_sessionId session)"
  shows "\<not> is_ok (migrateV4Registry is_url now d)"
proof -
  have "legacyBrowserTaskSchema_parse (session_task now (r4_tabs (recovered_v4 d)) session) = Inl SchemaError"
    using session_task_ok [OF recovered_v4_storage [OF storage] long(1)] long(2) by simp
  then have "\<exists>e. collect (map (\<lambda>session. legacyBrowserTaskSchema_parse (session_task now (r4_tabs (recovered_v4 d)) session))
      (r4_sessions (recovered_v4 d))) = Inl e"
    by (rule collect_not_Inr [OF long(1), where f = "\<lambda>x. legacyBrowserTaskSchema_parse (session_task now (r4_tabs (recovered_v4 d)) x)"])
  then show ?thesis
    by (auto simp: migrateV4Registry_def recoverV4Registry_total [OF storage])
qed

subsection \<open>Properties\<close>

text \<open>
  C33. Whatever is stored, a registry that \<open>load\<close> returns is consistent and at rest: it satisfies
  the schema, ids are unique, every tab has its session, its binding and a live task that lists
  it, every task lists only its own tabs, terminal tasks have none, every binding has a tab, no
  session counts as connected and no task as active or finishing.\<close>

theorem loaded_registry_consistent:
  assumes "load_registry is_url now stored = Inr r"
  shows "registryV6StorageSchema_ok is_url r \<and> registryV6_issues r = [] \<and> at_rest r"
  using assms load_document_ok emptyRegistry_loaded_ok
  by (cases stored) (auto simp: load_registry_def loaded_ok_def)


definition demo_session :: "string \<Rightarrow> BrowserSession" where
  "demo_session i = \<lparr>bs_sessionId = i, bs_mode = Mode_interactive, bs_state = Connected, bs_routingReason = None,
     bs_routingPolicyReason = None, bs_createdAt = 1, bs_lastUsedAt = 2\<rparr>"

definition demo_save :: save_call where
  "demo_save =
     \<lparr>sv_sessions = [demo_session ''s1''],
      sv_tabs = [\<lparr>ut_tabId = ''t1'', ut_sessionId = ''s1'', ut_remoteTabId = ''direct:page:1'', ut_remoteIndex = 0,
        ut_purpose = ''generic-research'', ut_reusable = True, ut_protected = False, ut_sticky = False,
        ut_createdAt = 1, ut_lastUsedAt = 2, ut_url = None, ut_requestedUrl = None, ut_title = None, ut_lockedUrl = None,
        ut_taskId = ''k1'', ut_lifecycle = Task_scoped\<rparr>],
      sv_bindings = [\<lparr>tb_tabId = ''t1'', tb_sessionId = ''s1'', tb_remoteTabId = ''direct:page:1'', tb_remoteIndex = 0,
        tb_url = ''https://example.com'', tb_title = [], tb_remoteTabCount = None, tb_navigation = None\<rparr>],
      sv_tasks = [\<lparr>bt_taskId = ''k1'', bt_ownerScopeHash = ''h'', bt_state = Active, bt_tabIds = [''t1''], bt_createdAt = 1,
        bt_lastActivityAt = 2, bt_expiresAt = 3, bt_lifecycleVersion = CURRENT_BROWSER_TASK_LIFECYCLE_VERSION\<rparr>],
      sv_now = 5,
      sv_io = \<lparr>si_mkdir = None, si_writeFile = None, si_rename = (\<lambda>n. if n = 0 then Rename_failed (Some ''EBUSY'') (PlainError ''rename'') else Renamed)\<rparr>\<rparr>"

lemma demo_save_ok: "save_registry (\<lambda>u. True) demo_save File_missing = (Inr (), File_document (Doc_v6 (saved_data demo_save)))"
  by code_simp

text \<open>
  C17. A saved registry survives a restart. When \<open>save\<close> succeeds, possibly after retried
  renames, the next \<open>load\<close> returns it with all its tabs and bindings unchanged and in order,
  every task with its tabs, active and finishing tasks suspended, and, disconnected, exactly the
  sessions that have a tab or were disconnected when saved.\<close>

theorem session_registry_round_trip:
  assumes "save_registry is_url call stored = (Inr (), stored')"
  shows "\<exists>r. load_registry is_url now stored' = Inr r \<and> rd_tabs r = sv_tabs call \<and> rd_bindings r = sv_bindings call \<and>
    rd_tasks r = map suspended_task (sv_tasks call) \<and>
    set (rd_sessions r) = recovered_session ` {s \<in> set (sv_sessions call).
      bs_state s = Disconnected \<or> (\<exists>tab \<in> set (sv_tabs call). ut_sessionId tab = bs_sessionId s)}"
proof -
  note saved = save_registry_Inr [OF assms]
  have "load_registry is_url now stored' = Inr (reloaded (saved_data call))"
    using saved recoverV6_of_consistent [OF saved(2,3)] by (simp add: load_registry_def load_document_def)
  with reloaded_sessions [OF saved(3)] show ?thesis by (simp add: reloaded_def saved_data_def)
qed

theorem session_registry_round_trip_witness:
  "\<exists>r. load_registry (\<lambda>u. True) 9 (File_document (Doc_v6 (saved_data demo_save))) = Inr r \<and> rd_tabs r = sv_tabs demo_save \<and>
     map bt_state (rd_tasks r) = [Suspended] \<and> set (rd_sessions r) = {recovered_session (demo_session ''s1'')}"
  using session_registry_round_trip [OF demo_save_ok, of 9] by (auto simp: demo_save_def suspended_task_def demo_session_def)

theorem loaded_registry_consistent_witness:
  "\<exists>r. load_registry (\<lambda>u. True) 9 (File_document (Doc_v6 (saved_data demo_save))) = Inr r \<and> rd_tabs r = sv_tabs demo_save \<and>
     registryV6_issues r = [] \<and> at_rest r"
proof -
  have "\<exists>r. load_registry (\<lambda>u. True) 9 (File_document (Doc_v6 (saved_data demo_save))) = Inr r \<and> rd_tabs r = sv_tabs demo_save"
    using recoverV6_of_consistent [OF save_registry_Inr(2,3) [OF demo_save_ok]] save_registry_Inr(2) [OF demo_save_ok]
    by (simp add: load_registry_def load_document_def reloaded_def saved_data_def)
  then show ?thesis using loaded_registry_consistent by blast
qed


text \<open>
  Which old registries load. A stored document of version 5 always loads, without tabs and
  with every task finished or expired; one of version 4 loads exactly when no session that
  survives the recovery has an id of more than 123 characters: the schema allows 128, but the
  task id made of it is five characters longer and has the same limit.\<close>

theorem legacy_registry_loads:
  assumes "registryV5StorageSchema_ok is_url d5" and "registryV4StorageSchema_ok is_url d4"
  shows "(\<exists>r. load_registry is_url now (File_document (Doc_v5 d5)) = Inr r \<and> rd_tabs r = [] \<and> list_all terminal_task (rd_tasks r)) \<and>
    (is_ok (load_registry is_url now (File_document (Doc_v4 d4))) \<longleftrightarrow>
     (\<forall>session \<in> set (r4_sessions (recovered_v4 d4)). length (bs_sessionId session) \<le> 123))"
proof
  show "\<exists>r. load_registry is_url now (File_document (Doc_v5 d5)) = Inr r \<and> rd_tabs r = [] \<and> list_all terminal_task (rd_tasks r)"
    using assms(1) migrateV5_total [OF assms(1)]
    by (simp add: load_registry_def load_document_def migrated_v5_def list_all_iff)
  show "is_ok (load_registry is_url now (File_document (Doc_v4 d4))) \<longleftrightarrow>
     (\<forall>session \<in> set (r4_sessions (recovered_v4 d4)). length (bs_sessionId session) \<le> 123)"
    using assms(2) migrateV4_short_ids [OF assms(2)] migrateV4_long_id [OF assms(2)]
    by (auto simp: load_registry_def load_document_def not_le [symmetric])
qed

definition demo_v4 :: registry_v4 where
  "demo_v4 = \<lparr>r4_updatedAt = 0, r4_sessions = [(demo_session (replicate 128 CHR ''a''))\<lparr>bs_state := Disconnected\<rparr>],
     r4_tabs = [], r4_bindings = []\<rparr>"

theorem legacy_registry_loads_witness:
  "is_ok (load_registry (\<lambda>u. True) 9 (File_document (Doc_v5 emptyRegistry))) \<and>
   \<not> is_ok (load_registry (\<lambda>u. True) 9 (File_document (Doc_v4 demo_v4)))"
proof -
  have ok: "registryV5StorageSchema_ok (\<lambda>u. True) emptyRegistry" "registryV4StorageSchema_ok (\<lambda>u. True) demo_v4"
    by code_simp+
  have "\<exists>session \<in> set (r4_sessions (recovered_v4 demo_v4)). 123 < length (bs_sessionId session)" by code_simp
  with legacy_registry_loads [OF ok, of 9] show ?thesis by (auto simp: not_le)
qed

end
