(* ===== verification/Tab_Registry.thy ===== *)
theory Tab_Registry
  imports Browser_Sessions
begin

text \<open>
  The tab registry of the browser worker, \<open>services/browser-worker/domain/tab-registry.ts\<close>, and
  the conversions between its public tabs and the persisted ones of
  \<open>domain/browser-session-model.ts\<close>. An optional field that is absent is \<open>None\<close>.
\<close>

datatype BrowserOwnership = Mcp_owned | User_owned

record BrowserTab =
  bw_tabId :: string
  bw_taskId :: "string option"
  bw_lifecycle :: "tab_lifecycle option"
  bw_ownership :: BrowserOwnership
  bw_purpose :: string
  bw_reusable :: bool
  bw_protected :: bool
  bw_sticky :: bool
  bw_createdAt :: instant
  bw_lastUsedAt :: instant
  bw_url :: "string option"
  bw_requestedUrl :: "string option"
  bw_title :: "string option"
  bw_lockedUrl :: "string option"

record RegisterMcpTabInput =
  ri_tabId :: "string option"
  ri_taskId :: "string option"
  ri_lifecycle :: "tab_lifecycle option"
  ri_purpose :: "string option"
  ri_reusable :: "bool option"
  ri_protected :: "bool option"
  ri_sticky :: "bool option"
  ri_url :: "string option"
  ri_requestedUrl :: "string option"
  ri_title :: "string option"
  ri_lockedUrl :: "string option"

type_synonym tab_registry = "(string, BrowserTab) jsmap"

text \<open>\<open>a ?? b\<close> for a value and for an optional one.\<close>

definition or_default :: "'a option \<Rightarrow> 'a \<Rightarrow> 'a" where
  "or_default a b = (case a of None \<Rightarrow> b | Some x \<Rightarrow> x)"

definition or_else :: "'a option \<Rightarrow> 'a option \<Rightarrow> 'a option" where
  "or_else a b = (case a of None \<Rightarrow> b | Some x \<Rightarrow> Some x)"

subsection \<open>Operations\<close>

definition tab_registry_new :: "BrowserTab list \<Rightarrow> tab_registry" where
  "tab_registry_new initialTabs = fold (\<lambda>tab m. js_set (bw_tabId tab) tab m) initialTabs []"

definition ownershipOf :: "string \<Rightarrow> tab_registry \<Rightarrow> BrowserOwnership" where
  "ownershipOf tabId m = (case js_get m tabId of None \<Rightarrow> User_owned | Some tab \<Rightarrow> bw_ownership tab)"

definition list_tabs :: "tab_registry \<Rightarrow> BrowserTab list" where
  "list_tabs m = map snd m"

definition registered_mcp_tab :: "instant \<Rightarrow> string \<Rightarrow> RegisterMcpTabInput \<Rightarrow> BrowserTab" where
  "registered_mcp_tab now newId input =
     (let sticky = or_default (ri_sticky input) False in
      \<lparr>bw_tabId = or_default (ri_tabId input) newId,
       bw_taskId = ri_taskId input,
       bw_lifecycle = Some (or_default (ri_lifecycle input) Task_scoped),
       bw_ownership = Mcp_owned,
       bw_purpose = or_default (ri_purpose input) ''generic-research'',
       bw_reusable = (if sticky then False else or_default (ri_reusable input) True),
       bw_protected = (if sticky then True else or_default (ri_protected input) False),
       bw_sticky = sticky,
       bw_createdAt = now, bw_lastUsedAt = now,
       bw_url = ri_url input, bw_requestedUrl = ri_requestedUrl input, bw_title = ri_title input,
       bw_lockedUrl = ri_lockedUrl input\<rparr>)"

definition registerMcp :: "instant \<Rightarrow> string \<Rightarrow> RegisterMcpTabInput \<Rightarrow> tab_registry \<Rightarrow> BrowserTab result \<times> tab_registry" where
  "registerMcp now newId input m =
     (let tab = registered_mcp_tab now newId input in (Inr tab, js_set (bw_tabId tab) tab m))"

definition assertMcpOwned :: "string \<Rightarrow> tab_registry \<Rightarrow> BrowserTab result" where
  "assertMcpOwned tabId m =
     (case js_get m tabId of
        None \<Rightarrow> Inl (AppError TAB_NOT_OWNED ''The tab is not owned by the MCP.'')
      | Some tab \<Rightarrow>
          if bw_ownership tab \<noteq> Mcp_owned then Inl (AppError TAB_NOT_OWNED ''The tab is not owned by the MCP.'')
          else Inr tab)"

definition reconfigured_tab :: "instant \<Rightarrow> RegisterMcpTabInput \<Rightarrow> BrowserTab \<Rightarrow> BrowserTab" where
  "reconfigured_tab now input current =
     (let sticky = or_default (ri_sticky input) (bw_sticky current) in
      current
      \<lparr>bw_taskId := or_else (ri_taskId input) (bw_taskId current),
       bw_lifecycle := Some (or_default (ri_lifecycle input) (or_default (bw_lifecycle current) Task_scoped)),
       bw_purpose := or_default (ri_purpose input) (bw_purpose current),
       bw_reusable := (if sticky then False else or_default (ri_reusable input) (bw_reusable current)),
       bw_protected := (if sticky then True else or_default (ri_protected input) (bw_protected current)),
       bw_sticky := sticky,
       bw_lastUsedAt := now,
       bw_url := or_else (ri_url input) (bw_url current),
       bw_requestedUrl := or_else (ri_requestedUrl input) (bw_requestedUrl current),
       bw_title := or_else (ri_title input) (bw_title current),
       bw_lockedUrl :=
         (if sticky then
            or_else (ri_lockedUrl input) (or_else (bw_lockedUrl current) (or_else (ri_requestedUrl input)
              (or_else (ri_url input) (or_else (bw_requestedUrl current) (bw_url current)))))
          else None)\<rparr>)"

definition reconfigureMcp ::
  "instant \<Rightarrow> string \<Rightarrow> RegisterMcpTabInput \<Rightarrow> tab_registry \<Rightarrow> BrowserTab result \<times> tab_registry" where
  "reconfigureMcp now tabId input m =
     (case assertMcpOwned tabId m of
        Inl e \<Rightarrow> (Inl e, m)
      | Inr current \<Rightarrow>
          let updated = reconfigured_tab now input current in (Inr updated, js_set tabId updated m))"

definition registered_user_tab :: "instant \<Rightarrow> string \<Rightarrow> string option \<Rightarrow> string option \<Rightarrow> BrowserTab" where
  "registered_user_tab now tabId url title =
     \<lparr>bw_tabId = tabId, bw_taskId = None, bw_lifecycle = Some External_tab, bw_ownership = User_owned,
      bw_purpose = ''user-existing'', bw_reusable = False, bw_protected = True, bw_sticky = False,
      bw_createdAt = now, bw_lastUsedAt = now, bw_url = url, bw_requestedUrl = None, bw_title = title,
      bw_lockedUrl = None\<rparr>"

definition registerUser ::
  "instant \<Rightarrow> string \<Rightarrow> string option \<Rightarrow> string option \<Rightarrow> tab_registry \<Rightarrow> BrowserTab result \<times> tab_registry" where
  "registerUser now tabId url title m =
     (let tab = registered_user_tab now tabId url title in (Inr tab, js_set tabId tab m))"

text \<open>The empty string is falsy, as a target and as a locked URL.\<close>

definition assertNavigable :: "string \<Rightarrow> string option \<Rightarrow> tab_registry \<Rightarrow> BrowserTab result" where
  "assertNavigable tabId targetUrl m =
     bind_result (assertMcpOwned tabId m) (\<lambda>tab.
     if bw_sticky tab \<and> targetUrl \<notin> {None, Some []} \<and> bw_lockedUrl tab \<notin> {None, Some []} \<and>
        targetUrl \<noteq> bw_lockedUrl tab then
       Inl (AppError NAVIGATION_BLOCKED ''The sticky tab cannot navigate away from its locked URL.'')
     else Inr tab)"

definition assertClosable :: "string \<Rightarrow> tab_registry \<Rightarrow> BrowserTab result" where
  "assertClosable tabId m =
     bind_result (assertMcpOwned tabId m) (\<lambda>tab.
     if bw_protected tab \<or> bw_sticky tab then
       Inl (AppError TAB_PROTECTED ''The tab is protected and cannot be closed.'')
     else Inr tab)"

definition touch_tab ::
  "instant \<Rightarrow> string \<Rightarrow> string option \<Rightarrow> string option \<Rightarrow> tab_registry \<Rightarrow> BrowserTab result \<times> tab_registry" where
  "touch_tab now tabId url title m =
     (case assertMcpOwned tabId m of
        Inl e \<Rightarrow> (Inl e, m)
      | Inr current \<Rightarrow>
          let updated = current\<lparr>bw_url := or_else url (bw_url current), bw_title := or_else title (bw_title current),
                bw_lastUsedAt := now\<rparr>
          in (Inr updated, js_set tabId updated m))"

definition discard_tab :: "string \<Rightarrow> tab_registry \<Rightarrow> tab_registry" where
  "discard_tab tabId m = js_delete tabId m"

definition remove_tab :: "string \<Rightarrow> tab_registry \<Rightarrow> unit result \<times> tab_registry" where
  "remove_tab tabId m =
     (case assertClosable tabId m of
        Inl e \<Rightarrow> (Inl e, m)
      | Inr tab \<Rightarrow> (Inr (), js_delete tabId m))"

subsection \<open>Conversion to persisted tabs\<close>

definition toPublicBrowserTab :: "UnifiedBrowserTab \<Rightarrow> BrowserTab" where
  "toPublicBrowserTab tab =
     \<lparr>bw_tabId = ut_tabId tab, bw_taskId = Some (ut_taskId tab), bw_lifecycle = Some (ut_lifecycle tab),
      bw_ownership = Mcp_owned, bw_purpose = ut_purpose tab, bw_reusable = ut_reusable tab,
      bw_protected = ut_protected tab, bw_sticky = ut_sticky tab, bw_createdAt = ut_createdAt tab,
      bw_lastUsedAt = ut_lastUsedAt tab, bw_url = ut_url tab, bw_requestedUrl = ut_requestedUrl tab,
      bw_title = ut_title tab, bw_lockedUrl = ut_lockedUrl tab\<rparr>"

definition toUnifiedBrowserTab ::
  "BrowserTab \<Rightarrow> BrowserSession \<Rightarrow> string \<Rightarrow> int \<Rightarrow> string option \<Rightarrow> tab_lifecycle option \<Rightarrow> UnifiedBrowserTab result" where
  "toUnifiedBrowserTab tab session remoteTabId remoteIndex taskId lifecycle =
     (if bw_ownership tab \<noteq> Mcp_owned then
        Inl (PlainError ''Only MCP-owned tabs can be stored in the unified browser registry.'')
      else Inr
        \<lparr>ut_tabId = bw_tabId tab, ut_sessionId = bs_sessionId session, ut_remoteTabId = remoteTabId,
         ut_remoteIndex = remoteIndex, ut_purpose = bw_purpose tab, ut_reusable = bw_reusable tab,
         ut_protected = bw_protected tab, ut_sticky = bw_sticky tab, ut_createdAt = bw_createdAt tab,
         ut_lastUsedAt = bw_lastUsedAt tab, ut_url = bw_url tab, ut_requestedUrl = bw_requestedUrl tab,
         ut_title = bw_title tab, ut_lockedUrl = bw_lockedUrl tab,
         ut_taskId = or_default taskId (or_default (bw_taskId tab) (''task-'' @ bs_sessionId session)),
         ut_lifecycle = or_default lifecycle (or_default (bw_lifecycle tab) Task_scoped)\<rparr>)"


text \<open>Storing the public form of a persisted tab in its own session gives that tab back.\<close>

lemma public_tab_round_trip:
  assumes "bs_sessionId session = ut_sessionId tab"
  shows "toUnifiedBrowserTab (toPublicBrowserTab tab) session (ut_remoteTabId tab) (ut_remoteIndex tab) None None = Inr tab"
  using assms by (cases tab) (simp add: toUnifiedBrowserTab_def toPublicBrowserTab_def or_default_def)

subsection \<open>Sequences of calls\<close>

datatype tab_op =
    Register_mcp instant string RegisterMcpTabInput
  | Reconfigure_mcp instant string RegisterMcpTabInput
  | Register_user instant string "string option" "string option"
  | Touch_tab instant string "string option" "string option"
  | Discard_tab string
  | Remove_tab string

fun tab_step :: "tab_op \<Rightarrow> tab_registry \<Rightarrow> bool \<times> tab_registry" where
  "tab_step (Register_mcp now newId input) m = map_prod is_ok id (registerMcp now newId input m)"
| "tab_step (Reconfigure_mcp now tabId input) m = map_prod is_ok id (reconfigureMcp now tabId input m)"
| "tab_step (Register_user now tabId url title) m = map_prod is_ok id (registerUser now tabId url title m)"
| "tab_step (Touch_tab now tabId url title) m = map_prod is_ok id (touch_tab now tabId url title m)"
| "tab_step (Discard_tab tabId) m = (True, discard_tab tabId m)"
| "tab_step (Remove_tab tabId) m = map_prod is_ok id (remove_tab tabId m)"

definition tab_ok :: "string \<Rightarrow> BrowserTab \<Rightarrow> bool" where
  "tab_ok k tab \<longleftrightarrow> bw_tabId tab = k \<and> (bw_sticky tab \<longrightarrow> bw_protected tab \<and> \<not> bw_reusable tab) \<and>
     (bw_ownership tab = User_owned \<longrightarrow> bw_protected tab \<and> \<not> bw_reusable tab \<and> \<not> bw_sticky tab)"

definition tabs_ok :: "tab_registry \<Rightarrow> bool" where
  "tabs_ok m \<longleftrightarrow> (\<forall>k tab. js_get m k = Some tab \<longrightarrow> tab_ok k tab)"

lemma tabs_ok_set: "tabs_ok m \<Longrightarrow> tab_ok k tab \<Longrightarrow> tabs_ok (js_set k tab m)"
  by (auto simp: tabs_ok_def)

lemma tabs_ok_delete: "tabs_ok m \<Longrightarrow> tabs_ok (js_delete k m)"
  by (auto simp: tabs_ok_def split: if_splits)

lemma assertMcpOwned_Inr:
  "assertMcpOwned tabId m = Inr tab \<longleftrightarrow> js_get m tabId = Some tab \<and> bw_ownership tab = Mcp_owned"
  by (auto simp: assertMcpOwned_def split: option.splits if_splits)

lemma new_tabs_ok:
  "tab_ok (bw_tabId (registered_mcp_tab now newId input)) (registered_mcp_tab now newId input)"
  "tab_ok tabId (registered_user_tab now tabId url title)"
  "tab_ok k tab \<Longrightarrow> bw_ownership tab = Mcp_owned \<Longrightarrow> tab_ok k (reconfigured_tab now input tab)"
  "tab_ok k tab \<Longrightarrow> bw_ownership tab = Mcp_owned \<Longrightarrow> tab_ok k (tab\<lparr>bw_url := u, bw_title := t, bw_lastUsedAt := now\<rparr>)"
  by (simp_all add: tab_ok_def registered_mcp_tab_def registered_user_tab_def reconfigured_tab_def Let_def)

lemma tab_step_ok: "tabs_ok m \<Longrightarrow> tabs_ok (snd (tab_step p m))"
  by (cases p)
    (auto simp: registerMcp_def reconfigureMcp_def registerUser_def touch_tab_def discard_tab_def remove_tab_def Let_def
      assertMcpOwned_Inr new_tabs_ok tabs_ok_set tabs_ok_delete tabs_ok_def [THEN iffD1, rule_format] split: sum.splits)

lemma tab_registry_new_ok:
  assumes "\<forall>tab \<in> set initialTabs. tab_ok (bw_tabId tab) tab"
  shows "tabs_ok (tab_registry_new initialTabs)"
proof -
  have "tabs_ok (fold (\<lambda>tab m. js_set (bw_tabId tab) tab m) tabs m)"
    if "tabs_ok m" "\<forall>tab \<in> set tabs. tab_ok (bw_tabId tab) tab" for tabs m
    using that by (induction tabs arbitrary: m) (auto simp: tabs_ok_set)
  from this [of "[]" initialTabs] assms show ?thesis by (simp add: tab_registry_new_def) (simp add: tabs_ok_def)
qed

text \<open>The calls that may replace or drop a tab whoever owns it.\<close>

definition replaces :: "string \<Rightarrow> tab_op \<Rightarrow> bool" where
  "replaces k p \<longleftrightarrow>
     (case p of
        Register_mcp now newId input \<Rightarrow> or_default (ri_tabId input) newId = k
      | Register_user now tabId url title \<Rightarrow> tabId = k
      | Discard_tab tabId \<Rightarrow> tabId = k
      | _ \<Rightarrow> False)"

lemma tab_step_user:
  assumes "js_get m k = Some tab" "bw_ownership tab = User_owned" "\<not> replaces k p"
  shows "js_get (snd (tab_step p m)) k = Some tab"
  using assms
  by (cases p)
    (auto simp: replaces_def registerMcp_def registered_mcp_tab_def reconfigureMcp_def registerUser_def touch_tab_def
      discard_tab_def remove_tab_def Let_def assertMcpOwned_Inr assertClosable_def bind_result_Inr_iff split: sum.splits)

subsection \<open>Properties\<close>

text \<open>
  C34. The registry protects the tabs of the user and the sticky ones. From initial tabs that
  satisfy it, every sequence of calls keeps: a tab is stored under its own id, a sticky tab and
  a tab of the user are protected and not reusable, so \<open>remove\<close> refuses them; and a tab of the
  user is still there, unchanged, unless a call registers that id anew or discards it.\<close>

theorem protected_tabs_kept:
  assumes initial: "\<forall>tab \<in> set initialTabs. tab_ok (bw_tabId tab) tab"
    and before: "snd (run_ops tab_step ops1 (tab_registry_new initialTabs)) = m"
    and after: "snd (run_ops tab_step ops2 m) = m'"
    and tab: "js_get m k = Some tab"
  shows "tab_ok k tab \<and>
    (bw_sticky tab \<or> bw_ownership tab = User_owned \<longrightarrow> \<not> is_ok (fst (remove_tab k m)) \<and> snd (remove_tab k m) = m) \<and>
    (bw_ownership tab = User_owned \<longrightarrow> (\<forall>p \<in> set ops2. \<not> replaces k p) \<longrightarrow> js_get m' k = Some tab)"
proof -
  have "tabs_ok m"
    using before run_ops_invariant [of tabs_ok tab_step, OF tab_step_ok tab_registry_new_ok [OF initial]] by blast
  with tab have ok: "tab_ok k tab" by (simp add: tabs_ok_def)
  have "\<not> is_ok (fst (remove_tab k m)) \<and> snd (remove_tab k m) = m" if "bw_sticky tab \<or> bw_ownership tab = User_owned"
    using that ok tab
    by (auto simp: remove_tab_def assertClosable_def assertMcpOwned_def tab_ok_def split: sum.splits option.splits)
  moreover have "js_get m' k = Some tab" if "bw_ownership tab = User_owned" "\<forall>p \<in> set ops2. \<not> replaces k p"
    using that tab after
  proof (induction ops2 arbitrary: m)
    case (Cons p ops)
    then have "js_get (snd (tab_step p m)) k = Some tab" by (simp add: tab_step_user)
    with Cons show ?case by (simp add: case_prod_unfold)
  qed simp
  ultimately show ?thesis using ok by blast
qed

theorem protected_tabs_kept_witness:
  "let m = snd (run_ops tab_step [Register_user 1 ''u'' None None] (tab_registry_new []));
       m' = snd (run_ops tab_step [Remove_tab ''u'', Touch_tab 3 ''u'' None None] m)
   in js_get m' ''u'' = Some (registered_user_tab 1 ''u'' None None)"
proof -
  let ?m = "snd (run_ops tab_step [Register_user 1 ''u'' None None] (tab_registry_new []))"
  have tab: "js_get ?m ''u'' = Some (registered_user_tab 1 ''u'' None None)"
    by (simp add: tab_registry_new_def registerUser_def Let_def)
  have "bw_ownership (registered_user_tab 1 ''u'' None None) = User_owned" by (simp add: registered_user_tab_def)
  with protected_tabs_kept [OF _ refl refl tab, of "[Remove_tab ''u'', Touch_tab 3 ''u'' None None]"] show ?thesis
    by (simp add: replaces_def)
qed

end
