(* ===== verification/Browser_Url.thy ===== *)
theory Browser_Url
  imports Tab_Registry
begin

text \<open>
  URLs of the browser worker. The \<open>URL\<close> class of the platform is a parameter: \<open>url_parser\<close> gives
  the members of \<open>new URL(value)\<close> that the code reads, or \<open>None\<close> where the constructor throws.
  \<open>url_hrefWithoutHash\<close> is \<open>href\<close> after \<open>url.hash = ""\<close>. The two functions of
  \<open>domain/browser-tab-reuse.ts\<close> on URLs are here since several services use them.
\<close>

record js_url =
  url_href :: string
  url_hrefWithoutHash :: string
  url_origin :: string
  url_protocol :: string
  url_username :: string
  url_password :: string
  url_search :: string
  url_hash :: string

type_synonym url_parser = "string \<Rightarrow> js_url option"

definition new_URL :: "url_parser \<Rightarrow> string \<Rightarrow> js_url result" where
  "new_URL parse v = (case parse v of None \<Rightarrow> Inl (TypeError ''Invalid URL'') | Some u \<Rightarrow> Inr u)"

definition ABOUT_BLANK_URL :: string where
  "ABOUT_BLANK_URL = ''about:blank''"

definition normalizeBrowserUrl :: "url_parser \<Rightarrow> string \<Rightarrow> string result" where
  "normalizeBrowserUrl parse v = bind_result (new_URL parse v) (\<lambda>u. Inr (url_href u))"

definition browserDocumentIdentity :: "url_parser \<Rightarrow> string \<Rightarrow> string result" where
  "browserDocumentIdentity parse v =
     bind_result (normalizeBrowserUrl parse v) (\<lambda>href.
     bind_result (new_URL parse href) (\<lambda>u.
     if url_href u = ABOUT_BLANK_URL then Inr ABOUT_BLANK_URL else Inr (url_hrefWithoutHash u)))"

definition normalizedOptional :: "url_parser \<Rightarrow> string option \<Rightarrow> string option result" where
  "normalizedOptional parse v =
     (case v of None \<Rightarrow> Inr None | Some x \<Rightarrow> bind_result (normalizeBrowserUrl parse x) (\<lambda>u. Inr (Some u)))"

text \<open>
  What the code relies on: serialising is idempotent (the parser accepts every \<open>href\<close> and gives
  it back).
\<close>

definition href_stable :: "url_parser \<Rightarrow> bool" where
  "href_stable parse \<longleftrightarrow> (\<forall>v u. parse v = Some u \<longrightarrow> parse (url_href u) = Some u)"

lemma new_URL_Inr [simp]: "new_URL parse v = Inr u \<longleftrightarrow> parse v = Some u"
  by (simp add: new_URL_def split: option.split)

lemma normalizeBrowserUrl_Inr: "normalizeBrowserUrl parse v = Inr h \<longleftrightarrow> (\<exists>u. parse v = Some u \<and> h = url_href u)"
  by (auto simp: normalizeBrowserUrl_def bind_result_Inr_iff)

lemma normalize_stable:
  "href_stable parse \<Longrightarrow> normalizeBrowserUrl parse v = Inr h \<Longrightarrow> normalizeBrowserUrl parse h = Inr h"
  by (auto simp: href_stable_def normalizeBrowserUrl_Inr)

subsection \<open>Maps keyed by a field of their values\<close>

lemma js_get_filter:
  "js_wf m \<Longrightarrow> js_get (filter (\<lambda>(k, v). P k v) m) k = (case js_get m k of Some v \<Rightarrow> if P k v then Some v else None | None \<Rightarrow> None)"
  by (induction m) (auto simp: js_wf_def map_of_eq_None_iff image_iff split: option.split)

lemma js_wf_filter: "js_wf m \<Longrightarrow> js_wf (filter P m)"
  by (induction m) (auto simp: js_wf_def)

definition keyed :: "('v \<Rightarrow> string) \<Rightarrow> (string, 'v) jsmap \<Rightarrow> bool" where
  "keyed f m \<longleftrightarrow> js_wf m \<and> (\<forall>k v. js_get m k = Some v \<longrightarrow> f v = k)"

lemma keyed_set: "keyed f m \<Longrightarrow> f v = k \<Longrightarrow> keyed f (js_set k v m)"
  by (auto simp: keyed_def js_wf_set)

lemma keyed_delete: "keyed f m \<Longrightarrow> keyed f (js_delete k m)"
  by (auto simp: keyed_def js_wf_delete split: if_split_asm)

lemma keyed_filter: "keyed f m \<Longrightarrow> keyed f (filter (\<lambda>(k, v). P k v) m)"
  by (auto simp: keyed_def js_wf_filter js_get_filter split: option.split_asm if_split_asm)

lemma keyed_distinct:
  assumes "keyed f m"
  shows "distinct (map f (js_values m)) \<and> f ` set (js_values m) = dom (js_get m)"
proof -
  have eq: "map f (js_values m) = map fst m" using assms by (auto simp: keyed_def js_wf_def)
  have "f ` set (js_values m) = fst ` set m" using arg_cong [OF eq, of set] by (simp only: set_map)
  then show ?thesis using assms eq by (simp only: keyed_def js_wf_def dom_map_of_conv_image_fst)
qed

lemma keyed_member: "keyed f m \<Longrightarrow> v \<in> set (js_values m) \<longleftrightarrow> js_get m (f v) = Some v"
  using js_values_iff [of m v] by (auto simp: keyed_def simp del: set_map)

lemma keyed_map_by:
  assumes "keyed f m"
  shows "map_by f (js_values m) k = js_get m k"
proof (cases "js_get m k")
  case None
  then have "k \<notin> f ` set (js_values m)" using keyed_distinct [OF assms] by auto
  then show ?thesis using None by (simp add: map_by_None)
next
  case (Some v)
  then have "f v = k" using assms by (simp add: keyed_def)
  with Some keyed_member [OF assms] have "v \<in> set (js_values m)" by simp
  then show ?thesis using map_by_distinct [of f "js_values m" v] keyed_distinct [OF assms] Some \<open>f v = k\<close> by simp
qed

lemma fold_set_get:
  "js_get (fold (\<lambda>v m. js_set (f v) v m) vs m) k = (case map_by f vs k of Some v \<Rightarrow> Some v | None \<Rightarrow> js_get m k)"
  by (induction vs arbitrary: m) (auto simp: map_by_def map_add_def split: option.split)

lemma fold_set_keyed: "keyed f m \<Longrightarrow> keyed f (fold (\<lambda>v m. js_set (f v) v m) vs m)"
  by (induction vs arbitrary: m) (simp_all add: keyed_set)

end
