(* ===== verification/Site_Access.thy ===== *)
theory Site_Access
  imports Browser_Url Edge_Protocol
begin

text \<open>
  Access of the browser worker to private sites: \<open>domain/authorized-site-policy.ts\<close>,
  \<open>domain/browser-site-grant-registry.ts\<close> and the methods of \<open>services/browser-runtime.ts\<close> that
  join them. \<open>localeCompare\<close> is the order \<open>le\<close>, the \<open>URL\<close> class a \<open>url_parser\<close>; each reading of
  the clock and each random id is an argument. Strings are over Latin-1, where \<open>normalize("NFD")\<close>
  splits an accented letter into its base letter and a mark. \<open>deriveProductionOrigin\<close> is left out.
\<close>

subsection \<open>Site policies\<close>

datatype request_method = GET_method | HEAD_method | POST_method

definition method_name :: "request_method \<Rightarrow> string" where
  "method_name m = (case m of GET_method \<Rightarrow> ''GET'' | HEAD_method \<Rightarrow> ''HEAD'' | POST_method \<Rightarrow> ''POST'')"

record AuthorizedSiteRequestRule =
  rr_methods :: "request_method list"
  rr_pathname :: string
  rr_queryKeys :: "string list"
  rr_resourceTypes :: "string list option"
  rr_frames :: "string list option"
  rr_navigation :: "bool option"
  rr_requiresSemanticPermit :: bool

datatype semantic_operation = Frame_click | Frame_sequence_click

record AuthorizedSiteSemanticActionRule =
  sr_operation :: semantic_operation
  sr_framePath :: "string list"
  sr_selector :: "string option"
  sr_text :: "string option"

record AuthorizedSiteRequestPolicy =
  rp_rules :: "AuthorizedSiteRequestRule list"
  rp_semanticActions :: "AuthorizedSiteSemanticActionRule list"

datatype site_login = Login_none | Login_credential_broker

record AuthorizedSitePolicy =
  sp_siteId :: string
  sp_entryUrl :: string
  sp_allowedOrigins :: "string list"
  sp_deniedOrigins :: "string list"
  sp_loginStrategy :: site_login
  sp_credentialAccountId :: "string option"
  sp_requestPolicy :: "AuthorizedSiteRequestPolicy option"

record site_env =
  sv_url :: url_parser
  sv_isUrl :: "string \<Rightarrow> bool"
  sv_le :: "string \<Rightarrow> string \<Rightarrow> bool"

definition uniqueSorted :: "(string \<Rightarrow> string \<Rightarrow> bool) \<Rightarrow> string list \<Rightarrow> string list" where
  "uniqueSorted le vs = js_sort le (js_unique vs)"

definition exactOriginSchema :: "url_parser \<Rightarrow> string \<Rightarrow> string option" where
  "exactOriginSchema parse v = map_option url_origin (parse v)"

text \<open>An array of bounded strings, and the optional one that is sorted.\<close>

definition strings_ok :: "nat \<Rightarrow> nat \<Rightarrow> nat \<Rightarrow> string list \<Rightarrow> bool" where
  "strings_ok least most width vs \<longleftrightarrow> least \<le> length vs \<and> length vs \<le> most \<and> list_all (string_ok 1 width) vs"

definition authorizedSiteRequestRuleSchema :: "site_env \<Rightarrow> AuthorizedSiteRequestRule \<Rightarrow> AuthorizedSiteRequestRule option" where
  "authorizedSiteRequestRuleSchema env r =
     (if 1 \<le> length (rr_methods r) \<and> length (rr_methods r) \<le> 3 \<and>
         string_ok 1 2000 (rr_pathname r) \<and> take 1 (rr_pathname r) = ''/'' \<and>
         strings_ok 0 50 128 (rr_queryKeys r) \<and>
         optional_ok (strings_ok 1 20 50) (rr_resourceTypes r) \<and> optional_ok (strings_ok 1 20 120) (rr_frames r)
      then Some (r\<lparr>rr_methods := js_sort (\<lambda>a b. sv_le env (method_name a) (method_name b)) (js_unique (rr_methods r)),
                  rr_queryKeys := uniqueSorted (sv_le env) (rr_queryKeys r),
                  rr_resourceTypes := map_option (uniqueSorted (sv_le env)) (rr_resourceTypes r),
                  rr_frames := map_option (uniqueSorted (sv_le env)) (rr_frames r)\<rparr>)
      else None)"

definition authorizedSiteSemanticActionRuleSchema :: "AuthorizedSiteSemanticActionRule \<Rightarrow> bool" where
  "authorizedSiteSemanticActionRuleSchema r \<longleftrightarrow>
     strings_ok 1 10 120 (sr_framePath r) \<and> optional_ok (string_ok 1 2000) (sr_selector r) \<and>
     optional_ok (string_ok 1 500) (sr_text r) \<and> (sr_selector r = None) \<noteq> (sr_text r = None)"

definition authorizedSiteRequestPolicySchema :: "site_env \<Rightarrow> AuthorizedSiteRequestPolicy \<Rightarrow> AuthorizedSiteRequestPolicy option" where
  "authorizedSiteRequestPolicySchema env p =
     (if 1 \<le> length (rp_rules p) \<and> length (rp_rules p) \<le> 100 \<and> length (rp_semanticActions p) \<le> 100 \<and>
         list_all authorizedSiteSemanticActionRuleSchema (rp_semanticActions p)
      then map_option (\<lambda>rules. p\<lparr>rp_rules := rules\<rparr>) (those (map (authorizedSiteRequestRuleSchema env) (rp_rules p)))
      else None)"

definition authorizedSitePolicySchema :: "site_env \<Rightarrow> AuthorizedSitePolicy \<Rightarrow> AuthorizedSitePolicy option" where
  "authorizedSitePolicySchema env p =
     (if string_ok 1 128 (sp_siteId p) \<and> sv_isUrl env (sp_entryUrl p) \<and>
         1 \<le> length (sp_allowedOrigins p) \<and> length (sp_allowedOrigins p) \<le> 20 \<and> length (sp_deniedOrigins p) \<le> 20 \<and>
         optional_ok (string_ok 1 128) (sp_credentialAccountId p)
      then
        (case (those (map (exactOriginSchema (sv_url env)) (sp_allowedOrigins p)),
               those (map (exactOriginSchema (sv_url env)) (sp_deniedOrigins p)),
               (case sp_requestPolicy p of None \<Rightarrow> Some None
                | Some q \<Rightarrow> map_option Some (authorizedSiteRequestPolicySchema env q))) of
           (Some allowed, Some denied, Some request) \<Rightarrow>
             Some (p\<lparr>sp_allowedOrigins := allowed, sp_deniedOrigins := denied, sp_requestPolicy := request\<rparr>)
         | _ \<Rightarrow> None)
      else None)"

record site_policies =
  sps_policies :: "(string, AuthorizedSitePolicy) jsmap"
  sps_privateOrigins :: "(string, AuthorizedSitePolicy) jsmap"
  sps_deniedOrigins :: "string list"

fun add_origins :: "AuthorizedSitePolicy \<Rightarrow> string list \<Rightarrow> site_policies \<Rightarrow> site_policies result" where
  "add_origins policy [] s = Inr s"
| "add_origins policy (origin # origins) s =
     (if (case js_get (sps_privateOrigins s) origin of None \<Rightarrow> False | Some existing \<Rightarrow> sp_siteId existing \<noteq> sp_siteId policy) then
        Inl (AppError POLICY_INVALID (''Private origin '' @ origin @ '' belongs to more than one site policy.''))
      else add_origins policy origins (s\<lparr>sps_privateOrigins := js_set origin policy (sps_privateOrigins s)\<rparr>))"

definition add_policy :: "site_env \<Rightarrow> AuthorizedSitePolicy \<Rightarrow> site_policies \<Rightarrow> site_policies result" where
  "add_policy env v s =
     (case authorizedSitePolicySchema env v of
        None \<Rightarrow> Inl (PlainError ''Invalid site policy'')
      | Some policy \<Rightarrow>
          if js_has (sps_policies s) (sp_siteId policy) then
            Inl (AppError POLICY_INVALID (''Duplicate browser private-site policy '' @ sp_siteId policy @ ''.''))
          else
            bind_result (add_origins policy (sp_allowedOrigins policy)
              (s\<lparr>sps_policies := js_set (sp_siteId policy) policy (sps_policies s)\<rparr>)) (\<lambda>s1.
            Inr (s1\<lparr>sps_deniedOrigins := js_unique (sps_deniedOrigins s1 @ sp_deniedOrigins policy)\<rparr>)))"

fun add_policies :: "site_env \<Rightarrow> AuthorizedSitePolicy list \<Rightarrow> site_policies \<Rightarrow> site_policies result" where
  "add_policies env [] s = Inr s"
| "add_policies env (v # vs) s = bind_result (add_policy env v s) (add_policies env vs)"

definition no_policies :: site_policies where
  "no_policies = \<lparr>sps_policies = [], sps_privateOrigins = [], sps_deniedOrigins = []\<rparr>"

definition new_site_policies :: "site_env \<Rightarrow> AuthorizedSitePolicy list \<Rightarrow> site_policies result" where
  "new_site_policies env initialPolicies = add_policies env initialPolicies no_policies"

definition require_policy :: "string \<Rightarrow> site_policies \<Rightarrow> AuthorizedSitePolicy result" where
  "require_policy siteId s =
     (case js_get (sps_policies s) siteId of
        None \<Rightarrow> Inl (AppError SITE_POLICY_NOT_FOUND ''The requested private-site policy is not configured.'')
      | Some policy \<Rightarrow> Inr policy)"

datatype ClassifiedSiteUrl =
    Public_site string
  | Private_site string AuthorizedSitePolicy
  | Denied_site string

definition classify :: "site_env \<Rightarrow> string \<Rightarrow> site_policies \<Rightarrow> ClassifiedSiteUrl result" where
  "classify env v s =
     bind_result (new_URL (sv_url env) v) (\<lambda>url.
     let origin = url_origin url in
     Inr (if origin \<in> set (sps_deniedOrigins s) then Denied_site origin
          else (case js_get (sps_privateOrigins s) origin of
                  Some policy \<Rightarrow> Private_site origin policy
                | None \<Rightarrow> Public_site origin)))"

definition privateOriginValues :: "site_policies \<Rightarrow> string list" where
  "privateOriginValues s = map fst (sps_privateOrigins s)"

definition deniedOriginValues :: "site_policies \<Rightarrow> string list" where
  "deniedOriginValues s = sps_deniedOrigins s"

definition publicCapabilities :: "site_policies \<Rightarrow> (string \<times> site_login) list" where
  "publicCapabilities s = map (\<lambda>p. (sp_siteId p, sp_loginStrategy p)) (js_values (sps_policies s))"

subsection \<open>Requests and semantic actions\<close>

record AuthorizedSiteRequestDescriptor =
  rd_origin :: string
  rd_method :: string
  rd_pathname :: string
  rd_queryKeys :: "string list"
  rd_resourceType :: string
  rd_frame :: string
  rd_navigation :: bool
  rd_semanticPermit :: bool

record AuthorizedSiteSemanticActionDescriptor =
  sd_operation :: semantic_operation
  sd_framePath :: "string list"
  sd_selector :: "string option"
  sd_text :: "string option"

text \<open>
  A method in capitals can only match a name of ASCII letters, so capitals beyond ASCII do not
  matter.
\<close>

definition isAuthorizedSiteRequestAllowed :: "site_env \<Rightarrow> AuthorizedSitePolicy \<Rightarrow> AuthorizedSiteRequestDescriptor \<Rightarrow> bool" where
  "isAuthorizedSiteRequestAllowed env policy d \<longleftrightarrow>
     (case sp_requestPolicy policy of
        None \<Rightarrow> True
      | Some requestPolicy \<Rightarrow>
          if rd_origin d \<notin> set (sp_allowedOrigins policy) then False
          else
            (let methodName = map js_upper_char (rd_method d); queryKeys = uniqueSorted (sv_le env) (rd_queryKeys d) in
             list_ex (\<lambda>rule.
               methodName \<in> set (map method_name (rr_methods rule)) \<and>
               rr_pathname rule = rd_pathname d \<and>
               rr_queryKeys rule = queryKeys \<and>
               (case rr_resourceTypes rule of None \<Rightarrow> True | Some ts \<Rightarrow> rd_resourceType d \<in> set ts) \<and>
               (case rr_frames rule of None \<Rightarrow> True | Some fs \<Rightarrow> rd_frame d \<in> set fs) \<and>
               (case rr_navigation rule of None \<Rightarrow> True | Some b \<Rightarrow> b = rd_navigation d) \<and>
               (\<not> rr_requiresSemanticPermit rule \<or> rd_semanticPermit d)) (rp_rules requestPolicy)))"

text \<open>The base letter of the canonical decomposition of a letter.\<close>

definition nfd_base :: "char \<Rightarrow> char" where
  "nfd_base c =
     (let n = (of_char c :: nat) in
      if 192 \<le> n \<and> n \<le> 197 then CHR ''A'' else if n = 199 then CHR ''C''
      else if 200 \<le> n \<and> n \<le> 203 then CHR ''E'' else if 204 \<le> n \<and> n \<le> 207 then CHR ''I''
      else if n = 209 then CHR ''N'' else if 210 \<le> n \<and> n \<le> 214 then CHR ''O''
      else if 217 \<le> n \<and> n \<le> 220 then CHR ''U'' else if n = 221 then CHR ''Y''
      else if 224 \<le> n \<and> n \<le> 229 then CHR ''a'' else if n = 231 then CHR ''c''
      else if 232 \<le> n \<and> n \<le> 235 then CHR ''e'' else if 236 \<le> n \<and> n \<le> 239 then CHR ''i''
      else if n = 241 then CHR ''n'' else if 242 \<le> n \<and> n \<le> 246 then CHR ''o''
      else if 249 \<le> n \<and> n \<le> 252 then CHR ''u'' else if n = 253 \<or> n = 255 then CHR ''y'' else c)"

fun collapse_spaces :: "bool \<Rightarrow> string \<Rightarrow> string" where
  "collapse_spaces inside [] = []"
| "collapse_spaces inside (c # cs) =
     (if js_space c then (if inside then collapse_spaces True cs else CHR '' '' # collapse_spaces True cs)
      else c # collapse_spaces False cs)"

definition normalizeSemanticText :: "string option \<Rightarrow> string" where
  "normalizeSemanticText v =
     js_trim (collapse_spaces False (js_lower (map nfd_base (case v of None \<Rightarrow> [] | Some t \<Rightarrow> t))))"

definition isAuthorizedSiteSemanticActionAllowed ::
  "AuthorizedSitePolicy \<Rightarrow> AuthorizedSiteSemanticActionDescriptor \<Rightarrow> bool" where
  "isAuthorizedSiteSemanticActionAllowed policy d \<longleftrightarrow>
     list_ex (\<lambda>rule.
       sr_operation rule = sd_operation d \<and> sr_framePath rule = sd_framePath d \<and>
       (sr_selector rule = None \<or> sr_selector rule = sd_selector d) \<and>
       (sr_text rule = None \<or> normalizeSemanticText (sr_text rule) = normalizeSemanticText (sd_text d)))
       (case sp_requestPolicy policy of None \<Rightarrow> [] | Some q \<Rightarrow> rp_semanticActions q)"

subsection \<open>Grants\<close>

record PendingSiteConfirmation =
  pc_confirmationId :: string
  pc_taskId :: string
  pc_ownerScopeHash :: string
  pc_siteId :: string
  pc_purpose :: string
  pc_expiresAt :: instant

record BrowserSiteGrant =
  gr_taskId :: string
  gr_ownerScopeHash :: string
  gr_siteId :: string
  gr_allowedOrigins :: "string list"
  gr_expiresAt :: instant

definition CONFIRMATION_TTL_MS :: int where
  "CONFIRMATION_TTL_MS = 5 * 60 * 1000"

definition GRANT_TTL_MS :: int where
  "GRANT_TTL_MS = 10 * 60 * 1000"

record site_grants =
  sg_pending :: "(string, PendingSiteConfirmation) jsmap"
  sg_grants :: "(string, BrowserSiteGrant) jsmap"

definition no_grants :: site_grants where
  "no_grants = \<lparr>sg_pending = [], sg_grants = []\<rparr>"

definition grantKey :: "string \<Rightarrow> string \<Rightarrow> string" where
  "grantKey taskId siteId = taskId @ CHR 0x00 # siteId"

definition pruneExpiredConfirmations :: "instant \<Rightarrow> site_grants \<Rightarrow> site_grants" where
  "pruneExpiredConfirmations now s = s\<lparr>sg_pending := js_delete_where (\<lambda>p. pc_expiresAt p \<le> now) (sg_pending s)\<rparr>"

definition pruneExpiredGrants :: "instant \<Rightarrow> site_grants \<Rightarrow> site_grants" where
  "pruneExpiredGrants now s = s\<lparr>sg_grants := js_delete_where (\<lambda>g. gr_expiresAt g \<le> now) (sg_grants s)\<rparr>"

definition pruneExpiredSite :: "instant \<Rightarrow> site_grants \<Rightarrow> site_grants" where
  "pruneExpiredSite now s = pruneExpiredGrants now (pruneExpiredConfirmations now s)"

definition site_confirmation :: "instant \<Rightarrow> string \<Rightarrow> BrowserTask \<Rightarrow> AuthorizedSitePolicy \<Rightarrow> string \<Rightarrow> PendingSiteConfirmation" where
  "site_confirmation now confirmationId task policy purpose =
     \<lparr>pc_confirmationId = confirmationId, pc_taskId = bt_taskId task, pc_ownerScopeHash = bt_ownerScopeHash task,
      pc_siteId = sp_siteId policy, pc_purpose = purpose, pc_expiresAt = now + CONFIRMATION_TTL_MS\<rparr>"

definition createConfirmation ::
  "instant \<Rightarrow> instant \<Rightarrow> string \<Rightarrow> BrowserTask \<Rightarrow> AuthorizedSitePolicy \<Rightarrow> string \<Rightarrow> site_grants \<Rightarrow>
   PendingSiteConfirmation \<times> site_grants" where
  "createConfirmation now1 now2 confirmationId task policy purpose s =
     (let s1 = pruneExpiredSite now1 s; c = site_confirmation now2 confirmationId task policy purpose in
      (c, s1\<lparr>sg_pending := js_set confirmationId c (sg_pending s1)\<rparr>))"

definition site_grant :: "instant \<Rightarrow> BrowserTask \<Rightarrow> AuthorizedSitePolicy \<Rightarrow> BrowserSiteGrant" where
  "site_grant now task policy =
     \<lparr>gr_taskId = bt_taskId task, gr_ownerScopeHash = bt_ownerScopeHash task, gr_siteId = sp_siteId policy,
      gr_allowedOrigins = sp_allowedOrigins policy, gr_expiresAt = min (bt_expiresAt task) (now + GRANT_TTL_MS)\<rparr>"

definition site_confirm ::
  "instant \<Rightarrow> instant \<Rightarrow> string \<Rightarrow> BrowserTask \<Rightarrow> AuthorizedSitePolicy \<Rightarrow> string \<Rightarrow> site_grants \<Rightarrow>
   BrowserSiteGrant result \<times> site_grants" where
  "site_confirm now1 now2 confirmationId task policy purpose s =
     (let s1 = pruneExpiredSite now1 s in
      case js_get (sg_pending s1) confirmationId of
        None \<Rightarrow> (Inl (AppError SITE_ACCESS_AUTHORIZATION_REQUIRED
          ''The private-site confirmation is missing, expired or already consumed.''), s1)
      | Some p \<Rightarrow>
          if \<not> (pc_taskId p = bt_taskId task \<and> pc_ownerScopeHash p = bt_ownerScopeHash task \<and>
                pc_siteId p = sp_siteId policy \<and> pc_purpose p = purpose) then
            (Inl (AppError SITE_ACCESS_AUTHORIZATION_REQUIRED
              ''The private-site confirmation does not match this task and purpose.''), s1)
          else
            (let grant = site_grant now2 task policy in
             (Inr grant, s1\<lparr>sg_pending := js_delete confirmationId (sg_pending s1),
                             sg_grants := js_set (grantKey (bt_taskId task) (sp_siteId policy)) grant (sg_grants s1)\<rparr>)))"

definition requireGrant ::
  "instant \<Rightarrow> instant \<Rightarrow> BrowserTask \<Rightarrow> AuthorizedSitePolicy \<Rightarrow> site_grants \<Rightarrow> BrowserSiteGrant result \<times> site_grants" where
  "requireGrant now1 now2 task policy s =
     (let s1 = pruneExpiredConfirmations now1 s; key = grantKey (bt_taskId task) (sp_siteId policy) in
      case js_get (sg_grants s1) key of
        None \<Rightarrow> (Inl (AppError SITE_ACCESS_AUTHORIZATION_REQUIRED
          ''Use browser_open_authorized_site and confirm access before opening this private site.''), s1)
      | Some grant \<Rightarrow>
          if gr_ownerScopeHash grant \<noteq> bt_ownerScopeHash task then
            (Inl (AppError TASK_OWNERSHIP_MISMATCH ''The private-site grant belongs to another owner scope.''), s1)
          else if gr_expiresAt grant \<le> now2 then
            (Inl (AppError SITE_ACCESS_GRANT_EXPIRED ''The private-site grant has expired.''),
             s1\<lparr>sg_grants := js_delete key (sg_grants s1)\<rparr>)
          else (Inr grant, s1))"

definition grantForTaskSite :: "instant \<Rightarrow> string \<Rightarrow> string \<Rightarrow> site_grants \<Rightarrow> BrowserSiteGrant option \<times> site_grants" where
  "grantForTaskSite now taskId siteId s =
     (let s1 = pruneExpiredSite now s in (js_get (sg_grants s1) (grantKey taskId siteId), s1))"

definition revokeTaskSite :: "string \<Rightarrow> string \<Rightarrow> site_grants \<Rightarrow> BrowserSiteGrant option \<times> site_grants" where
  "revokeTaskSite taskId siteId s =
     (let key = grantKey taskId siteId in
      case js_get (sg_grants s) key of
        None \<Rightarrow> (None, s)
      | Some grant \<Rightarrow> (Some grant, s\<lparr>sg_grants := js_delete key (sg_grants s)\<rparr>))"

definition site_revokeTask :: "string \<Rightarrow> site_grants \<Rightarrow> BrowserSiteGrant list \<times> site_grants" where
  "site_revokeTask taskId s =
     (filter (\<lambda>g. gr_taskId g = taskId) (js_values (sg_grants s)),
      s\<lparr>sg_grants := js_delete_where (\<lambda>g. gr_taskId g = taskId) (sg_grants s),
        sg_pending := js_delete_where (\<lambda>p. pc_taskId p = taskId) (sg_pending s)\<rparr>)"

definition activeGrants :: "instant \<Rightarrow> site_grants \<Rightarrow> BrowserSiteGrant list \<times> site_grants" where
  "activeGrants now s = (let s1 = pruneExpiredSite now s in (js_values (sg_grants s1), s1))"

subsection \<open>The runtime\<close>

text \<open>
  The part of \<open>BrowserRuntime\<close> that decides about private sites. What it tells the driver is a list
  of calls; the driver is taken to have the optional methods, except \<open>newTabWithAllowedOrigins\<close>,
  whose absence the code reports.
\<close>

record site_runtime =
  sx_policies :: site_policies
  sx_grants :: site_grants
  sx_authenticated :: "string list"

datatype driver_call =
    Enable_origin string instant
  | Disable_origin string
  | Page_origins "string list" "instant option"
  | Page_policy "AuthorizedSitePolicy option"
  | New_authorized_tab string "string list" instant
  | Navigate_to string

abbreviation authenticatedSiteKey :: "string \<Rightarrow> string \<Rightarrow> string" where
  "authenticatedSiteKey \<equiv> grantKey"

definition add_key :: "string \<Rightarrow> site_runtime \<Rightarrow> site_runtime" where
  "add_key key st = st\<lparr>sx_authenticated := js_unique (sx_authenticated st @ [key])\<rparr>"

text \<open>\<open>expiryByOrigin\<close>: the latest end of the active grants of an origin.\<close>

definition note_origin :: "instant \<Rightarrow> string \<Rightarrow> (string, instant) jsmap \<Rightarrow> (string, instant) jsmap" where
  "note_origin expiresAt origin m =
     js_set origin (max (case js_get m origin of None \<Rightarrow> 0 | Some e \<Rightarrow> e) expiresAt) m"

definition expiryByOrigin :: "BrowserSiteGrant list \<Rightarrow> (string, instant) jsmap" where
  "expiryByOrigin grants = fold (\<lambda>g. fold (note_origin (gr_expiresAt g)) (gr_allowedOrigins g)) grants []"

definition syncPrivateOriginActivation :: "instant \<Rightarrow> site_runtime \<Rightarrow> driver_call list \<times> site_runtime" where
  "syncPrivateOriginActivation now st =
     (case activeGrants now (sx_grants st) of (grants, s) \<Rightarrow>
      (map (\<lambda>origin. case js_get (expiryByOrigin grants) origin of
              None \<Rightarrow> Disable_origin origin
            | Some expiresAt \<Rightarrow> Enable_origin origin expiresAt) (privateOriginValues (sx_policies st)),
       st\<lparr>sx_grants := s\<rparr>))"

definition requireTargetGrant ::
  "site_env \<Rightarrow> instant \<Rightarrow> instant \<Rightarrow> instant \<Rightarrow> BrowserTask \<Rightarrow> string \<Rightarrow> site_runtime \<Rightarrow>
   BrowserSiteGrant option result \<times> driver_call list \<times> site_runtime" where
  "requireTargetGrant env now1 now2 now3 task targetUrl st =
     (case classify env targetUrl (sx_policies st) of
        Inl e \<Rightarrow> (Inl e, [], st)
      | Inr (Denied_site _) \<Rightarrow>
          (Inl (AppError SITE_PRODUCTION_BLOCKED ''The requested site origin is permanently blocked by browser policy.''), [], st)
      | Inr (Public_site _) \<Rightarrow> (Inr None, [], st)
      | Inr (Private_site _ policy) \<Rightarrow>
          (case requireGrant now1 now2 task policy (sx_grants st) of
             (Inr grant, s) \<Rightarrow> (Inr (Some grant), [], st\<lparr>sx_grants := s\<rparr>)
           | (Inl e, s) \<Rightarrow>
               (case syncPrivateOriginActivation now3 (st\<lparr>sx_grants := s\<rparr>) of (calls, st1) \<Rightarrow> (Inl e, calls, st1))))"

definition tab_target :: "url_parser \<Rightarrow> BrowserTab \<Rightarrow> string result" where
  "tab_target parse tab =
     normalizeBrowserUrl parse (or_default (or_else (bw_lockedUrl tab) (bw_url tab)) ''about:blank'')"

definition requireTabSiteGrant ::
  "site_env \<Rightarrow> instant \<Rightarrow> instant \<Rightarrow> instant \<Rightarrow> BrowserTask \<Rightarrow> string \<Rightarrow> tab_registry \<Rightarrow> site_runtime \<Rightarrow>
   unit result \<times> driver_call list \<times> site_runtime" where
  "requireTabSiteGrant env now1 now2 now3 task tabId tabs st =
     (case find (\<lambda>candidate. bw_tabId candidate = tabId) (list_tabs tabs) of
        None \<Rightarrow> (Inr (), [], st)
      | Some tab \<Rightarrow>
          (case tab_target (sv_url env) tab of
             Inl e \<Rightarrow> (Inl e, [], st)
           | Inr url \<Rightarrow>
               (case requireTargetGrant env now1 now2 now3 task url st of
                  (Inl e, calls, st1) \<Rightarrow> (Inl e, calls, st1)
                | (Inr _, calls, st1) \<Rightarrow> (Inr (), calls, st1))))"

record restore_target =
  rt_url :: string
  rt_allowedOrigins :: "string list option"
  rt_expiresAt :: "instant option"

definition plain_target :: "string \<Rightarrow> restore_target" where
  "plain_target url = \<lparr>rt_url = url, rt_allowedOrigins = None, rt_expiresAt = None\<rparr>"

definition resolvePersistentRestoreTarget ::
  "site_env \<Rightarrow> instant \<Rightarrow> BrowserTab \<Rightarrow> string \<Rightarrow> site_runtime \<Rightarrow> restore_target result \<times> site_runtime" where
  "resolvePersistentRestoreTarget env now tab targetUrl st =
     (case classify env targetUrl (sx_policies st) of
        Inl e \<Rightarrow> (Inl e, st)
      | Inr (Public_site _) \<Rightarrow> (Inr (plain_target targetUrl), st)
      | Inr (Denied_site _) \<Rightarrow> (Inr (plain_target ''about:blank''), st)
      | Inr (Private_site _ policy) \<Rightarrow>
          if \<not> truthy (bw_taskId tab) then (Inr (plain_target ''about:blank''), st)
          else
            (case grantForTaskSite now (the (bw_taskId tab)) (sp_siteId policy) (sx_grants st) of
               (None, s) \<Rightarrow> (Inr (plain_target ''about:blank''), st\<lparr>sx_grants := s\<rparr>)
             | (Some grant, s) \<Rightarrow>
                 (Inr \<lparr>rt_url = targetUrl, rt_allowedOrigins = Some (gr_allowedOrigins grant),
                       rt_expiresAt = Some (gr_expiresAt grant)\<rparr>, st\<lparr>sx_grants := s\<rparr>)))"

definition isBusinessReadOnlyTab :: "site_env \<Rightarrow> BrowserTab \<Rightarrow> site_runtime \<Rightarrow> bool result" where
  "isBusinessReadOnlyTab env tab st =
     bind_result (tab_target (sv_url env) tab) (\<lambda>url.
     bind_result (classify env url (sx_policies st)) (\<lambda>c.
     Inr (case c of Private_site _ _ \<Rightarrow> True | _ \<Rightarrow> False)))"

definition applyActivePageGrant :: "BrowserSiteGrant option \<Rightarrow> site_runtime \<Rightarrow> unit result \<times> driver_call list" where
  "applyActivePageGrant grant st =
     (case grant of
        None \<Rightarrow> (Inr (), [Page_origins [] None, Page_policy None])
      | Some g \<Rightarrow>
          (let first = Page_origins (gr_allowedOrigins g) (Some (gr_expiresAt g)) in
           if authenticatedSiteKey (gr_taskId g) (gr_siteId g) \<notin> set (sx_authenticated st) then
             (Inr (), [first, Page_policy None])
           else
             (case require_policy (gr_siteId g) (sx_policies st) of
                Inl e \<Rightarrow> (Inl e, [first])
              | Inr policy \<Rightarrow> (Inr (), [first, Page_policy (Some policy)]))))"

definition newAuthorizedTab :: "bool \<Rightarrow> string \<Rightarrow> BrowserSiteGrant \<Rightarrow> site_runtime \<Rightarrow> unit result \<times> driver_call list" where
  "newAuthorizedTab supported targetUrl grant st =
     (if \<not> supported then
        (Inl (AppError BROWSER_CAPABILITY_UNSUPPORTED
           ''The active browser driver cannot enforce private-site page authorization.''), [])
      else
        (let authenticated = authenticatedSiteKey (gr_taskId grant) (gr_siteId grant) \<in> set (sx_authenticated st);
             first = New_authorized_tab (if authenticated then ''about:blank'' else targetUrl)
               (gr_allowedOrigins grant) (gr_expiresAt grant) in
         case applyActivePageGrant (Some grant) st of
           (Inl e, calls) \<Rightarrow> (Inl e, first # calls)
         | (Inr _, calls) \<Rightarrow>
             if \<not> authenticated \<or> targetUrl = ''about:blank'' then (Inr (), first # calls)
             else (Inr (), first # calls @ [Navigate_to targetUrl])))"

definition revokeTaskSiteGrants :: "instant \<Rightarrow> string \<Rightarrow> site_runtime \<Rightarrow> driver_call list \<times> site_runtime" where
  "revokeTaskSiteGrants now taskId st =
     syncPrivateOriginActivation now
       (st\<lparr>sx_authenticated := filter (\<lambda>key. take (length taskId + 1) key \<noteq> taskId @ [CHR 0x00]) (sx_authenticated st),
           sx_grants := snd (site_revokeTask taskId (sx_grants st))\<rparr>)"

definition authenticatedPolicyForTab ::
  "site_env \<Rightarrow> task_registry \<Rightarrow> BrowserTab \<Rightarrow> site_runtime \<Rightarrow> AuthorizedSitePolicy option result" where
  "authenticatedPolicyForTab env tasks tab st =
     bind_result (tab_target (sv_url env) tab) (\<lambda>target.
     bind_result (classify env target (sx_policies st)) (\<lambda>c.
     Inr (case c of
            Private_site _ policy \<Rightarrow>
              (let taskId = or_else (bw_taskId tab) (taskIdForTab (bw_tabId tab) tasks) in
               if \<not> truthy taskId then None
               else if authenticatedSiteKey (the taskId) (sp_siteId policy) \<in> set (sx_authenticated st) then Some policy
               else None)
          | _ \<Rightarrow> None)))"

text \<open>\<open>acquireSemanticRequestPermit\<close>: whether a permit of the active page is asked for.\<close>

definition acquireSemanticRequestPermit ::
  "site_env \<Rightarrow> task_registry \<Rightarrow> BrowserTab \<Rightarrow> AuthorizedSiteSemanticActionDescriptor list \<Rightarrow> site_runtime \<Rightarrow> bool result" where
  "acquireSemanticRequestPermit env tasks tab descriptors st =
     (if descriptors = [] then Inr False
      else
        bind_result (authenticatedPolicyForTab env tasks tab st) (\<lambda>found.
        Inr (case found of
               None \<Rightarrow> False
             | Some policy \<Rightarrow>
                 sp_requestPolicy policy \<noteq> None \<and> list_all (isAuthorizedSiteSemanticActionAllowed policy) descriptors)))"

text \<open>
  \<open>openAuthorizedSite\<close> for a task that \<open>resolveForOpen\<close> gave: without a confirmation id it creates
  a confirmation; with one it confirms and activates the origins before the tab is opened. Then
  the tab is opened and the site authenticated, while other calls may run; the last stretch
  depends on how that ended.
\<close>

definition open_site_request ::
  "instant \<Rightarrow> instant \<Rightarrow> string \<Rightarrow> BrowserTask \<Rightarrow> string \<Rightarrow> string \<Rightarrow> site_runtime \<Rightarrow>
   PendingSiteConfirmation result \<times> site_runtime" where
  "open_site_request now1 now2 confirmationId task siteId purpose st =
     (case require_policy siteId (sx_policies st) of
        Inl e \<Rightarrow> (Inl e, st)
      | Inr policy \<Rightarrow>
          (case createConfirmation now1 now2 confirmationId task policy purpose (sx_grants st) of
             (c, s) \<Rightarrow> (Inr c, st\<lparr>sx_grants := s\<rparr>)))"

definition open_site_confirm ::
  "instant \<Rightarrow> instant \<Rightarrow> instant \<Rightarrow> string \<Rightarrow> BrowserTask \<Rightarrow> string \<Rightarrow> string \<Rightarrow> site_runtime \<Rightarrow>
   BrowserSiteGrant result \<times> driver_call list \<times> site_runtime" where
  "open_site_confirm now1 now2 now3 confirmationId task siteId purpose st =
     (case require_policy siteId (sx_policies st) of
        Inl e \<Rightarrow> (Inl e, [], st)
      | Inr policy \<Rightarrow>
          (case site_confirm now1 now2 confirmationId task policy purpose (sx_grants st) of
             (Inl e, s) \<Rightarrow> (Inl e, [], st\<lparr>sx_grants := s\<rparr>)
           | (Inr grant, s) \<Rightarrow>
               (case syncPrivateOriginActivation now3 (st\<lparr>sx_grants := s\<rparr>) of (calls, st1) \<Rightarrow>
                (Inr grant, calls,
                 if sp_loginStrategy policy = Login_none then add_key (authenticatedSiteKey (bt_taskId task) (sp_siteId policy)) st1
                 else st1))))"

datatype authentication_status = Performed | Session_reused | Not_required | Other_status

definition open_site_opened ::
  "authentication_status \<Rightarrow> BrowserSiteGrant \<Rightarrow> site_runtime \<Rightarrow> unit result \<times> driver_call list \<times> site_runtime" where
  "open_site_opened status grant st =
     (if status = Other_status then (Inr (), [], st)
      else
        (let st1 = add_key (authenticatedSiteKey (gr_taskId grant) (gr_siteId grant)) st in
         case applyActivePageGrant (Some grant) st1 of (r, calls) \<Rightarrow> (r, calls, st1)))"

definition open_site_failed :: "instant \<Rightarrow> string \<Rightarrow> string \<Rightarrow> site_runtime \<Rightarrow> driver_call list \<times> site_runtime" where
  "open_site_failed now taskId siteId st =
     syncPrivateOriginActivation now
       (st\<lparr>sx_authenticated := filter (\<lambda>key. key \<noteq> authenticatedSiteKey taskId siteId) (sx_authenticated st),
           sx_grants := snd (revokeTaskSite taskId siteId (sx_grants st))\<rparr>)"

subsection \<open>Sequences of calls\<close>

datatype site_op =
    Site_request instant instant string BrowserTask string string
  | Site_confirm instant instant instant string BrowserTask string string
  | Site_opened authentication_status BrowserSiteGrant
  | Site_failed instant string string
  | Site_target instant instant instant BrowserTask string
  | Site_restore instant BrowserTab string
  | Site_sync instant
  | Site_revoke instant string

datatype site_out =
    Out_confirmation "PendingSiteConfirmation result"
  | Out_grant "BrowserSiteGrant result"
  | Out_target "BrowserSiteGrant option result"
  | Out_restore "restore_target result"
  | Out_done

fun site_step :: "site_env \<Rightarrow> site_op \<Rightarrow> site_runtime \<Rightarrow> site_out \<times> site_runtime" where
  "site_step env (Site_request n1 n2 c task siteId purpose) st =
     (case open_site_request n1 n2 c task siteId purpose st of (r, st1) \<Rightarrow> (Out_confirmation r, st1))"
| "site_step env (Site_confirm n1 n2 n3 c task siteId purpose) st =
     (case open_site_confirm n1 n2 n3 c task siteId purpose st of (r, _, st1) \<Rightarrow> (Out_grant r, st1))"
| "site_step env (Site_opened status grant) st =
     (case open_site_opened status grant st of (_, _, st1) \<Rightarrow> (Out_done, st1))"
| "site_step env (Site_failed now taskId siteId) st = (Out_done, snd (open_site_failed now taskId siteId st))"
| "site_step env (Site_target n1 n2 n3 task url) st =
     (case requireTargetGrant env n1 n2 n3 task url st of (r, _, st1) \<Rightarrow> (Out_target r, st1))"
| "site_step env (Site_restore now tab url) st =
     (case resolvePersistentRestoreTarget env now tab url st of (r, st1) \<Rightarrow> (Out_restore r, st1))"
| "site_step env (Site_sync now) st = (Out_done, snd (syncPrivateOriginActivation now st))"
| "site_step env (Site_revoke now taskId) st = (Out_done, snd (revokeTaskSiteGrants now taskId st))"

definition site_start :: "site_policies \<Rightarrow> site_runtime" where
  "site_start policies = \<lparr>sx_policies = policies, sx_grants = no_grants, sx_authenticated = []\<rparr>"

subsection \<open>What the maps hold after a step\<close>

abbreviation pending_of :: "site_runtime \<Rightarrow> (string, PendingSiteConfirmation) jsmap" where
  "pending_of st \<equiv> sg_pending (sx_grants st)"

abbreviation grants_of :: "site_runtime \<Rightarrow> (string, BrowserSiteGrant) jsmap" where
  "grants_of st \<equiv> sg_grants (sx_grants st)"

definition site_wf :: "site_runtime \<Rightarrow> bool" where
  "site_wf st \<longleftrightarrow> js_wf (pending_of st) \<and> js_wf (grants_of st)"

lemmas site_prune_defs = pruneExpiredSite_def pruneExpiredGrants_def pruneExpiredConfirmations_def

lemma get_delete_where_Some:
  "js_wf m \<Longrightarrow> js_get (js_delete_where q m) k = Some v \<longleftrightarrow> js_get m k = Some v \<and> \<not> q v"
  by (auto simp: js_get_delete_where split: option.split)

lemma get_delete_where_None:
  "js_wf m \<Longrightarrow> js_get (js_delete_where q m) k = None \<longleftrightarrow> (\<forall>v. js_get m k = Some v \<longrightarrow> q v)"
  by (auto simp: js_get_delete_where split: option.split)

lemma prune_site_simps [simp]:
  "sg_pending (pruneExpiredSite n s) = js_delete_where (\<lambda>p. pc_expiresAt p \<le> n) (sg_pending s)"
  "sg_grants (pruneExpiredSite n s) = js_delete_where (\<lambda>g. gr_expiresAt g \<le> n) (sg_grants s)"
  "sg_pending (pruneExpiredConfirmations n s) = js_delete_where (\<lambda>p. pc_expiresAt p \<le> n) (sg_pending s)"
  "sg_grants (pruneExpiredConfirmations n s) = sg_grants s"
  by (simp_all add: site_prune_defs)

lemma sync_simps [simp]:
  "sx_policies (snd (syncPrivateOriginActivation n st)) = sx_policies st"
  "pending_of (snd (syncPrivateOriginActivation n st)) = js_delete_where (\<lambda>p. pc_expiresAt p \<le> n) (pending_of st)"
  "grants_of (snd (syncPrivateOriginActivation n st)) = js_delete_where (\<lambda>g. gr_expiresAt g \<le> n) (grants_of st)"
  by (simp_all add: syncPrivateOriginActivation_def activeGrants_def Let_def)

lemma add_key_simps [simp]:
  "sx_policies (add_key k st) = sx_policies st" "sx_grants (add_key k st) = sx_grants st"
  by (simp_all add: add_key_def)

text \<open>Which calls drop a confirmation of a task, or a grant under a key.\<close>

fun drops_pending :: "site_op \<times> site_out \<Rightarrow> string \<Rightarrow> string \<Rightarrow> bool" where
  "drops_pending (Site_confirm _ _ _ c _ _ _, Out_grant (Inr _)) c' taskId \<longleftrightarrow> c = c'"
| "drops_pending (Site_revoke _ t, _) c' taskId \<longleftrightarrow> t = taskId"
| "drops_pending _ c' taskId \<longleftrightarrow> False"

fun drops_grant :: "site_op \<Rightarrow> string \<Rightarrow> string \<Rightarrow> bool" where
  "drops_grant (Site_failed _ taskId siteId) key t \<longleftrightarrow> grantKey taskId siteId = key"
| "drops_grant (Site_revoke _ taskId) key t \<longleftrightarrow> taskId = t"
| "drops_grant _ key t \<longleftrightarrow> False"

lemmas site_op_defs = open_site_request_def createConfirmation_def open_site_confirm_def site_confirm_def
  open_site_opened_def open_site_failed_def requireTargetGrant_def requireGrant_def
  resolvePersistentRestoreTarget_def grantForTaskSite_def revokeTaskSite_def revokeTaskSiteGrants_def
  site_revokeTask_def classify_def

lemma step_policies [simp]: "sx_policies (snd (site_step env op st)) = sx_policies st"
  by (cases op) (auto simp: site_op_defs Let_def split: prod.split sum.split option.split ClassifiedSiteUrl.split
    dest!: arg_cong [where f = snd])

lemma step_wf: "site_wf st \<Longrightarrow> site_wf (snd (site_step env op st))"
  by (cases op) (auto simp: site_op_defs Let_def case_prod_unfold site_wf_def
    split: sum.split option.split ClassifiedSiteUrl.split intro!: js_wf_intros)

lemma pending_after_step:
  assumes "site_wf st" "js_get (pending_of (snd (site_step env op st))) c = Some p"
  shows "js_get (pending_of st) c = Some p \<and> \<not> drops_pending (op, fst (site_step env op st)) c (pc_taskId p) \<or>
    (\<exists>n1 n2 task siteId purpose policy. op = Site_request n1 n2 c task siteId purpose \<and>
       require_policy siteId (sx_policies st) = Inr policy \<and> p = site_confirmation n2 c task policy purpose)"
  using assms
  by (cases op) (auto simp: site_op_defs Let_def case_prod_unfold site_wf_def
    get_delete_where_Some get_delete_where_None js_wf_intros
    split: sum.split_asm option.split_asm ClassifiedSiteUrl.split_asm if_split_asm)

lemma grants_after_step:
  assumes "site_wf st" "js_get (grants_of (snd (site_step env op st))) k = Some g"
  shows "js_get (grants_of st) k = Some g \<and> \<not> drops_grant op k (gr_taskId g) \<or>
    (\<exists>n1 n2 n3 c task siteId purpose policy p. op = Site_confirm n1 n2 n3 c task siteId purpose \<and>
       fst (site_step env op st) = Out_grant (Inr g) \<and>
       require_policy siteId (sx_policies st) = Inr policy \<and> g = site_grant n2 task policy \<and>
       k = grantKey (bt_taskId task) (sp_siteId policy) \<and>
       js_get (pending_of st) c = Some p \<and> n1 < pc_expiresAt p \<and> pc_taskId p = bt_taskId task \<and>
       pc_ownerScopeHash p = bt_ownerScopeHash task \<and> pc_siteId p = sp_siteId policy \<and> pc_purpose p = purpose)"
  using assms
  by (cases op) (auto simp: site_op_defs Let_def case_prod_unfold site_wf_def
    get_delete_where_Some get_delete_where_None js_wf_intros
    split: sum.split_asm option.split_asm ClassifiedSiteUrl.split_asm if_split_asm)

subsection \<open>The history of confirmations and grants\<close>

definition requested ::
  "site_policies \<Rightarrow> (site_op \<times> site_out) list \<Rightarrow> string \<Rightarrow> PendingSiteConfirmation \<Rightarrow> bool" where
  "requested policies log c p \<longleftrightarrow>
     (\<exists>A o1 B n1 n2 task siteId purpose policy. log = A @ (Site_request n1 n2 c task siteId purpose, o1) # B \<and>
        require_policy siteId policies = Inr policy \<and> p = site_confirmation n2 c task policy purpose \<and>
        (\<forall>x \<in> set B. \<not> drops_pending x c (bt_taskId task)))"

definition granted ::
  "site_policies \<Rightarrow> (site_op \<times> site_out) list \<Rightarrow> string \<Rightarrow> BrowserSiteGrant \<Rightarrow> bool" where
  "granted policies log k g \<longleftrightarrow>
     (\<exists>A C n1 n2 n3 c task siteId purpose policy p.
        log = A @ (Site_confirm n1 n2 n3 c task siteId purpose, Out_grant (Inr g)) # C \<and>
        require_policy siteId policies = Inr policy \<and> g = site_grant n2 task policy \<and>
        k = grantKey (bt_taskId task) (sp_siteId policy) \<and> requested policies A c p \<and> n1 < pc_expiresAt p \<and>
        pc_taskId p = bt_taskId task \<and> pc_ownerScopeHash p = bt_ownerScopeHash task \<and>
        pc_siteId p = sp_siteId policy \<and> pc_purpose p = purpose \<and>
        (\<forall>x \<in> set C. \<not> drops_grant (fst x) k (bt_taskId task)))"

definition site_history :: "site_policies \<Rightarrow> (site_op \<times> site_out) list \<Rightarrow> site_runtime \<Rightarrow> bool" where
  "site_history policies log st \<longleftrightarrow>
     sx_policies st = policies \<and> site_wf st \<and>
     (\<forall>c p. js_get (pending_of st) c = Some p \<longrightarrow> requested policies log c p) \<and>
     (\<forall>k g. js_get (grants_of st) k = Some g \<longrightarrow> granted policies log k g)"

lemma requested_snoc:
  "requested policies log c p \<Longrightarrow> \<not> drops_pending x c (pc_taskId p) \<Longrightarrow> requested policies (log @ [x]) c p"
  unfolding requested_def by (force simp: site_confirmation_def)

lemma granted_snoc:
  assumes "granted policies log k g" and "\<not> drops_grant (fst x) k (gr_taskId g)"
  shows "granted policies (log @ [x]) k g"
proof -
  from assms(1) obtain A C n1 n2 n3 c task siteId purpose policy p where
    log: "log = A @ (Site_confirm n1 n2 n3 c task siteId purpose, Out_grant (Inr g)) # C"
    and g: "require_policy siteId policies = Inr policy" "g = site_grant n2 task policy"
      "k = grantKey (bt_taskId task) (sp_siteId policy)"
    and p: "requested policies A c p" "n1 < pc_expiresAt p" "pc_taskId p = bt_taskId task"
      "pc_ownerScopeHash p = bt_ownerScopeHash task" "pc_siteId p = sp_siteId policy" "pc_purpose p = purpose"
    and C: "\<forall>x \<in> set C. \<not> drops_grant (fst x) k (bt_taskId task)"
    unfolding granted_def by blast
  have "log @ [x] = A @ (Site_confirm n1 n2 n3 c task siteId purpose, Out_grant (Inr g)) # (C @ [x])" using log by simp
  moreover have "\<forall>y \<in> set (C @ [x]). \<not> drops_grant (fst y) k (bt_taskId task)"
    using C assms(2) g(2) by (simp add: site_grant_def)
  ultimately show ?thesis using g p unfolding granted_def by blast
qed

lemma site_history_step:
  assumes "site_history policies log st" and "site_step env op st = (o1, st1)"
  shows "site_history policies (log @ [(op, o1)]) st1"
proof -
  have wf: "site_wf st" and pol: "sx_policies st = policies" using assms(1) by (auto simp: site_history_def)
  have st1: "st1 = snd (site_step env op st)" "o1 = fst (site_step env op st)" using assms(2) by auto
  have "requested policies (log @ [(op, o1)]) c p" if "js_get (pending_of st1) c = Some p" for c p
    using pending_after_step [OF wf that [unfolded st1]]
  proof
    assume "js_get (pending_of st) c = Some p \<and> \<not> drops_pending (op, fst (site_step env op st)) c (pc_taskId p)"
    then show ?thesis using assms(1) st1(2) by (auto simp: site_history_def intro!: requested_snoc)
  next
    assume "\<exists>n1 n2 task siteId purpose policy. op = Site_request n1 n2 c task siteId purpose \<and>
      require_policy siteId (sx_policies st) = Inr policy \<and> p = site_confirmation n2 c task policy purpose"
    then show ?thesis using pol unfolding requested_def by fastforce
  qed
  moreover have "granted policies (log @ [(op, o1)]) k g" if "js_get (grants_of st1) k = Some g" for k g
    using grants_after_step [OF wf that [unfolded st1(1)]]
  proof
    assume "js_get (grants_of st) k = Some g \<and> \<not> drops_grant op k (gr_taskId g)"
    then show ?thesis using assms(1) by (auto simp: site_history_def intro!: granted_snoc)
  next
    assume "\<exists>n1 n2 n3 c task siteId purpose policy p. op = Site_confirm n1 n2 n3 c task siteId purpose \<and>
       fst (site_step env op st) = Out_grant (Inr g) \<and>
       require_policy siteId (sx_policies st) = Inr policy \<and> g = site_grant n2 task policy \<and>
       k = grantKey (bt_taskId task) (sp_siteId policy) \<and>
       js_get (pending_of st) c = Some p \<and> n1 < pc_expiresAt p \<and> pc_taskId p = bt_taskId task \<and>
       pc_ownerScopeHash p = bt_ownerScopeHash task \<and> pc_siteId p = sp_siteId policy \<and> pc_purpose p = purpose"
    then show ?thesis using pol assms(1) st1(2) unfolding granted_def site_history_def by fastforce
  qed
  ultimately show ?thesis using step_wf [OF wf] pol unfolding site_history_def st1 by simp
qed

lemma site_history_run:
  "run_ops (site_step env) ops (site_start policies) = (outs, st) \<Longrightarrow>
   length outs = length ops \<and> site_history policies (zip ops outs) st"
proof (induction ops arbitrary: outs st rule: rev_induct)
  case Nil
  then show ?case by (auto simp: site_history_def site_start_def no_grants_def site_wf_def)
next
  case (snoc op ops)
  then obtain outs1 st1 o1 where "run_ops (site_step env) ops (site_start policies) = (outs1, st1)"
    and o1: "site_step env op st1 = (o1, st)" "outs = outs1 @ [o1]"
    by (auto simp: run_ops_append split: prod.split_asm)
  with snoc.IH have "length outs1 = length ops" "site_history policies (zip ops outs1) st1" by auto
  with site_history_step [OF _ o1(1)] o1(2) show ?case by simp
qed

subsection \<open>The policy registry\<close>

definition policies_wf :: "site_policies \<Rightarrow> bool" where
  "policies_wf s \<longleftrightarrow>
     (\<forall>k p. js_get (sps_policies s) k = Some p \<longrightarrow> sp_siteId p = k) \<and>
     (\<forall>k p. js_get (sps_privateOrigins s) k = Some p \<longrightarrow>
        k \<in> set (sp_allowedOrigins p) \<and> js_get (sps_policies s) (sp_siteId p) = Some p) \<and>
     (\<forall>k p. js_get (sps_policies s) k = Some p \<longrightarrow>
        (\<forall>o1 \<in> set (sp_allowedOrigins p). js_get (sps_privateOrigins s) o1 = Some p) \<and>
        set (sp_deniedOrigins p) \<subseteq> set (sps_deniedOrigins s))"

lemma add_origins_result:
  assumes "add_origins policy os s = Inr s1"
  shows "sps_policies s1 = sps_policies s" "sps_deniedOrigins s1 = sps_deniedOrigins s"
    "js_get (sps_privateOrigins s1) k = (if k \<in> set os then Some policy else js_get (sps_privateOrigins s) k)"
    "k \<in> set os \<Longrightarrow> js_get (sps_privateOrigins s) k = Some p \<Longrightarrow> sp_siteId p = sp_siteId policy"
proof -
  have "sps_policies s1 = sps_policies s \<and> sps_deniedOrigins s1 = sps_deniedOrigins s \<and>
    js_get (sps_privateOrigins s1) k = (if k \<in> set os then Some policy else js_get (sps_privateOrigins s) k) \<and>
    (k \<in> set os \<longrightarrow> js_get (sps_privateOrigins s) k = Some p \<longrightarrow> sp_siteId p = sp_siteId policy)"
    using assms
  proof (induction os arbitrary: s)
    case Nil
    then show ?case by simp
  next
    case (Cons x os)
    then have "add_origins policy os (s\<lparr>sps_privateOrigins := js_set x policy (sps_privateOrigins s)\<rparr>) = Inr s1"
      and ok: "js_get (sps_privateOrigins s) x = Some p \<longrightarrow> sp_siteId p = sp_siteId policy"
      by (auto split: if_split_asm option.split_asm)
    from Cons.IH [OF this(1)] ok show ?case by (cases "k = x") simp_all
  qed
  then show "sps_policies s1 = sps_policies s" "sps_deniedOrigins s1 = sps_deniedOrigins s"
    "js_get (sps_privateOrigins s1) k = (if k \<in> set os then Some policy else js_get (sps_privateOrigins s) k)"
    "k \<in> set os \<Longrightarrow> js_get (sps_privateOrigins s) k = Some p \<Longrightarrow> sp_siteId p = sp_siteId policy" by blast+
qed

lemma policies_wfD:
  assumes "policies_wf s"
  shows "js_get (sps_policies s) k = Some p \<Longrightarrow> sp_siteId p = k"
    "js_get (sps_privateOrigins s) k = Some p \<Longrightarrow> k \<in> set (sp_allowedOrigins p)"
    "js_get (sps_privateOrigins s) k = Some p \<Longrightarrow> js_get (sps_policies s) (sp_siteId p) = Some p"
    "js_get (sps_policies s) k = Some p \<Longrightarrow> o1 \<in> set (sp_allowedOrigins p) \<Longrightarrow> js_get (sps_privateOrigins s) o1 = Some p"
    "js_get (sps_policies s) k = Some p \<Longrightarrow> o1 \<in> set (sp_deniedOrigins p) \<Longrightarrow> o1 \<in> set (sps_deniedOrigins s)"
  using assms unfolding policies_wf_def by blast+

lemma add_policy_wf:
  assumes wf: "policies_wf s" and add: "add_policy env v s = Inr s1"
  shows "policies_wf s1"
proof -
  from add obtain policy s2 where new: "js_get (sps_policies s) (sp_siteId policy) = None"
    and add2: "add_origins policy (sp_allowedOrigins policy) (s\<lparr>sps_policies := js_set (sp_siteId policy) policy (sps_policies s)\<rparr>) = Inr s2"
    and s1: "s1 = s2\<lparr>sps_deniedOrigins := js_unique (sps_deniedOrigins s2 @ sp_deniedOrigins policy)\<rparr>"
    by (auto simp: add_policy_def bind_result_Inr_iff split: option.split_asm if_split_asm)
  note res = add_origins_result [OF add2]
  have other: "sp_siteId p \<noteq> sp_siteId policy" if "js_get (sps_privateOrigins s) k = Some p" for k p
    using policies_wfD(3) [OF wf that] new by auto
  have fresh: "js_get (sps_privateOrigins s) k = None" if "k \<in> set (sp_allowedOrigins policy)" for k
    using res(4) [OF that] other [of k] by (cases "js_get (sps_privateOrigins s) k") auto
  have get: "js_get (sps_policies s1) k = (if k = sp_siteId policy then Some policy else js_get (sps_policies s) k)"
    "js_get (sps_privateOrigins s1) k = (if k \<in> set (sp_allowedOrigins policy) then Some policy else js_get (sps_privateOrigins s) k)"
    "set (sps_deniedOrigins s1) = set (sps_deniedOrigins s) \<union> set (sp_deniedOrigins policy)" for k
    using res(1-3) s1 by simp_all
  show ?thesis unfolding policies_wf_def
  proof (intro conjI allI impI ballI subsetI)
    fix k p assume "js_get (sps_privateOrigins s1) k = Some p"
    then show "k \<in> set (sp_allowedOrigins p)" "js_get (sps_policies s1) (sp_siteId p) = Some p"
      using get policies_wfD(2,3) [OF wf] other by (auto split: if_split_asm)
  next
    fix k p assume p: "js_get (sps_policies s1) k = Some p"
    then show "sp_siteId p = k" using get(1) policies_wfD(1) [OF wf] by (auto split: if_split_asm)
    show "js_get (sps_privateOrigins s1) o1 = Some p" if "o1 \<in> set (sp_allowedOrigins p)" for o1
      using p that get(1,2) policies_wfD(4) [OF wf] fresh
      by (auto split: if_split_asm) (metis option.distinct(1))
    show "o1 \<in> set (sps_deniedOrigins s1)" if "o1 \<in> set (sp_deniedOrigins p)" for o1
      using p that get(1,3) policies_wfD(5) [OF wf] by (auto split: if_split_asm)
  qed
qed

lemma new_site_policies_wf: "new_site_policies env vs = Inr s \<Longrightarrow> policies_wf s"
proof -
  have "policies_wf s0 \<Longrightarrow> add_policies env vs s0 = Inr s \<Longrightarrow> policies_wf s" for s0
    by (induction vs arbitrary: s0) (auto simp: bind_result_Inr_iff dest: add_policy_wf)
  moreover have "policies_wf no_policies" by (simp add: policies_wf_def no_policies_def)
  ultimately show "new_site_policies env vs = Inr s \<Longrightarrow> policies_wf s" by (simp add: new_site_policies_def)
qed

lemma grantKey_inject:
  "CHR 0x00 \<notin> set t \<Longrightarrow> CHR 0x00 \<notin> set t' \<Longrightarrow> grantKey t s = grantKey t' s' \<longleftrightarrow> t = t' \<and> s = s'"
  unfolding grantKey_def by (auto simp: append_eq_append_conv2 append_eq_Cons_conv Cons_eq_append_conv)

subsection \<open>Properties\<close>

text \<open>The task id that a call names; task ids are UUIDs, in particular without the separator of the keys.\<close>

fun op_task :: "site_op \<Rightarrow> string" where
  "op_task (Site_request _ _ _ task _ _) = bt_taskId task"
| "op_task (Site_confirm _ _ _ _ task _ _) = bt_taskId task"
| "op_task (Site_target _ _ _ task _) = bt_taskId task"
| "op_task (Site_failed _ taskId _) = taskId"
| "op_task (Site_revoke _ taskId) = taskId"
| "op_task _ = []"

definition plain_tasks :: "site_op list \<Rightarrow> bool" where
  "plain_tasks ops \<longleftrightarrow> list_all (\<lambda>op. CHR 0x00 \<notin> set (op_task op)) ops"

lemma site_target_granted:
  assumes "requireTargetGrant env n1 n2 n3 task url st = (Inr found, calls, st1)" and "sv_url env url = Some u"
  shows "url_origin u \<notin> set (sps_deniedOrigins (sx_policies st))"
    "js_get (sps_privateOrigins (sx_policies st)) (url_origin u) = Some policy \<Longrightarrow>
     \<exists>grant. found = Some grant \<and> js_get (grants_of st) (grantKey (bt_taskId task) (sp_siteId policy)) = Some grant \<and>
       gr_ownerScopeHash grant = bt_ownerScopeHash task \<and> n2 < gr_expiresAt grant"
  using assms by (auto simp: requireTargetGrant_def classify_def new_URL_def requireGrant_def Let_def
    split: if_split_asm option.split_asm sum.split_asm prod.split_asm)

text \<open>
  A grant rests on a confirmation: the history holds a request and then a confirmation with the
  same id, purpose and site, for a task of the same id and owner, within five minutes; between
  them the confirmation was neither used nor revoked, and since then the grant was neither
  revoked nor dropped by a failed opening.
\<close>

definition rests_on_confirmation ::
  "(site_op \<times> site_out) list \<Rightarrow> BrowserTask \<Rightarrow> string \<Rightarrow> instant \<Rightarrow> BrowserSiteGrant \<Rightarrow> bool" where
  "rests_on_confirmation log task siteId now grant \<longleftrightarrow>
     (\<exists>A B C a1 a2 oa b1 b2 b3 c t1 t2 purpose.
        log = A @ (Site_request a1 a2 c t1 siteId purpose, oa) #
          B @ (Site_confirm b1 b2 b3 c t2 siteId purpose, Out_grant (Inr grant)) # C \<and>
        (\<forall>t \<in> {t1, t2}. bt_taskId t = bt_taskId task \<and> bt_ownerScopeHash t = bt_ownerScopeHash task) \<and>
        b1 < a2 + CONFIRMATION_TTL_MS \<and> now < b2 + GRANT_TTL_MS \<and> now < bt_expiresAt t2 \<and>
        (\<forall>x \<in> set B. \<not> drops_pending x c (bt_taskId task)) \<and>
        (\<forall>n. \<forall>x \<in> set C. fst x \<noteq> Site_revoke n (bt_taskId task) \<and> fst x \<noteq> Site_failed n (bt_taskId task) siteId))"

lemma require_policy_wf:
  "policies_wf policies \<Longrightarrow> require_policy i policies = Inr q \<Longrightarrow> i = sp_siteId q \<and> js_get (sps_policies policies) i = Some q"
  using policies_wfD(1) by (auto simp: require_policy_def split: option.split_asm)

lemma granted_rests_on_confirmation:
  assumes wf: "policies_wf policies" and plain: "plain_tasks ops" "CHR 0x00 \<notin> set (bt_taskId task)"
    and granted: "granted policies (zip ops outs) (grantKey (bt_taskId task) (sp_siteId policy)) grant"
    and grant: "gr_ownerScopeHash grant = bt_ownerScopeHash task" "now < gr_expiresAt grant"
    and policy: "js_get (sps_policies policies) (sp_siteId policy) = Some policy"
  shows "rests_on_confirmation (zip ops outs) task (sp_siteId policy) now grant \<and> gr_allowedOrigins grant = sp_allowedOrigins policy"
proof -
  from granted obtain D C b1 b2 b3 c t2 site purpose policy2 p where
    log: "zip ops outs = D @ (Site_confirm b1 b2 b3 c t2 site purpose, Out_grant (Inr grant)) # C"
    and g: "require_policy site policies = Inr policy2" "grant = site_grant b2 t2 policy2"
      "grantKey (bt_taskId task) (sp_siteId policy) = grantKey (bt_taskId t2) (sp_siteId policy2)"
    and p: "requested policies D c p" "b1 < pc_expiresAt p" "pc_taskId p = bt_taskId t2"
      "pc_ownerScopeHash p = bt_ownerScopeHash t2" "pc_siteId p = sp_siteId policy2" "pc_purpose p = purpose"
    and C: "\<forall>x \<in> set C. \<not> drops_grant (fst x) (grantKey (bt_taskId task) (sp_siteId policy)) (bt_taskId t2)"
    unfolding granted_def by blast
  from p(1) obtain A oa B a1 a2 t1 site1 purpose1 policy1 where
    D: "D = A @ (Site_request a1 a2 c t1 site1 purpose1, oa) # B"
    and p1: "require_policy site1 policies = Inr policy1" "p = site_confirmation a2 c t1 policy1 purpose1"
    and B: "\<forall>x \<in> set B. \<not> drops_pending x c (bt_taskId t1)"
    unfolding requested_def by blast
  have "(Site_confirm b1 b2 b3 c t2 site purpose, Out_grant (Inr grant)) \<in> set (zip ops outs)" by (simp add: log)
  from set_zip_leftD [OF this] have "CHR 0x00 \<notin> set (bt_taskId t2)"
    using plain(1) by (auto simp: plain_tasks_def list_all_iff)
  with g(3) plain(2) have ids: "bt_taskId t2 = bt_taskId task" "sp_siteId policy2 = sp_siteId policy"
    by (simp_all add: grantKey_inject)
  have sites: "site = sp_siteId policy" "site1 = sp_siteId policy" "policy2 = policy"
    using require_policy_wf [OF wf g(1)] require_policy_wf [OF wf p1(1)] ids(2) p(5) p1(2) policy
    by (auto simp: site_confirmation_def)
  have same: "bt_ownerScopeHash t2 = bt_ownerScopeHash task" "bt_ownerScopeHash t1 = bt_ownerScopeHash task"
    "bt_taskId t1 = bt_taskId task" "purpose1 = purpose"
    using grant(1) g(2) p(3,4,6) p1(2) ids(1) by (simp_all add: site_grant_def site_confirmation_def)
  have times: "b1 < a2 + CONFIRMATION_TTL_MS" "now < b2 + GRANT_TTL_MS" "now < bt_expiresAt t2"
    using p(2) p1(2) grant(2) g(2) by (simp_all add: site_grant_def site_confirmation_def)
  have kept: "\<forall>x \<in> set B. \<not> drops_pending x c (bt_taskId task)"
    "\<forall>n. \<forall>x \<in> set C. fst x \<noteq> Site_revoke n (bt_taskId task) \<and> fst x \<noteq> Site_failed n (bt_taskId task) (sp_siteId policy)"
    using B C same(3) ids(1) by force+
  have "zip ops outs = A @ (Site_request a1 a2 c t1 (sp_siteId policy) purpose, oa) #
    B @ (Site_confirm b1 b2 b3 c t2 (sp_siteId policy) purpose, Out_grant (Inr grant)) # C"
    using log D sites same(4) by simp
  with ids(1) same(1-3) times kept have "rests_on_confirmation (zip ops outs) task (sp_siteId policy) now grant"
    unfolding rests_on_confirmation_def by blast
  then show ?thesis using g(2) sites(3) by (simp add: site_grant_def)
qed

text \<open>
  C5. A private site is opened only after a confirmation of its own. In every sequence of calls of
  the runtime (requests, confirmations, finished and failed openings, navigation checks, restores,
  activations, revocations) a navigation that \<open>requireTargetGrant\<close> lets through never goes to a
  denied origin; and when the origin belongs to a site policy, the call returns an unexpired grant
  that lists the origin and rests on a confirmation: requested and confirmed within five minutes
  for this task, owner, site and purpose, used once, not revoked since, and at most ten minutes
  old.\<close>

theorem private_site_needs_confirmation:
  assumes pol: "new_site_policies env vs = Inr policies"
    and run: "run_ops (site_step env) (ops @ [Site_target n1 n2 n3 task url]) (site_start policies) =
      (outs @ [Out_target (Inr found)], st)"
    and plain: "plain_tasks (ops @ [Site_target n1 n2 n3 task url])" and url: "sv_url env url = Some u"
  shows "url_origin u \<notin> set (sps_deniedOrigins policies) \<and>
    (\<forall>policy. js_get (sps_privateOrigins policies) (url_origin u) = Some policy \<longrightarrow>
      (\<exists>grant. found = Some grant \<and> url_origin u \<in> set (gr_allowedOrigins grant) \<and> n2 < gr_expiresAt grant \<and>
         rests_on_confirmation (zip ops outs) task (sp_siteId policy) n2 grant))"
proof (intro conjI allI impI)
  from run obtain outs1 st1 o1 where run1: "run_ops (site_step env) ops (site_start policies) = (outs1, st1)"
    and step: "site_step env (Site_target n1 n2 n3 task url) st1 = (o1, st)" and outs: "outs @ [Out_target (Inr found)] = outs1 @ [o1]"
    by (auto simp: run_ops_append split: prod.split_asm)
  from outs have [simp]: "outs1 = outs" "o1 = Out_target (Inr found)" by auto
  have hist: "site_history policies (zip ops outs) st1" using site_history_run [OF run1] by simp
  then have pol1: "sx_policies st1 = policies" by (simp add: site_history_def)
  from step obtain calls where target: "requireTargetGrant env n1 n2 n3 task url st1 = (Inr found, calls, st)"
    by (auto split: prod.split_asm)
  from site_target_granted(1) [OF this url] pol1 show "url_origin u \<notin> set (sps_deniedOrigins policies)" by simp
  fix policy assume priv: "js_get (sps_privateOrigins policies) (url_origin u) = Some policy"
  from site_target_granted(2) [OF target url] priv pol1 obtain grant where grant: "found = Some grant"
    "js_get (grants_of st1) (grantKey (bt_taskId task) (sp_siteId policy)) = Some grant"
    "gr_ownerScopeHash grant = bt_ownerScopeHash task" "n2 < gr_expiresAt grant" by auto
  with hist have granted: "granted policies (zip ops outs) (grantKey (bt_taskId task) (sp_siteId policy)) grant"
    by (simp add: site_history_def)
  note wf = new_site_policies_wf [OF pol]
  have "plain_tasks ops" "CHR 0x00 \<notin> set (bt_taskId task)" using plain by (simp_all add: plain_tasks_def)
  from granted_rests_on_confirmation [OF wf this granted grant(3,4) policies_wfD(3) [OF wf priv]]
  show "\<exists>grant. found = Some grant \<and> url_origin u \<in> set (gr_allowedOrigins grant) \<and> n2 < gr_expiresAt grant \<and>
    rests_on_confirmation (zip ops outs) task (sp_siteId policy) n2 grant"
    using grant(1,4) policies_wfD(2) [OF wf priv] by auto
qed

definition demo_url :: "string \<Rightarrow> js_url option" where
  "demo_url v = (if take 8 v = ''https://'' then
     Some \<lparr>url_href = v, url_hrefWithoutHash = v, url_origin = take 9 v, url_protocol = ''https:'', url_username = [],
          url_password = [], url_search = [], url_hash = []\<rparr> else None)"

definition demo_site_env :: site_env where
  "demo_site_env = \<lparr>sv_url = demo_url, sv_isUrl = (\<lambda>_. True), sv_le = (\<lambda>_ _. True)\<rparr>"

definition demo_site :: AuthorizedSitePolicy where
  "demo_site = \<lparr>sp_siteId = ''s'', sp_entryUrl = ''https://p/'', sp_allowedOrigins = [''https://p''], sp_deniedOrigins = [''https://q''],
     sp_loginStrategy = Login_none, sp_credentialAccountId = None, sp_requestPolicy = None\<rparr>"

definition demo_site_task :: BrowserTask where
  "demo_site_task = \<lparr>bt_taskId = ''t'', bt_ownerScopeHash = ''o'', bt_state = Active, bt_tabIds = [], bt_createdAt = 0,
     bt_lastActivityAt = 0, bt_expiresAt = 900000, bt_lifecycleVersion = 2\<rparr>"

definition demo_site_policies :: site_policies where
  "demo_site_policies = \<lparr>sps_policies = [(''s'', demo_site)], sps_privateOrigins = [(''https://p'', demo_site)],
     sps_deniedOrigins = [''https://q'']\<rparr>"

definition demo_site_ops :: "site_op list" where
  "demo_site_ops = [Site_request 0 0 ''c'' demo_site_task ''s'' ''read'', Site_confirm 5 6 7 ''c'' demo_site_task ''s'' ''read'']"

lemma demo_site_policies_new: "new_site_policies demo_site_env [demo_site] = Inr demo_site_policies"
  by (simp add: new_site_policies_def add_policy_def authorizedSitePolicySchema_def demo_site_def demo_site_env_def
    demo_url_def exactOriginSchema_def no_policies_def demo_site_policies_def string_ok_def optional_ok_def js_unique_def)

lemmas demo_site_defs = demo_site_policies_def demo_site_task_def demo_site_ops_def demo_site_env_def demo_url_def
  site_start_def no_grants_def require_policy_def site_confirmation_def site_grant_def grantKey_def
  syncPrivateOriginActivation_def activeGrants_def js_delete_where_def site_prune_defs
  CONFIRMATION_TTL_MS_def GRANT_TTL_MS_def new_URL_def

theorem private_site_needs_confirmation_witness:
  "\<exists>outs grant. rests_on_confirmation (zip demo_site_ops outs) demo_site_task ''s'' 8 grant"
proof -
  let ?outs = "[Out_confirmation (Inr (site_confirmation 0 ''c'' demo_site_task demo_site ''read'')),
    Out_grant (Inr (site_grant 6 demo_site_task demo_site))]"
  have run: "fst (run_ops (site_step demo_site_env) (demo_site_ops @ [Site_target 8 8 8 demo_site_task ''https://p/x''])
      (site_start demo_site_policies)) = ?outs @ [Out_target (Inr (Some (site_grant 6 demo_site_task demo_site)))]"
    by (simp add: demo_site_defs site_op_defs demo_site_def Let_def add_key_def js_unique_def privateOriginValues_def)
  obtain st where st: "run_ops (site_step demo_site_env) (demo_site_ops @ [Site_target 8 8 8 demo_site_task ''https://p/x''])
      (site_start demo_site_policies) = (?outs @ [Out_target (Inr (Some (site_grant 6 demo_site_task demo_site)))], st)"
    using run by (metis prod.collapse)
  have plain: "plain_tasks (demo_site_ops @ [Site_target 8 8 8 demo_site_task ''https://p/x''])"
    by (simp add: plain_tasks_def demo_site_ops_def demo_site_task_def)
  obtain u where u: "sv_url demo_site_env ''https://p/x'' = Some u" "url_origin u = ''https://p''"
    by (simp add: demo_site_env_def demo_url_def)
  have "js_get (sps_privateOrigins demo_site_policies) ''https://p'' = Some demo_site" "sp_siteId demo_site = ''s''"
    by (simp_all add: demo_site_policies_def demo_site_def)
  with private_site_needs_confirmation [OF demo_site_policies_new st plain u(1)] u(2) show ?thesis by metis
qed

subsection \<open>Requests against the rules as sets\<close>

text \<open>
  \<open>localeCompare\<close> is a total preorder; it may take two different strings for equal. On the strings
  \<open>S\<close> it is a linear order when it tells them apart.
\<close>

definition compares_strictly :: "(string \<Rightarrow> string \<Rightarrow> bool) \<Rightarrow> string set \<Rightarrow> bool" where
  "compares_strictly le S \<longleftrightarrow>
     (\<forall>x y. le x y \<or> le y x) \<and> (\<forall>x y z. le x y \<longrightarrow> le y z \<longrightarrow> le x z) \<and> (\<forall>x \<in> S. \<forall>y \<in> S. le x y \<longrightarrow> le y x \<longrightarrow> x = y)"

lemma sorted_unique:
  assumes "\<And>x y. x \<in> set xs \<Longrightarrow> y \<in> set xs \<Longrightarrow> le x y \<Longrightarrow> le y x \<Longrightarrow> x = y"
    and "sorted_wrt le xs" "sorted_wrt le ys" "distinct xs" "distinct ys" "set xs = set ys"
  shows "xs = ys"
  using assms
proof (induction xs arbitrary: ys)
  case (Cons x xs)
  then obtain y ys' where ys: "ys = y # ys'" by (cases ys) auto
  have "x = y"
  proof (rule ccontr)
    assume "x \<noteq> y"
    with Cons.prems(6) ys have "x \<in> set ys'" "y \<in> set xs" by auto
    with Cons.prems(1) [of x y] Cons.prems(2,3) ys \<open>x \<noteq> y\<close> show False by simp
  qed
  moreover have "xs = ys'"
  proof (rule Cons.IH)
    show "set xs = set ys'" using Cons.prems(4-6) ys \<open>x = y\<close> by (simp add: insert_ident)
  qed (use Cons.prems ys in auto)
  ultimately show ?case using ys by simp
qed simp

lemma uniqueSorted_eq_iff:
  assumes "compares_strictly le (set ys)"
  shows "uniqueSorted le xs = uniqueSorted le ys \<longleftrightarrow> set xs = set ys"
proof
  assume "uniqueSorted le xs = uniqueSorted le ys"
  then have "set (uniqueSorted le xs) = set (uniqueSorted le ys)" by simp
  then show "set xs = set ys" by (simp add: uniqueSorted_def)
next
  assume "set xs = set ys"
  have sorted: "sorted_wrt le (uniqueSorted le zs)" for zs
    using assms unfolding uniqueSorted_def compares_strictly_def by (intro sorted_js_sort) blast+
  show "uniqueSorted le xs = uniqueSorted le ys"
    by (rule sorted_unique [where le = le])
      (use assms \<open>set xs = set ys\<close> sorted in \<open>auto simp: uniqueSorted_def compares_strictly_def\<close>)
qed

text \<open>The rule of a request as it is written in the configuration, its lists read as sets.\<close>

definition rule_matches :: "AuthorizedSiteRequestRule \<Rightarrow> AuthorizedSiteRequestDescriptor \<Rightarrow> bool" where
  "rule_matches rule d \<longleftrightarrow>
     map js_upper_char (rd_method d) \<in> method_name ` set (rr_methods rule) \<and> rr_pathname rule = rd_pathname d \<and>
     set (rr_queryKeys rule) = set (rd_queryKeys d) \<and>
     (\<forall>ts. rr_resourceTypes rule = Some ts \<longrightarrow> rd_resourceType d \<in> set ts) \<and>
     (\<forall>fs. rr_frames rule = Some fs \<longrightarrow> rd_frame d \<in> set fs) \<and>
     (\<forall>b. rr_navigation rule = Some b \<longrightarrow> b = rd_navigation d) \<and>
     (rr_requiresSemanticPermit rule \<longrightarrow> rd_semanticPermit d)"

lemma those_mapD: "those (map f xs) = Some ys \<Longrightarrow> list_all2 (\<lambda>x y. f x = Some y) xs ys"
  by (induction xs arbitrary: ys) (auto split: option.split_asm)

lemma list_all2_ex:
  "list_all2 R xs ys \<Longrightarrow> (\<And>x y. x \<in> set xs \<Longrightarrow> R x y \<Longrightarrow> P x \<longleftrightarrow> Q y) \<Longrightarrow> list_ex Q ys \<longleftrightarrow> (\<exists>x \<in> set xs. P x)"
  by (induction rule: list_all2_induct) auto

lemma parsed_rule_matches:
  assumes "authorizedSiteRequestRuleSchema env rule = Some parsed" and "compares_strictly (sv_le env) (set (rd_queryKeys d))"
  shows "rule_matches rule d \<longleftrightarrow>
    map js_upper_char (rd_method d) \<in> set (map method_name (rr_methods parsed)) \<and> rr_pathname parsed = rd_pathname d \<and>
    rr_queryKeys parsed = uniqueSorted (sv_le env) (rd_queryKeys d) \<and>
    (case rr_resourceTypes parsed of None \<Rightarrow> True | Some ts \<Rightarrow> rd_resourceType d \<in> set ts) \<and>
    (case rr_frames parsed of None \<Rightarrow> True | Some fs \<Rightarrow> rd_frame d \<in> set fs) \<and>
    (case rr_navigation parsed of None \<Rightarrow> True | Some b \<Rightarrow> b = rd_navigation d) \<and>
    (\<not> rr_requiresSemanticPermit parsed \<or> rd_semanticPermit d)"
proof -
  from assms(1) have "parsed = rule\<lparr>
      rr_methods := js_sort (\<lambda>a b. sv_le env (method_name a) (method_name b)) (js_unique (rr_methods rule)),
      rr_queryKeys := uniqueSorted (sv_le env) (rr_queryKeys rule),
      rr_resourceTypes := map_option (uniqueSorted (sv_le env)) (rr_resourceTypes rule),
      rr_frames := map_option (uniqueSorted (sv_le env)) (rr_frames rule)\<rparr>"
    unfolding authorizedSiteRequestRuleSchema_def by (simp split: if_split_asm)
  then have fields: "set (map method_name (rr_methods parsed)) = method_name ` set (rr_methods rule)"
    "rr_pathname parsed = rr_pathname rule" "rr_queryKeys parsed = uniqueSorted (sv_le env) (rr_queryKeys rule)"
    "rr_resourceTypes parsed = map_option (uniqueSorted (sv_le env)) (rr_resourceTypes rule)"
    "rr_frames parsed = map_option (uniqueSorted (sv_le env)) (rr_frames rule)"
    "rr_navigation parsed = rr_navigation rule" "rr_requiresSemanticPermit parsed = rr_requiresSemanticPermit rule"
    by simp_all
  have listed: "(case map_option (uniqueSorted (sv_le env)) w of None \<Rightarrow> True | Some ts \<Rightarrow> x \<in> set ts) \<longleftrightarrow>
      (\<forall>ts. w = Some ts \<longrightarrow> x \<in> set ts)" for w x
    by (cases w) (simp_all add: uniqueSorted_def)
  have flag: "(case w of None \<Rightarrow> True | Some b \<Rightarrow> b = y) \<longleftrightarrow> (\<forall>b. w = Some b \<longrightarrow> b = y)" for w :: "bool option" and y
    by (cases w) simp_all
  show ?thesis
    unfolding fields listed flag uniqueSorted_eq_iff [OF assms(2)] rule_matches_def by auto
qed

text \<open>
  C38. The request filter decides by the rules as sets. For a policy that the schema accepted, a
  request passes exactly when the policy has no request rules, or when its origin is one of the
  allowed origins and some configured rule has its method (in any case), its path and exactly its
  set of query keys (whatever their order and repetition), and admits its resource type, frame,
  navigation flag and permit: the sorting and removal of duplicates on both sides change nothing,
  provided the comparison tells the query keys of the request apart.\<close>

theorem request_filter_matches_rules:
  assumes "authorizedSitePolicySchema env v = Some policy" and "compares_strictly (sv_le env) (set (rd_queryKeys d))"
  shows "isAuthorizedSiteRequestAllowed env policy d \<longleftrightarrow>
    (\<forall>q. sp_requestPolicy v = Some q \<longrightarrow>
       (\<exists>o1 \<in> set (sp_allowedOrigins v). exactOriginSchema (sv_url env) o1 = Some (rd_origin d)) \<and>
       (\<exists>rule \<in> set (rp_rules q). rule_matches rule d))"
proof -
  from assms(1) obtain origins where origins: "those (map (exactOriginSchema (sv_url env)) (sp_allowedOrigins v)) = Some origins"
    "sp_allowedOrigins policy = origins"
    by (auto simp: authorizedSitePolicySchema_def split: if_split_asm option.split_asm)
  have member: "rd_origin d \<in> set origins \<longleftrightarrow>
      (\<exists>o1 \<in> set (sp_allowedOrigins v). exactOriginSchema (sv_url env) o1 = Some (rd_origin d))"
    using list_all2_ex [OF those_mapD [OF origins(1)], of "\<lambda>x. exactOriginSchema (sv_url env) x = Some (rd_origin d)" "\<lambda>y. y = rd_origin d"]
    by (auto simp: list_ex_iff)
  show ?thesis
  proof (cases "sp_requestPolicy v")
    case None
    with assms(1) have "sp_requestPolicy policy = None"
      by (auto simp: authorizedSitePolicySchema_def split: if_split_asm option.split_asm)
    with None show ?thesis by (simp add: isAuthorizedSiteRequestAllowed_def)
  next
    case (Some q)
    with assms(1) obtain rules where rules: "those (map (authorizedSiteRequestRuleSchema env) (rp_rules q)) = Some rules"
      and policy: "sp_requestPolicy policy = Some (q\<lparr>rp_rules := rules\<rparr>)"
      by (auto simp: authorizedSitePolicySchema_def authorizedSiteRequestPolicySchema_def split: if_split_asm option.split_asm)
    note ex = list_all2_ex [OF those_mapD [OF rules] parsed_rule_matches [OF _ assms(2)]]
    show ?thesis using ex member Some policy origins(2)
      by (simp add: isAuthorizedSiteRequestAllowed_def Let_def)
  qed
qed

definition demo_rule :: AuthorizedSiteRequestRule where
  "demo_rule = \<lparr>rr_methods = [GET_method], rr_pathname = ''/x'', rr_queryKeys = [''b'', ''a'', ''b''], rr_resourceTypes = None,
     rr_frames = None, rr_navigation = Some True, rr_requiresSemanticPermit = False\<rparr>"

definition demo_ruled_site :: AuthorizedSitePolicy where
  "demo_ruled_site = demo_site\<lparr>sp_requestPolicy := Some \<lparr>rp_rules = [demo_rule], rp_semanticActions = []\<rparr>\<rparr>"

definition demo_request :: AuthorizedSiteRequestDescriptor where
  "demo_request = \<lparr>rd_origin = ''https://p'', rd_method = ''get'', rd_pathname = ''/x'', rd_queryKeys = [''a'', ''b''],
     rd_resourceType = ''document'', rd_frame = ''main'', rd_navigation = True, rd_semanticPermit = False\<rparr>"

text \<open>A comparison by length and then by first letter, which tells \<open>a\<close> and \<open>b\<close> apart.\<close>

definition demo_le :: "string \<Rightarrow> string \<Rightarrow> bool" where
  "demo_le x y \<longleftrightarrow> (of_char (hd (x @ ''a'')) :: nat) \<le> of_char (hd (y @ ''a''))"

theorem request_filter_matches_rules_witness:
  "\<exists>policy. authorizedSitePolicySchema (demo_site_env\<lparr>sv_le := demo_le\<rparr>) demo_ruled_site = Some policy \<and>
    isAuthorizedSiteRequestAllowed (demo_site_env\<lparr>sv_le := demo_le\<rparr>) policy demo_request"
proof -
  obtain policy where policy: "authorizedSitePolicySchema (demo_site_env\<lparr>sv_le := demo_le\<rparr>) demo_ruled_site = Some policy"
    by (simp add: authorizedSitePolicySchema_def demo_ruled_site_def demo_site_def demo_rule_def demo_site_env_def demo_url_def
      exactOriginSchema_def string_ok_def optional_ok_def strings_ok_def authorizedSiteRequestPolicySchema_def
      authorizedSiteRequestRuleSchema_def)
  have "compares_strictly (sv_le (demo_site_env\<lparr>sv_le := demo_le\<rparr>)) (set (rd_queryKeys demo_request))"
    by (auto simp: compares_strictly_def demo_le_def demo_request_def)
  note allowed = request_filter_matches_rules [OF policy this]
  have "map js_upper_char ''get'' = ''GET''" by code_simp
  then have "rule_matches demo_rule demo_request"
    by (auto simp: rule_matches_def demo_rule_def demo_request_def method_name_def)
  moreover have "exactOriginSchema (sv_url (demo_site_env\<lparr>sv_le := demo_le\<rparr>)) ''https://p'' = Some (rd_origin demo_request)"
    by (simp add: exactOriginSchema_def demo_site_env_def demo_url_def demo_request_def)
  ultimately have "isAuthorizedSiteRequestAllowed (demo_site_env\<lparr>sv_le := demo_le\<rparr>) policy demo_request"
    unfolding allowed by (simp add: demo_ruled_site_def demo_site_def)
  with policy show ?thesis by blast
qed

end
