(* ===== verification/Tab_Binding.thy ===== *)
theory Tab_Binding
  imports Site_Access
begin

text \<open>
  The services of the browser worker that tie MCP tabs to pages of the browser:
  \<open>services/browser-tab-binding-service.ts\<close>, \<open>browser-navigation-state-service.ts\<close>,
  \<open>browser-session-state-service.ts\<close>, \<open>browser-tab-selection-service.ts\<close> and
  \<open>browser-persistent-tab-service.ts\<close>. They share the tab registry, the bindings, the unified tabs,
  the sessions and the task registry, which are one state here. \<open>normalizeUrl\<close> is
  \<open>normalizeBrowserUrl\<close>, \<open>Date.parse\<close> a parameter (\<open>None\<close> for NaN), the driver is "direct". A call of
  the driver or a checkpoint that is awaited ends a step; its reply is the argument of the next.
  Where a method reads the clock several times, one reading \<open>now\<close> stands for all of them.
\<close>

record BrowserDriverTab =
  dt_id :: "string option"
  dt_index :: int
  dt_current :: bool
  dt_title :: string
  dt_url :: string
  dt_crashed :: bool

datatype match_mode = Exact | Title_drift | Sticky_origin_drift | Signature_recovery | Navigation_transition

record RemoteTabMatch =
  mt_tab :: BrowserDriverTab
  mt_mode :: match_mode

record binding_env =
  be_url :: url_parser
  be_date :: "string \<Rightarrow> instant option"
  be_iso :: "instant \<Rightarrow> string"

record binding_state =
  bn_tabs :: tab_registry
  bn_bindings :: "(string, BrowserTabBinding) jsmap"
  bn_unified :: "(string, UnifiedBrowserTab) jsmap"
  bn_sessions :: "(string, BrowserSession) jsmap"
  bn_session :: BrowserSession
  bn_tasks :: task_registry

text \<open>\<open>find\<close> and \<open>filter\<close> with a predicate that may throw.\<close>

fun find_result :: "('a \<Rightarrow> bool result) \<Rightarrow> 'a list \<Rightarrow> 'a option result" where
  "find_result p [] = Inr None"
| "find_result p (x # xs) = bind_result (p x) (\<lambda>b. if b then Inr (Some x) else find_result p xs)"

fun filter_result :: "('a \<Rightarrow> bool result) \<Rightarrow> 'a list \<Rightarrow> 'a list result" where
  "filter_result p [] = Inr []"
| "filter_result p (x # xs) =
     bind_result (p x) (\<lambda>b. bind_result (filter_result p xs) (\<lambda>ys. Inr (if b then x # ys else ys)))"

subsection \<open>Bindings\<close>

definition isActive :: "binding_state \<Rightarrow> BrowserTabBinding \<Rightarrow> bool" where
  "isActive st binding \<longleftrightarrow> tb_sessionId binding = bs_sessionId (bn_session st)"

definition activeNavigation ::
  "binding_env \<Rightarrow> instant \<Rightarrow> BrowserNavigationTransition option \<Rightarrow> BrowserNavigationTransition option" where
  "activeNavigation env now navigation =
     (case navigation of
        None \<Rightarrow> None
      | Some n \<Rightarrow>
          (case be_date env (nt_expiresAt n) of
             None \<Rightarrow> None
           | Some expiresAt \<Rightarrow> if expiresAt > now then Some n else None))"

definition matchesStickyLockedOrigin :: "url_parser \<Rightarrow> BrowserTab \<Rightarrow> string \<Rightarrow> string \<Rightarrow> bool" where
  "matchesStickyLockedOrigin parse tab bindingUrl remoteUrl \<longleftrightarrow>
     bw_sticky tab \<and> truthy (bw_lockedUrl tab) \<and>
     (case (parse (the (bw_lockedUrl tab)), parse bindingUrl, parse remoteUrl) of
        (Some locked, Some binding, Some remote) \<Rightarrow> url_origin binding = url_origin locked \<and> url_origin remote = url_origin locked
      | _ \<Rightarrow> False)"

definition matchesExpectedNavigation :: "url_parser \<Rightarrow> string \<Rightarrow> string \<Rightarrow> bool result" where
  "matchesExpectedNavigation parse expectedUrl actualUrl =
     bind_result (normalizeBrowserUrl parse expectedUrl) (\<lambda>e.
     bind_result (normalizeBrowserUrl parse actualUrl) (\<lambda>a.
     if e = a then Inr True
     else Inr (case (parse expectedUrl, parse actualUrl) of
                 (Some x, Some y) \<Rightarrow> url_origin x = url_origin y
               | _ \<Rightarrow> False)))"

definition indexed_tab :: "BrowserTabBinding \<Rightarrow> BrowserDriverTab list \<Rightarrow> BrowserDriverTab option" where
  "indexed_tab binding remoteTabs = find (\<lambda>remote. dt_index remote = tb_remoteIndex binding) remoteTabs"

definition indexed_match ::
  "binding_env \<Rightarrow> BrowserTab \<Rightarrow> BrowserTabBinding \<Rightarrow> BrowserDriverTab option \<Rightarrow> RemoteTabMatch option result" where
  "indexed_match env tab binding indexed =
     (case indexed of
        None \<Rightarrow> Inr None
      | Some remote \<Rightarrow>
          if dt_crashed remote then Inr None
          else
            bind_result (normalizeBrowserUrl (be_url env) (dt_url remote)) (\<lambda>remoteUrl.
            Inr (if remoteUrl = tb_url binding \<and> dt_title remote = tb_title binding then Some \<lparr>mt_tab = remote, mt_mode = Exact\<rparr>
                 else if remoteUrl = tb_url binding then Some \<lparr>mt_tab = remote, mt_mode = Title_drift\<rparr>
                 else if matchesStickyLockedOrigin (be_url env) tab (tb_url binding) remoteUrl then
                   Some \<lparr>mt_tab = remote, mt_mode = Sticky_origin_drift\<rparr>
                 else None)))"

definition claimedIndexes :: "binding_state \<Rightarrow> string \<Rightarrow> int list" where
  "claimedIndexes st tabId =
     map tb_remoteIndex (filter (\<lambda>candidate. tb_tabId candidate \<noteq> tabId \<and> isActive st candidate) (js_values (bn_bindings st)))"

definition signature_matches ::
  "binding_env \<Rightarrow> int list \<Rightarrow> BrowserTabBinding \<Rightarrow> BrowserDriverTab list \<Rightarrow> BrowserDriverTab list result" where
  "signature_matches env claimed binding remoteTabs =
     filter_result (\<lambda>remote.
       if dt_crashed remote \<or> dt_index remote \<in> set claimed then Inr False
       else bind_result (normalizeBrowserUrl (be_url env) (dt_url remote)) (\<lambda>u.
         Inr (u = tb_url binding \<and> dt_title remote = tb_title binding))) remoteTabs"

definition navigation_match ::
  "binding_env \<Rightarrow> instant \<Rightarrow> BrowserTabBinding \<Rightarrow> BrowserDriverTab option \<Rightarrow> nat \<Rightarrow> RemoteTabMatch option result" where
  "navigation_match env now binding indexed tabCount =
     (case (activeNavigation env now (tb_navigation binding), indexed) of
        (Some navigation, Some remote) \<Rightarrow>
          if dt_crashed remote \<or> \<not> dt_current remote then Inr None
          else if tb_remoteTabCount binding \<noteq> None \<and> tb_remoteTabCount binding \<noteq> Some (int tabCount) then Inr None
          else
            bind_result (normalizeBrowserUrl (be_url env) (dt_url remote)) (\<lambda>remoteUrl.
            bind_result (if truthy (nt_expectedUrl navigation)
                         then matchesExpectedNavigation (be_url env) (the (nt_expectedUrl navigation)) remoteUrl
                         else Inr True) (\<lambda>expected.
            Inr (if expected then Some \<lparr>mt_tab = remote, mt_mode = Navigation_transition\<rparr> else None)))
      | _ \<Rightarrow> Inr None)"

definition findRemoteTab ::
  "binding_env \<Rightarrow> instant \<Rightarrow> BrowserTab \<Rightarrow> BrowserDriverTab list \<Rightarrow> binding_state \<Rightarrow> RemoteTabMatch option result" where
  "findRemoteTab env now tab remoteTabs st =
     (case (js_get (bn_bindings st) (bw_tabId tab), js_get (bn_unified st) (bw_tabId tab)) of
        (Some binding, Some unified) \<Rightarrow>
          if \<not> isActive st binding \<or> ut_sessionId unified \<noteq> bs_sessionId (bn_session st) \<or>
             ut_remoteTabId unified \<noteq> tb_remoteTabId binding then Inr None
          else
            (let indexed = indexed_tab binding remoteTabs in
             bind_result (indexed_match env tab binding indexed) (\<lambda>direct.
             case direct of
               Some match \<Rightarrow> Inr (Some match)
             | None \<Rightarrow>
                 bind_result (signature_matches env (claimedIndexes st (bw_tabId tab)) binding remoteTabs) (\<lambda>signatures.
                 case signatures of
                   [remote] \<Rightarrow> Inr (Some \<lparr>mt_tab = remote, mt_mode = Signature_recovery\<rparr>)
                 | _ \<Rightarrow> navigation_match env now binding indexed (length remoteTabs))))
      | _ \<Rightarrow> Inr None)"

definition sameRemoteIdentity ::
  "binding_env \<Rightarrow> instant \<Rightarrow> RemoteTabMatch \<Rightarrow> BrowserDriverTab \<Rightarrow> BrowserTabBinding \<Rightarrow> nat \<Rightarrow> bool result" where
  "sameRemoteIdentity env now match selected binding selectedTabCount =
     (if dt_index (mt_tab match) \<noteq> dt_index selected \<or> \<not> dt_current selected then Inr False
      else if mt_mode match \<noteq> Navigation_transition then
        bind_result (normalizeBrowserUrl (be_url env) (dt_url (mt_tab match))) (\<lambda>u.
        bind_result (normalizeBrowserUrl (be_url env) (dt_url selected)) (\<lambda>v. Inr (u = v)))
      else if tb_remoteTabCount binding \<noteq> None \<and> tb_remoteTabCount binding \<noteq> Some (int selectedTabCount) then Inr False
      else
        (case activeNavigation env now (tb_navigation binding) of
           None \<Rightarrow> Inr False
         | Some navigation \<Rightarrow>
             (case nt_expectedUrl navigation of
                None \<Rightarrow> Inr True
              | Some expectedUrl \<Rightarrow>
                  bind_result (normalizeBrowserUrl (be_url env) (dt_url selected)) (matchesExpectedNavigation (be_url env) expectedUrl))))"

text \<open>
  \<open>bind\<close>: the binding is stored before the tab is touched, so it stays when the touch fails.
  \<open>now1\<close> is read by \<open>activeNavigation\<close>, \<open>now2\<close> by \<open>touch\<close>, \<open>now3\<close> by \<open>touchBrowserSession\<close>.
\<close>

definition bound_remote ::
  "binding_env \<Rightarrow> instant \<Rightarrow> string \<Rightarrow> BrowserDriverTab \<Rightarrow> nat option \<Rightarrow> bool \<Rightarrow> BrowserTabBinding option \<Rightarrow>
   BrowserSession \<Rightarrow> BrowserTabBinding result" where
  "bound_remote env now1 tabId remote remoteTabCount clearNavigation previous session =
     bind_result (remoteTabIdFor (dt_id remote)) (\<lambda>remoteTabId.
     bind_result (normalizeBrowserUrl (be_url env) (dt_url remote)) (\<lambda>normalizedUrl.
     Inr \<lparr>tb_tabId = tabId, tb_sessionId = bs_sessionId session, tb_remoteTabId = remoteTabId,
          tb_remoteIndex = dt_index remote, tb_url = normalizedUrl, tb_title = dt_title remote,
          tb_remoteTabCount = or_else (map_option int remoteTabCount) (Option.bind previous tb_remoteTabCount),
          tb_navigation = (if clearNavigation then None else activeNavigation env now1 (Option.bind previous tb_navigation))\<rparr>))"

definition bind_tab ::
  "binding_env \<Rightarrow> instant \<Rightarrow> instant \<Rightarrow> instant \<Rightarrow> string \<Rightarrow> BrowserDriverTab \<Rightarrow> nat option \<Rightarrow> bool \<Rightarrow> binding_state \<Rightarrow>
   unit result \<times> binding_state" where
  "bind_tab env now1 now2 now3 tabId remote remoteTabCount clearNavigation st =
     (let previous = js_get (bn_bindings st) tabId; session = bn_session st in
      if (case previous of None \<Rightarrow> False | Some p \<Rightarrow> \<not> isActive st p) then
        (Inl (AppError TAB_NOT_OWNED ''The tab belongs to another browser session.''), st)
      else
        (case bound_remote env now1 tabId remote remoteTabCount clearNavigation previous session of
           Inl e \<Rightarrow> (Inl e, st)
         | Inr binding \<Rightarrow>
             (let st1 = st\<lparr>bn_bindings := js_set tabId binding (bn_bindings st)\<rparr> in
              case touch_tab now2 tabId (Some (tb_url binding)) (Some (dt_title remote)) (bn_tabs st1) of
                (Inl e, tabs) \<Rightarrow> (Inl e, st1\<lparr>bn_tabs := tabs\<rparr>)
              | (Inr updated, tabs) \<Rightarrow>
                  (let st2 = st1\<lparr>bn_tabs := tabs\<rparr> in
                   case toUnifiedBrowserTab updated session (tb_remoteTabId binding) (dt_index remote) None None of
                     Inl e \<Rightarrow> (Inl e, st2)
                   | Inr unified \<Rightarrow>
                       (Inr (), st2\<lparr>bn_unified := js_set tabId unified (bn_unified st2),
                                    bn_session := touchBrowserSession session None now3\<rparr>)))))"

definition syncUnifiedTab :: "string \<Rightarrow> binding_state \<Rightarrow> unit result \<times> binding_state" where
  "syncUnifiedTab tabId st =
     (case js_get (bn_bindings st) tabId of
        None \<Rightarrow> (Inl (AppError TAB_NOT_OWNED ''The tab does not belong to the active browser session.''), st)
      | Some binding \<Rightarrow>
          if \<not> isActive st binding then
            (Inl (AppError TAB_NOT_OWNED ''The tab does not belong to the active browser session.''), st)
          else
            (case bind_result (assertMcpOwned tabId (bn_tabs st)) (\<lambda>tab.
                    toUnifiedBrowserTab tab (bn_session st) (tb_remoteTabId binding) (tb_remoteIndex binding) None None) of
               Inl e \<Rightarrow> (Inl e, st)
             | Inr unified \<Rightarrow> (Inr (), st\<lparr>bn_unified := js_set tabId unified (bn_unified st)\<rparr>)))"

subsection \<open>Navigation state\<close>

definition NAVIGATION_TRANSITION_WINDOW_MS :: int where
  "NAVIGATION_TRANSITION_WINDOW_MS = 20000"

definition begin_navigation ::
  "binding_env \<Rightarrow> int \<Rightarrow> instant \<Rightarrow> string \<Rightarrow> navigation_operation \<Rightarrow> string option \<Rightarrow> binding_state \<Rightarrow>
   unit result \<times> binding_state" where
  "begin_navigation env navigationTimeoutMs now tabId operation expectedUrl st =
     (case js_get (bn_bindings st) tabId of
        None \<Rightarrow> (Inl (AppError TAB_NOT_FOUND ''The MCP tab does not have a remote binding.''), st)
      | Some binding \<Rightarrow>
          if \<not> isActive st binding then
            (Inl (AppError TAB_NOT_FOUND ''The MCP tab does not have a remote binding.''), st)
          else
            (case normalizedOptional (be_url env) expectedUrl of
               Inl e \<Rightarrow> (Inl e, st)
             | Inr expected \<Rightarrow>
                 (Inr (), st\<lparr>bn_bindings := js_set tabId (binding\<lparr>tb_navigation := Some
                   \<lparr>nt_operation = operation, nt_startedAt = be_iso env now,
                    nt_expiresAt = be_iso env (now + min navigationTimeoutMs NAVIGATION_TRANSITION_WINDOW_MS),
                    nt_expectedUrl = expected\<rparr>\<rparr>) (bn_bindings st)\<rparr>)))"

text \<open>\<open>a || b || c\<close> on optional strings: the first that is not empty.\<close>

definition or_text :: "string option \<Rightarrow> string option \<Rightarrow> string option" where
  "or_text a b = (if truthy a then a else b)"

definition update_binding ::
  "binding_env \<Rightarrow> instant \<Rightarrow> string \<Rightarrow> string \<Rightarrow> string \<Rightarrow> binding_state \<Rightarrow> unit result \<times> binding_state" where
  "update_binding env now tabId nextUrl nextTitle st =
     (case js_get (bn_bindings st) tabId of
        None \<Rightarrow> (Inr (), st)
      | Some binding \<Rightarrow>
          syncUnifiedTab tabId (st\<lparr>bn_bindings := js_set tabId (binding\<lparr>tb_url := nextUrl, tb_title := nextTitle,
            tb_navigation := (if nextUrl = tb_url binding then activeNavigation env now (tb_navigation binding) else None)\<rparr>)
            (bn_bindings st)\<rparr>))"

definition selected_page ::
  "binding_env \<Rightarrow> string \<Rightarrow> string \<Rightarrow> string option \<Rightarrow> BrowserTab \<Rightarrow> (string \<times> string) result" where
  "selected_page env pageUrl pageTitle fallbackUrl currentTab =
     bind_result (normalizeBrowserUrl (be_url env)
       (the (or_text (Some pageUrl) (or_text fallbackUrl (or_text (bw_url currentTab) (Some ''about:blank'')))))) (\<lambda>nextUrl.
     Inr (nextUrl, the (or_text (Some pageTitle) (or_text (bw_title currentTab) (Some [])))))"

definition updateSelectedTab ::
  "binding_env \<Rightarrow> instant \<Rightarrow> instant \<Rightarrow> string \<Rightarrow> string \<Rightarrow> string \<Rightarrow> string option \<Rightarrow> binding_state \<Rightarrow>
   BrowserTab result \<times> binding_state" where
  "updateSelectedTab env now1 now2 tabId pageUrl pageTitle fallbackUrl st =
     (case bind_result (assertMcpOwned tabId (bn_tabs st)) (selected_page env pageUrl pageTitle fallbackUrl) of
        Inl e \<Rightarrow> (Inl e, st)
      | Inr (nextUrl, nextTitle) \<Rightarrow>
          (case touch_tab now1 tabId (Some nextUrl) (Some nextTitle) (bn_tabs st) of
             (Inl e, tabs) \<Rightarrow> (Inl e, st\<lparr>bn_tabs := tabs\<rparr>)
           | (Inr updatedTab, tabs) \<Rightarrow>
               (case update_binding env now2 tabId nextUrl nextTitle (st\<lparr>bn_tabs := tabs\<rparr>) of
                  (Inl e, st1) \<Rightarrow> (Inl e, st1)
                | (Inr _, st1) \<Rightarrow> (Inr updatedTab, st1))))"

subsection \<open>Session state\<close>

definition hydrate :: "BrowserSession list \<Rightarrow> UnifiedBrowserTab list \<Rightarrow> binding_state \<Rightarrow> binding_state" where
  "hydrate persistedSessions persistedTabs st =
     (let st1 = st\<lparr>bn_sessions := fold (\<lambda>s m. js_set (bs_sessionId s) s m) persistedSessions (bn_sessions st),
                    bn_unified := fold (\<lambda>t m. js_set (ut_tabId t) t m) persistedTabs (bn_unified st)\<rparr> in
      st1\<lparr>bn_sessions := js_set (bs_sessionId (bn_session st1)) (bn_session st1) (bn_sessions st1)\<rparr>)"

definition transition_session :: "instant \<Rightarrow> BrowserSessionState \<Rightarrow> binding_state \<Rightarrow> BrowserSession \<times> binding_state" where
  "transition_session now state st =
     (let session = touchBrowserSession (bn_session st) (Some state) now in (session, st\<lparr>bn_session := session\<rparr>))"

definition removeStaleUnifiedTabs ::
  "string \<Rightarrow> string list \<Rightarrow> (string, UnifiedBrowserTab) jsmap \<Rightarrow> (string, UnifiedBrowserTab) jsmap" where
  "removeStaleUnifiedTabs sessionId activeTabIds m =
     filter (\<lambda>(tabId, tab). \<not> (ut_sessionId tab = sessionId \<and> tabId \<notin> set activeTabIds)) m"

definition persistActiveTab :: "BrowserTab \<Rightarrow> BrowserSession \<Rightarrow> binding_state \<Rightarrow> unit result \<times> binding_state" where
  "persistActiveTab tab session st =
     (case js_get (bn_bindings st) (bw_tabId tab) of
        None \<Rightarrow> (Inl (AppError TAB_NOT_OWNED ''The tab cannot be persisted outside its browser session.''), st)
      | Some binding \<Rightarrow>
          if \<not> isActive st binding then
            (Inl (AppError TAB_NOT_OWNED ''The tab cannot be persisted outside its browser session.''), st)
          else
            (case toUnifiedBrowserTab tab session (tb_remoteTabId binding) (tb_remoteIndex binding) None None of
               Inl e \<Rightarrow> (Inl e, st)
             | Inr unified \<Rightarrow> (Inr (), st\<lparr>bn_unified := js_set (bw_tabId tab) unified (bn_unified st)\<rparr>)))"

fun persistActiveTabs :: "BrowserTab list \<Rightarrow> BrowserSession \<Rightarrow> binding_state \<Rightarrow> unit result \<times> binding_state" where
  "persistActiveTabs [] session st = (Inr (), st)"
| "persistActiveTabs (tab # tabs) session st =
     (case persistActiveTab tab session st of
        (Inl e, st1) \<Rightarrow> (Inl e, st1)
      | (Inr _, st1) \<Rightarrow> persistActiveTabs tabs session st1)"

text \<open>\<open>checkpointNow\<close> up to the call of \<open>save\<close>, with what it saves: the stretches before and after the loop.\<close>

definition active_ids :: "binding_state \<Rightarrow> string list" where
  "active_ids st = map bw_tabId (list_tabs (bn_tabs st))"

definition checkpoint_prepare :: "binding_state \<Rightarrow> binding_state" where
  "checkpoint_prepare st =
     st\<lparr>bn_sessions := js_set (bs_sessionId (bn_session st)) (bn_session st) (bn_sessions st),
        bn_unified := removeStaleUnifiedTabs (bs_sessionId (bn_session st)) (active_ids st) (bn_unified st)\<rparr>"

definition drop_stale_bindings :: "string \<Rightarrow> string list \<Rightarrow> binding_state \<Rightarrow> binding_state" where
  "drop_stale_bindings sessionId activeTabIds st =
     st\<lparr>bn_bindings := filter (\<lambda>(tabId, binding). \<not> (tb_sessionId binding = sessionId \<and> tabId \<notin> set activeTabIds)) (bn_bindings st)\<rparr>"

definition checkpointNow :: "instant \<Rightarrow> binding_state \<Rightarrow> BrowserSessionRegistryData result \<times> binding_state" where
  "checkpointNow now st =
     (case persistActiveTabs (list_tabs (bn_tabs st)) (bn_session st) (checkpoint_prepare st) of
        (Inl e, st1) \<Rightarrow> (Inl e, st1)
      | (Inr _, st1) \<Rightarrow>
          (let st2 = drop_stale_bindings (bs_sessionId (bn_session st)) (active_ids st) st1 in
           (Inr \<lparr>rd_updatedAt = now, rd_sessions = js_values (bn_sessions st2), rd_tasks = snapshot_tasks (bn_tasks st2),
                 rd_tabs = js_values (bn_unified st2), rd_bindings = js_values (bn_bindings st2)\<rparr>, st2)))"

definition discardTaskTab :: "instant \<Rightarrow> string \<Rightarrow> binding_state \<Rightarrow> binding_state" where
  "discardTaskTab now tabId st =
     st\<lparr>bn_tabs := discard_tab tabId (bn_tabs st), bn_bindings := js_delete tabId (bn_bindings st),
        bn_unified := js_delete tabId (bn_unified st), bn_tasks := detachTab now tabId (bn_tasks st)\<rparr>"

definition clearTaskState :: "instant \<Rightarrow> binding_state \<Rightarrow> binding_state" where
  "clearTaskState now st =
     (let st1 = fold (\<lambda>tab. discardTaskTab now (bw_tabId tab)) (list_tabs (bn_tabs st)) st;
          sessionId = bs_sessionId (bn_session st1) in
      st1\<lparr>bn_bindings := js_delete_where (\<lambda>b. tb_sessionId b = sessionId) (bn_bindings st1),
          bn_unified := js_delete_where (\<lambda>t. ut_sessionId t = sessionId) (bn_unified st1)\<rparr>)"

subsection \<open>Tab selection\<close>

fun reconcile_tabs ::
  "binding_env \<Rightarrow> instant \<Rightarrow> bool \<Rightarrow> BrowserDriverTab list \<Rightarrow> BrowserTab list \<Rightarrow> binding_state \<Rightarrow> unit result \<times> binding_state" where
  "reconcile_tabs env now pruneOrphans remoteTabs [] st = (Inr (), st)"
| "reconcile_tabs env now pruneOrphans remoteTabs (tab # tabs) st =
     (case findRemoteTab env now tab remoteTabs st of
        Inl e \<Rightarrow> (Inl e, st)
      | Inr (Some match) \<Rightarrow>
          (case bind_tab env now now now (bw_tabId tab) (mt_tab match) (Some (length remoteTabs))
                  (mt_mode match = Navigation_transition) st of
             (Inl e, st1) \<Rightarrow> (Inl e, st1)
           | (Inr _, st1) \<Rightarrow> reconcile_tabs env now pruneOrphans remoteTabs tabs st1)
      | Inr None \<Rightarrow>
          reconcile_tabs env now pruneOrphans remoteTabs tabs
            (if pruneOrphans then discardTaskTab now (bw_tabId tab) st else st))"

definition reconcileBindings ::
  "binding_env \<Rightarrow> instant \<Rightarrow> bool \<Rightarrow> BrowserDriverTab list \<Rightarrow> binding_state \<Rightarrow> unit result \<times> binding_state" where
  "reconcileBindings env now pruneOrphans remoteTabs st =
     reconcile_tabs env now pruneOrphans remoteTabs (list_tabs (bn_tabs st)) st"

definition requireCurrentTab :: "BrowserDriverTab list \<Rightarrow> BrowserDriverTab result" where
  "requireCurrentTab tabs =
     (case find dt_current tabs of
        None \<Rightarrow> Inl (AppError TAB_NOT_FOUND ''Playwright did not report a current browser tab.'')
      | Some current \<Rightarrow>
          if dt_crashed current then Inl (AppError TAB_NOT_FOUND ''The current browser tab has crashed.'') else Inr current)"

text \<open>Where \<open>selectTab\<close> waits, and how it ends.\<close>

datatype select_phase =
    Await_by_id BrowserTabBinding
  | Await_id_checkpoint BrowserTabBinding BrowserDriverTab
  | Await_by_index BrowserTabBinding
  | Await_index_checkpoint BrowserDriverTab
  | Await_list
  | Await_select RemoteTabMatch
  | Await_checkpoint BrowserDriverTab
  | Selected BrowserDriverTab
  | Select_failed exn

datatype select_reply =
    Id_reply "(BrowserDriverTab \<times> nat) result"
  | Tabs_reply "BrowserDriverTab list result"
  | Checkpoint_reply "unit result"

definition select_finish ::
  "binding_env \<Rightarrow> instant \<Rightarrow> BrowserTab \<Rightarrow> RemoteTabMatch \<Rightarrow> BrowserDriverTab list \<Rightarrow> binding_state \<Rightarrow> select_phase \<times> binding_state" where
  "select_finish env now tab match selectedTabs st =
     (case requireCurrentTab selectedTabs of
        Inl e \<Rightarrow> (Select_failed e, st)
      | Inr selected \<Rightarrow>
          (let notOwned = Select_failed (AppError TAB_NOT_OWNED ''The selected browser tab no longer matches the MCP registry.'') in
           case js_get (bn_bindings st) (bw_tabId tab) of
             None \<Rightarrow> (notOwned, st)
           | Some currentBinding \<Rightarrow>
               if \<not> isActive st currentBinding then (notOwned, st)
               else
                 (case sameRemoteIdentity env now match selected currentBinding (length selectedTabs) of
                    Inl e \<Rightarrow> (Select_failed e, st)
                  | Inr same \<Rightarrow>
                      if \<not> same then (notOwned, st)
                      else
                        (case bind_tab env now now now (bw_tabId tab) selected (Some (length selectedTabs))
                                (mt_mode match = Navigation_transition) st of
                           (Inl e, st1) \<Rightarrow> (Select_failed e, st1)
                         | (Inr _, st1) \<Rightarrow>
                             (if mt_mode match \<noteq> Exact \<or> dt_index selected \<noteq> tb_remoteIndex currentBinding
                              then Await_checkpoint selected else Selected selected, st1)))))"

definition select_listed ::
  "binding_env \<Rightarrow> instant \<Rightarrow> BrowserTab \<Rightarrow> BrowserDriverTab list \<Rightarrow> binding_state \<Rightarrow> select_phase \<times> binding_state" where
  "select_listed env now tab remoteTabs st =
     (case findRemoteTab env now tab remoteTabs st of
        Inl e \<Rightarrow> (Select_failed e, st)
      | Inr None \<Rightarrow>
          (Select_failed (AppError TAB_NOT_FOUND
             ''The MCP tab could not be identified safely. A personal tab will not be selected as a fallback.''), st)
      | Inr (Some match) \<Rightarrow>
          if dt_current (mt_tab match) then select_finish env now tab match remoteTabs st else (Await_select match, st))"

definition select_start ::
  "binding_env \<Rightarrow> instant \<Rightarrow> bool \<Rightarrow> BrowserTab \<Rightarrow> BrowserDriverTab list option \<Rightarrow> binding_state \<Rightarrow> select_phase \<times> binding_state" where
  "select_start env now hasById tab knownRemoteTabs st =
     (let missing = Select_failed (AppError TAB_NOT_FOUND ''The MCP tab does not have an active browser binding.'') in
      case js_get (bn_bindings st) (bw_tabId tab) of
        None \<Rightarrow> (missing, st)
      | Some binding \<Rightarrow>
          if \<not> isActive st binding then (missing, st)
          else
            (case knownRemoteTabs of
               Some remoteTabs \<Rightarrow> select_listed env now tab remoteTabs st
             | None \<Rightarrow> (if hasById then Await_by_id binding else Await_by_index binding, st)))"

text \<open>The handler of the first \<open>try\<close>: other \<open>AppError\<close>s than the two codes are thrown again.\<close>

definition id_error :: "BrowserTabBinding \<Rightarrow> exn \<Rightarrow> select_phase" where
  "id_error binding e =
     (case e of
        AppError c _ \<Rightarrow> if c \<in> {TAB_NOT_FOUND, BROWSER_DISCONNECTED} then Await_by_index binding else Select_failed e
      | _ \<Rightarrow> Await_by_index binding)"

text \<open>The second \<open>try\<close>: every error leads to the full list.\<close>

definition select_by_index ::
  "binding_env \<Rightarrow> instant \<Rightarrow> BrowserTab \<Rightarrow> BrowserTabBinding \<Rightarrow> BrowserDriverTab list \<Rightarrow> binding_state \<Rightarrow> select_phase \<times> binding_state" where
  "select_by_index env now tab binding selectedTabs st =
     (case findRemoteTab env now tab selectedTabs st of
        Inr (Some directMatch) \<Rightarrow>
          (case find (\<lambda>remote. dt_current remote \<and> \<not> dt_crashed remote) selectedTabs of
             None \<Rightarrow> (Await_list, st)
           | Some selected \<Rightarrow>
               if dt_index (mt_tab directMatch) \<noteq> dt_index selected then (Await_list, st)
               else
                 (case sameRemoteIdentity env now directMatch selected binding (length selectedTabs) of
                    Inr True \<Rightarrow>
                      (case bind_tab env now now now (bw_tabId tab) selected (Some (length selectedTabs))
                              (mt_mode directMatch = Navigation_transition) st of
                         (Inl e, st1) \<Rightarrow> (Await_list, st1)
                       | (Inr _, st1) \<Rightarrow>
                           (if mt_mode directMatch \<noteq> Exact \<or> dt_index selected \<noteq> tb_remoteIndex binding
                            then Await_index_checkpoint selected else Selected selected, st1))
                  | _ \<Rightarrow> (Await_list, st)))
      | _ \<Rightarrow> (Await_list, st))"

fun select_step ::
  "binding_env \<Rightarrow> instant \<Rightarrow> BrowserTab \<Rightarrow> select_phase \<Rightarrow> select_reply \<Rightarrow> binding_state \<Rightarrow> select_phase \<times> binding_state" where
  "select_step env now tab (Await_by_id binding) (Id_reply (Inr (remote, tabCount))) st =
     (case bind_tab env now now now (bw_tabId tab) remote (Some tabCount) False st of
        (Inl e, st1) \<Rightarrow> (id_error binding e, st1)
      | (Inr _, st1) \<Rightarrow>
          (if dt_index remote \<noteq> tb_remoteIndex binding then Await_id_checkpoint binding remote else Selected remote, st1))"
| "select_step env now tab (Await_by_id binding) (Id_reply (Inl e)) st = (id_error binding e, st)"
| "select_step env now tab (Await_id_checkpoint binding remote) (Checkpoint_reply (Inr _)) st = (Selected remote, st)"
| "select_step env now tab (Await_id_checkpoint binding remote) (Checkpoint_reply (Inl e)) st = (id_error binding e, st)"
| "select_step env now tab (Await_by_index binding) (Tabs_reply (Inr tabs)) st = select_by_index env now tab binding tabs st"
| "select_step env now tab (Await_by_index binding) (Tabs_reply (Inl e)) st = (Await_list, st)"
| "select_step env now tab (Await_index_checkpoint remote) (Checkpoint_reply (Inr _)) st = (Selected remote, st)"
| "select_step env now tab (Await_index_checkpoint remote) (Checkpoint_reply (Inl e)) st = (Await_list, st)"
| "select_step env now tab Await_list (Tabs_reply (Inr tabs)) st = select_listed env now tab tabs st"
| "select_step env now tab Await_list (Tabs_reply (Inl e)) st = (Select_failed e, st)"
| "select_step env now tab (Await_select match) (Tabs_reply (Inr tabs)) st = select_finish env now tab match tabs st"
| "select_step env now tab (Await_select match) (Tabs_reply (Inl e)) st = (Select_failed e, st)"
| "select_step env now tab (Await_checkpoint remote) (Checkpoint_reply (Inr _)) st = (Selected remote, st)"
| "select_step env now tab (Await_checkpoint remote) (Checkpoint_reply (Inl e)) st = (Select_failed e, st)"
| "select_step env now tab phase reply st = (phase, st)"

subsection \<open>Persistent tabs\<close>

definition active_indexes :: "binding_state \<Rightarrow> int list" where
  "active_indexes st = map tb_remoteIndex (filter (isActive st) (js_values (bn_bindings st)))"

definition unclaimed_blank :: "binding_env \<Rightarrow> int list \<Rightarrow> BrowserDriverTab list \<Rightarrow> BrowserDriverTab option result" where
  "unclaimed_blank env claimed remoteTabs =
     find_result (\<lambda>remote.
       if dt_crashed remote \<or> dt_index remote \<in> set claimed then Inr False
       else bind_result (normalizeBrowserUrl (be_url env) (dt_url remote)) (\<lambda>u. Inr (u = ''about:blank''))) remoteTabs"

datatype tab_call =
    New_tab string
  | New_restricted_tab string "string list" "instant option"
  | Close_tab int

text \<open>What \<open>restore\<close> decides for a tab: nothing to do, or its target, the URL and a blank page to take.\<close>

definition restore_plan ::
  "binding_env \<Rightarrow> instant \<Rightarrow> (BrowserTab \<Rightarrow> string \<Rightarrow> restore_target result) \<Rightarrow> BrowserDriverTab list \<Rightarrow> BrowserTab \<Rightarrow> binding_state \<Rightarrow>
   (restore_target \<times> string \<times> BrowserDriverTab option) option result" where
  "restore_plan env now resolve remoteTabs tab st =
     bind_result (findRemoteTab env now tab remoteTabs st) (\<lambda>found.
     if found \<noteq> None then Inr None
     else
       bind_result (normalizeBrowserUrl (be_url env)
         (or_default (or_else (bw_lockedUrl tab) (or_else (bw_requestedUrl tab) (bw_url tab))) ''about:blank'')) (\<lambda>requestedUrl.
       bind_result (resolve tab requestedUrl) (\<lambda>target.
       bind_result (normalizeBrowserUrl (be_url env) (rt_url target)) (\<lambda>targetUrl.
       bind_result (if targetUrl = ''about:blank'' then unclaimed_blank env (active_indexes st) remoteTabs else Inr None) (\<lambda>blank.
       Inr (Some (target, targetUrl, blank)))))))"

definition restore_call :: "bool \<Rightarrow> restore_target \<Rightarrow> string \<Rightarrow> tab_call" where
  "restore_call restricts target targetUrl =
     (case rt_allowedOrigins target of
        Some origins \<Rightarrow> if restricts then New_restricted_tab targetUrl origins (rt_expiresAt target) else New_tab targetUrl
      | None \<Rightarrow> New_tab targetUrl)"

text \<open>
  \<open>restore\<close> for the tabs of a list; \<open>resolve\<close> is the target the runtime allows and the state after
  asking for it, \<open>replies\<close> the answers of the driver. It stops when an answer is missing.
\<close>

fun restore_tabs ::
  "binding_env \<Rightarrow> instant \<Rightarrow> bool \<Rightarrow> (BrowserTab \<Rightarrow> string \<Rightarrow> restore_target result) \<Rightarrow> BrowserDriverTab list result list \<Rightarrow>
   BrowserDriverTab list \<Rightarrow> BrowserTab list \<Rightarrow> binding_state \<Rightarrow> BrowserDriverTab list result option \<times> tab_call list \<times> binding_state" where
  "restore_tabs env now restricts resolve replies remoteTabs [] st = (Some (Inr remoteTabs), [], st)"
| "restore_tabs env now restricts resolve replies remoteTabs (tab # tabs) st =
     (case restore_plan env now resolve remoteTabs tab st of
        Inl e \<Rightarrow> (Some (Inl e), [], st)
      | Inr None \<Rightarrow> restore_tabs env now restricts resolve replies remoteTabs tabs st
      | Inr (Some (target, targetUrl, Some remote)) \<Rightarrow>
          (case bind_tab env now now now (bw_tabId tab) remote (Some (length remoteTabs)) False st of
             (Inl e, st1) \<Rightarrow> (Some (Inl e), [], st1)
           | (Inr _, st1) \<Rightarrow> restore_tabs env now restricts resolve replies remoteTabs tabs st1)
      | Inr (Some (target, targetUrl, None)) \<Rightarrow>
          (let call = restore_call restricts target targetUrl in
           case replies of
             [] \<Rightarrow> (None, [call], st)
           | Inl e # _ \<Rightarrow> (Some (Inl e), [call], st)
           | Inr opened # rest \<Rightarrow>
               (case requireCurrentTab opened of
                  Inl e \<Rightarrow> (Some (Inl e), [call], st)
                | Inr current \<Rightarrow>
                    (case bind_tab env now now now (bw_tabId tab) current (Some (length opened)) False st of
                       (Inl e, st1) \<Rightarrow> (Some (Inl e), [call], st1)
                     | (Inr _, st1) \<Rightarrow>
                         (case restore_tabs env now restricts resolve rest opened tabs st1 of (r, calls, st2) \<Rightarrow> (r, call # calls, st2))))))"

definition restore ::
  "binding_env \<Rightarrow> instant \<Rightarrow> bool \<Rightarrow> (BrowserTab \<Rightarrow> string \<Rightarrow> restore_target result) \<Rightarrow> BrowserDriverTab list result list \<Rightarrow>
   BrowserDriverTab list \<Rightarrow> binding_state \<Rightarrow> BrowserDriverTab list result option \<times> tab_call list \<times> binding_state" where
  "restore env now restricts resolve replies initialRemoteTabs st =
     restore_tabs env now restricts resolve replies initialRemoteTabs (list_tabs (bn_tabs st)) st"

definition not_blank :: "binding_env \<Rightarrow> BrowserDriverTab \<Rightarrow> bool result" where
  "not_blank env tab = bind_result (normalizeBrowserUrl (be_url env) (dt_url tab)) (\<lambda>u. Inr (u \<noteq> ''about:blank''))"

text \<open>The tab that \<open>adopt\<close> takes over: an open page first, the current one first.\<close>

definition adopted_remote :: "binding_env \<Rightarrow> BrowserDriverTab list \<Rightarrow> BrowserDriverTab option result" where
  "adopted_remote env remoteTabs =
     bind_result (find_result (\<lambda>t. if dt_current t \<and> \<not> dt_crashed t then not_blank env t else Inr False) remoteTabs) (\<lambda>a.
     if a \<noteq> None then Inr a
     else
       bind_result (find_result (\<lambda>t. if \<not> dt_crashed t then not_blank env t else Inr False) remoteTabs) (\<lambda>b.
       Inr (if b \<noteq> None then b
            else or_else (find (\<lambda>t. dt_current t \<and> \<not> dt_crashed t) remoteTabs) (find (\<lambda>t. \<not> dt_crashed t) remoteTabs))))"

definition adopt ::
  "binding_env \<Rightarrow> instant \<Rightarrow> string \<Rightarrow> (string \<times> string) option \<Rightarrow> BrowserDriverTab list \<Rightarrow> binding_state \<Rightarrow>
   BrowserTab option result \<times> binding_state" where
  "adopt env now newId primaryPrivateSite remoteTabs st =
     (case adopted_remote env remoteTabs of
        Inl e \<Rightarrow> (Inl e, st)
      | Inr None \<Rightarrow> (Inr None, st)
      | Inr (Some current) \<Rightarrow>
          (case normalizeBrowserUrl (be_url env) (dt_url current) of
             Inl e \<Rightarrow> (Inl e, st)
           | Inr url \<Rightarrow>
               (let primary = (case primaryPrivateSite of Some (u, site) \<Rightarrow> if u = url then Some site else None | None \<Rightarrow> None);
                    sticky = (primary \<noteq> None);
                    input = \<lparr>ri_tabId = None, ri_taskId = None, ri_lifecycle = None,
                      ri_purpose = Some (case primary of Some site \<Rightarrow> site | None \<Rightarrow> ''mcp-default''),
                      ri_reusable = Some (\<not> sticky), ri_protected = Some sticky, ri_sticky = Some sticky,
                      ri_url = Some url, ri_requestedUrl = Some url, ri_title = Some (dt_title current),
                      ri_lockedUrl = (if sticky then Some url else None)\<rparr>;
                    tab = registered_mcp_tab now newId input;
                    st1 = st\<lparr>bn_tabs := snd (registerMcp now newId input (bn_tabs st))\<rparr> in
                case bind_tab env now now now (bw_tabId tab) current (Some (length remoteTabs)) False st1 of
                  (Inl e, st2) \<Rightarrow> (Inl e, st2)
                | (Inr _, st2) \<Rightarrow> (Inr (Some tab), st2))))"

fun matched_indexes ::
  "binding_env \<Rightarrow> instant \<Rightarrow> BrowserDriverTab list \<Rightarrow> BrowserTab list \<Rightarrow> binding_state \<Rightarrow> int list result" where
  "matched_indexes env now remoteTabs [] st = Inr []"
| "matched_indexes env now remoteTabs (tab # tabs) st =
     bind_result (findRemoteTab env now tab remoteTabs st) (\<lambda>found.
     bind_result (matched_indexes env now remoteTabs tabs st) (\<lambda>rest.
     Inr (case found of Some match \<Rightarrow> dt_index (mt_tab match) # rest | None \<Rightarrow> rest)))"

fun closeUnclaimedBlankTabs ::
  "binding_env \<Rightarrow> instant \<Rightarrow> BrowserDriverTab list result list \<Rightarrow> BrowserDriverTab list \<Rightarrow> binding_state \<Rightarrow>
   BrowserDriverTab list result option \<times> tab_call list \<times> binding_state" where
  "closeUnclaimedBlankTabs env now replies remoteTabs st =
     (if length remoteTabs \<le> 1 then (Some (Inr remoteTabs), [], st)
      else
        (case bind_result (matched_indexes env now remoteTabs (list_tabs (bn_tabs st)) st) (\<lambda>claimed.
                unclaimed_blank env claimed remoteTabs) of
           Inl e \<Rightarrow> (Some (Inl e), [], st)
         | Inr None \<Rightarrow> (Some (Inr remoteTabs), [], st)
         | Inr (Some blank) \<Rightarrow>
             (case replies of
                [] \<Rightarrow> (None, [Close_tab (dt_index blank)], st)
              | Inl e # _ \<Rightarrow> (Some (Inl e), [Close_tab (dt_index blank)], st)
              | Inr remaining # rest \<Rightarrow>
                  (case reconcileBindings env now False remaining st of
                     (Inl e, st1) \<Rightarrow> (Some (Inl e), [Close_tab (dt_index blank)], st1)
                   | (Inr _, st1) \<Rightarrow>
                       (case closeUnclaimedBlankTabs env now rest remaining st1 of
                          (r, calls, st2) \<Rightarrow> (r, Close_tab (dt_index blank) # calls, st2))))))"

declare closeUnclaimedBlankTabs.simps [simp del]

text \<open>
  The state that \<open>BrowserRuntime.create\<close> makes of the stored registry for the session it selected.
\<close>

definition runtime_start :: "BrowserSessionRegistryData \<Rightarrow> BrowserSession \<Rightarrow> task_registry \<Rightarrow> binding_state" where
  "runtime_start persisted session tasks =
     (hydrate (rd_sessions persisted) (rd_tabs persisted)
       \<lparr>bn_tabs = tab_registry_new (map toPublicBrowserTab (filter (\<lambda>tab. ut_sessionId tab = bs_sessionId session) (rd_tabs persisted))),
        bn_bindings = [], bn_unified = [], bn_sessions = [], bn_session = session, bn_tasks = tasks\<rparr>)
     \<lparr>bn_bindings := fold (\<lambda>b m. js_set (tb_tabId b) b m) (rd_bindings persisted) []\<rparr>"

subsection \<open>What a match rests on\<close>

lemma filter_result_Inr:
  "filter_result p xs = Inr ys \<Longrightarrow> set ys = {x \<in> set xs. p x = Inr True} \<and> (length ys = length (filter (\<lambda>x. p x = Inr True) xs))"
  by (induction xs arbitrary: ys) (auto simp: bind_result_Inr_iff split: if_split_asm)

text \<open>
  The page of a match, by its mode: at the index of the binding with its URL, or on the locked
  origin of a sticky tab, or in a running navigation whose expectation it meets; or, at another
  index that no other tab claims, the only page with the URL and title of the binding.
\<close>

definition identified ::
  "binding_env \<Rightarrow> instant \<Rightarrow> BrowserTab \<Rightarrow> BrowserDriverTab list \<Rightarrow> binding_state \<Rightarrow> RemoteTabMatch \<Rightarrow> bool" where
  "identified env now tab remoteTabs st m \<longleftrightarrow>
     mt_tab m \<in> set remoteTabs \<and> \<not> dt_crashed (mt_tab m) \<and>
     (\<exists>binding url. js_get (bn_bindings st) (bw_tabId tab) = Some binding \<and> isActive st binding \<and>
        normalizeBrowserUrl (be_url env) (dt_url (mt_tab m)) = Inr url \<and>
        (case mt_mode m of
           Exact \<Rightarrow> dt_index (mt_tab m) = tb_remoteIndex binding \<and> url = tb_url binding \<and> dt_title (mt_tab m) = tb_title binding
         | Title_drift \<Rightarrow> dt_index (mt_tab m) = tb_remoteIndex binding \<and> url = tb_url binding
         | Sticky_origin_drift \<Rightarrow> dt_index (mt_tab m) = tb_remoteIndex binding \<and>
             matchesStickyLockedOrigin (be_url env) tab (tb_url binding) url
         | Signature_recovery \<Rightarrow> url = tb_url binding \<and> dt_title (mt_tab m) = tb_title binding \<and>
             (\<forall>other. other \<in> set (js_values (bn_bindings st)) \<longrightarrow> tb_tabId other \<noteq> bw_tabId tab \<longrightarrow> isActive st other \<longrightarrow>
                tb_remoteIndex other \<noteq> dt_index (mt_tab m))
         | Navigation_transition \<Rightarrow> dt_index (mt_tab m) = tb_remoteIndex binding \<and> dt_current (mt_tab m) \<and>
             (\<exists>navigation. activeNavigation env now (tb_navigation binding) = Some navigation \<and>
                (\<forall>e. nt_expectedUrl navigation = Some e \<longrightarrow> e \<noteq> [] \<longrightarrow> matchesExpectedNavigation (be_url env) e url = Inr True))))"

lemma indexed_tab_Some: "indexed_tab b tabs = Some r \<Longrightarrow> r \<in> set tabs \<and> dt_index r = tb_remoteIndex b"
  by (auto simp: indexed_tab_def find_Some_iff)

lemma indexed_match_identified:
  assumes "indexed_match env tab b (indexed_tab b tabs) = Inr (Some m)"
    and "js_get (bn_bindings st) (bw_tabId tab) = Some b" "isActive st b"
  shows "identified env now tab tabs st m"
  using assms indexed_tab_Some [of b tabs] unfolding identified_def
  by (auto simp: indexed_match_def bind_result_Inr_iff split: option.split_asm if_split_asm)

lemma navigation_match_identified:
  assumes "navigation_match env now b (indexed_tab b tabs) n = Inr (Some m)"
    and "js_get (bn_bindings st) (bw_tabId tab) = Some b" "isActive st b"
  shows "identified env now tab tabs st m"
proof -
  from assms(1) obtain nav remote url where nav: "activeNavigation env now (tb_navigation b) = Some nav"
    "indexed_tab b tabs = Some remote" "\<not> dt_crashed remote" "dt_current remote"
    "normalizeBrowserUrl (be_url env) (dt_url remote) = Inr url"
    "truthy (nt_expectedUrl nav) \<longrightarrow> matchesExpectedNavigation (be_url env) (the (nt_expectedUrl nav)) url = Inr True"
    "m = \<lparr>mt_tab = remote, mt_mode = Navigation_transition\<rparr>"
    by (auto simp: navigation_match_def bind_result_Inr_iff split: option.split_asm if_split_asm)
  show ?thesis unfolding identified_def using nav indexed_tab_Some [OF nav(2)] assms(2,3)
    by (auto simp: truthy_def split: option.split)
qed

lemma signature_identified:
  assumes "signature_matches env (claimedIndexes st (bw_tabId tab)) b tabs = Inr [r]"
    and "js_get (bn_bindings st) (bw_tabId tab) = Some b" "isActive st b"
  shows "identified env now tab tabs st \<lparr>mt_tab = r, mt_mode = Signature_recovery\<rparr>"
proof -
  note res = filter_result_Inr [OF assms(1) [unfolded signature_matches_def]]
  have "r \<in> set [r]" by simp
  then have "r \<in> set tabs" "\<not> dt_crashed r" "dt_index r \<notin> set (claimedIndexes st (bw_tabId tab))"
    "\<exists>url. normalizeBrowserUrl (be_url env) (dt_url r) = Inr url \<and> url = tb_url b \<and> dt_title r = tb_title b"
    using res by (auto simp: bind_result_Inr_iff split: if_split_asm)
  then show ?thesis unfolding identified_def using assms(2,3) by (force simp: claimedIndexes_def)
qed

lemma findRemoteTab_identified:
  assumes "findRemoteTab env now tab tabs st = Inr (Some m)"
  shows "identified env now tab tabs st m"
proof -
  from assms obtain b where b: "js_get (bn_bindings st) (bw_tabId tab) = Some b" "isActive st b"
    and m: "bind_result (indexed_match env tab b (indexed_tab b tabs)) (\<lambda>direct.
             case direct of
               Some match \<Rightarrow> Inr (Some match)
             | None \<Rightarrow>
                 bind_result (signature_matches env (claimedIndexes st (bw_tabId tab)) b tabs) (\<lambda>signatures.
                 case signatures of
                   [remote] \<Rightarrow> Inr (Some \<lparr>mt_tab = remote, mt_mode = Signature_recovery\<rparr>)
                 | _ \<Rightarrow> navigation_match env now b (indexed_tab b tabs) (length tabs))) = Inr (Some m)"
    unfolding findRemoteTab_def Let_def by (auto split: option.split_asm if_split_asm)
  then obtain direct where direct: "indexed_match env tab b (indexed_tab b tabs) = Inr direct"
    by (cases "indexed_match env tab b (indexed_tab b tabs)") auto
  show ?thesis
  proof (cases direct)
    case (Some match)
    with m direct indexed_match_identified [OF _ b] show ?thesis by simp
  next
    case None
    with m direct obtain signatures where
      signatures: "signature_matches env (claimedIndexes st (bw_tabId tab)) b tabs = Inr signatures"
      by (cases "signature_matches env (claimedIndexes st (bw_tabId tab)) b tabs") auto
    show ?thesis
    proof (cases "\<exists>r. signatures = [r]")
      case True
      with m direct None signatures signature_identified [OF _ b] show ?thesis by auto
    next
      case False
      then have "(case signatures of [remote] \<Rightarrow> Inr (Some \<lparr>mt_tab = remote, mt_mode = Signature_recovery\<rparr>)
        | _ \<Rightarrow> navigation_match env now b (indexed_tab b tabs) (length tabs)) =
        navigation_match env now b (indexed_tab b tabs) (length tabs)" by (auto split: list.split)
      with m direct None signatures navigation_match_identified [OF _ b] show ?thesis by simp
    qed
  qed
qed

subsection \<open>Selections\<close>

text \<open>
  A selection of a tab: its replies come in any states, since other calls may run in between;
  the log has the phase and the reply of every step.
\<close>

inductive selecting :: "binding_env \<Rightarrow> BrowserTab \<Rightarrow> (select_phase \<times> select_reply) list \<Rightarrow> select_phase \<Rightarrow> bool"
  for env tab where
  begins: "select_start env now hasById tab known st = (p, st') \<Longrightarrow> selecting env tab [] p"
| continues: "selecting env tab log p \<Longrightarrow> select_step env now tab p reply st = (p', st') \<Longrightarrow>
    selecting env tab (log @ [(p, reply)]) p'"

text \<open>The page was found by a match and still is that page when it is selected.\<close>

definition vetted :: "binding_env \<Rightarrow> BrowserTab \<Rightarrow> BrowserDriverTab \<Rightarrow> bool" where
  "vetted env tab r \<longleftrightarrow> dt_current r \<and> \<not> dt_crashed r \<and>
     (\<exists>now remoteTabs st m now' b n. identified env now tab remoteTabs st m \<and>
        dt_index (mt_tab m) = dt_index r \<and> sameRemoteIdentity env now' m r b n = Inr True)"

definition by_id :: "BrowserTab \<Rightarrow> (select_phase \<times> select_reply) list \<Rightarrow> BrowserDriverTab \<Rightarrow> bool" where
  "by_id tab log r \<longleftrightarrow> (\<exists>b n st. (Await_by_id b, Id_reply (Inr (r, n))) \<in> set log \<and>
     js_get (bn_bindings st) (bw_tabId tab) = Some b \<and> isActive st b)"

fun phase_ok :: "binding_env \<Rightarrow> BrowserTab \<Rightarrow> (select_phase \<times> select_reply) list \<Rightarrow> select_phase \<Rightarrow> bool" where
  "phase_ok env tab log (Await_by_id b) \<longleftrightarrow> (\<exists>st. js_get (bn_bindings st) (bw_tabId tab) = Some b \<and> isActive st b)"
| "phase_ok env tab log (Await_id_checkpoint b r) \<longleftrightarrow> by_id tab log r"
| "phase_ok env tab log (Await_index_checkpoint r) \<longleftrightarrow> vetted env tab r"
| "phase_ok env tab log (Await_select m) \<longleftrightarrow> (\<exists>now remoteTabs st. identified env now tab remoteTabs st m)"
| "phase_ok env tab log (Await_checkpoint r) \<longleftrightarrow> vetted env tab r"
| "phase_ok env tab log (Selected r) \<longleftrightarrow> by_id tab log r \<or> vetted env tab r"
| "phase_ok env tab log _ \<longleftrightarrow> True"

lemma requireCurrentTab_Inr: "requireCurrentTab tabs = Inr r \<Longrightarrow> dt_current r \<and> \<not> dt_crashed r"
  by (auto simp: requireCurrentTab_def find_Some_iff split: option.split_asm if_split_asm)

lemma sameRemoteIdentity_index: "sameRemoteIdentity env now m r b n = Inr True \<Longrightarrow> dt_index (mt_tab m) = dt_index r"
  by (auto simp: sameRemoteIdentity_def split: if_split_asm)

lemma vettedI:
  "identified env now tab remoteTabs st m \<Longrightarrow> sameRemoteIdentity env now' m r b n = Inr True \<Longrightarrow> dt_current r \<Longrightarrow>
   \<not> dt_crashed r \<Longrightarrow> vetted env tab r"
  unfolding vetted_def using sameRemoteIdentity_index by blast

lemma select_finish_ok:
  assumes "identified env now' tab remoteTabs st' m" "select_finish env now tab m tabs st = (p, st1)"
  shows "phase_ok env tab log p"
  using assms
  by (auto simp: select_finish_def Let_def split: sum.split_asm option.split_asm if_split_asm prod.split_asm
    dest!: requireCurrentTab_Inr intro: vettedI)

lemma select_listed_ok: "select_listed env now tab tabs st = (p, st1) \<Longrightarrow> phase_ok env tab log p"
  using findRemoteTab_identified select_finish_ok
  by (fastforce simp: select_listed_def split: sum.split_asm option.split_asm if_split_asm)

lemma select_start_ok: "select_start env now hasById tab known st = (p, st1) \<Longrightarrow> phase_ok env tab log p"
  using select_listed_ok
  by (auto simp: select_start_def Let_def split: option.split_asm if_split_asm)

lemma select_by_index_ok:
  assumes "select_by_index env now tab b tabs st = (p, st1)"
  shows "phase_ok env tab log p"
proof (cases "findRemoteTab env now tab tabs st")
  case (Inr found)
  show ?thesis
  proof (cases found)
    case (Some m)
    with Inr findRemoteTab_identified have m: "identified env now tab tabs st m" by simp
    from assms Inr Some show ?thesis
      by (auto simp: select_by_index_def find_Some_iff split: sum.split_asm option.split_asm if_split_asm prod.split_asm bool.split_asm
        intro: vettedI [OF m])
  qed (use assms Inr in \<open>auto simp: select_by_index_def\<close>)
qed (use assms in \<open>auto simp: select_by_index_def\<close>)

lemma id_error_ok: "phase_ok env tab log (id_error b e)"
  by (auto simp: id_error_def split: exn.split)

lemma phase_ok_mono: "phase_ok env tab log p \<Longrightarrow> set log \<subseteq> set log' \<Longrightarrow> phase_ok env tab log' p"
  by (cases p) (auto simp: by_id_def)

lemma by_id_snoc:
  "by_id tab log r \<Longrightarrow> by_id tab (log @ [x]) r"
  "js_get (bn_bindings st) (bw_tabId tab) = Some b \<Longrightarrow> isActive st b \<Longrightarrow> by_id tab (log @ [(Await_by_id b, Id_reply (Inr (r, n)))]) r"
  by (auto simp: by_id_def)

lemma select_step_ok:
  assumes "phase_ok env tab log p" "select_step env now tab p reply st = (p', st')"
  shows "phase_ok env tab (log @ [(p, reply)]) p'"
  using assms(2,1)
  by (cases "(env, now, tab, p, reply, st)" rule: select_step.cases)
    (auto simp: id_error_ok select_by_index_ok select_listed_ok by_id_snoc intro: select_finish_ok phase_ok_mono
      split: prod.split_asm sum.split_asm if_split_asm)

text \<open>The selected page has the URL of the match, or the navigation of the binding is still running.\<close>

definition still_there ::
  "binding_env \<Rightarrow> instant \<Rightarrow> RemoteTabMatch \<Rightarrow> BrowserDriverTab \<Rightarrow> BrowserTabBinding \<Rightarrow> nat \<Rightarrow> bool" where
  "still_there env now m r b n \<longleftrightarrow>
     (if mt_mode m \<noteq> Navigation_transition
      then \<exists>url. normalizeBrowserUrl (be_url env) (dt_url (mt_tab m)) = Inr url \<and> normalizeBrowserUrl (be_url env) (dt_url r) = Inr url
      else activeNavigation env now (tb_navigation b) \<noteq> None \<and> tb_remoteTabCount b \<in> {None, Some (int n)})"

lemma sameRemoteIdentity_still_there: "sameRemoteIdentity env now m r b n = Inr True \<Longrightarrow> still_there env now m r b n"
  by (auto simp: sameRemoteIdentity_def still_there_def bind_result_Inr_iff split: if_split_asm option.split_asm)


subsection \<open>Bindings and saved tabs agree\<close>

text \<open>
  Every tab of another session than the current one has a known session and a binding that
  matches it, and every binding of another session has such a tab. The tabs of the current
  session are written anew by each checkpoint.
\<close>

definition linked ::
  "string \<Rightarrow> (string, BrowserTabBinding) jsmap \<Rightarrow> (string, UnifiedBrowserTab) jsmap \<Rightarrow> (string, BrowserSession) jsmap \<Rightarrow> bool" where
  "linked cur B U S \<longleftrightarrow> keyed tb_tabId B \<and> keyed ut_tabId U \<and> keyed bs_sessionId S \<and>
     (\<forall>k u. js_get U k = Some u \<longrightarrow> ut_sessionId u \<noteq> cur \<longrightarrow>
        js_has S (ut_sessionId u) \<and> (\<exists>b. js_get B k = Some b \<and> binding_matches b u)) \<and>
     (\<forall>k b. js_get B k = Some b \<longrightarrow> tb_sessionId b \<noteq> cur \<longrightarrow> (\<exists>u. js_get U k = Some u \<and> ut_sessionId u \<noteq> cur))"

lemma linkedI:
  assumes "keyed tb_tabId B" "keyed ut_tabId U" "keyed bs_sessionId S"
    and "\<And>k u. js_get U k = Some u \<Longrightarrow> ut_sessionId u \<noteq> cur \<Longrightarrow>
      js_has S (ut_sessionId u) \<and> (\<exists>b. js_get B k = Some b \<and> binding_matches b u)"
    and "\<And>k b. js_get B k = Some b \<Longrightarrow> tb_sessionId b \<noteq> cur \<Longrightarrow> \<exists>u. js_get U k = Some u \<and> ut_sessionId u \<noteq> cur"
  shows "linked cur B U S"
  using assms unfolding linked_def by blast

lemma linkedD:
  assumes "linked cur B U S"
  shows "keyed tb_tabId B" "keyed ut_tabId U" "keyed bs_sessionId S"
    "js_get U k = Some u \<Longrightarrow> ut_sessionId u \<noteq> cur \<Longrightarrow> js_has S (ut_sessionId u)"
    "js_get U k = Some u \<Longrightarrow> ut_sessionId u \<noteq> cur \<Longrightarrow> \<exists>b. js_get B k = Some b \<and> binding_matches b u"
    "js_get B k = Some b \<Longrightarrow> tb_sessionId b \<noteq> cur \<Longrightarrow> \<exists>u. js_get U k = Some u \<and> ut_sessionId u \<noteq> cur"
  using assms unfolding linked_def by blast+

lemma linked_binding:
  assumes L: "linked cur B U S" and b: "tb_tabId b = k" "tb_sessionId b = cur"
    and cur: "\<And>p. js_get B k = Some p \<Longrightarrow> tb_sessionId p = cur"
  shows "linked cur (js_set k b B) U S"
proof (rule linkedI)
  fix k' u assume u: "js_get U k' = Some u" "ut_sessionId u \<noteq> cur"
  from linkedD(5) [OF L u] obtain b' where b': "js_get B k' = Some b'" "binding_matches b' u" by blast
  then have "k' \<noteq> k" using cur [of b'] u(2) by (auto simp: binding_matches_def)
  with b' linkedD(4) [OF L u] show "js_has S (ut_sessionId u) \<and> (\<exists>b''. js_get (js_set k b B) k' = Some b'' \<and> binding_matches b'' u)"
    by simp
next
  fix k' b' assume "js_get (js_set k b B) k' = Some b'" "tb_sessionId b' \<noteq> cur"
  then show "\<exists>u. js_get U k' = Some u \<and> ut_sessionId u \<noteq> cur"
    using linkedD(6) [OF L] b by (auto split: if_split_asm)
qed (use L b in \<open>auto simp: linkedD keyed_set\<close>)

lemma linked_edit:
  assumes L: "linked cur B U S" and p: "js_get B k = Some p" and b: "tb_tabId b = k" "tb_sessionId b = tb_sessionId p"
    "tb_remoteTabId b = tb_remoteTabId p" "tb_remoteIndex b = tb_remoteIndex p"
  shows "linked cur (js_set k b B) U S"
proof (rule linkedI)
  fix k' u assume u: "js_get U k' = Some u" "ut_sessionId u \<noteq> cur"
  from linkedD(5) [OF L u] obtain b' where b': "js_get B k' = Some b'" "binding_matches b' u" by blast
  then have "\<exists>b''. js_get (js_set k b B) k' = Some b'' \<and> binding_matches b'' u"
    using p b by (cases "k' = k") (simp_all add: binding_matches_def)
  with linkedD(4) [OF L u] show "js_has S (ut_sessionId u) \<and> (\<exists>b''. js_get (js_set k b B) k' = Some b'' \<and> binding_matches b'' u)"
    by simp
next
  fix k' b' assume "js_get (js_set k b B) k' = Some b'" "tb_sessionId b' \<noteq> cur"
  then show "\<exists>u. js_get U k' = Some u \<and> ut_sessionId u \<noteq> cur"
    using linkedD(6) [OF L] p b by (auto split: if_split_asm)
qed (use L b in \<open>auto simp: linkedD keyed_set\<close>)

lemma linked_unified:
  assumes L: "linked cur B U S" and u: "ut_tabId u = k" "ut_sessionId u = cur"
    and cur: "\<And>p. js_get B k = Some p \<Longrightarrow> tb_sessionId p = cur"
  shows "linked cur B (js_set k u U) S"
proof (rule linkedI)
  fix k' v assume v: "js_get (js_set k u U) k' = Some v" "ut_sessionId v \<noteq> cur"
  then have "js_get U k' = Some v" using u(2) by (auto split: if_split_asm)
  with v(2) linkedD(4,5) [OF L] show "js_has S (ut_sessionId v) \<and> (\<exists>b. js_get B k' = Some b \<and> binding_matches b v)" by blast
next
  fix k' b assume b: "js_get B k' = Some b" "tb_sessionId b \<noteq> cur"
  then have "k' \<noteq> k" using cur by auto
  with linkedD(6) [OF L b] show "\<exists>v. js_get (js_set k u U) k' = Some v \<and> ut_sessionId v \<noteq> cur" by simp
qed (use L u in \<open>auto simp: linkedD keyed_set\<close>)

lemma linked_delete: "linked cur B U S \<Longrightarrow> linked cur (js_delete k B) (js_delete k U) S"
  by (rule linkedI) (auto simp: linkedD keyed_delete split: if_split_asm dest: linkedD(4-6))

lemma linked_session:
  assumes L: "linked cur B U S"
  shows "linked cur B U (js_set (bs_sessionId s) s S)"
proof (rule linkedI)
  fix k u assume "js_get U k = Some u" "ut_sessionId u \<noteq> cur"
  with linkedD(4,5) [OF L this] show "js_has (js_set (bs_sessionId s) s S) (ut_sessionId u) \<and>
    (\<exists>b. js_get B k = Some b \<and> binding_matches b u)" by simp
qed (use L in \<open>auto simp: linkedD keyed_set dest: linkedD(6)\<close>)

lemma linked_drop_unified:
  assumes L: "linked cur B U S"
  shows "linked cur B (filter (\<lambda>(k, u). \<not> (ut_sessionId u = cur \<and> P k u)) U) S"
proof -
  have wf: "js_wf U" using linkedD(2) [OF L] by (simp add: keyed_def)
  show ?thesis
  proof (rule linkedI)
    fix k u assume "js_get (filter (\<lambda>(k, u). \<not> (ut_sessionId u = cur \<and> P k u)) U) k = Some u" "ut_sessionId u \<noteq> cur"
    with wf have "js_get U k = Some u" by (simp add: js_get_filter split: option.split_asm if_split_asm)
    with \<open>ut_sessionId u \<noteq> cur\<close> linkedD(4,5) [OF L]
    show "js_has S (ut_sessionId u) \<and> (\<exists>b. js_get B k = Some b \<and> binding_matches b u)" by blast
  next
    fix k b assume "js_get B k = Some b" "tb_sessionId b \<noteq> cur"
    from linkedD(6) [OF L this] wf
    show "\<exists>u. js_get (filter (\<lambda>(k, u). \<not> (ut_sessionId u = cur \<and> P k u)) U) k = Some u \<and> ut_sessionId u \<noteq> cur"
      by (auto simp: js_get_filter)
  qed (use L in \<open>auto simp: linkedD keyed_filter\<close>)
qed

lemma linked_drop_binding:
  assumes L: "linked cur B U S"
  shows "linked cur (filter (\<lambda>(k, b). \<not> (tb_sessionId b = cur \<and> P k b)) B) U S"
proof -
  have wf: "js_wf B" using linkedD(1) [OF L] by (simp add: keyed_def)
  show ?thesis
  proof (rule linkedI)
    fix k u assume u: "js_get U k = Some u" "ut_sessionId u \<noteq> cur"
    from linkedD(5) [OF L u] obtain b where b: "js_get B k = Some b" "binding_matches b u" by blast
    with wf u(2) have "js_get (filter (\<lambda>(k, b). \<not> (tb_sessionId b = cur \<and> P k b)) B) k = Some b"
      by (simp add: js_get_filter binding_matches_def)
    with b(2) linkedD(4) [OF L u] show "js_has S (ut_sessionId u) \<and>
      (\<exists>b. js_get (filter (\<lambda>(k, b). \<not> (tb_sessionId b = cur \<and> P k b)) B) k = Some b \<and> binding_matches b u)" by blast
  next
    fix k b assume "js_get (filter (\<lambda>(k, b). \<not> (tb_sessionId b = cur \<and> P k b)) B) k = Some b" "tb_sessionId b \<noteq> cur"
    with wf have "js_get B k = Some b" by (simp add: js_get_filter split: option.split_asm if_split_asm)
    from linkedD(6) [OF L this \<open>tb_sessionId b \<noteq> cur\<close>] show "\<exists>u. js_get U k = Some u \<and> ut_sessionId u \<noteq> cur" .
  qed (use L in \<open>auto simp: linkedD keyed_filter\<close>)
qed

subsection \<open>The services keep the maps linked\<close>

abbreviation current_id :: "binding_state \<Rightarrow> string" where
  "current_id st \<equiv> bs_sessionId (bn_session st)"

definition binding_inv :: "binding_state \<Rightarrow> bool" where
  "binding_inv st \<longleftrightarrow> keyed bw_tabId (bn_tabs st) \<and> linked (current_id st) (bn_bindings st) (bn_unified st) (bn_sessions st)"

lemma touch_tab_keyed:
  "keyed bw_tabId m \<Longrightarrow> keyed bw_tabId (snd (touch_tab now k url title m))"
  by (auto simp: touch_tab_def Let_def assertMcpOwned_Inr split: sum.split intro!: keyed_set) (auto simp: keyed_def)

lemma touch_tab_Inr:
  "keyed bw_tabId m \<Longrightarrow> touch_tab now k url title m = (Inr t, m') \<Longrightarrow> bw_tabId t = k \<and> m' = js_set k t m"
  by (auto simp: touch_tab_def Let_def assertMcpOwned_Inr keyed_def split: sum.split_asm)

lemma toUnified_fields:
  "toUnifiedBrowserTab tab session r i task life = Inr u \<Longrightarrow>
   ut_tabId u = bw_tabId tab \<and> ut_sessionId u = bs_sessionId session \<and> ut_remoteTabId u = r \<and> ut_remoteIndex u = i"
  by (auto simp: toUnifiedBrowserTab_def split: if_split_asm)

lemma touch_session_id [simp]: "bs_sessionId (touchBrowserSession s state now) = bs_sessionId s"
  by (simp add: touchBrowserSession_def)

lemma bound_remote_fields:
  "bound_remote env n tabId remote cnt clear previous session = Inr b \<Longrightarrow> tb_tabId b = tabId \<and> tb_sessionId b = bs_sessionId session"
  by (auto simp: bound_remote_def bind_result_Inr_iff)

lemma bind_tab_inv:
  assumes inv: "binding_inv st"
  shows "binding_inv (snd (bind_tab env n1 n2 n3 tabId remote cnt clear st))"
proof (cases "(case js_get (bn_bindings st) tabId of None \<Rightarrow> False | Some p \<Rightarrow> \<not> isActive st p)")
  case True
  then show ?thesis using inv by (simp add: bind_tab_def Let_def)
next
  case False
  then have cur: "tb_sessionId p = current_id st" if "js_get (bn_bindings st) tabId = Some p" for p
    using that by (simp add: isActive_def)
  from inv have L: "linked (current_id st) (bn_bindings st) (bn_unified st) (bn_sessions st)"
    and T: "keyed bw_tabId (bn_tabs st)" by (simp_all add: binding_inv_def)
  show ?thesis
  proof (cases "bound_remote env n1 tabId remote cnt clear (js_get (bn_bindings st) tabId) (bn_session st)")
    case (Inr b)
    note b = bound_remote_fields [OF Inr]
    have L1: "linked (current_id st) (js_set tabId b (bn_bindings st)) (bn_unified st) (bn_sessions st)"
      by (rule linked_binding [OF L]) (use b cur in auto)
    obtain r tabs where touch: "touch_tab n2 tabId (Some (tb_url b)) (Some (dt_title remote)) (bn_tabs st) = (r, tabs)"
      by fastforce
    have T1: "keyed bw_tabId tabs" using touch_tab_keyed [OF T] touch by (metis snd_conv)
    show ?thesis
    proof (cases r)
      case (Inl e)
      with False Inr touch T1 L1 show ?thesis by (simp add: bind_tab_def Let_def binding_inv_def)
    next
      case (Inr t)
      with touch_tab_Inr [OF T] touch have t: "bw_tabId t = tabId" by blast
      have "linked (current_id st) (js_set tabId b (bn_bindings st)) (js_set tabId u (bn_unified st)) (bn_sessions st)"
        if "toUnifiedBrowserTab t (bn_session st) (tb_remoteTabId b) (dt_index remote) None None = Inr u" for u
        by (rule linked_unified [OF L1]) (use toUnified_fields [OF that] t b in auto)
      with False Inr \<open>bound_remote _ _ _ _ _ _ _ _ = Inr b\<close> touch T1 L1 show ?thesis
        by (simp add: bind_tab_def Let_def binding_inv_def split: sum.split)
    qed
  qed (use False inv in \<open>simp add: bind_tab_def Let_def\<close>)
qed

lemma bind_tab_tabs_session: "current_id (snd (bind_tab env n1 n2 n3 tabId remote cnt clear st)) = current_id st"
  by (auto simp: bind_tab_def Let_def split: sum.split option.split prod.split)

lemma syncUnifiedTab_inv:
  assumes "binding_inv st"
  shows "binding_inv (snd (syncUnifiedTab tabId st))"
proof -
  have "linked (current_id st) (bn_bindings st) (js_set tabId u (bn_unified st)) (bn_sessions st)"
    if "js_get (bn_bindings st) tabId = Some b" "isActive st b" "assertMcpOwned tabId (bn_tabs st) = Inr tab"
      "toUnifiedBrowserTab tab (bn_session st) (tb_remoteTabId b) (tb_remoteIndex b) None None = Inr u" for b tab u
    using assms that toUnified_fields [OF that(4)]
    by (intro linked_unified) (auto simp: binding_inv_def isActive_def assertMcpOwned_Inr keyed_def)
  then show ?thesis using assms
    by (auto simp: syncUnifiedTab_def binding_inv_def bind_result_Inr_iff split: option.split sum.split)
qed

lemma begin_navigation_inv:
  assumes "binding_inv st"
  shows "binding_inv (snd (begin_navigation env timeout now tabId operation expected st))"
proof -
  have "linked (current_id st) (js_set tabId (b\<lparr>tb_navigation := n\<rparr>) (bn_bindings st)) (bn_unified st) (bn_sessions st)"
    if "js_get (bn_bindings st) tabId = Some b" for b n
    using assms that linkedD(1) by (intro linked_edit [OF _ that]) (auto simp: binding_inv_def keyed_def)
  then show ?thesis using assms by (auto simp: begin_navigation_def binding_inv_def split: option.split sum.split)
qed

lemma update_binding_inv:
  assumes "binding_inv st"
  shows "binding_inv (snd (update_binding env now tabId url title st))"
proof (cases "js_get (bn_bindings st) tabId")
  case (Some b)
  have "binding_inv (st\<lparr>bn_bindings := js_set tabId (b\<lparr>tb_url := u, tb_title := t, tb_navigation := n\<rparr>) (bn_bindings st)\<rparr>)" for u t n
    using assms linkedD(1) Some by (auto simp: binding_inv_def keyed_def intro!: linked_edit [OF _ Some])
  then show ?thesis using Some by (simp add: update_binding_def syncUnifiedTab_inv)
qed (use assms in \<open>simp add: update_binding_def\<close>)

lemma updateSelectedTab_inv:
  assumes inv: "binding_inv st"
  shows "binding_inv (snd (updateSelectedTab env n1 n2 tabId url title fallback st))"
proof (cases "bind_result (assertMcpOwned tabId (bn_tabs st)) (selected_page env url title fallback)")
  case (Inr page)
  obtain r tabs where touch: "touch_tab n1 tabId (Some (fst page)) (Some (snd page)) (bn_tabs st) = (r, tabs)" by fastforce
  have "binding_inv (st\<lparr>bn_tabs := tabs\<rparr>)"
    using inv touch_tab_keyed [of "bn_tabs st" n1 tabId "Some (fst page)" "Some (snd page)"] touch by (simp add: binding_inv_def)
  from this update_binding_inv [OF this] Inr touch show ?thesis
    by (simp add: updateSelectedTab_def case_prod_unfold split: sum.split)
qed (use inv in \<open>simp add: updateSelectedTab_def\<close>)

lemma discardTaskTab_inv: "binding_inv st \<Longrightarrow> binding_inv (discardTaskTab now tabId st)"
  by (simp add: discardTaskTab_def binding_inv_def discard_tab_def keyed_delete linked_delete)

lemma discard_session: "current_id (discardTaskTab now tabId st) = current_id st"
  by (simp add: discardTaskTab_def)

lemma clearTaskState_inv:
  assumes "binding_inv st"
  shows "binding_inv (clearTaskState now st)"
proof -
  define st1 where "st1 = fold (\<lambda>tab. discardTaskTab now (bw_tabId tab)) (list_tabs (bn_tabs st)) st"
  have "binding_inv (fold (\<lambda>tab. discardTaskTab now (bw_tabId tab)) tabs s)" if "binding_inv s" for tabs s
    using that by (induction tabs arbitrary: s) (simp_all add: discardTaskTab_inv)
  then have inv: "binding_inv st1" using assms by (simp add: st1_def)
  then have "linked (current_id st1) (bn_bindings st1) (bn_unified st1) (bn_sessions st1)" by (simp add: binding_inv_def)
  from linked_drop_binding [OF linked_drop_unified [OF this, of "\<lambda>_ _. True"], of "\<lambda>_ _. True"]
  have "linked (current_id st1) (js_delete_where (\<lambda>b. tb_sessionId b = current_id st1) (bn_bindings st1))
    (js_delete_where (\<lambda>t. ut_sessionId t = current_id st1) (bn_unified st1)) (bn_sessions st1)"
    by (simp add: js_delete_where_def)
  with inv show ?thesis unfolding clearTaskState_def Let_def st1_def [symmetric] by (simp add: binding_inv_def)
qed

lemma reconcile_tabs_inv:
  "binding_inv st \<Longrightarrow> binding_inv (snd (reconcile_tabs env now prune remotes tabs st))"
proof (induction tabs arbitrary: st)
  case (Cons tab tabs)
  have bound: "binding_inv (snd (bind_tab env now now now (bw_tabId tab) r cnt c st))" for r cnt c
    by (rule bind_tab_inv [OF Cons.prems])
  show ?case
  proof (cases "findRemoteTab env now tab remotes st")
    case (Inr found)
    then show ?thesis
    proof (cases found)
      case None
      with Inr Cons discardTaskTab_inv show ?thesis by simp
    next
      case (Some m)
      obtain r st1 where b: "bind_tab env now now now (bw_tabId tab) (mt_tab m) (Some (length remotes)) (mt_mode m = Navigation_transition) st = (r, st1)"
        by fastforce
      then have "binding_inv st1" using bound by (metis snd_conv)
      with Inr Some b Cons.IH show ?thesis by (auto split: sum.split)
    qed
  qed (use Cons.prems in simp)
qed simp

lemma persistActiveTabs_result:
  assumes "persistActiveTabs tabs session st = (r, st1)"
  shows "bn_bindings st1 = bn_bindings st \<and> bn_tabs st1 = bn_tabs st \<and> bn_session st1 = bn_session st \<and> bn_sessions st1 = bn_sessions st"
  using assms
  by (induction tabs arbitrary: st) (auto simp: persistActiveTab_def split: option.split_asm if_split_asm sum.split_asm prod.split_asm)

lemma persistActiveTab_inv:
  assumes "binding_inv st" "persistActiveTab tab (bn_session st) st = (r, st1)"
  shows "binding_inv st1"
proof -
  have "linked (current_id st) (bn_bindings st) (js_set (bw_tabId tab) u (bn_unified st)) (bn_sessions st)"
    if "js_get (bn_bindings st) (bw_tabId tab) = Some b" "isActive st b"
      "toUnifiedBrowserTab tab (bn_session st) (tb_remoteTabId b) (tb_remoteIndex b) None None = Inr u" for b u
    using assms(1) that toUnified_fields [OF that(3)] by (intro linked_unified) (auto simp: binding_inv_def isActive_def)
  then show ?thesis using assms
    by (auto simp: persistActiveTab_def binding_inv_def split: option.split_asm if_split_asm sum.split_asm)
qed

lemma persistActiveTabs_inv:
  "binding_inv st \<Longrightarrow> persistActiveTabs tabs (bn_session st) st = (r, st1) \<Longrightarrow> binding_inv st1"
proof (induction tabs arbitrary: st)
  case (Cons tab tabs)
  obtain r1 st2 where p: "persistActiveTab tab (bn_session st) st = (r1, st2)" by fastforce
  then have "binding_inv st2" "bn_session st2 = bn_session st"
    using persistActiveTab_inv [OF Cons.prems(1) p] persistActiveTabs_result [of "[tab]" "bn_session st" st r1 st2]
    by (auto split: sum.split)
  with Cons p show ?case by (auto split: sum.split_asm)
qed simp

text \<open>After the active tabs are stored, each has a unified tab that matches its binding.\<close>

lemma persistActiveTabs_stored:
  assumes "persistActiveTabs tabs session st = (Inr x, st1)" and "bs_sessionId session = current_id st" and "distinct (map bw_tabId tabs)"
  shows "js_get (bn_unified st1) k = (if k \<in> set (map bw_tabId tabs) then js_get (bn_unified st1) k else js_get (bn_unified st) k) \<and>
    (k \<in> set (map bw_tabId tabs) \<longrightarrow>
      (\<exists>b u. js_get (bn_bindings st) k = Some b \<and> js_get (bn_unified st1) k = Some u \<and> binding_matches b u \<and> ut_sessionId u = current_id st))"
  using assms
proof (induction tabs arbitrary: st)
  case (Cons tab tabs)
  from Cons.prems(1) obtain b u st2 where b: "js_get (bn_bindings st) (bw_tabId tab) = Some b" "isActive st b"
    and u: "toUnifiedBrowserTab tab session (tb_remoteTabId b) (tb_remoteIndex b) None None = Inr u"
    and st2: "st2 = st\<lparr>bn_unified := js_set (bw_tabId tab) u (bn_unified st)\<rparr>"
    and rest: "persistActiveTabs tabs session st2 = (Inr x, st1)"
    by (auto simp: persistActiveTab_def split: option.split_asm if_split_asm sum.split_asm prod.split_asm)
  have matches: "binding_matches b u \<and> ut_sessionId u = current_id st"
    using toUnified_fields [OF u] b(2) Cons.prems(2) by (simp add: binding_matches_def isActive_def)
  have IH': "js_get (bn_unified st1) k = (if k \<in> set (map bw_tabId tabs) then js_get (bn_unified st1) k else js_get (bn_unified st2) k) \<and>
    (k \<in> set (map bw_tabId tabs) \<longrightarrow>
      (\<exists>b u. js_get (bn_bindings st) k = Some b \<and> js_get (bn_unified st1) k = Some u \<and> binding_matches b u \<and> ut_sessionId u = current_id st))"
    using Cons.IH [OF rest] Cons.prems(2,3) st2 by simp
  show ?case
  proof (cases "k = bw_tabId tab")
    case True
    with Cons.prems(3) have "k \<notin> set (map bw_tabId tabs)" by simp
    with IH' True have "js_get (bn_unified st1) k = Some u" by (simp add: st2)
    with True b(1) matches show ?thesis by simp
  next
    case False
    with IH' show ?thesis by (auto simp: st2)
  qed
qed simp

subsection \<open>Checkpoints\<close>

lemma checkpoint_prepare_inv:
  assumes "binding_inv st"
  shows "binding_inv (checkpoint_prepare st)"
proof -
  have "linked (current_id st) (bn_bindings st) (bn_unified st) (bn_sessions st)" using assms by (simp add: binding_inv_def)
  from linked_drop_unified [OF linked_session [OF this, of "bn_session st"], of "\<lambda>k _. k \<notin> set (active_ids st)"]
  show ?thesis using assms by (simp add: binding_inv_def checkpoint_prepare_def removeStaleUnifiedTabs_def)
qed

lemma checkpoint_prepare_simps [simp]:
  "bn_session (checkpoint_prepare st) = bn_session st" "bn_bindings (checkpoint_prepare st) = bn_bindings st"
  "bn_tabs (checkpoint_prepare st) = bn_tabs st"
  by (simp_all add: checkpoint_prepare_def)

lemma drop_stale_bindings_inv:
  "binding_inv st \<Longrightarrow> binding_inv (drop_stale_bindings (current_id st) ids st)"
  using linked_drop_binding [of "current_id st" "bn_bindings st" "bn_unified st" "bn_sessions st" "\<lambda>k _. k \<notin> set ids"]
  by (simp add: binding_inv_def drop_stale_bindings_def)

lemma checkpoint_inv:
  assumes "binding_inv st"
  shows "binding_inv (snd (checkpointNow now st))"
proof -
  obtain p st1 where persist: "persistActiveTabs (list_tabs (bn_tabs st)) (bn_session st) (checkpoint_prepare st) = (p, st1)" by fastforce
  have "binding_inv st1" "bn_session st1 = bn_session st"
    using persistActiveTabs_inv [OF checkpoint_prepare_inv [OF assms]] persistActiveTabs_result [OF persist] persist by auto
  with persist show ?thesis
    using drop_stale_bindings_inv [of st1 "active_ids st"] by (simp add: checkpointNow_def Let_def split: sum.split)
qed

text \<open>In the state that is saved every tab has its session and a matching binding, and every binding a tab.\<close>

definition all_linked :: "binding_state \<Rightarrow> bool" where
  "all_linked st \<longleftrightarrow>
     (\<forall>k u. js_get (bn_unified st) k = Some u \<longrightarrow> js_has (bn_sessions st) (ut_sessionId u) \<and>
        (\<exists>b. js_get (bn_bindings st) k = Some b \<and> binding_matches b u)) \<and>
     (\<forall>k b. js_get (bn_bindings st) k = Some b \<longrightarrow> js_has (bn_unified st) k)"

lemma persisted_current:
  assumes inv: "binding_inv st"
    and persist: "persistActiveTabs (list_tabs (bn_tabs st)) (bn_session st) (checkpoint_prepare st) = (Inr x, st1)"
  shows "k \<in> set (active_ids st) \<Longrightarrow> \<exists>b u. js_get (bn_bindings st) k = Some b \<and> js_get (bn_unified st1) k = Some u \<and> binding_matches b u"
    and "js_get (bn_unified st1) k = Some u \<Longrightarrow> ut_sessionId u = current_id st \<Longrightarrow> k \<in> set (active_ids st)"
proof -
  have ids: "distinct (map bw_tabId (list_tabs (bn_tabs st)))"
    using inv keyed_distinct [of bw_tabId "bn_tabs st"] by (simp add: binding_inv_def list_tabs_def)
  note stored = persistActiveTabs_stored [OF persist _ ids, of k]
  then show "k \<in> set (active_ids st) \<Longrightarrow> \<exists>b u. js_get (bn_bindings st) k = Some b \<and> js_get (bn_unified st1) k = Some u \<and> binding_matches b u"
    by (auto simp: active_ids_def)
  have wf: "js_wf (bn_unified st)" using inv linkedD(2) by (auto simp: binding_inv_def keyed_def)
  show "k \<in> set (active_ids st)" if u: "js_get (bn_unified st1) k = Some u" "ut_sessionId u = current_id st"
  proof (rule ccontr)
    assume k: "k \<notin> set (active_ids st)"
    then have "js_get (bn_unified (checkpoint_prepare st)) k = Some u" using stored u(1) by (simp add: active_ids_def)
    with k u(2) wf show False
      by (auto simp: checkpoint_prepare_def removeStaleUnifiedTabs_def js_get_filter split: option.split_asm if_split_asm)
  qed
qed

lemma checkpoint_all_linked:
  assumes inv: "binding_inv st" and cp: "checkpointNow now st = (Inr saved, st2)"
  shows "all_linked st2 \<and> rd_sessions saved = js_values (bn_sessions st2) \<and> rd_tabs saved = js_values (bn_unified st2) \<and>
    rd_bindings saved = js_values (bn_bindings st2)"
proof -
  from cp obtain x st1 where persist: "persistActiveTabs (list_tabs (bn_tabs st)) (bn_session st) (checkpoint_prepare st) = (Inr x, st1)"
    and st2: "st2 = drop_stale_bindings (current_id st) (active_ids st) st1"
    and saved: "rd_sessions saved = js_values (bn_sessions st2) \<and> rd_tabs saved = js_values (bn_unified st2) \<and>
      rd_bindings saved = js_values (bn_bindings st2)"
    by (auto simp: checkpointNow_def Let_def split: prod.split_asm sum.split_asm)
  note same = persistActiveTabs_result [OF persist]
  note current = persisted_current [OF inv persist]
  have wf: "js_wf (bn_bindings st)" using inv linkedD(1) by (auto simp: binding_inv_def keyed_def)
  have get: "js_get (bn_bindings st2) k = (case js_get (bn_bindings st) k of None \<Rightarrow> None
    | Some b \<Rightarrow> if \<not> (tb_sessionId b = current_id st \<and> k \<notin> set (active_ids st)) then Some b else None)" for k
    using wf same by (simp add: st2 drop_stale_bindings_def js_get_filter split: option.split)
  have maps: "bn_unified st2 = bn_unified st1" "bn_sessions st2 = bn_sessions (checkpoint_prepare st)" "bn_session st2 = bn_session st"
    using same by (simp_all add: st2 drop_stale_bindings_def)
  have L: "linked (current_id st) (bn_bindings st2) (bn_unified st2) (bn_sessions st2)"
    using checkpoint_inv [OF inv, of now] cp maps(3) by (simp add: binding_inv_def)
  have tab: "js_has (bn_sessions st2) (ut_sessionId u) \<and> (\<exists>b. js_get (bn_bindings st2) k = Some b \<and> binding_matches b u)"
    if u: "js_get (bn_unified st2) k = Some u" for k u
  proof (cases "ut_sessionId u = current_id st")
    case True
    with current(2) [of k u] u maps(1) have k: "k \<in> set (active_ids st)" by simp
    with current(1) [of k] u maps(1) obtain b where "js_get (bn_bindings st) k = Some b" "binding_matches b u" by auto
    with k get [of k] True show ?thesis by (simp add: maps(2)) (simp add: checkpoint_prepare_def)
  next
    case False
    from linkedD(4,5) [OF L u this] show ?thesis by blast
  qed
  have "js_has (bn_unified st2) k" if b: "js_get (bn_bindings st2) k = Some b" for k b
  proof (cases "tb_sessionId b = current_id st")
    case True
    with b get [of k] have "k \<in> set (active_ids st)" by (auto split: option.split_asm if_split_asm)
    with current(1) [of k] maps(1) show ?thesis by auto
  next
    case False
    from linkedD(6) [OF L b this] show ?thesis by auto
  qed
  with tab saved show ?thesis unfolding all_linked_def by blast
qed

subsection \<open>Selection and restoring keep the invariant\<close>

lemma bind_tab_inv': "binding_inv st \<Longrightarrow> bind_tab env n1 n2 n3 k r cnt c st = (x, st1) \<Longrightarrow> binding_inv st1"
  using bind_tab_inv by (metis snd_conv)

lemma select_finish_inv: "binding_inv st \<Longrightarrow> select_finish env now tab m tabs st = (p, st1) \<Longrightarrow> binding_inv st1"
  by (auto simp: select_finish_def Let_def split: sum.split_asm option.split_asm if_split_asm prod.split_asm intro: bind_tab_inv')

lemma select_listed_inv: "binding_inv st \<Longrightarrow> select_listed env now tab tabs st = (p, st1) \<Longrightarrow> binding_inv st1"
  by (auto simp: select_listed_def split: sum.split_asm option.split_asm if_split_asm intro: select_finish_inv)

lemma select_start_inv: "binding_inv st \<Longrightarrow> select_start env now hasById tab known st = (p, st1) \<Longrightarrow> binding_inv st1"
  by (auto simp: select_start_def Let_def split: option.split_asm if_split_asm intro: select_listed_inv)

lemma select_by_index_inv: "binding_inv st \<Longrightarrow> select_by_index env now tab b tabs st = (p, st1) \<Longrightarrow> binding_inv st1"
  by (auto simp: select_by_index_def split: sum.split_asm option.split_asm if_split_asm prod.split_asm bool.split_asm intro: bind_tab_inv')

lemma select_step_inv:
  assumes "binding_inv st" "select_step env now tab p reply st = (p', st1)"
  shows "binding_inv st1"
  using assms(2,1)
  by (cases "(env, now, tab, p, reply, st)" rule: select_step.cases)
    (auto split: prod.split_asm sum.split_asm intro: bind_tab_inv' select_by_index_inv select_listed_inv select_finish_inv)

lemma restore_tabs_inv:
  "binding_inv st \<Longrightarrow> restore_tabs env now restricts resolve replies remoteTabs tabs st = (r, calls, st1) \<Longrightarrow> binding_inv st1"
proof (induction tabs arbitrary: st replies remoteTabs r calls)
  case (Cons tab tabs)
  then show ?case
    using bind_tab_inv' [OF Cons.prems(1)]
    by (auto simp: Let_def split: sum.split_asm option.split_asm prod.split_asm list.split_asm) blast+
qed simp

lemma tab_step_keyed: "keyed bw_tabId m \<Longrightarrow> keyed bw_tabId (snd (tab_step op m))"
proof -
  assume k: "keyed bw_tabId m"
  then have own: "bw_tabId t = k'" if "js_get m k' = Some t" for k' t using that by (simp add: keyed_def)
  show ?thesis
    using k by (cases op) (auto simp: registerMcp_def reconfigureMcp_def registerUser_def touch_tab_def discard_tab_def remove_tab_def
      Let_def assertMcpOwned_Inr reconfigured_tab_def registered_user_tab_def own split: sum.split intro!: keyed_set keyed_delete)
qed

lemma adopt_inv:
  assumes "binding_inv st" "adopt env now newId primary remoteTabs st = (r, st1)"
  shows "binding_inv st1"
proof -
  have "binding_inv (st\<lparr>bn_tabs := snd (registerMcp now newId input (bn_tabs st))\<rparr>)" for input
    using assms(1) tab_step_keyed [of "bn_tabs st" "Register_mcp now newId input"] by (simp add: binding_inv_def)
  with assms show ?thesis
    by (auto simp: adopt_def Let_def split: sum.split_asm option.split_asm prod.split_asm intro: bind_tab_inv')
qed

lemma closeUnclaimed_inv:
  "binding_inv st \<Longrightarrow> closeUnclaimedBlankTabs env now replies remoteTabs st = (r, calls, st1) \<Longrightarrow> binding_inv st1"
proof (induction replies arbitrary: remoteTabs st r calls)
  case Nil
  then show ?case
    by (auto simp: closeUnclaimedBlankTabs.simps [of env now "[]"] split: if_split_asm sum.split_asm option.split_asm)
next
  case (Cons reply replies)
  have rec: "binding_inv st2" if "reconcileBindings env now False tabs st = (x, st2)" for tabs x st2
    using reconcile_tabs_inv [OF Cons.prems(1)] that by (metis reconcileBindings_def snd_conv)
  from Cons show ?case
    by (auto simp: closeUnclaimedBlankTabs.simps [of env now "_ # _"]
      split: if_split_asm sum.split_asm option.split_asm prod.split_asm dest: rec)
qed

subsection \<open>Sequences of service calls\<close>

inductive service_step :: "binding_env \<Rightarrow> binding_state \<Rightarrow> binding_state \<Rightarrow> bool" for env where
  bind_call: "service_step env st (snd (bind_tab env n1 n2 n3 tabId remote cnt clear st))"
| sync_call: "service_step env st (snd (syncUnifiedTab tabId st))"
| begin_call: "service_step env st (snd (begin_navigation env timeout now tabId operation expected st))"
| update_call: "service_step env st (snd (updateSelectedTab env n1 n2 tabId url title fallback st))"
| transition_call: "service_step env st (snd (transition_session now state st))"
| checkpoint_call: "service_step env st (snd (checkpointNow now st))"
| discard_call: "service_step env st (discardTaskTab now tabId st)"
| clear_call: "service_step env st (clearTaskState now st)"
| reconcile_call: "service_step env st (snd (reconcileBindings env now prune remoteTabs st))"
| select_first: "service_step env st (snd (select_start env now hasById tab known st))"
| select_next: "service_step env st (snd (select_step env now tab phase reply st))"
| restore_call: "restore env now restricts resolve replies remoteTabs st = (r, calls, st') \<Longrightarrow> service_step env st st'"
| adopt_call: "service_step env st (snd (adopt env now newId primary remoteTabs st))"
| close_call: "closeUnclaimedBlankTabs env now replies remoteTabs st = (r, calls, st') \<Longrightarrow> service_step env st st'"
| tab_call: "service_step env st (st\<lparr>bn_tabs := snd (tab_step operation (bn_tabs st))\<rparr>)"
| task_call: "service_step env st (st\<lparr>bn_tasks := tasks\<rparr>)"

abbreviation service_steps :: "binding_env \<Rightarrow> binding_state \<Rightarrow> binding_state \<Rightarrow> bool" where
  "service_steps env \<equiv> (service_step env)\<^sup>*\<^sup>*"

lemma service_step_inv:
  assumes "service_step env st st'" "binding_inv st"
  shows "binding_inv st'"
  using assms
proof cases
  case (select_first now hasById tab known)
  then show ?thesis using select_start_inv [OF assms(2)] by (metis prod.collapse)
next
  case (select_next now tab phase reply)
  then show ?thesis using select_step_inv [OF assms(2)] by (metis prod.collapse)
next
  case (adopt_call now newId primary remoteTabs)
  then show ?thesis using adopt_inv [OF assms(2)] by (metis prod.collapse)
next
  case (restore_call now restricts resolve replies remoteTabs r calls)
  then show ?thesis using restore_tabs_inv [OF assms(2)] by (simp add: restore_def)
next
  case (close_call now replies remoteTabs r calls)
  then show ?thesis using closeUnclaimed_inv [OF assms(2)] by blast
next
  case (reconcile_call now prune remoteTabs)
  then show ?thesis using reconcile_tabs_inv [OF assms(2)] by (simp add: reconcileBindings_def)
next
  case (tab_call operation)
  then show ?thesis using assms(2) tab_step_keyed by (simp add: binding_inv_def)
next
  case (transition_call now state)
  then show ?thesis using assms(2) by (simp add: transition_session_def Let_def binding_inv_def)
next
  case (task_call tasks)
  then show ?thesis using assms(2) by (simp add: binding_inv_def)
qed (simp_all add: bind_tab_inv syncUnifiedTab_inv begin_navigation_inv updateSelectedTab_inv checkpoint_inv discardTaskTab_inv
    clearTaskState_inv)

lemma runtime_start_inv:
  assumes "registryV4_issues (as_v4 persisted) = []"
  shows "binding_inv (runtime_start persisted session tasks)"
proof -
  let ?cur = "bs_sessionId session"
  let ?B = "fold (\<lambda>b m. js_set (tb_tabId b) b m) (rd_bindings persisted) []"
  let ?U = "fold (\<lambda>t m. js_set (ut_tabId t) t m) (rd_tabs persisted) []"
  let ?S = "js_set ?cur session (fold (\<lambda>s m. js_set (bs_sessionId s) s m) (rd_sessions persisted) [])"
  have nil: "keyed f []" for f :: "'v \<Rightarrow> string" by (simp add: keyed_def)
  have T: "keyed bw_tabId (bn_tabs (runtime_start persisted session tasks))"
    by (simp add: runtime_start_def hydrate_def Let_def tab_registry_new_def fold_set_keyed nil)
  from assms have d: "distinct (map tb_tabId (rd_bindings persisted))" "distinct (map ut_tabId (rd_tabs persisted))"
    and tab: "\<And>t. t \<in> set (rd_tabs persisted) \<Longrightarrow> ut_sessionId t \<in> bs_sessionId ` set (rd_sessions persisted) \<and>
      Browser_Sessions.bound_tab (rd_bindings persisted) t"
    and binding: "\<And>b. b \<in> set (rd_bindings persisted) \<Longrightarrow> tb_tabId b \<in> ut_tabId ` set (rd_tabs persisted)"
    by (auto simp: registryV4_issues_Nil as_v4_def comp_def image_iff)
  have "linked ?cur ?B ?U ?S"
  proof (rule linkedI)
    fix k u assume "js_get ?U k = Some u" "ut_sessionId u \<noteq> ?cur"
    then have u: "u \<in> set (rd_tabs persisted)" "ut_tabId u = k"
      using map_by_Some by (fastforce simp: fold_set_get split: option.split_asm)+
    from tab [OF u(1)] u(2) have "js_has ?S (ut_sessionId u)" "\<exists>b. js_get ?B k = Some b \<and> binding_matches b u"
      using map_by_None [of bs_sessionId "rd_sessions persisted"]
      by (auto simp: fold_set_get Browser_Sessions.bound_tab_def split: option.split option.split_asm)
    then show "js_has ?S (ut_sessionId u) \<and> (\<exists>b. js_get ?B k = Some b \<and> binding_matches b u)" by blast
  next
    fix k b assume "js_get ?B k = Some b" and other: "tb_sessionId b \<noteq> ?cur"
    then have b: "map_by tb_tabId (rd_bindings persisted) k = Some b" by (simp add: fold_set_get split: option.split_asm)
    with map_by_Some have "b \<in> set (rd_bindings persisted)" "tb_tabId b = k" by fastforce+
    with binding obtain u where u: "u \<in> set (rd_tabs persisted)" "ut_tabId u = k" by force
    with tab [OF u(1)] b have "ut_sessionId u = tb_sessionId b" by (auto simp: Browser_Sessions.bound_tab_def binding_matches_def)
    with map_by_distinct [OF d(2) u(1)] u(2) other show "\<exists>u. js_get ?U k = Some u \<and> ut_sessionId u \<noteq> ?cur"
      by (auto simp: fold_set_get)
  qed (simp_all add: fold_set_keyed nil keyed_set)
  then show ?thesis using T by (simp add: binding_inv_def runtime_start_def hydrate_def Let_def)
qed

subsection \<open>Properties of the saved registry\<close>

text \<open>
  C7. A checkpoint saves a registry that can be loaded again. From a stored registry without
  issues, after any sequence of calls of the five services and any changes of the tab and task
  registries, every checkpoint that succeeds saves sessions, tabs and bindings that pass the
  integrity check of the loader: ids are unique, every tab belongs to a saved session and has a
  binding with its session, page id and index, and every binding has a tab. (Bindings that a
  failed \<open>bind\<close> leaves behind are dropped before they are saved.)\<close>

theorem checkpoint_saves_consistent_registry:
  assumes loaded: "registryV4_issues (as_v4 persisted) = []"
    and steps: "service_steps env (runtime_start persisted session tasks) st"
    and saves: "checkpointNow now st = (Inr saved, st')"
  shows "registryV4_issues (as_v4 saved) = []"
proof -
  have inv: "binding_inv st"
    using steps by induction (auto intro: runtime_start_inv [OF loaded] service_step_inv)
  note all = checkpoint_all_linked [OF inv saves]
  have "binding_inv st'" using checkpoint_inv [OF inv, of now] saves by simp
  then have keys: "keyed tb_tabId (bn_bindings st')" "keyed ut_tabId (bn_unified st')" "keyed bs_sessionId (bn_sessions st')"
    using linkedD(1-3) by (auto simp: binding_inv_def)
  have tab: "ut_sessionId u \<in> bs_sessionId ` set (rd_sessions saved) \<and> Browser_Sessions.bound_tab (rd_bindings saved) u"
    if "u \<in> set (rd_tabs saved)" for u
    using that all keyed_member [OF keys(2), of u] keyed_distinct [OF keys(3)]
    by (auto simp: all_linked_def Browser_Sessions.bound_tab_def keyed_map_by [OF keys(1)] simp del: set_map)
  have binding: "tb_tabId b \<in> ut_tabId ` set (rd_tabs saved)" if "b \<in> set (rd_bindings saved)" for b
    using that all keyed_member [OF keys(1), of b] keyed_distinct [OF keys(2)] by (auto simp: all_linked_def simp del: set_map)
  show ?thesis unfolding registryV4_issues_Nil
  proof (intro conjI ballI)
    fix t assume "t \<in> set (r4_tabs (as_v4 saved))"
    then obtain u where u: "u \<in> set (rd_tabs saved)" and t: "t = UnifiedBrowserTabV4.truncate u" by (auto simp: as_v4_def)
    from tab [OF u] show "ut_sessionId t \<in> bs_sessionId ` set (r4_sessions (as_v4 saved))"
      "Browser_Sessions.bound_tab (r4_bindings (as_v4 saved)) t" unfolding t by (simp_all add: as_v4_def)
  next
    fix b assume "b \<in> set (r4_bindings (as_v4 saved))"
    with binding [of b] obtain u where "u \<in> set (rd_tabs saved)" "tb_tabId b = ut_tabId u" by (auto simp: as_v4_def)
    then show "tb_tabId b \<in> ut_tabId ` set (r4_tabs (as_v4 saved))" by (auto simp: as_v4_def image_iff)
  qed (use all keyed_distinct [OF keys(1)] keyed_distinct [OF keys(2)] keyed_distinct [OF keys(3)] in
    \<open>simp_all add: as_v4_def comp_def\<close>)
qed

subsection \<open>Witnesses\<close>

definition demo_binding_env :: binding_env where
  "demo_binding_env = \<lparr>be_url = demo_url, be_date = (\<lambda>_. None), be_iso = (\<lambda>_. ''2026'')\<rparr>"

definition demo_bw_session :: BrowserSession where
  "demo_bw_session = \<lparr>bs_sessionId = ''s'', bs_mode = Mode_auto, bs_state = Connected, bs_routingReason = None,
     bs_routingPolicyReason = None, bs_createdAt = 0, bs_lastUsedAt = 0\<rparr>"

definition demo_page :: BrowserDriverTab where
  "demo_page = \<lparr>dt_id = Some ''p1'', dt_index = 0, dt_current = True, dt_title = ''P'', dt_url = ''https://p/x'', dt_crashed = False\<rparr>"

definition no_registry :: BrowserSessionRegistryData where
  "no_registry = \<lparr>rd_updatedAt = 0, rd_sessions = [], rd_tasks = [], rd_tabs = [], rd_bindings = []\<rparr>"

definition demo_tasks :: task_registry where
  "demo_tasks = \<lparr>tr_tasks = [], tr_taskByTab = [], tr_activeLeases = [], tr_ttlMs = 1000\<rparr>"

definition demo_start :: binding_state where
  "demo_start = runtime_start no_registry demo_bw_session demo_tasks"

definition demo_bound :: binding_state where
  "demo_bound = snd (adopt demo_binding_env 5 ''t1'' None [demo_page] demo_start)"

lemmas demo_binding_defs = demo_bound_def demo_start_def adopt_def adopted_remote_def not_blank_def normalizeBrowserUrl_def new_URL_def
  demo_binding_env_def demo_url_def demo_page_def runtime_start_def hydrate_def no_registry_def demo_bw_session_def
  tab_registry_new_def registerMcp_def registered_mcp_tab_def or_default_def bind_tab_def bound_remote_def remoteTabIdFor_def
  touch_tab_def assertMcpOwned_def or_else_def toUnifiedBrowserTab_def touchBrowserSession_def isActive_def activeNavigation_def

theorem checkpoint_saves_consistent_registry_witness:
  "\<exists>saved. fst (checkpointNow 9 demo_bound) = Inr saved \<and> registryV4_issues (as_v4 saved) = [] \<and> length (rd_tabs saved) = 1"
proof -
  have loaded: "registryV4_issues (as_v4 no_registry) = []" by (simp add: registryV4_issues_Nil as_v4_def no_registry_def)
  have "service_step demo_binding_env demo_start demo_bound" unfolding demo_bound_def by (rule adopt_call)
  then have steps: "service_steps demo_binding_env (runtime_start no_registry demo_bw_session demo_tasks) demo_bound"
    by (simp add: demo_start_def r_into_rtranclp)
  obtain saved st where cp: "checkpointNow 9 demo_bound = (Inr saved, st)" and one: "length (rd_tabs saved) = 1"
    by (simp add: demo_binding_defs checkpointNow_def checkpoint_prepare_def removeStaleUnifiedTabs_def active_ids_def list_tabs_def
      persistActiveTab_def drop_stale_bindings_def snapshot_tasks_def Let_def)
  from checkpoint_saves_consistent_registry [OF loaded steps cp] cp one show ?thesis by auto
qed


end
