(* ===== verification/Tab_Reuse.thy ===== *)
theory Tab_Reuse
  imports Browser_Url
begin

text \<open>
  Reuse of tabs, \<open>domain/browser-tab-reuse.ts\<close>, and the cache of visited addresses,
  \<open>domain/navigation-cache.ts\<close>. Times are instants: the ISO strings of the code compare as they do.
  \<open>localeCompare\<close> on tab ids is the order \<open>le\<close>, SHA-256 a parameter. Of \<open>load\<close> and \<open>save\<close> the checks are
  modelled, the files are left out.
\<close>

subsection \<open>Choosing a tab\<close>

record BrowserTabReuseRequest =
  rq_targetUrl :: string
  rq_purpose :: string
  rq_reusable :: bool
  rq_protected :: bool
  rq_sticky :: bool

datatype reuse_source = From_locked | From_requested | From_current | From_none

record BrowserTabReuseMatch =
  rm_tab :: BrowserTab
  rm_source :: reuse_source
  rm_shouldNavigate :: bool

definition current_url :: "url_parser \<Rightarrow> BrowserTab \<Rightarrow> string result" where
  "current_url parse tab = normalizeBrowserUrl parse (or_default (bw_url tab) ABOUT_BLANK_URL)"

definition shouldNavigateFromLogicalUrl :: "url_parser \<Rightarrow> BrowserTab \<Rightarrow> string \<Rightarrow> string \<Rightarrow> bool result" where
  "shouldNavigateFromLogicalUrl parse tab logicalUrl targetUrl =
     bind_result (current_url parse tab) (\<lambda>currentUrl.
     Inr (if targetUrl = ABOUT_BLANK_URL then currentUrl \<noteq> ABOUT_BLANK_URL
          else if currentUrl = ABOUT_BLANK_URL then True
          else logicalUrl \<noteq> targetUrl))"

text \<open>Whether an optional URL is in the target document.\<close>

definition same_document :: "url_parser \<Rightarrow> string \<Rightarrow> string option \<Rightarrow> bool result" where
  "same_document parse targetDocument url =
     (case url of
        None \<Rightarrow> Inr False
      | Some u \<Rightarrow> bind_result (browserDocumentIdentity parse u) (\<lambda>d. Inr (d = targetDocument)))"

definition logical_match :: "url_parser \<Rightarrow> BrowserTab \<Rightarrow> reuse_source \<Rightarrow> string \<Rightarrow> string \<Rightarrow> BrowserTabReuseMatch option result" where
  "logical_match parse tab source logicalUrl target =
     bind_result (shouldNavigateFromLogicalUrl parse tab logicalUrl target) (\<lambda>n.
     Inr (Some \<lparr>rm_tab = tab, rm_source = source, rm_shouldNavigate = n\<rparr>))"

definition current_match ::
  "url_parser \<Rightarrow> BrowserTab \<Rightarrow> string option \<Rightarrow> string \<Rightarrow> string \<Rightarrow> BrowserTabReuseMatch option result" where
  "current_match parse tab requestedUrl target targetDocument =
     bind_result (current_url parse tab) (\<lambda>currentUrl.
     if currentUrl \<noteq> ABOUT_BLANK_URL \<or> requestedUrl = None \<or> requestedUrl = Some ABOUT_BLANK_URL then
       bind_result (same_document parse targetDocument (Some currentUrl)) (\<lambda>same.
       Inr (if same then Some \<lparr>rm_tab = tab, rm_source = From_current, rm_shouldNavigate = (currentUrl \<noteq> target)\<rparr> else None))
     else Inr None)"

definition matchTabTarget :: "url_parser \<Rightarrow> BrowserTab \<Rightarrow> string \<Rightarrow> BrowserTabReuseMatch option result" where
  "matchTabTarget parse tab targetUrl =
     bind_result (normalizeBrowserUrl parse targetUrl) (\<lambda>target.
     bind_result (browserDocumentIdentity parse target) (\<lambda>targetDocument.
     bind_result (normalizedOptional parse (bw_lockedUrl tab)) (\<lambda>lockedUrl.
     bind_result (if bw_sticky tab then same_document parse targetDocument lockedUrl else Inr False) (\<lambda>locked.
     if locked then logical_match parse tab From_locked (the lockedUrl) target
     else
       bind_result (normalizedOptional parse (bw_requestedUrl tab)) (\<lambda>requestedUrl.
       bind_result (same_document parse targetDocument requestedUrl) (\<lambda>requested.
       if requested then logical_match parse tab From_requested (the requestedUrl) target
       else current_match parse tab requestedUrl target targetDocument))))))"

definition sameConfiguration :: "BrowserTab \<Rightarrow> BrowserTabReuseRequest \<Rightarrow> bool" where
  "sameConfiguration tab request \<longleftrightarrow>
     bw_purpose tab = rq_purpose request \<and> bw_reusable tab = rq_reusable request \<and>
     bw_protected tab = rq_protected request \<and> bw_sticky tab = rq_sticky request"

definition sourceRank :: "reuse_source \<Rightarrow> int" where
  "sourceRank source = (case source of From_locked \<Rightarrow> 0 | From_requested \<Rightarrow> 0 | From_current \<Rightarrow> 1 | From_none \<Rightarrow> 2)"

text \<open>The comparisons, as \<open>compare(left, right) \<le> 0\<close>.\<close>

definition compareExactMatches ::
  "(string \<Rightarrow> string \<Rightarrow> bool) \<Rightarrow> BrowserTabReuseMatch \<Rightarrow> BrowserTabReuseMatch \<Rightarrow> bool" where
  "compareExactMatches le l r \<longleftrightarrow>
     sourceRank (rm_source l) < sourceRank (rm_source r) \<or>
     sourceRank (rm_source l) = sourceRank (rm_source r) \<and>
       (bw_lastUsedAt (rm_tab r) < bw_lastUsedAt (rm_tab l) \<or>
        bw_lastUsedAt (rm_tab r) = bw_lastUsedAt (rm_tab l) \<and> le (bw_tabId (rm_tab l)) (bw_tabId (rm_tab r)))"

definition first_of :: "'a list \<Rightarrow> 'a option" where
  "first_of xs = (case xs of [] \<Rightarrow> None | x # _ \<Rightarrow> Some x)"

definition selectExactTabReuse ::
  "url_parser \<Rightarrow> (string \<Rightarrow> string \<Rightarrow> bool) \<Rightarrow> BrowserTab list \<Rightarrow> BrowserTabReuseRequest \<Rightarrow> BrowserTabReuseMatch option result" where
  "selectExactTabReuse parse le tabs request =
     bind_result (collect (map (\<lambda>tab. matchTabTarget parse tab (rq_targetUrl request))
       (filter (\<lambda>tab. sameConfiguration tab request) tabs))) (\<lambda>found.
     Inr (first_of (js_sort (compareExactMatches le) (present found))))"

definition isLogicalBlankTab :: "url_parser \<Rightarrow> BrowserTab \<Rightarrow> bool result" where
  "isLogicalBlankTab parse tab =
     bind_result (normalizedOptional parse (bw_requestedUrl tab)) (\<lambda>requestedUrl.
     case requestedUrl of
       Some u \<Rightarrow> Inr (u = ABOUT_BLANK_URL)
     | None \<Rightarrow> bind_result (current_url parse tab) (\<lambda>u. Inr (u = ABOUT_BLANK_URL)))"

text \<open>
  The rank is only taken of tabs whose URLs \<open>matchTabTarget\<close> has normalised before, so that
  \<open>isLogicalBlankTab\<close> does not throw there.
\<close>

definition recyclableRank :: "url_parser \<Rightarrow> BrowserTabReuseMatch \<Rightarrow> int" where
  "recyclableRank parse m =
     (if rm_source m \<noteq> From_none then 0
      else if bw_purpose (rm_tab m) = ''mcp-default'' \<and> isLogicalBlankTab parse (rm_tab m) = Inr True then 1
      else 2)"

definition compareRecyclableMatches ::
  "url_parser \<Rightarrow> (string \<Rightarrow> string \<Rightarrow> bool) \<Rightarrow> BrowserTabReuseMatch \<Rightarrow> BrowserTabReuseMatch \<Rightarrow> bool" where
  "compareRecyclableMatches parse le l r \<longleftrightarrow>
     recyclableRank parse l < recyclableRank parse r \<or>
     recyclableRank parse l = recyclableRank parse r \<and>
       (bw_lastUsedAt (rm_tab l) < bw_lastUsedAt (rm_tab r) \<or>
        bw_lastUsedAt (rm_tab l) = bw_lastUsedAt (rm_tab r) \<and> le (bw_tabId (rm_tab l)) (bw_tabId (rm_tab r)))"

definition recyclable_match :: "url_parser \<Rightarrow> string \<Rightarrow> BrowserTab \<Rightarrow> BrowserTabReuseMatch result" where
  "recyclable_match parse targetUrl tab =
     bind_result (matchTabTarget parse tab targetUrl) (\<lambda>found.
     case found of
       Some m \<Rightarrow> Inr m
     | None \<Rightarrow> bind_result (current_url parse tab) (\<lambda>u. Inr \<lparr>rm_tab = tab, rm_source = From_none, rm_shouldNavigate = (u \<noteq> targetUrl)\<rparr>))"

definition selectRecyclableTab ::
  "url_parser \<Rightarrow> (string \<Rightarrow> string \<Rightarrow> bool) \<Rightarrow> BrowserTab list \<Rightarrow> BrowserTabReuseRequest \<Rightarrow> BrowserTabReuseMatch option result" where
  "selectRecyclableTab parse le tabs request =
     bind_result (collect (map (recyclable_match parse (rq_targetUrl request))
       (filter (\<lambda>tab. bw_reusable tab \<and> \<not> bw_protected tab \<and> \<not> bw_sticky tab) tabs))) (\<lambda>found.
     Inr (first_of (js_sort (compareRecyclableMatches parse le) found)))"

subsection \<open>The navigation cache\<close>

record NavigationCacheEntry =
  nc_cacheKey :: string
  nc_url :: string
  nc_purpose :: string
  nc_title :: "string option"
  nc_firstUsedAt :: instant
  nc_lastUsedAt :: instant
  nc_lastClosedAt :: "instant option"
  nc_useCount :: nat

record cache_env =
  ca_url :: url_parser
  ca_sha256 :: "string \<Rightarrow> string"
  ca_maxEntries :: nat
  ca_retentionMs :: int

type_synonym navigation_cache = "(string, NavigationCacheEntry) jsmap"

definition newest_first :: "NavigationCacheEntry list \<Rightarrow> NavigationCacheEntry list" where
  "newest_first es = js_sort (\<lambda>l r. nc_lastUsedAt r \<le> nc_lastUsedAt l) es"

definition cache_prune :: "cache_env \<Rightarrow> instant \<Rightarrow> navigation_cache \<Rightarrow> navigation_cache" where
  "cache_prune env now m =
     (let m1 = js_delete_where (\<lambda>e. nc_lastUsedAt e < now - ca_retentionMs env) m in
      fold (\<lambda>e. js_delete (nc_cacheKey e)) (drop (ca_maxEntries env) (newest_first (js_values m1))) m1)"

definition cacheableUrl :: "url_parser \<Rightarrow> string option \<Rightarrow> string option result" where
  "cacheableUrl parse v =
     (if \<not> truthy v then Inr None
      else
        bind_result (new_URL parse (the v)) (\<lambda>url.
        Inr (if url_protocol url \<notin> {''http:'', ''https:''} then None
             else if url_username url \<noteq> [] \<or> url_password url \<noteq> [] \<or> url_search url \<noteq> [] \<or> url_hash url \<noteq> [] then None
             else Some (url_href url))))"

definition navigationCacheKey :: "(string \<Rightarrow> string) \<Rightarrow> string \<Rightarrow> string \<Rightarrow> string" where
  "navigationCacheKey sha256 url purpose = sha256 (purpose @ [CHR 0x0A] @ url)"

definition cache_resolve ::
  "cache_env \<Rightarrow> instant \<Rightarrow> string \<Rightarrow> navigation_cache \<Rightarrow> (NavigationCacheEntry \<times> int) option \<times> navigation_cache" where
  "cache_resolve env now purpose m =
     (let m1 = cache_prune env now m in
      (case newest_first (filter (\<lambda>e. nc_purpose e = purpose) (js_values m1)) of
         [] \<Rightarrow> None
       | e # _ \<Rightarrow> Some (e, max 0 (now - nc_lastUsedAt e)), m1))"

record cache_input =
  ci_url :: "string option"
  ci_requestedUrl :: "string option"
  ci_purpose :: string
  ci_title :: "string option"

definition cache_entry :: "instant \<Rightarrow> bool \<Rightarrow> string \<Rightarrow> string \<Rightarrow> cache_input \<Rightarrow> NavigationCacheEntry option \<Rightarrow> NavigationCacheEntry" where
  "cache_entry now closed cacheKey url input current =
     \<lparr>nc_cacheKey = cacheKey, nc_url = url, nc_purpose = ci_purpose input, nc_title = ci_title input,
      nc_firstUsedAt = (case current of None \<Rightarrow> now | Some e \<Rightarrow> nc_firstUsedAt e), nc_lastUsedAt = now,
      nc_lastClosedAt = (if closed then Some now else Option.bind current nc_lastClosedAt),
      nc_useCount = (case current of None \<Rightarrow> 0 | Some e \<Rightarrow> nc_useCount e) + 1\<rparr>"

definition cache_record ::
  "cache_env \<Rightarrow> instant \<Rightarrow> bool \<Rightarrow> cache_input \<Rightarrow> navigation_cache \<Rightarrow> NavigationCacheEntry option result \<times> navigation_cache" where
  "cache_record env now closed input m =
     (case cacheableUrl (ca_url env) (or_else (ci_requestedUrl input) (ci_url input)) of
        Inl e \<Rightarrow> (Inl e, m)
      | Inr found \<Rightarrow>
          if \<not> truthy found then (Inr None, m)
          else
            (let url = the found; cacheKey = navigationCacheKey (ca_sha256 env) url (ci_purpose input);
                 entry = cache_entry now closed cacheKey url input (js_get m cacheKey) in
             (Inr (Some entry), cache_prune env now (js_set cacheKey entry m))))"

definition cache_list :: "cache_env \<Rightarrow> instant \<Rightarrow> navigation_cache \<Rightarrow> NavigationCacheEntry list \<times> navigation_cache" where
  "cache_list env now m = (let m1 = cache_prune env now m in (newest_first (js_values m1), m1))"

definition hex_digit :: "char \<Rightarrow> bool" where
  "hex_digit c \<longleftrightarrow> c \<in> set ''0123456789abcdef''"

definition navigationCacheEntrySchema :: "(string \<Rightarrow> bool) \<Rightarrow> NavigationCacheEntry \<Rightarrow> bool" where
  "navigationCacheEntrySchema is_url e \<longleftrightarrow>
     length (nc_cacheKey e) = 64 \<and> list_all hex_digit (nc_cacheKey e) \<and> is_url (nc_url e) \<and> string_ok 1 200 (nc_purpose e) \<and>
     optional_ok (string_ok 0 500) (nc_title e) \<and> 0 < nc_useCount e"

definition navigationCacheFileSchema :: "(string \<Rightarrow> bool) \<Rightarrow> NavigationCacheEntry list \<Rightarrow> bool" where
  "navigationCacheFileSchema is_url entries \<longleftrightarrow> length entries \<le> 1000 \<and> list_all (navigationCacheEntrySchema is_url) entries"

text \<open>\<open>load\<close> of the entries of a file, and what \<open>save\<close> writes.\<close>

definition cache_load :: "cache_env \<Rightarrow> (string \<Rightarrow> bool) \<Rightarrow> instant \<Rightarrow> NavigationCacheEntry list \<Rightarrow> navigation_cache result" where
  "cache_load env is_url now entries =
     (if navigationCacheFileSchema is_url entries
      then Inr (cache_prune env now (fold (\<lambda>e m. js_set (nc_cacheKey e) e m) entries []))
      else Inl SchemaError)"

definition cache_save :: "cache_env \<Rightarrow> (string \<Rightarrow> bool) \<Rightarrow> instant \<Rightarrow> navigation_cache \<Rightarrow> NavigationCacheEntry list result \<times> navigation_cache" where
  "cache_save env is_url now m =
     (let m1 = cache_prune env now m in
      case cache_list env now m1 of (entries, m2) \<Rightarrow>
        (if navigationCacheFileSchema is_url entries then Inr entries else Inl SchemaError, m2))"

subsection \<open>First in a sorted list\<close>

definition total_preorder :: "('a \<Rightarrow> 'a \<Rightarrow> bool) \<Rightarrow> bool" where
  "total_preorder le \<longleftrightarrow> (\<forall>x y. le x y \<or> le y x) \<and> (\<forall>x y z. le x y \<longrightarrow> le y z \<longrightarrow> le x z)"

lemma first_of_sorted:
  assumes "total_preorder le" "first_of (js_sort le xs) = Some x"
  shows "x \<in> set xs \<and> (\<forall>y \<in> set xs. le x y)"
proof -
  from assms(2) obtain ys where ys: "js_sort le xs = x # ys" by (auto simp: first_of_def split: list.split_asm)
  have "sorted_wrt le (js_sort le xs)" by (rule sorted_js_sort) (use assms(1) in \<open>auto simp: total_preorder_def\<close>)
  then have "\<forall>y \<in> set (x # ys). le x y" using assms(1) ys by (auto simp: total_preorder_def)
  moreover have "set xs = set (x # ys)" using set_js_sort [of le xs] by (simp add: ys)
  ultimately show ?thesis by simp
qed

text \<open>Two keys and then another order, as the comparisons have it.\<close>

lemma lexicographic_preorder:
  fixes f :: "'a \<Rightarrow> int" and g :: "'a \<Rightarrow> int"
  assumes "total_preorder le"
  shows "total_preorder (\<lambda>l r. f l < f r \<or> f l = f r \<and> (g l < g r \<or> g l = g r \<and> le (h l) (h r)))"
proof -
  have "le x y \<or> le y x" "le x y \<Longrightarrow> le y z \<Longrightarrow> le x z" for x y z using assms by (auto simp: total_preorder_def)
  note le = this
  have "f x < f z \<or> f x = f z \<and> (g x < g z \<or> g x = g z \<and> le (h x) (h z))"
    if "f x < f y \<or> f x = f y \<and> (g x < g y \<or> g x = g y \<and> le (h x) (h y))"
      "f y < f z \<or> f y = f z \<and> (g y < g z \<or> g y = g z \<and> le (h y) (h z))" for x y z
    using that le(2) [of "h x" "h y" "h z"] by (elim disjE conjE) simp_all
  moreover have "(f x < f y \<or> f x = f y \<and> (g x < g y \<or> g x = g y \<and> le (h x) (h y))) \<or>
      (f y < f x \<or> f y = f x \<and> (g y < g x \<or> g y = g x \<and> le (h y) (h x)))" for x y
    using le(1) [of "h x" "h y"] by linarith
  ultimately show ?thesis unfolding total_preorder_def by blast
qed

lemma exact_preorder:
  assumes "total_preorder le"
  shows "total_preorder (compareExactMatches le)"
proof -
  have "compareExactMatches le = (\<lambda>l r. sourceRank (rm_source l) < sourceRank (rm_source r) \<or>
     sourceRank (rm_source l) = sourceRank (rm_source r) \<and> (- bw_lastUsedAt (rm_tab l) < - bw_lastUsedAt (rm_tab r) \<or>
       - bw_lastUsedAt (rm_tab l) = - bw_lastUsedAt (rm_tab r) \<and> le (bw_tabId (rm_tab l)) (bw_tabId (rm_tab r))))"
    by (auto simp: fun_eq_iff compareExactMatches_def)
  then show ?thesis using lexicographic_preorder [OF assms, of "\<lambda>m. sourceRank (rm_source m)"
    "\<lambda>m. - bw_lastUsedAt (rm_tab m)" "\<lambda>m. bw_tabId (rm_tab m)"] by simp
qed

lemma recyclable_preorder:
  assumes "total_preorder le"
  shows "total_preorder (compareRecyclableMatches parse le)"
  using lexicographic_preorder [OF assms, of "recyclableRank parse" "\<lambda>m. bw_lastUsedAt (rm_tab m)" "\<lambda>m. bw_tabId (rm_tab m)"]
  by (simp add: compareRecyclableMatches_def [abs_def])

subsection \<open>What a match shows\<close>

text \<open>One of the URLs of the tab is in the document of the target.\<close>

definition shows_document :: "url_parser \<Rightarrow> BrowserTab \<Rightarrow> string \<Rightarrow> bool" where
  "shows_document parse tab targetUrl \<longleftrightarrow>
     (\<exists>target u v d. normalizeBrowserUrl parse targetUrl = Inr target \<and> browserDocumentIdentity parse target = Inr d \<and>
        normalizeBrowserUrl parse u = Inr v \<and> browserDocumentIdentity parse v = Inr d \<and>
        (bw_sticky tab \<and> bw_lockedUrl tab = Some u \<or> bw_requestedUrl tab = Some u \<or> u = or_default (bw_url tab) ABOUT_BLANK_URL))"

lemma same_document_True: "same_document parse d url = Inr True \<longleftrightarrow> (\<exists>u. url = Some u \<and> browserDocumentIdentity parse u = Inr d)"
  by (auto simp: same_document_def bind_result_Inr_iff split: option.split)

lemma normalizedOptional_Some:
  "normalizedOptional parse v = Inr (Some u) \<longleftrightarrow> (\<exists>x. v = Some x \<and> normalizeBrowserUrl parse x = Inr u)"
  by (auto simp: normalizedOptional_def bind_result_Inr_iff split: option.split)

lemma matchTabTarget_shows:
  assumes "matchTabTarget parse tab targetUrl = Inr (Some m)"
  shows "rm_tab m = tab \<and> rm_source m \<noteq> From_none \<and> shows_document parse tab targetUrl"
proof -
  from assms obtain target d locked lockedUrl where t: "normalizeBrowserUrl parse targetUrl = Inr target"
    "browserDocumentIdentity parse target = Inr d" "normalizedOptional parse (bw_lockedUrl tab) = Inr lockedUrl"
    and locked: "(if bw_sticky tab then same_document parse d lockedUrl else Inr False) = Inr locked"
    and rest: "(if locked then logical_match parse tab From_locked (the lockedUrl) target
     else
       bind_result (normalizedOptional parse (bw_requestedUrl tab)) (\<lambda>requestedUrl.
       bind_result (same_document parse d requestedUrl) (\<lambda>requested.
       if requested then logical_match parse tab From_requested (the requestedUrl) target
       else current_match parse tab requestedUrl target d))) = Inr (Some m)"
    unfolding matchTabTarget_def bind_result_Inr_iff by blast
  show ?thesis
  proof (cases locked)
    case True
    with locked obtain u where "bw_sticky tab" "lockedUrl = Some u" "browserDocumentIdentity parse u = Inr d"
      by (auto simp: same_document_True split: if_split_asm)
    with True rest t show ?thesis
      by (auto simp: logical_match_def bind_result_Inr_iff shows_document_def normalizedOptional_Some)
  next
    case False
    with rest obtain requestedUrl requested where r: "normalizedOptional parse (bw_requestedUrl tab) = Inr requestedUrl"
      "same_document parse d requestedUrl = Inr requested"
      "(if requested then logical_match parse tab From_requested (the requestedUrl) target
        else current_match parse tab requestedUrl target d) = Inr (Some m)"
      by (auto simp: bind_result_Inr_iff)
    show ?thesis
    proof (cases requested)
      case True
      with r obtain x u where x: "bw_requestedUrl tab = Some x" "normalizeBrowserUrl parse x = Inr u" "browserDocumentIdentity parse u = Inr d"
        by (auto simp: same_document_True normalizedOptional_Some)
      then have "shows_document parse tab targetUrl" using t unfolding shows_document_def by blast
      with True r show ?thesis by (auto simp: logical_match_def bind_result_Inr_iff)
    next
      case False
      with r t show ?thesis
        by (auto simp: current_match_def bind_result_Inr_iff shows_document_def same_document_True current_url_def split: if_split_asm)
    qed
  qed
qed

lemma collect_all_Inr: "collect rs = Inr xs \<Longrightarrow> rs = map Inr xs"
  by (induction rs arbitrary: xs rule: collect.induct) (auto split: sum.split_asm)

lemma collect_map_member:
  assumes "collect (map f xs) = Inr ys"
  shows "y \<in> set ys \<longleftrightarrow> (\<exists>x \<in> set xs. f x = Inr y)"
proof -
  have "f ` set xs = Inr ` set ys" using arg_cong [OF collect_all_Inr [OF assms], of set] by simp
  then show ?thesis by (metis (no_types, lifting) imageE imageI sum.inject(2))
qed

subsection \<open>Properties of the choice\<close>

lemma exact_reuse_fits:
  assumes le: "total_preorder le" and select: "selectExactTabReuse parse le tabs request = Inr (Some m)"
  shows "rm_tab m \<in> set tabs \<and> sameConfiguration (rm_tab m) request \<and> shows_document parse (rm_tab m) (rq_targetUrl request) \<and>
      (\<forall>tab \<in> set tabs. \<forall>m'. sameConfiguration tab request \<longrightarrow> matchTabTarget parse tab (rq_targetUrl request) = Inr (Some m') \<longrightarrow>
         sourceRank (rm_source m) < sourceRank (rm_source m') \<or>
         sourceRank (rm_source m) = sourceRank (rm_source m') \<and> bw_lastUsedAt tab \<le> bw_lastUsedAt (rm_tab m))"
proof (intro conjI)
  from select obtain found where found: "collect (map (\<lambda>tab. matchTabTarget parse tab (rq_targetUrl request))
      (filter (\<lambda>tab. sameConfiguration tab request) tabs)) = Inr found"
    and first: "first_of (js_sort (compareExactMatches le) (present found)) = Some m"
    by (auto simp: selectExactTabReuse_def bind_result_Inr_iff)
  have member: "x \<in> set (present found) \<longleftrightarrow> (\<exists>tab \<in> set tabs. sameConfiguration tab request \<and>
      matchTabTarget parse tab (rq_targetUrl request) = Inr (Some x))" for x
    using collect_map_member [OF found, of "Some x"] by (force simp: present_def image_iff)
  note best = first_of_sorted [OF exact_preorder [OF le] first]
  then obtain tab where tab: "tab \<in> set tabs" "sameConfiguration tab request" "matchTabTarget parse tab (rq_targetUrl request) = Inr (Some m)"
    using member by blast
  note m = matchTabTarget_shows [OF tab(3)]
  from m tab show "rm_tab m \<in> set tabs" "sameConfiguration (rm_tab m) request" "shows_document parse (rm_tab m) (rq_targetUrl request)" by auto
  show "\<forall>tab \<in> set tabs. \<forall>m'. sameConfiguration tab request \<longrightarrow> matchTabTarget parse tab (rq_targetUrl request) = Inr (Some m') \<longrightarrow>
     sourceRank (rm_source m) < sourceRank (rm_source m') \<or>
     sourceRank (rm_source m) = sourceRank (rm_source m') \<and> bw_lastUsedAt tab \<le> bw_lastUsedAt (rm_tab m)"
  proof (intro ballI allI impI)
    fix t m' assume t: "t \<in> set tabs" "sameConfiguration t request" "matchTabTarget parse t (rq_targetUrl request) = Inr (Some m')"
    then have "compareExactMatches le m m'" "rm_tab m' = t" using best member matchTabTarget_shows [OF t(3)] by auto
    then show "sourceRank (rm_source m) < sourceRank (rm_source m') \<or>
      sourceRank (rm_source m) = sourceRank (rm_source m') \<and> bw_lastUsedAt t \<le> bw_lastUsedAt (rm_tab m)"
      by (auto simp: compareExactMatches_def)
  qed
qed

lemma recyclable_fits:
  assumes le: "total_preorder le" and select: "selectRecyclableTab parse le tabs request = Inr (Some m)"
  shows "rm_tab m \<in> set tabs \<and> bw_reusable (rm_tab m) \<and> \<not> bw_protected (rm_tab m) \<and> \<not> bw_sticky (rm_tab m) \<and>
      (\<forall>tab \<in> set tabs. bw_reusable tab \<and> \<not> bw_protected tab \<and> \<not> bw_sticky tab \<longrightarrow>
         matchTabTarget parse tab (rq_targetUrl request) \<noteq> Inr None \<longrightarrow> rm_source m \<noteq> From_none)"
proof (intro conjI)
  from select obtain found where found: "collect (map (recyclable_match parse (rq_targetUrl request))
      (filter (\<lambda>tab. bw_reusable tab \<and> \<not> bw_protected tab \<and> \<not> bw_sticky tab) tabs)) = Inr found"
    and first: "first_of (js_sort (compareRecyclableMatches parse le) found) = Some m"
    by (auto simp: selectRecyclableTab_def bind_result_Inr_iff)
  note member = collect_map_member [OF found]
  note best = first_of_sorted [OF recyclable_preorder [OF le] first]
  have own: "rm_tab x = tab" if "recyclable_match parse (rq_targetUrl request) tab = Inr x" for tab x
    using that matchTabTarget_shows by (fastforce simp: recyclable_match_def bind_result_Inr_iff split: option.split_asm)
  from best member [of m] own show "rm_tab m \<in> set tabs" "bw_reusable (rm_tab m)" "\<not> bw_protected (rm_tab m)" "\<not> bw_sticky (rm_tab m)"
    by auto
  show "\<forall>tab \<in> set tabs. bw_reusable tab \<and> \<not> bw_protected tab \<and> \<not> bw_sticky tab \<longrightarrow>
    matchTabTarget parse tab (rq_targetUrl request) \<noteq> Inr None \<longrightarrow> rm_source m \<noteq> From_none"
  proof (intro ballI impI)
    fix tab assume tab: "tab \<in> set tabs" "bw_reusable tab \<and> \<not> bw_protected tab \<and> \<not> bw_sticky tab"
      and target: "matchTabTarget parse tab (rq_targetUrl request) \<noteq> Inr None"
    have "\<exists>x. recyclable_match parse (rq_targetUrl request) tab = Inr x"
    proof -
      have "recyclable_match parse (rq_targetUrl request) tab \<in> set (map (recyclable_match parse (rq_targetUrl request))
          (filter (\<lambda>tab. bw_reusable tab \<and> \<not> bw_protected tab \<and> \<not> bw_sticky tab) tabs))"
        using tab by simp
      then show ?thesis unfolding collect_all_Inr [OF found] by auto
    qed
    then obtain x where x: "recyclable_match parse (rq_targetUrl request) tab = Inr x" ..
    then have "rm_source x \<noteq> From_none" using target matchTabTarget_shows [of parse tab "rq_targetUrl request"]
      by (auto simp: recyclable_match_def bind_result_Inr_iff split: option.split_asm)
    moreover have "compareRecyclableMatches parse le m x" using best member [of x] tab x by auto
    ultimately show "rm_source m \<noteq> From_none" by (auto simp: compareRecyclableMatches_def recyclableRank_def split: if_split_asm)
  qed
qed

text \<open>
  C39. A reused tab fits the request. The tab that \<open>selectExactTabReuse\<close> returns is one of the given
  tabs with the requested purpose and flags, one of its URLs is in the document of the target, and
  it is the best of these tabs: no other has a better source, or the same and a later use. The
  tab that \<open>selectRecyclableTab\<close> returns is one of the given tabs and reusable, neither protected
  nor sticky; it is not one that shows no target while another reusable tab shows it.\<close>

theorem reused_tab_fits:
  assumes le: "total_preorder le"
  shows "(selectExactTabReuse parse le tabs request = Inr (Some m) \<longrightarrow>
      rm_tab m \<in> set tabs \<and> sameConfiguration (rm_tab m) request \<and> shows_document parse (rm_tab m) (rq_targetUrl request) \<and>
      (\<forall>tab \<in> set tabs. \<forall>m'. sameConfiguration tab request \<longrightarrow> matchTabTarget parse tab (rq_targetUrl request) = Inr (Some m') \<longrightarrow>
         sourceRank (rm_source m) < sourceRank (rm_source m') \<or>
         sourceRank (rm_source m) = sourceRank (rm_source m') \<and> bw_lastUsedAt tab \<le> bw_lastUsedAt (rm_tab m))) \<and>
    (selectRecyclableTab parse le tabs request = Inr (Some m) \<longrightarrow>
      rm_tab m \<in> set tabs \<and> bw_reusable (rm_tab m) \<and> \<not> bw_protected (rm_tab m) \<and> \<not> bw_sticky (rm_tab m) \<and>
      (\<forall>tab \<in> set tabs. bw_reusable tab \<and> \<not> bw_protected tab \<and> \<not> bw_sticky tab \<longrightarrow>
         matchTabTarget parse tab (rq_targetUrl request) \<noteq> Inr None \<longrightarrow> rm_source m \<noteq> From_none))"
  using exact_reuse_fits [OF le] recyclable_fits [OF le] by blast

definition demo_tab :: "string \<Rightarrow> string \<Rightarrow> BrowserTab" where
  "demo_tab tabId url =
     \<lparr>bw_tabId = tabId, bw_taskId = None, bw_lifecycle = None, bw_ownership = Mcp_owned, bw_purpose = ''x'', bw_reusable = True,
      bw_protected = False, bw_sticky = False, bw_createdAt = 0, bw_lastUsedAt = 0, bw_url = Some url, bw_requestedUrl = None,
      bw_title = None, bw_lockedUrl = None\<rparr>"

definition demo_reuse_url :: url_parser where
  "demo_reuse_url v = Some \<lparr>url_href = v, url_hrefWithoutHash = v, url_origin = v, url_protocol = ''https:'', url_username = [],
     url_password = [], url_search = [], url_hash = []\<rparr>"

definition demo_reuse_request :: BrowserTabReuseRequest where
  "demo_reuse_request = \<lparr>rq_targetUrl = ''b'', rq_purpose = ''x'', rq_reusable = True, rq_protected = False, rq_sticky = False\<rparr>"

theorem reused_tab_fits_witness:
  "\<exists>m. selectExactTabReuse demo_reuse_url (\<lambda>_ _. True) [demo_tab ''1'' ''a'', demo_tab ''2'' ''b''] demo_reuse_request = Inr (Some m) \<and>
    shows_document demo_reuse_url (rm_tab m) ''b''"
proof -
  have le: "total_preorder (\<lambda>_ _. True)" by (simp add: total_preorder_def)
  obtain m where m: "selectExactTabReuse demo_reuse_url (\<lambda>_ _. True) [demo_tab ''1'' ''a'', demo_tab ''2'' ''b''] demo_reuse_request =
      Inr (Some m)"
    by (simp add: selectExactTabReuse_def sameConfiguration_def matchTabTarget_def normalizeBrowserUrl_def browserDocumentIdentity_def
      new_URL_def same_document_def normalizedOptional_def current_match_def current_url_def or_default_def ABOUT_BLANK_URL_def
      demo_reuse_url_def demo_tab_def demo_reuse_request_def present_def js_sort_def first_of_def)
  from reused_tab_fits [OF le, of demo_reuse_url "[demo_tab ''1'' ''a'', demo_tab ''2'' ''b'']" demo_reuse_request m] m show ?thesis
    by (auto simp: demo_reuse_request_def)
qed

subsection \<open>Properties of the cache\<close>

lemma fold_delete_get:
  "js_get (fold (\<lambda>e. js_delete (f e)) es m) k = (if k \<in> f ` set es then None else js_get m k)"
  by (induction es arbitrary: m) auto

lemma fold_delete_keyed: "keyed f m \<Longrightarrow> keyed f (fold (\<lambda>e. js_delete (g e)) es m)"
  by (induction es arbitrary: m) (simp_all add: keyed_delete)

lemma distinct_map_insert_by: "distinct (map f (insert_by le x ys)) \<longleftrightarrow> f x \<notin> f ` set ys \<and> distinct (map f ys)"
  by (induction ys) auto

lemma distinct_map_js_sort: "distinct (map f (js_sort le xs)) = distinct (map f xs)"
proof (induction xs)
  case (Cons x xs)
  then show ?case using set_js_sort [of le xs] by (simp add: js_sort_def distinct_map_insert_by)
qed (simp add: js_sort_def)

lemma newest_first_simps [simp]: "set (newest_first es) = set es" "length (newest_first es) = length es"
  by (simp_all add: newest_first_def)

lemma newest_first_sorted: "sorted_wrt (\<lambda>l r. nc_lastUsedAt r \<le> nc_lastUsedAt l) (newest_first es)"
  unfolding newest_first_def by (rule sorted_js_sort) auto

definition live_entries :: "cache_env \<Rightarrow> instant \<Rightarrow> navigation_cache \<Rightarrow> navigation_cache" where
  "live_entries env now m = js_delete_where (\<lambda>e. nc_lastUsedAt e < now - ca_retentionMs env) m"

lemma live_entries_keyed: "keyed nc_cacheKey m \<Longrightarrow> keyed nc_cacheKey (live_entries env now m)"
  unfolding live_entries_def js_delete_where_def by (rule keyed_filter)

lemma live_entries_get:
  "js_wf m \<Longrightarrow> js_get (live_entries env now m) k = Some e \<longleftrightarrow> js_get m k = Some e \<and> now - ca_retentionMs env \<le> nc_lastUsedAt e"
  by (auto simp: live_entries_def js_get_delete_where split: option.split)

lemma cache_prune_keyed: "keyed nc_cacheKey m \<Longrightarrow> keyed nc_cacheKey (cache_prune env now m)"
  by (simp add: cache_prune_def Let_def live_entries_def [symmetric] live_entries_keyed fold_delete_keyed)

text \<open>The entries that a pruning keeps are the newest live ones, as many as fit.\<close>

lemma cache_prune_get:
  assumes "keyed nc_cacheKey m"
  shows "js_get (cache_prune env now m) k = Some e \<longleftrightarrow>
    e \<in> set (take (ca_maxEntries env) (newest_first (js_values (live_entries env now m)))) \<and> nc_cacheKey e = k"
proof -
  let ?m = "live_entries env now m"
  let ?s = "newest_first (js_values ?m)"
  note k = live_entries_keyed [OF assms, of env now]
  have "distinct (map nc_cacheKey ?s)" using keyed_distinct [OF k] by (simp add: newest_first_def distinct_map_js_sort)
  then have "distinct (map nc_cacheKey (take (ca_maxEntries env) ?s) @ map nc_cacheKey (drop (ca_maxEntries env) ?s))"
    by (metis append_take_drop_id map_append)
  then have disj: "nc_cacheKey ` set (take (ca_maxEntries env) ?s) \<inter> nc_cacheKey ` set (drop (ca_maxEntries env) ?s) = {}"
    by (simp del: map_append)
  have split: "set ?s = set (take (ca_maxEntries env) ?s) \<union> set (drop (ca_maxEntries env) ?s)"
    by (metis append_take_drop_id set_append)
  have get: "js_get ?m k = Some e \<longleftrightarrow> e \<in> set ?s \<and> nc_cacheKey e = k"
    using keyed_member [OF k, of e] k by (auto simp: keyed_def)
  show ?thesis
    unfolding cache_prune_def Let_def live_entries_def [symmetric] fold_delete_get
    using get split disj by (auto split: if_split_asm)
qed

lemma cache_prune_length:
  assumes "keyed nc_cacheKey m"
  shows "length (cache_prune env now m) \<le> ca_maxEntries env"
proof -
  let ?t = "take (ca_maxEntries env) (newest_first (js_values (live_entries env now m)))"
  have "set (map fst (cache_prune env now m)) \<subseteq> set (map nc_cacheKey ?t)"
  proof
    fix k assume "k \<in> set (map fst (cache_prune env now m))"
    then obtain e where "(k, e) \<in> set (cache_prune env now m)" by auto
    then have "js_get (cache_prune env now m) k = Some e"
      using js_in_set_get [of "cache_prune env now m" k e] cache_prune_keyed [OF assms, of env now] by (simp add: keyed_def)
    then have "e \<in> set ?t" "nc_cacheKey e = k" using cache_prune_get [OF assms, of env now k e] by simp_all
    then show "k \<in> set (map nc_cacheKey ?t)" by auto
  qed
  then have "card (set (map fst (cache_prune env now m))) \<le> card (set (map nc_cacheKey ?t))" by (rule card_mono [rotated]) simp
  also have "\<dots> \<le> length ?t" using card_length [of "map nc_cacheKey ?t"] by simp
  finally show ?thesis
    using cache_prune_keyed [OF assms, of env now] distinct_card [of "map fst (cache_prune env now m)"] by (simp add: keyed_def js_wf_def)
qed

text \<open>A cache that is within its bounds at an instant is not changed by a pruning then.\<close>

lemma cache_prune_id:
  assumes "keyed nc_cacheKey m" "length m \<le> ca_maxEntries env" "\<And>e. e \<in> set (js_values m) \<Longrightarrow> now - ca_retentionMs env \<le> nc_lastUsedAt e"
  shows "cache_prune env now m = m"
proof -
  have "js_delete_where (\<lambda>e. nc_lastUsedAt e < now - ca_retentionMs env) m = m"
    unfolding js_delete_where_def using assms(3) by (force intro: filter_True)
  then show ?thesis using assms(2) by (simp add: cache_prune_def Let_def)
qed

text \<open>The calls on a cache.\<close>

datatype cache_op =
    Cache_resolve instant string
  | Cache_record instant bool cache_input
  | Cache_list instant
  | Cache_save instant

fun cache_step :: "cache_env \<Rightarrow> (string \<Rightarrow> bool) \<Rightarrow> cache_op \<Rightarrow> navigation_cache \<Rightarrow> unit \<times> navigation_cache" where
  "cache_step env is_url (Cache_resolve now purpose) m = ((), snd (cache_resolve env now purpose m))"
| "cache_step env is_url (Cache_record now closed input) m = ((), snd (cache_record env now closed input m))"
| "cache_step env is_url (Cache_list now) m = ((), snd (cache_list env now m))"
| "cache_step env is_url (Cache_save now) m = ((), snd (cache_save env is_url now m))"

definition cache_ok :: "cache_env \<Rightarrow> navigation_cache \<Rightarrow> bool" where
  "cache_ok env m \<longleftrightarrow> keyed nc_cacheKey m \<and> length m \<le> ca_maxEntries env"

lemma cache_prune_ok: "keyed nc_cacheKey m \<Longrightarrow> cache_ok env (cache_prune env now m)"
  by (simp add: cache_ok_def cache_prune_keyed cache_prune_length)

lemma cache_step_ok: "cache_ok env m \<Longrightarrow> cache_ok env (snd (cache_step env is_url p m))"
proof -
  assume ok: "cache_ok env m"
  then have k: "keyed nc_cacheKey m" by (simp add: cache_ok_def)
  have entry: "keyed nc_cacheKey (js_set key (cache_entry now closed key url input current) m)" for key now closed url input current
    by (rule keyed_set [OF k]) (simp add: cache_entry_def)
  show ?thesis
    using ok by (cases p) (auto simp: cache_resolve_def cache_record_def cache_list_def cache_save_def Let_def entry k
      cache_prune_keyed cache_prune_ok split: sum.split)
qed

lemma cache_load_ok: "cache_load env is_url now entries = Inr m \<Longrightarrow> cache_ok env m"
  by (auto simp: cache_load_def split: if_split_asm intro!: cache_prune_ok fold_set_keyed) (simp add: keyed_def)

text \<open>Storing the entries of a pruned cache in any order and pruning again gives the cache back.\<close>

lemma reloaded_cache:
  assumes k: "keyed nc_cacheKey m" and same: "cache_prune env now m = m" and entries: "entries = newest_first (js_values m)"
  shows "js_get (cache_prune env now (fold (\<lambda>e m. js_set (nc_cacheKey e) e m) entries [])) = js_get m"
proof -
  let ?f = "fold (\<lambda>e m. js_set (nc_cacheKey e) e m) entries []"
  have dist: "distinct (map nc_cacheKey entries)"
    using keyed_distinct [OF k] by (simp add: entries newest_first_def distinct_map_js_sort)
  have kf: "keyed nc_cacheKey ?f" by (rule fold_set_keyed) (simp add: keyed_def)
  have get: "js_get ?f x = js_get m x" for x
  proof -
    have "js_get ?f x = Some e \<longleftrightarrow> js_get m x = Some e" for e
    proof
      assume "js_get ?f x = Some e"
      then have "e \<in> set entries" "nc_cacheKey e = x" using map_by_Some [of nc_cacheKey entries x e] by (auto simp: fold_set_get split: option.split_asm)
      then show "js_get m x = Some e" using keyed_member [OF k, of e] by (simp add: entries)
    next
      assume e: "js_get m x = Some e"
      then have "nc_cacheKey e = x" using k by (simp add: keyed_def)
      with e keyed_member [OF k, of e] have "e \<in> set entries" by (simp add: entries)
      with map_by_distinct [OF dist this] \<open>nc_cacheKey e = x\<close> show "js_get ?f x = Some e" by (simp add: fold_set_get)
    qed
    then show ?thesis by (metis not_None_eq)
  qed
  have live: "now - ca_retentionMs env \<le> nc_lastUsedAt e" if "js_get m x = Some e" for x e
    using that cache_prune_get [OF k, of env now x e] same live_entries_get [of m env now x e] keyed_member [OF live_entries_keyed [OF k], of e env now] k
    by (auto simp: keyed_def dest!: in_set_takeD)
  have "length ?f = length m"
    using distinct_card [of "map fst ?f"] distinct_card [of "map fst m"] kf k get
    by (metis (no_types, lifting) dom_map_of_conv_image_fst ext keyed_def js_wf_def length_map list.set_map)
  then have "cache_prune env now ?f = ?f"
    using cache_prune_length [OF k, of env now] same live get keyed_member [OF kf]
    by (intro cache_prune_id [OF kf]) auto
  then show ?thesis using get by auto
qed


definition demo_cache_env :: cache_env where
  "demo_cache_env = \<lparr>ca_url = demo_reuse_url, ca_sha256 = (\<lambda>s. replicate 64 (last s)), ca_maxEntries = 1, ca_retentionMs = 100\<rparr>"

definition demo_cache_input :: "string \<Rightarrow> cache_input" where
  "demo_cache_input url = \<lparr>ci_url = Some url, ci_requestedUrl = None, ci_purpose = ''x'', ci_title = None\<rparr>"


end
