(* ===== verification/Browser_Idempotency.thy ===== *)
theory Browser_Idempotency
  imports Prelude
begin

text \<open>
  The idempotency registry of the browser worker,
  \<open>services/browser-worker/services/browser-idempotency-registry.ts\<close>.

  The promise of an entry is the number of the operation that it starts; the operation settles
  in a later event, which marks the entry object. \<open>expiresAt\<close> is \<open>None\<close> for positive infinity.
  The callback \<open>onDisposition\<close>, whose exceptions are dropped, is the list of the dispositions it
  was called with.
\<close>

datatype BrowserIdempotencyDisposition = Hit | Miss | Conflict | Capacity | Expiration

record IdempotencyEntry =
  ie_fingerprint :: string
  ie_expiresAt :: "instant option"
  ie_settled :: bool
  ie_value :: nat

record idempotency_registry =
  ir_entries :: "(string, IdempotencyEntry) jsmap"
  ir_ttlMs :: int
  ir_maxEntries :: int
  ir_hits :: nat
  ir_misses :: nat
  ir_conflicts :: nat
  ir_evictions :: nat
  ir_expirations :: nat
  ir_observed :: "BrowserIdempotencyDisposition list"

definition DEFAULT_IDEMPOTENCY_TTL_MS :: int where
  "DEFAULT_IDEMPOTENCY_TTL_MS = 5 * 60 * 1000"

definition DEFAULT_MAX_ENTRIES :: int where
  "DEFAULT_MAX_ENTRIES = 4096"

definition idempotency_new :: "int option \<Rightarrow> int option \<Rightarrow> idempotency_registry" where
  "idempotency_new ttlMs maxEntries =
     \<lparr>ir_entries = [],
      ir_ttlMs = (case ttlMs of None \<Rightarrow> DEFAULT_IDEMPOTENCY_TTL_MS | Some n \<Rightarrow> n),
      ir_maxEntries = (case maxEntries of None \<Rightarrow> DEFAULT_MAX_ENTRIES | Some n \<Rightarrow> n),
      ir_hits = 0, ir_misses = 0, ir_conflicts = 0, ir_evictions = 0, ir_expirations = 0, ir_observed = []\<rparr>"

definition observe :: "BrowserIdempotencyDisposition \<Rightarrow> idempotency_registry \<Rightarrow> idempotency_registry" where
  "observe disposition r = r\<lparr>ir_observed := ir_observed r @ [disposition]\<rparr>"

definition entry_expired :: "instant \<Rightarrow> IdempotencyEntry \<Rightarrow> bool" where
  "entry_expired now entry \<longleftrightarrow>
     ie_settled entry \<and> (case ie_expiresAt entry of None \<Rightarrow> False | Some t \<Rightarrow> t \<le> now)"

definition prune_entries :: "instant \<Rightarrow> idempotency_registry \<Rightarrow> idempotency_registry" where
  "prune_entries now r =
     (let expired = length (filter (entry_expired now) (js_values (ir_entries r))) in
      r\<lparr>ir_entries := js_delete_where (entry_expired now) (ir_entries r),
        ir_expirations := ir_expirations r + expired,
        ir_observed := ir_observed r @ replicate expired Expiration\<rparr>)"

definition ensureCapacity :: "idempotency_registry \<Rightarrow> unit result \<times> idempotency_registry" where
  "ensureCapacity r =
     (if int (length (ir_entries r)) < ir_maxEntries r then (Inr (), r)
      else (Inl (AppError LIMIT_EXCEEDED
              ''The browser idempotency registry is at capacity with unexpired operations.''),
            observe Capacity r))"

text \<open>
  What \<open>run\<close> does with the operation: it runs without an entry, it is shared with the operation
  of an earlier call, or it starts under the given number.
\<close>

datatype run_outcome = Run_directly | Run_shared nat | Run_started nat

definition run_idempotent ::
  "instant \<Rightarrow> nat \<Rightarrow> string option \<Rightarrow> string \<Rightarrow> idempotency_registry \<Rightarrow> run_outcome result \<times> idempotency_registry" where
  "run_idempotent now newId key fingerprint r =
     (case key of
        Some (c # cs) \<Rightarrow>
          (let r1 = prune_entries now r in
           case js_get (ir_entries r1) (c # cs) of
             Some existing \<Rightarrow>
               if ie_fingerprint existing \<noteq> fingerprint then
                 (Inl (AppError IDEMPOTENCY_KEY_CONFLICT
                    ''The idempotency key is already associated with a different browser operation fingerprint.''),
                  observe Conflict (r1\<lparr>ir_conflicts := ir_conflicts r1 + 1\<rparr>))
               else (Inr (Run_shared (ie_value existing)), observe Hit (r1\<lparr>ir_hits := ir_hits r1 + 1\<rparr>))
           | None \<Rightarrow>
               (case ensureCapacity r1 of
                  (Inl e, r2) \<Rightarrow> (Inl e, r2)
                | (Inr u, r2) \<Rightarrow>
                    let r3 = observe Miss (r2\<lparr>ir_misses := ir_misses r2 + 1\<rparr>);
                        entry = \<lparr>ie_fingerprint = fingerprint, ie_expiresAt = None, ie_settled = False, ie_value = newId\<rparr>
                    in (Inr (Run_started newId), r3\<lparr>ir_entries := js_set (c # cs) entry (ir_entries r3)\<rparr>)))
      | _ \<Rightarrow> (Inr Run_directly, r))"

text \<open>The operation with this number returned or threw: its entry object is marked.\<close>

definition settle_entry :: "instant \<Rightarrow> int \<Rightarrow> IdempotencyEntry \<Rightarrow> IdempotencyEntry" where
  "settle_entry now ttlMs entry = entry\<lparr>ie_settled := True, ie_expiresAt := Some (now + ttlMs)\<rparr>"

definition settle_operation :: "instant \<Rightarrow> nat \<Rightarrow> idempotency_registry \<Rightarrow> idempotency_registry" where
  "settle_operation now operation r =
     r\<lparr>ir_entries := map (\<lambda>(k, entry).
         (k, if ie_value entry = operation then settle_entry now (ir_ttlMs r) entry else entry)) (ir_entries r)\<rparr>"

record BrowserIdempotencyMetrics =
  im_entries :: nat
  im_hits :: nat
  im_misses :: nat
  im_conflicts :: nat
  im_evictions :: nat
  im_expirations :: nat

definition idempotency_snapshot ::
  "instant \<Rightarrow> idempotency_registry \<Rightarrow> BrowserIdempotencyMetrics \<times> idempotency_registry" where
  "idempotency_snapshot now r =
     (let r1 = prune_entries now r in
      (\<lparr>im_entries = length (ir_entries r1), im_hits = ir_hits r1, im_misses = ir_misses r1,
        im_conflicts = ir_conflicts r1, im_evictions = ir_evictions r1, im_expirations = ir_expirations r1\<rparr>, r1))"

subsection \<open>Sequences of events\<close>

text \<open>
  Calls of \<open>run\<close>, settlements and snapshots. The operation that a call may start has the
  position of the call as its number.
\<close>

datatype idem_event =
    Run_call instant "string option" string
  | Settled instant nat
  | Snapshot instant

fun idem_step :: "nat \<Rightarrow> idem_event \<Rightarrow> idempotency_registry \<Rightarrow> run_outcome result option \<times> idempotency_registry" where
  "idem_step i (Run_call now key fingerprint) r =
     (Some (fst (run_idempotent now i key fingerprint r)), snd (run_idempotent now i key fingerprint r))"
| "idem_step i (Settled now operation) r = (None, settle_operation now operation r)"
| "idem_step i (Snapshot now) r = (None, snd (idempotency_snapshot now r))"

text \<open>The registry before the event at a position.\<close>

fun idem_state :: "idempotency_registry \<Rightarrow> idem_event list \<Rightarrow> nat \<Rightarrow> idempotency_registry" where
  "idem_state r events 0 = r"
| "idem_state r events (Suc i) = snd (idem_step i (events ! i) (idem_state r events i))"

definition idem_output :: "idempotency_registry \<Rightarrow> idem_event list \<Rightarrow> nat \<Rightarrow> run_outcome result option" where
  "idem_output r events i = fst (idem_step i (events ! i) (idem_state r events i))"

text \<open>The operation \<open>i\<close> was started under this key.\<close>

definition started_under :: "idempotency_registry \<Rightarrow> idem_event list \<Rightarrow> nat \<Rightarrow> string \<Rightarrow> string \<Rightarrow> bool" where
  "started_under r events i key fingerprint \<longleftrightarrow>
     (\<exists>now. events ! i = Run_call now (Some key) fingerprint) \<and> idem_output r events i = Some (Inr (Run_started i))"

subsection \<open>The entries\<close>

lemma prune_entries_fields [simp]:
  "ir_entries (prune_entries now r) = js_delete_where (entry_expired now) (ir_entries r)"
  "ir_ttlMs (prune_entries now r) = ir_ttlMs r" "ir_maxEntries (prune_entries now r) = ir_maxEntries r"
  by (simp_all add: prune_entries_def Let_def)

lemma observe_fields [simp]:
  "ir_entries (observe d r) = ir_entries r" "ir_ttlMs (observe d r) = ir_ttlMs r" "ir_maxEntries (observe d r) = ir_maxEntries r"
  by (simp_all add: observe_def)

lemma ensureCapacity_fields [simp]:
  "ir_entries (snd (ensureCapacity r)) = ir_entries r" "ir_ttlMs (snd (ensureCapacity r)) = ir_ttlMs r"
  "ir_maxEntries (snd (ensureCapacity r)) = ir_maxEntries r"
  by (simp_all add: ensureCapacity_def)

lemma js_delete_where_length: "length (js_delete_where p m) \<le> length m"
  by (simp add: js_delete_where_def)

lemma idem_step_limits [simp]:
  "ir_ttlMs (snd (idem_step i e r)) = ir_ttlMs r" "ir_maxEntries (snd (idem_step i e r)) = ir_maxEntries r"
  by (cases e; auto simp: run_idempotent_def idempotency_snapshot_def settle_operation_def ensureCapacity_def Let_def
      split: option.splits list.splits if_splits)+

lemma idem_state_limits [simp]:
  "ir_ttlMs (idem_state r events i) = ir_ttlMs r" "ir_maxEntries (idem_state r events i) = ir_maxEntries r"
  by (induction i) auto


fun prune_time :: "idem_event \<Rightarrow> instant option" where
  "prune_time (Run_call now (Some (c # cs)) fingerprint) = Some now"
| "prune_time (Run_call now key fingerprint) = None"
| "prune_time (Snapshot now) = Some now"
| "prune_time (Settled now operation) = None"

text \<open>Operation \<open>j\<close> settled, and a later event before \<open>i\<close> came at or after its expiry.\<close>

definition expired_before :: "int \<Rightarrow> idem_event list \<Rightarrow> nat \<Rightarrow> nat \<Rightarrow> bool" where
  "expired_before ttlMs events j i \<longleftrightarrow>
     (\<exists>s t p now. j < s \<and> s < p \<and> p < i \<and> events ! s = Settled t j \<and> prune_time (events ! p) = Some now \<and> t + ttlMs \<le> now)"

lemma expired_before_Suc: "expired_before ttlMs events j i \<Longrightarrow> expired_before ttlMs events j (Suc i)"
  unfolding expired_before_def using less_SucI by blast

definition entry_of :: "int \<Rightarrow> idem_event list \<Rightarrow> nat \<Rightarrow> nat \<Rightarrow> string \<Rightarrow> IdempotencyEntry \<Rightarrow> bool" where
  "entry_of ttlMs events i j fingerprint entry \<longleftrightarrow>
     ie_value entry = j \<and> ie_fingerprint entry = fingerprint \<and>
     (ie_settled entry \<longrightarrow> (\<exists>s t. j < s \<and> s < i \<and> events ! s = Settled t j \<and> ie_expiresAt entry = Some (t + ttlMs)))"

lemma entry_of_Suc: "entry_of ttlMs events i j f entry \<Longrightarrow> entry_of ttlMs events (Suc i) j f entry"
  unfolding entry_of_def using less_SucI by blast

lemma entry_of_expired:
  assumes "entry_of ttlMs events i j f entry" "entry_expired now entry" "prune_time (events ! i) = Some now"
  shows "expired_before ttlMs events j (Suc i)"
  using assms unfolding entry_of_def entry_expired_def expired_before_def by fastforce

text \<open>The entries after an event that prunes, up to a new one.\<close>

lemma run_started_entries:
  assumes "fst (run_idempotent now newId key f r) = Inr (Run_started n)"
  shows "ir_entries (snd (run_idempotent now newId key f r)) =
    js_set (the key) \<lparr>ie_fingerprint = f, ie_expiresAt = None, ie_settled = False, ie_value = newId\<rparr>
      (js_delete_where (entry_expired now) (ir_entries r))"
  using assms
  by (auto simp: run_idempotent_def ensureCapacity_def Let_def split: option.splits list.splits if_splits)

lemma run_other_entries:
  assumes "\<And>n. fst (run_idempotent now newId key f r) \<noteq> Inr (Run_started n)"
  shows "ir_entries (snd (run_idempotent now newId key f r)) =
    (if key \<in> {None, Some []} then ir_entries r else js_delete_where (entry_expired now) (ir_entries r))"
  using assms [of newId]
  by (auto simp: run_idempotent_def ensureCapacity_def Let_def split: option.splits list.splits if_splits)

lemma run_idempotent_started:
  assumes "fst (run_idempotent now newId key f r) = Inr (Run_started n)"
  shows "n = newId \<and> key \<noteq> None \<and> key \<noteq> Some [] \<and>
    js_get (js_delete_where (entry_expired now) (ir_entries r)) (the key) = None \<and>
    int (length (js_delete_where (entry_expired now) (ir_entries r))) < ir_maxEntries r"
  using assms
  by (auto simp: run_idempotent_def ensureCapacity_def Let_def split: option.splits list.splits if_splits)

lemma run_idempotent_shared:
  assumes "fst (run_idempotent now newId key f r) = Inr (Run_shared n)"
  shows "\<exists>k entry. key = Some k \<and> js_get (js_delete_where (entry_expired now) (ir_entries r)) k = Some entry \<and>
    ie_fingerprint entry = f \<and> ie_value entry = n"
  using assms
  by (auto simp: run_idempotent_def ensureCapacity_def Let_def split: option.splits list.splits if_splits)

lemma settle_operation_get:
  "js_get (ir_entries (settle_operation now operation r)) k =
   map_option (\<lambda>entry. if ie_value entry = operation then settle_entry now (ir_ttlMs r) entry else entry)
     (js_get (ir_entries r) k)"
  by (simp add: settle_operation_def map_of_map comp_def)

lemma run_idempotent_wf: "js_wf (ir_entries r) \<Longrightarrow> js_wf (ir_entries (snd (run_idempotent now i key f r)))"
  using run_started_entries [of now i key f r] run_other_entries [of now i key f r]
  by (cases "\<exists>n. fst (run_idempotent now i key f r) = Inr (Run_started n)") (auto simp: js_wf_intros)

lemma idem_step_wf: "js_wf (ir_entries r) \<Longrightarrow> js_wf (ir_entries (snd (idem_step i e r)))"
  by (cases e)
    (auto simp: run_idempotent_wf idempotency_snapshot_def settle_operation_def js_wf_delete_where Let_def,
     simp add: js_wf_def comp_def case_prod_unfold)

lemma idem_state_wf: "js_wf (ir_entries r) \<Longrightarrow> js_wf (ir_entries (idem_state r events i))"
  by (induction i) (auto simp: idem_step_wf)

lemma run_idempotent_keeps:
  assumes kept: "js_get (js_delete_where (entry_expired now) (ir_entries r)) k = Some entry" and key: "key \<notin> {None, Some []}"
  shows "js_get (ir_entries (snd (run_idempotent now i key f r))) k = Some entry"
proof (cases "\<exists>n. fst (run_idempotent now i key f r) = Inr (Run_started n)")
  case True
  then obtain n where n: "fst (run_idempotent now i key f r) = Inr (Run_started n)" by blast
  with kept run_idempotent_started [OF n] have "k \<noteq> the key" by auto
  with kept show ?thesis by (simp add: run_started_entries [OF n])
next
  case False
  then show ?thesis using kept key run_other_entries [of now i key f r] by auto
qed

text \<open>An entry that is pruned at an event, kept, or settled there.\<close>

lemma kept_or_expired:
  assumes "js_wf m" "js_get m k = Some entry" "entry_of ttlMs events i j f entry" "prune_time (events ! i) = Some now"
  shows "js_get (js_delete_where (entry_expired now) m) k = Some entry \<or> expired_before ttlMs events j (Suc i)"
  using assms entry_of_expired by (auto simp: js_get_delete_where)

lemma entry_step:
  assumes wf: "js_wf (ir_entries r)" and entry: "js_get (ir_entries r) k = Some entry"
    and own: "entry_of (ir_ttlMs r) events i j f entry" and "j < i"
  shows "(\<exists>entry'. js_get (ir_entries (snd (idem_step i (events ! i) r))) k = Some entry' \<and>
       entry_of (ir_ttlMs r) events (Suc i) j f entry') \<or> expired_before (ir_ttlMs r) events j (Suc i)"
proof (cases "events ! i")
  case (Settled now operation)
  let ?e = "if ie_value entry = operation then settle_entry now (ir_ttlMs r) entry else entry"
  have "js_get (ir_entries (snd (idem_step i (events ! i) r))) k = Some ?e"
    using Settled entry by (simp add: settle_operation_get)
  moreover have "entry_of (ir_ttlMs r) events (Suc i) j f ?e"
    using own Settled \<open>j < i\<close> entry_of_Suc [OF own] by (auto simp: entry_of_def settle_entry_def)
  ultimately show ?thesis by blast
next
  case (Snapshot now)
  with kept_or_expired [OF wf entry own, of now] show ?thesis
    using entry_of_Suc [OF own] by (auto simp: idempotency_snapshot_def Let_def)
next
  case (Run_call now key fingerprint)
  let ?m = "js_delete_where (entry_expired now) (ir_entries r)"
  show ?thesis
  proof (cases "key \<in> {None, Some []}")
    case True
    then have "ir_entries (snd (idem_step i (events ! i) r)) = ir_entries r"
      using Run_call by (auto simp: run_idempotent_def)
    with entry entry_of_Suc [OF own] show ?thesis by auto
  next
    case False
    then obtain c cs where "key = Some (c # cs)" by (cases key; cases "the key") auto
    with Run_call have "prune_time (events ! i) = Some now" by simp
    from kept_or_expired [OF wf entry own this] show ?thesis
    proof
      assume kept: "js_get ?m k = Some entry"
      have "js_get (ir_entries (snd (run_idempotent now i key fingerprint r))) k = Some entry"
        using kept False by (rule run_idempotent_keeps)
      with Run_call entry_of_Suc [OF own] show ?thesis by (auto simp: case_prod_unfold)
    qed simp
  qed
qed


lemma idem_output_Run:
  "events ! i = Run_call now key f \<Longrightarrow> idem_output r events i = Some (fst (run_idempotent now i key f (idem_state r events i)))"
  by (simp add: idem_output_def case_prod_unfold)

text \<open>A started operation has its entry until it has expired.\<close>

lemma started_entry:
  assumes "ir_entries r = []" "started_under r events j k f" "j < i"
  shows "(\<exists>entry. js_get (ir_entries (idem_state r events i)) k = Some entry \<and> entry_of (ir_ttlMs r) events i j f entry) \<or>
    expired_before (ir_ttlMs r) events j i"
  using \<open>j < i\<close>
proof (induction i)
  case (Suc i)
  have wf: "js_wf (ir_entries (idem_state r events i))" using assms(1) by (simp add: idem_state_wf)
  show ?case
  proof (cases "i = j")
    case True
    from assms(2) obtain now where call: "events ! j = Run_call now (Some k) f"
      and out: "fst (run_idempotent now j (Some k) f (idem_state r events j)) = Inr (Run_started j)"
      by (auto simp: started_under_def idem_output_Run)
    then have "js_get (ir_entries (idem_state r events (Suc i))) k =
        Some \<lparr>ie_fingerprint = f, ie_expiresAt = None, ie_settled = False, ie_value = j\<rparr>"
      using True by (simp add: run_started_entries)
    then show ?thesis by (simp add: entry_of_def)
  next
    case False
    with Suc.prems have "j < i" by simp
    from Suc.IH [OF this] show ?thesis
    proof
      assume "\<exists>entry. js_get (ir_entries (idem_state r events i)) k = Some entry \<and> entry_of (ir_ttlMs r) events i j f entry"
      then obtain entry where "js_get (ir_entries (idem_state r events i)) k = Some entry"
        "entry_of (ir_ttlMs (idem_state r events i)) events i j f entry" by auto
      from entry_step [OF wf this \<open>j < i\<close>] show ?thesis by simp
    qed (simp add: expired_before_Suc)
  qed
qed simp

lemma entry_started:
  assumes "ir_entries r = []" "js_get (ir_entries (idem_state r events i)) k = Some entry"
  shows "ie_value entry < i \<and> started_under r events (ie_value entry) k (ie_fingerprint entry)"
  using assms(2)
proof (induction i arbitrary: entry)
  case (Suc i)
  have wf: "js_wf (ir_entries (idem_state r events i))" using assms(1) by (simp add: idem_state_wf)
  have old: "ie_value e < Suc i \<and> started_under r events (ie_value e) k (ie_fingerprint e)"
    if "js_get (ir_entries (idem_state r events i)) k = Some e" for e
    using Suc.IH [OF that] by simp
  have pruned: "js_get (ir_entries (idem_state r events i)) k = Some e"
    if "js_get (js_delete_where (entry_expired now) (ir_entries (idem_state r events i))) k = Some e" for e now
    using that wf by (auto simp: js_get_delete_where split: option.splits if_splits)
  show ?case
  proof (cases "events ! i")
    case (Settled now operation)
    with Suc.prems obtain e where "js_get (ir_entries (idem_state r events i)) k = Some e"
      "ie_value entry = ie_value e" "ie_fingerprint entry = ie_fingerprint e"
      by (auto simp: settle_operation_get settle_entry_def split: if_splits)
    with old show ?thesis by simp
  next
    case (Snapshot now)
    with Suc.prems pruned old show ?thesis by (auto simp: idempotency_snapshot_def Let_def)
  next
    case (Run_call now key f)
    let ?out = "fst (run_idempotent now i key f (idem_state r events i))"
    show ?thesis
    proof (cases "?out = Inr (Run_started i) \<and> key = Some k")
      case True
      then have out: "?out = Inr (Run_started i)" "key = Some k" by auto
      then have "started_under r events i k f" using Run_call by (simp add: started_under_def idem_output_Run)
      moreover have "ie_value entry = i" "ie_fingerprint entry = f"
        using Suc.prems Run_call out(2) run_started_entries [OF out(1)] by auto
      ultimately show ?thesis by simp
    next
      case False
      have "js_get (ir_entries (idem_state r events i)) k = Some entry"
      proof (cases "\<exists>n. ?out = Inr (Run_started n)")
        case True
        then obtain n where n: "?out = Inr (Run_started n)" by blast
        with False run_idempotent_started [OF n] have "the key \<noteq> k" by auto
        then show ?thesis using Suc.prems Run_call pruned run_started_entries [OF n] by auto
      next
        case False
        then show ?thesis
          using Suc.prems Run_call pruned run_other_entries [of now i key f "idem_state r events i"]
          by (auto split: if_splits)
      qed
      with old show ?thesis by simp
    qed
  qed
qed (simp add: assms(1))

lemma entries_bounded:
  assumes "ir_entries r = []" "0 \<le> ir_maxEntries r"
  shows "int (length (ir_entries (idem_state r events i))) \<le> ir_maxEntries r"
proof (induction i)
  case (Suc i)
  let ?r = "idem_state r events i"
  have pruned: "int (length (js_delete_where p (ir_entries ?r))) \<le> ir_maxEntries r" for p
    using Suc js_delete_where_length [of p "ir_entries ?r"] by linarith
  show ?case
  proof (cases "events ! i")
    case (Run_call now key f)
    show ?thesis
    proof (cases "\<exists>n. fst (run_idempotent now i key f ?r) = Inr (Run_started n)")
      case True
      then obtain n where n: "fst (run_idempotent now i key f ?r) = Inr (Run_started n)" by blast
      from run_idempotent_started [OF n] show ?thesis
        using Run_call by (simp add: run_started_entries [OF n] js_set_length)
    next
      case False
      then show ?thesis
        using Suc pruned Run_call run_other_entries [of now i key f ?r] by auto
    qed
  qed (use Suc pruned in \<open>simp_all add: settle_operation_def idempotency_snapshot_def Let_def\<close>)
qed (use assms in simp)

subsection \<open>Properties\<close>

text \<open>
  C18. A browser operation runs once per idempotency key. Over any sequence of calls,
  settlements and snapshots on a new registry, an operation is started a second time under a key
  only after the first one has settled and a later call came at least \<open>ttlMs\<close> after that; a
  call that is answered from the registry shares the operation of an earlier call with the same
  key and fingerprint; and the registry never holds more than \<open>maxEntries\<close> entries.\<close>

theorem browser_operation_once_per_key:
  assumes "r = idempotency_new ttlMs maxEntries" and "0 \<le> ir_maxEntries r"
  shows "(\<forall>i j k f g. i < j \<and> started_under r events i k f \<and> started_under r events j k g \<longrightarrow>
      expired_before (ir_ttlMs r) events i (Suc j)) \<and>
    (\<forall>i j now k f. events ! i = Run_call now (Some k) f \<and> idem_output r events i = Some (Inr (Run_shared j)) \<longrightarrow>
      j < i \<and> started_under r events j k f) \<and>
    (\<forall>i. int (length (ir_entries (idem_state r events i))) \<le> ir_maxEntries r)"
proof (intro conjI allI impI)
  have empty: "ir_entries r = []" using assms(1) by (simp add: idempotency_new_def)
  show "int (length (ir_entries (idem_state r events i))) \<le> ir_maxEntries r" for i
    by (rule entries_bounded [OF empty assms(2)])
  have wf: "js_wf (ir_entries (idem_state r events i))" for i using empty by (simp add: idem_state_wf)
  show "expired_before (ir_ttlMs r) events i (Suc j)"
    if "i < j \<and> started_under r events i k f \<and> started_under r events j k g" for i j k f g
  proof -
    from that obtain now where call: "events ! j = Run_call now (Some k) g"
      and out: "fst (run_idempotent now j (Some k) g (idem_state r events j)) = Inr (Run_started j)"
      by (auto simp: started_under_def idem_output_Run)
    from run_idempotent_started [OF out] have k: "k \<noteq> []"
      "js_get (js_delete_where (entry_expired now) (ir_entries (idem_state r events j))) k = None" by auto
    then have prune: "prune_time (events ! j) = Some now" using call by (cases k) auto
    from started_entry [OF empty, of events i k f j] that show ?thesis
      using kept_or_expired [OF wf _ _ prune] k(2) expired_before_Suc by (metis option.distinct(1))
  qed
  show "j < i" "started_under r events j k f"
    if "events ! i = Run_call now (Some k) f \<and> idem_output r events i = Some (Inr (Run_shared j))" for i j now k f
  proof -
    from that have "fst (run_idempotent now i (Some k) f (idem_state r events i)) = Inr (Run_shared j)"
      by (auto simp: idem_output_Run)
    from run_idempotent_shared [OF this] obtain entry where
      "js_get (ir_entries (idem_state r events i)) k = Some entry" "ie_fingerprint entry = f" "ie_value entry = j"
      using wf by (auto simp: js_get_delete_where split: option.splits if_splits)
    with entry_started [OF empty] show "j < i" "started_under r events j k f" by auto
  qed
qed

theorem browser_operation_once_per_key_witness:
  "let r = idempotency_new (Some 100) None;
       events = [Run_call 1 (Some ''k'') ''f'', Run_call 2 (Some ''k'') ''f'', Settled 3 0, Run_call 103 (Some ''k'') ''f'']
   in started_under r events 0 ''k'' ''f'' \<and> idem_output r events 1 = Some (Inr (Run_shared 0)) \<and>
      started_under r events 3 ''k'' ''f'' \<and> expired_before 100 events 0 4"
proof -
  let ?r = "idempotency_new (Some 100) None"
  let ?events = "[Run_call 1 (Some ''k'') ''f'', Run_call 2 (Some ''k'') ''f'', Settled 3 0, Run_call 103 (Some ''k'') ''f'']"
  have out: "idem_output ?r ?events 0 = Some (Inr (Run_started 0))" "idem_output ?r ?events 1 = Some (Inr (Run_shared 0))"
    "idem_output ?r ?events 3 = Some (Inr (Run_started 3))"
    by code_simp+
  then have starts: "started_under ?r ?events 0 ''k'' ''f''" "started_under ?r ?events 3 ''k'' ''f''"
    by (simp_all add: started_under_def)
  have "0 \<le> ir_maxEntries ?r" "ir_ttlMs ?r = 100" by (simp_all add: idempotency_new_def DEFAULT_MAX_ENTRIES_def)
  with browser_operation_once_per_key [OF refl, of "Some 100" None ?events] starts
  have "expired_before 100 ?events 0 (Suc 3)" by (metis zero_less_numeral)
  with starts out show ?thesis by (simp add: Let_def eval_nat_numeral)
qed

end
