(* ===== verification/Operation_Queue.thy ===== *)
theory Operation_Queue
  imports Prelude "HOL-Library.Multiset"
begin

text \<open>
  The operation queue of the browser worker,
  \<open>services/browser-worker/services/browser-operation-queue.ts\<close>, and the leases of synchronous
  shells of \<open>services/workspace-agent/src/connection/synchronous-shell-concurrency.ts\<close>.

  A call of \<open>run\<close> is a number, in the order of the calls; its phases are the places where it
  awaits. One step is the code that runs without interruption between two awaits. The promise
  \<open>turn\<close> of a run is resolved when its flag \<open>released\<close> is set, and its promise \<open>current\<close> when in
  addition the promise \<open>current\<close> of the run before it is. The task itself is the phase
  \<open>Running\<close>, left by \<open>finish_run\<close>.
\<close>

datatype queue_phase =
    Waiting_turn    \<comment> \<open>in \<open>waitForTurn\<close>\<close>
  | Turn_ready      \<comment> \<open>\<open>previous\<close> has resolved, before \<open>acquireSlot\<close>\<close>
  | Waiting_slot    \<comment> \<open>in \<open>acquireSlot\<close>, in \<open>slotWaiters\<close>\<close>
  | Resumed         \<comment> \<open>in \<open>acquireSlot\<close>, taken out of \<open>slotWaiters\<close>, before the loop test\<close>
  | Rejected        \<comment> \<open>before the catch block\<close>
  | Holding         \<comment> \<open>holds a slot, before the checks\<close>
  | Running
  | Ended

record queue_run =
  qr_key :: string
  qr_previous :: "nat option"
  qr_phase :: queue_phase
  qr_released :: bool
  qr_aborted :: bool
  qr_cleanup :: bool

record operation_queue =
  oq_runs :: "queue_run list"
  oq_tails :: "(string, nat) jsmap"
  oq_slotWaiters :: "nat list"
  oq_active :: nat
  oq_queued :: nat
  oq_maxConcurrency :: nat

definition operation_queue_new :: "nat \<Rightarrow> operation_queue" where
  "operation_queue_new maxConcurrency =
     \<lparr>oq_runs = [], oq_tails = [], oq_slotWaiters = [], oq_active = 0, oq_queued = 0,
      oq_maxConcurrency = maxConcurrency\<rparr>"

definition queuedCount :: "operation_queue \<Rightarrow> nat" where
  "queuedCount q = oq_queued q"

definition set_run :: "nat \<Rightarrow> (queue_run \<Rightarrow> queue_run) \<Rightarrow> operation_queue \<Rightarrow> operation_queue" where
  "set_run i f q = q\<lparr>oq_runs := (oq_runs q)[i := f (oq_runs q ! i)]\<rparr>"

definition set_phase :: "queue_phase \<Rightarrow> queue_run \<Rightarrow> queue_run" where
  "set_phase p r = r\<lparr>qr_phase := p\<rparr>"

abbreviation phase :: "operation_queue \<Rightarrow> nat \<Rightarrow> queue_phase" where
  "phase q i \<equiv> qr_phase (oq_runs q ! i)"

text \<open>The start of \<open>run\<close> up to the wait for the turn.\<close>

definition enqueue_run :: "string \<Rightarrow> bool \<Rightarrow> operation_queue \<Rightarrow> operation_queue" where
  "enqueue_run key aborted q =
     q\<lparr>oq_runs := oq_runs q @
         [\<lparr>qr_key = key, qr_previous = js_get (oq_tails q) key,
           qr_phase = (if aborted then Rejected else Waiting_turn), qr_released = False, qr_aborted = aborted,
           qr_cleanup = False\<rparr>],
       oq_tails := js_set key (length (oq_runs q)) (oq_tails q),
       oq_queued := oq_queued q + 1\<rparr>"

text \<open>Whether the promise \<open>current\<close> of a run is resolved.\<close>

function current_resolved :: "queue_run list \<Rightarrow> nat \<Rightarrow> bool" where
  "current_resolved runs i \<longleftrightarrow>
     qr_released (runs ! i) \<and>
     (case qr_previous (runs ! i) of None \<Rightarrow> True | Some p \<Rightarrow> if p < i then current_resolved runs p else False)"
  by pat_completeness auto
termination by (relation "measure snd") auto

declare current_resolved.simps [simp del]

definition previous_resolved :: "operation_queue \<Rightarrow> nat \<Rightarrow> bool" where
  "previous_resolved q i \<longleftrightarrow>
     (case qr_previous (oq_runs q ! i) of None \<Rightarrow> True | Some p \<Rightarrow> current_resolved (oq_runs q) p)"

definition take_turn :: "nat \<Rightarrow> operation_queue \<Rightarrow> operation_queue" where
  "take_turn i q = set_run i (set_phase Turn_ready) q"

text \<open>The loop of \<open>acquireSlot\<close>: take a slot, reject an aborted run, or wait.\<close>

definition acquireSlot :: "nat \<Rightarrow> operation_queue \<Rightarrow> operation_queue" where
  "acquireSlot i q =
     (if oq_active q \<ge> oq_maxConcurrency q then
        (if qr_aborted (oq_runs q ! i) then set_run i (set_phase Rejected) q
         else (set_run i (set_phase Waiting_slot) q)\<lparr>oq_slotWaiters := oq_slotWaiters q @ [i]\<rparr>)
      else (set_run i (set_phase Holding) q)\<lparr>oq_active := oq_active q + 1\<rparr>)"

definition release_slot :: "operation_queue \<Rightarrow> operation_queue" where
  "release_slot q =
     (let q1 = q\<lparr>oq_active := oq_active q - 1\<rparr> in
      case oq_slotWaiters q1 of
        [] \<Rightarrow> q1
      | w # ws \<Rightarrow> (set_run w (set_phase Resumed) q1)\<lparr>oq_slotWaiters := ws\<rparr>)"

definition release_turn :: "nat \<Rightarrow> operation_queue \<Rightarrow> operation_queue" where
  "release_turn i q = set_run i (\<lambda>r. r\<lparr>qr_released := True, qr_phase := Ended\<rparr>) q"

text \<open>\<open>cleanupTail\<close> registers the removal of the tail; \<open>delete_tail\<close> is that removal.\<close>

definition cleanupTail :: "nat \<Rightarrow> operation_queue \<Rightarrow> operation_queue" where
  "cleanupTail i q =
     (if js_get (oq_tails q) (qr_key (oq_runs q ! i)) \<noteq> Some i then q else set_run i (\<lambda>r. r\<lparr>qr_cleanup := True\<rparr>) q)"

definition delete_tail :: "nat \<Rightarrow> operation_queue \<Rightarrow> operation_queue" where
  "delete_tail i q =
     (let q1 = set_run i (\<lambda>r. r\<lparr>qr_cleanup := False\<rparr>) q; key = qr_key (oq_runs q ! i) in
      if js_get (oq_tails q) key = Some i then q1\<lparr>oq_tails := js_delete key (oq_tails q)\<rparr> else q1)"

text \<open>The catch block, for a run that was rejected while it waited.\<close>

definition fail_run :: "nat \<Rightarrow> operation_queue \<Rightarrow> operation_queue" where
  "fail_run i q = cleanupTail i (release_turn i (q\<lparr>oq_queued := oq_queued q - 1\<rparr>))"

text \<open>The finally block.\<close>

definition finish_run :: "nat \<Rightarrow> operation_queue \<Rightarrow> operation_queue" where
  "finish_run i q = cleanupTail i (release_turn i (release_slot q))"

text \<open>The checks after a slot was taken; \<open>late\<close> is \<open>queueWaitMs > maxQueueWaitMs\<close>.\<close>

definition begin_run :: "bool \<Rightarrow> nat \<Rightarrow> operation_queue \<Rightarrow> operation_queue" where
  "begin_run late i q =
     (let q1 = q\<lparr>oq_queued := oq_queued q - 1\<rparr> in
      if qr_aborted (oq_runs q ! i) \<or> late then finish_run i q1 else set_run i (set_phase Running) q1)"

text \<open>The abort event of the signal of a run.\<close>

definition abort_run :: "nat \<Rightarrow> operation_queue \<Rightarrow> operation_queue" where
  "abort_run i q =
     (let q1 = set_run i (\<lambda>r. r\<lparr>qr_aborted := True\<rparr>) q in
      case phase q i of
        Waiting_turn \<Rightarrow> set_run i (set_phase Rejected) q1
      | Waiting_slot \<Rightarrow> (set_run i (set_phase Rejected) q1)\<lparr>oq_slotWaiters := remove1 i (oq_slotWaiters q)\<rparr>
      | _ \<Rightarrow> q1)"

subsection \<open>Leases of synchronous shells\<close>

record shell_concurrency =
  sy_activeByWorkspace :: "(string, string) jsmap"
  sy_maxConcurrent :: int

record SynchronousShellLease =
  sl_workspaceKey :: string
  sl_requestId :: string
  sl_released :: bool

definition DEFAULT_MAX_CONCURRENT_SYNCHRONOUS_SHELLS :: int where
  "DEFAULT_MAX_CONCURRENT_SYNCHRONOUS_SHELLS = 4"

definition MAX_CONCURRENT_SYNCHRONOUS_SHELLS :: int where
  "MAX_CONCURRENT_SYNCHRONOUS_SHELLS = 16"

text \<open>The argument is \<open>None\<close> when it is not an integer.\<close>

definition shell_concurrency_new :: "int option \<Rightarrow> shell_concurrency result" where
  "shell_concurrency_new maxConcurrent =
     (case maxConcurrent of
        None \<Rightarrow> Inl (AppError INVALID_ARGUMENT ''Synchronous shell concurrency must be an integer between 1 and 16.'')
      | Some n \<Rightarrow>
          if n < 1 \<or> n > MAX_CONCURRENT_SYNCHRONOUS_SHELLS then
            Inl (AppError INVALID_ARGUMENT ''Synchronous shell concurrency must be an integer between 1 and 16.'')
          else Inr \<lparr>sy_activeByWorkspace = [], sy_maxConcurrent = n\<rparr>)"

definition acquire_shell ::
  "string \<Rightarrow> string \<Rightarrow> shell_concurrency \<Rightarrow> SynchronousShellLease result \<times> shell_concurrency" where
  "acquire_shell workspaceKey requestId c =
     (if js_has (sy_activeByWorkspace c) workspaceKey then
        (Inl (AppError AGENT_BUSY ''Another synchronous shell operation is already active for this workspace.''), c)
      else if int (length (sy_activeByWorkspace c)) \<ge> sy_maxConcurrent c then
        (Inl (AppError AGENT_BUSY ''The Workspace Agent synchronous shell concurrency limit is reached.''), c)
      else
        (Inr \<lparr>sl_workspaceKey = workspaceKey, sl_requestId = requestId, sl_released = False\<rparr>,
         c\<lparr>sy_activeByWorkspace := js_set workspaceKey requestId (sy_activeByWorkspace c)\<rparr>))"

definition release_shell ::
  "SynchronousShellLease \<Rightarrow> shell_concurrency \<Rightarrow> SynchronousShellLease \<times> shell_concurrency" where
  "release_shell lease c =
     (if sl_released lease then (lease, c)
      else
        (lease\<lparr>sl_released := True\<rparr>,
         if js_get (sy_activeByWorkspace c) (sl_workspaceKey lease) = Some (sl_requestId lease)
         then c\<lparr>sy_activeByWorkspace := js_delete (sl_workspaceKey lease) (sy_activeByWorkspace c)\<rparr> else c))"

text \<open>A workspace has at most one shell and all together at most the limit.\<close>

definition shells_ok :: "shell_concurrency \<Rightarrow> bool" where
  "shells_ok c \<longleftrightarrow> js_wf (sy_activeByWorkspace c) \<and> int (length (sy_activeByWorkspace c)) \<le> sy_maxConcurrent c"

lemma shells_ok_kept:
  "shell_concurrency_new n = Inr c \<Longrightarrow> shells_ok c"
  "shells_ok c \<Longrightarrow> shells_ok (snd (acquire_shell k r c))"
  "shells_ok c \<Longrightarrow> shells_ok (snd (release_shell l c))"
  using js_delete_length_le [of "sl_workspaceKey l" "sy_activeByWorkspace c"]
  by (auto simp: shells_ok_def shell_concurrency_new_def acquire_shell_def release_shell_def js_wf_intros js_set_length
      split: option.splits if_splits)

lemma shell_lease_round_trip:
  assumes "acquire_shell k r c = (Inr lease, c1)"
  shows "sy_activeByWorkspace (snd (release_shell lease c1)) = sy_activeByWorkspace c"
proof -
  have "js_delete k (js_set k r m) = m" if "js_get m k = None" for m :: "(string, string) jsmap"
    using that by (induction m) (auto split: if_splits)
  then show ?thesis using assms by (auto simp: acquire_shell_def release_shell_def split: if_splits)
qed

subsection \<open>The step relation\<close>

inductive internal_step :: "operation_queue \<Rightarrow> operation_queue \<Rightarrow> bool" where
  turn: "i < length (oq_runs q) \<Longrightarrow> phase q i = Waiting_turn \<Longrightarrow> previous_resolved q i \<Longrightarrow> internal_step q (take_turn i q)"
| acquire: "i < length (oq_runs q) \<Longrightarrow> phase q i \<in> {Turn_ready, Resumed} \<Longrightarrow> internal_step q (acquireSlot i q)"
| fail: "i < length (oq_runs q) \<Longrightarrow> phase q i = Rejected \<Longrightarrow> internal_step q (fail_run i q)"
| start: "i < length (oq_runs q) \<Longrightarrow> phase q i = Holding \<Longrightarrow> internal_step q (begin_run late i q)"
| finish: "i < length (oq_runs q) \<Longrightarrow> phase q i = Running \<Longrightarrow> internal_step q (finish_run i q)"
| delete: "i < length (oq_runs q) \<Longrightarrow> qr_cleanup (oq_runs q ! i) \<Longrightarrow> current_resolved (oq_runs q) i \<Longrightarrow>
    internal_step q (delete_tail i q)"

inductive queue_reachable :: "nat \<Rightarrow> operation_queue \<Rightarrow> bool" for maxConcurrency where
  initial: "queue_reachable maxConcurrency (operation_queue_new maxConcurrency)"
| enqueue: "queue_reachable maxConcurrency q \<Longrightarrow> queue_reachable maxConcurrency (enqueue_run key aborted q)"
| abort: "queue_reachable maxConcurrency q \<Longrightarrow> i < length (oq_runs q) \<Longrightarrow> queue_reachable maxConcurrency (abort_run i q)"
| internal: "queue_reachable maxConcurrency q \<Longrightarrow> internal_step q q' \<Longrightarrow> queue_reachable maxConcurrency q'"


subsection \<open>The fields after a step\<close>

named_theorems queue_simps \<open>the operations of the queue as updates of its runs\<close>

lemma set_run_fields [simp]:
  "length (oq_runs (set_run i f q)) = length (oq_runs q)" "oq_tails (set_run i f q) = oq_tails q"
  "oq_slotWaiters (set_run i f q) = oq_slotWaiters q" "oq_active (set_run i f q) = oq_active q"
  "oq_queued (set_run i f q) = oq_queued q" "oq_maxConcurrency (set_run i f q) = oq_maxConcurrency q"
  "oq_runs (set_run i f q) ! j = (if j = i \<and> i < length (oq_runs q) then f (oq_runs q ! i) else oq_runs q ! j)"
  by (cases "i < length (oq_runs q)"; auto simp: set_run_def nth_list_update list_update_beyond)+

lemma set_phase_fields [simp]:
  "qr_phase (set_phase p r) = p" "qr_key (set_phase p r) = qr_key r" "qr_previous (set_phase p r) = qr_previous r"
  "qr_released (set_phase p r) = qr_released r" "qr_aborted (set_phase p r) = qr_aborted r"
  by (simp_all add: set_phase_def)

lemmas queue_ops [queue_simps] =
  take_turn_def acquireSlot_def release_slot_def release_turn_def cleanupTail_def delete_tail_def fail_run_def finish_run_def
  begin_run_def abort_run_def Let_def

text \<open>What no step changes in a run, and that a released run stays released.\<close>

definition runs_extend :: "operation_queue \<Rightarrow> operation_queue \<Rightarrow> bool" where
  "runs_extend q q' \<longleftrightarrow> length (oq_runs q') = length (oq_runs q) \<and>
     (\<forall>j. qr_key (oq_runs q' ! j) = qr_key (oq_runs q ! j) \<and> qr_previous (oq_runs q' ! j) = qr_previous (oq_runs q ! j) \<and>
        (qr_released (oq_runs q ! j) \<longrightarrow> qr_released (oq_runs q' ! j)))"

lemma runs_extend_refl [simp]: "runs_extend q q"
  by (simp add: runs_extend_def)

lemma runs_extend_trans: "runs_extend q q1 \<Longrightarrow> runs_extend q1 q2 \<Longrightarrow> runs_extend q q2"
  by (simp add: runs_extend_def)

lemma runs_extend_set_run:
  assumes "\<And>r. qr_key (f r) = qr_key r" "\<And>r. qr_previous (f r) = qr_previous r" "\<And>r. qr_released r \<Longrightarrow> qr_released (f r)"
  shows "runs_extend q (set_run i f q)"
  using assms by (simp add: runs_extend_def)

lemma release_slot_extend: "runs_extend q (release_slot q)"
  by (auto simp: runs_extend_def release_slot_def Let_def split: list.splits)

lemma internal_step_extend: "internal_step q q' \<Longrightarrow> runs_extend q q'"
  by (induction rule: internal_step.induct)
    (auto simp: runs_extend_def queue_simps split: list.splits)

lemma abort_run_extend: "runs_extend q (abort_run i q)"
  by (auto simp: runs_extend_def queue_simps split: queue_phase.splits)

subsection \<open>One run of a key at a time\<close>

definition past_turn :: "queue_phase \<Rightarrow> bool" where
  "past_turn p \<longleftrightarrow> p \<in> {Turn_ready, Waiting_slot, Resumed, Holding, Running}"

definition earlier_released :: "operation_queue \<Rightarrow> nat \<Rightarrow> bool" where
  "earlier_released q i \<longleftrightarrow>
     (\<forall>j < i. qr_key (oq_runs q ! j) = qr_key (oq_runs q ! i) \<longrightarrow> qr_released (oq_runs q ! j))"

definition chained :: "operation_queue \<Rightarrow> nat \<Rightarrow> bool" where
  "chained q i \<longleftrightarrow>
     (case qr_previous (oq_runs q ! i) of
        None \<Rightarrow> earlier_released q i
      | Some p \<Rightarrow> p < i \<and> qr_key (oq_runs q ! p) = qr_key (oq_runs q ! i) \<and>
          (\<forall>j. p < j \<longrightarrow> j < i \<longrightarrow> qr_key (oq_runs q ! j) \<noteq> qr_key (oq_runs q ! i)))"

definition tails_inv :: "operation_queue \<Rightarrow> bool" where
  "tails_inv q \<longleftrightarrow> (\<forall>k.
     case js_get (oq_tails q) k of
       None \<Rightarrow> \<forall>j < length (oq_runs q). qr_key (oq_runs q ! j) = k \<longrightarrow> qr_released (oq_runs q ! j)
     | Some p \<Rightarrow> p < length (oq_runs q) \<and> qr_key (oq_runs q ! p) = k \<and>
         (\<forall>j. p < j \<longrightarrow> j < length (oq_runs q) \<longrightarrow> qr_key (oq_runs q ! j) \<noteq> k))"

definition turns_inv :: "operation_queue \<Rightarrow> bool" where
  "turns_inv q \<longleftrightarrow> tails_inv q \<and>
     (\<forall>i < length (oq_runs q). chained q i \<and>
        (qr_released (oq_runs q ! i) \<longleftrightarrow> phase q i = Ended) \<and> (past_turn (phase q i) \<longrightarrow> earlier_released q i))"

lemma tails_fields [simp]:
  "earlier_released (q\<lparr>oq_tails := t\<rparr>) i = earlier_released q i" "chained (q\<lparr>oq_tails := t\<rparr>) i = chained q i"
  by (simp_all add: earlier_released_def chained_def cong: option.case_cong)

text \<open>When the promise \<open>current\<close> of a run is resolved, the run and all earlier ones of its key have ended.\<close>

lemma current_resolved_earlier:
  assumes "\<And>i. i < length (oq_runs q) \<Longrightarrow> chained q i"
  shows "i < length (oq_runs q) \<Longrightarrow> current_resolved (oq_runs q) i \<Longrightarrow> earlier_released q i \<and> qr_released (oq_runs q ! i)"
proof (induction i rule: less_induct)
  case (less i)
  then have released: "qr_released (oq_runs q ! i)" by (subst (asm) current_resolved.simps) simp
  show ?case
  proof (cases "qr_previous (oq_runs q ! i)")
    case None
    with assms [OF less.prems(1)] released show ?thesis by (simp add: chained_def)
  next
    case (Some p)
    with less.prems have p: "p < i" "current_resolved (oq_runs q) p"
      by (subst (asm) current_resolved.simps, simp split: if_splits)+
    with less.prems(1) have "earlier_released q p \<and> qr_released (oq_runs q ! p)" using less.IH [of p] by simp
    moreover have "qr_key (oq_runs q ! p) = qr_key (oq_runs q ! i)"
      "\<forall>j. p < j \<longrightarrow> j < i \<longrightarrow> qr_key (oq_runs q ! j) \<noteq> qr_key (oq_runs q ! i)"
      using assms [OF less.prems(1)] Some by (simp_all add: chained_def)
    ultimately have "earlier_released q i"
      unfolding earlier_released_def by (metis linorder_neqE_nat)
    with released show ?thesis by simp
  qed
qed

lemma earlier_released_extend:
  "runs_extend q q' \<Longrightarrow> earlier_released q i \<Longrightarrow> earlier_released q' i"
  by (auto simp: runs_extend_def earlier_released_def)

lemma chained_extend: "runs_extend q q' \<Longrightarrow> chained q i \<Longrightarrow> chained q' i"
  using earlier_released_extend [of q q' i] by (auto simp: chained_def runs_extend_def split: option.splits)

lemma tails_inv_extend: "runs_extend q q' \<Longrightarrow> oq_tails q' = oq_tails q \<Longrightarrow> tails_inv q \<Longrightarrow> tails_inv q'"
  unfolding tails_inv_def
proof (intro allI)
  fix k
  assume ext: "runs_extend q q'" and tails: "oq_tails q' = oq_tails q"
    and "\<forall>k. case js_get (oq_tails q) k of
       None \<Rightarrow> \<forall>j < length (oq_runs q). qr_key (oq_runs q ! j) = k \<longrightarrow> qr_released (oq_runs q ! j)
     | Some p \<Rightarrow> p < length (oq_runs q) \<and> qr_key (oq_runs q ! p) = k \<and>
         (\<forall>j. p < j \<longrightarrow> j < length (oq_runs q) \<longrightarrow> qr_key (oq_runs q ! j) \<noteq> k)"
  from this(3) [rule_format, of k] ext tails show "case js_get (oq_tails q') k of
       None \<Rightarrow> \<forall>j < length (oq_runs q'). qr_key (oq_runs q' ! j) = k \<longrightarrow> qr_released (oq_runs q' ! j)
     | Some p \<Rightarrow> p < length (oq_runs q') \<and> qr_key (oq_runs q' ! p) = k \<and>
         (\<forall>j. p < j \<longrightarrow> j < length (oq_runs q') \<longrightarrow> qr_key (oq_runs q' ! j) \<noteq> k)"
    by (cases "js_get (oq_tails q) k") (auto simp: runs_extend_def)
qed

text \<open>A step that gives no turn keeps the invariant.\<close>

lemma turns_inv_step:
  assumes inv: "turns_inv q" and ext: "runs_extend q q'" and tails: "oq_tails q' = oq_tails q"
    and ended: "\<And>i. i < length (oq_runs q) \<Longrightarrow> qr_released (oq_runs q' ! i) \<longleftrightarrow> phase q' i = Ended"
    and past: "\<And>i. i < length (oq_runs q) \<Longrightarrow> past_turn (phase q' i) \<Longrightarrow> past_turn (phase q i) \<or> earlier_released q i"
  shows "turns_inv q'"
proof -
  have "length (oq_runs q') = length (oq_runs q)" using ext by (simp add: runs_extend_def)
  with assms show ?thesis
    unfolding turns_inv_def using chained_extend [OF ext] earlier_released_extend [OF ext] tails_inv_extend [OF ext tails]
    by metis
qed


lemma turns_inv_new: "turns_inv (operation_queue_new n)"
  by (simp add: turns_inv_def tails_inv_def operation_queue_new_def)

lemma turns_inv_enqueue:
  assumes "turns_inv q"
  shows "turns_inv (enqueue_run key aborted q)"
proof -
  let ?n = "length (oq_runs q)" and ?q = "enqueue_run key aborted q"
  have old: "oq_runs ?q ! j = oq_runs q ! j" if "j < ?n" for j using that by (simp add: enqueue_run_def nth_append)
  have new: "qr_key (oq_runs ?q ! ?n) = key" "qr_previous (oq_runs ?q ! ?n) = js_get (oq_tails q) key"
    "\<not> past_turn (phase ?q ?n)" "\<not> qr_released (oq_runs ?q ! ?n)" "phase ?q ?n \<noteq> Ended" "length (oq_runs ?q) = Suc ?n"
    "oq_tails ?q = js_set key ?n (oq_tails q)"
    by (simp_all add: enqueue_run_def past_turn_def)
  have tails: "tails_inv q" using assms by (simp add: turns_inv_def)
  have "chained ?q i" if i: "i < ?n" for i
  proof -
    have "chained q i" using i assms by (simp add: turns_inv_def)
    then show ?thesis using i old by (auto simp: chained_def earlier_released_def split: option.splits)
  qed
  moreover have "chained ?q ?n"
    using tails [unfolded tails_inv_def, rule_format, of key] old new
    by (auto simp: chained_def earlier_released_def split: option.splits)
  moreover have "earlier_released ?q i" if i: "i < ?n" "past_turn (phase q i)" for i
  proof -
    have "earlier_released q i" using i assms by (simp add: turns_inv_def)
    then show ?thesis using i old by (auto simp: earlier_released_def)
  qed
  moreover have "tails_inv ?q"
    unfolding tails_inv_def
  proof
    fix k
    show "case js_get (oq_tails ?q) k of
       None \<Rightarrow> \<forall>j < length (oq_runs ?q). qr_key (oq_runs ?q ! j) = k \<longrightarrow> qr_released (oq_runs ?q ! j)
     | Some p \<Rightarrow> p < length (oq_runs ?q) \<and> qr_key (oq_runs ?q ! p) = k \<and>
         (\<forall>j. p < j \<longrightarrow> j < length (oq_runs ?q) \<longrightarrow> qr_key (oq_runs ?q ! j) \<noteq> k)"
    proof (cases "k = key")
      case True
      then show ?thesis using new by simp
    next
      case False
      then show ?thesis
        using tails [unfolded tails_inv_def, rule_format, of k] new old
        by (auto simp: less_Suc_eq split: option.splits)
    qed
  qed
  ultimately show ?thesis
    using assms new old unfolding turns_inv_def by (auto simp: less_Suc_eq)
qed

lemma turns_inv_abort:
  assumes "turns_inv q" "i < length (oq_runs q)"
  shows "turns_inv (abort_run i q)"
  using assms
  by (intro turns_inv_step [OF assms(1) abort_run_extend])
    (auto simp: queue_simps turns_inv_def past_turn_def split: queue_phase.splits if_splits)

lemma release_slot_runs:
  "oq_tails (release_slot q) = oq_tails q" "oq_queued (release_slot q) = oq_queued q"
  "oq_maxConcurrency (release_slot q) = oq_maxConcurrency q" "oq_active (release_slot q) = oq_active q - 1"
  "length (oq_runs (release_slot q)) = length (oq_runs q)"
  "oq_runs (release_slot q) ! j =
     (if oq_slotWaiters q \<noteq> [] \<and> j = hd (oq_slotWaiters q) \<and> j < length (oq_runs q)
      then set_phase Resumed (oq_runs q ! j) else oq_runs q ! j)"
  by (auto simp: release_slot_def Let_def split: list.splits)

lemma finish_run_fields:
  "oq_tails (finish_run i q) = oq_tails q" "oq_queued (finish_run i q) = oq_queued q"
  "oq_maxConcurrency (finish_run i q) = oq_maxConcurrency q" "oq_active (finish_run i q) = oq_active q - 1"
  "length (oq_runs (finish_run i q)) = length (oq_runs q)"
  "oq_slotWaiters (finish_run i q) = tl (oq_slotWaiters q)"
  by (auto simp: finish_run_def cleanupTail_def release_turn_def release_slot_runs)
     (auto simp: release_slot_def Let_def split: list.splits)

lemma finish_run_phase:
  assumes "i < length (oq_runs q)"
  shows "phase (finish_run i q) j = (if j = i then Ended
      else if oq_slotWaiters q \<noteq> [] \<and> j = hd (oq_slotWaiters q) \<and> j < length (oq_runs q) then Resumed else phase q j)"
    and "qr_released (oq_runs (finish_run i q) ! j) \<longleftrightarrow> j = i \<or> qr_released (oq_runs q ! j)"
  using assms by (auto simp: finish_run_def cleanupTail_def release_turn_def release_slot_runs)

lemma fail_run_fields:
  "oq_tails (fail_run i q) = oq_tails q" "oq_queued (fail_run i q) = oq_queued q - 1"
  "oq_maxConcurrency (fail_run i q) = oq_maxConcurrency q" "oq_active (fail_run i q) = oq_active q"
  "length (oq_runs (fail_run i q)) = length (oq_runs q)" "oq_slotWaiters (fail_run i q) = oq_slotWaiters q"
  by (auto simp: fail_run_def cleanupTail_def release_turn_def)

lemma fail_run_phase:
  assumes "i < length (oq_runs q)"
  shows "phase (fail_run i q) j = (if j = i then Ended else phase q j)"
    and "qr_released (oq_runs (fail_run i q) ! j) \<longleftrightarrow> j = i \<or> qr_released (oq_runs q ! j)"
  using assms by (auto simp: fail_run_def cleanupTail_def release_turn_def)


lemma turns_inv_delete:
  assumes inv: "turns_inv q" and i: "i < length (oq_runs q)" and resolved: "current_resolved (oq_runs q) i"
  shows "turns_inv (delete_tail i q)"
proof -
  let ?q1 = "set_run i (\<lambda>r. r\<lparr>qr_cleanup := False\<rparr>) q" and ?key = "qr_key (oq_runs q ! i)"
  have inv1: "turns_inv ?q1"
    using inv by (intro turns_inv_step [OF inv runs_extend_set_run]) (auto simp: turns_inv_def split: if_splits)
  show ?thesis
  proof (cases "js_get (oq_tails q) ?key = Some i")
    case True
    let ?q2 = "?q1\<lparr>oq_tails := js_delete ?key (oq_tails q)\<rparr>"
    have tails: "tails_inv q" using inv by (simp add: turns_inv_def)
    from current_resolved_earlier [OF _ i resolved] inv have "earlier_released q i \<and> qr_released (oq_runs q ! i)"
      by (simp add: turns_inv_def)
    moreover have "\<forall>j. i < j \<longrightarrow> j < length (oq_runs q) \<longrightarrow> qr_key (oq_runs q ! j) \<noteq> ?key"
      using tails [unfolded tails_inv_def, rule_format, of ?key] True by simp
    ultimately have all: "\<forall>j < length (oq_runs q). qr_key (oq_runs q ! j) = ?key \<longrightarrow> qr_released (oq_runs q ! j)"
      unfolding earlier_released_def by (metis linorder_neqE_nat)
    have "tails_inv ?q2"
      unfolding tails_inv_def
    proof
      fix k
      show "case js_get (oq_tails ?q2) k of
         None \<Rightarrow> \<forall>j < length (oq_runs ?q2). qr_key (oq_runs ?q2 ! j) = k \<longrightarrow> qr_released (oq_runs ?q2 ! j)
       | Some p \<Rightarrow> p < length (oq_runs ?q2) \<and> qr_key (oq_runs ?q2 ! p) = k \<and>
           (\<forall>j. p < j \<longrightarrow> j < length (oq_runs ?q2) \<longrightarrow> qr_key (oq_runs ?q2 ! j) \<noteq> k)"
        using all tails [unfolded tails_inv_def, rule_format, of k]
        by (cases "k = ?key"; cases "js_get (oq_tails q) k") auto
    qed
    then have "turns_inv ?q2" using inv1 by (simp add: turns_inv_def)
    with True show ?thesis by (simp add: delete_tail_def Let_def)
  next
    case False
    with inv1 show ?thesis by (simp add: delete_tail_def Let_def)
  qed
qed

lemma turns_inv_internal:
  assumes "internal_step q q'" "turns_inv q"
    and waiters: "\<And>w. w \<in> set (oq_slotWaiters q) \<Longrightarrow> w < length (oq_runs q) \<and> phase q w = Waiting_slot"
  shows "turns_inv q'"
  using assms(1)
proof cases
  case (turn i)
  have chain: "\<And>i. i < length (oq_runs q) \<Longrightarrow> chained q i" using assms(2) by (simp add: turns_inv_def)
  have "earlier_released q i"
  proof (cases "qr_previous (oq_runs q ! i)")
    case None
    with chain [OF turn(2)] show ?thesis by (simp add: chained_def)
  next
    case (Some p)
    with turn chain [OF turn(2)] have p: "p < i" "current_resolved (oq_runs q) p" "qr_key (oq_runs q ! p) = qr_key (oq_runs q ! i)"
      "\<forall>j. p < j \<longrightarrow> j < i \<longrightarrow> qr_key (oq_runs q ! j) \<noteq> qr_key (oq_runs q ! i)"
      by (simp_all add: previous_resolved_def chained_def)
    with turn(2) current_resolved_earlier [OF chain, of p] have "earlier_released q p \<and> qr_released (oq_runs q ! p)" by simp
    with p show ?thesis unfolding earlier_released_def by (metis linorder_neqE_nat)
  qed
  with turn assms(2) show ?thesis
    by (intro turns_inv_step [OF assms(2) internal_step_extend [OF assms(1)]])
      (auto simp: take_turn_def turns_inv_def past_turn_def split: if_splits)
next
  case (acquire i)
  with assms(2) show ?thesis
    by (intro turns_inv_step [OF assms(2) internal_step_extend [OF assms(1)]])
      (auto simp: acquireSlot_def turns_inv_def past_turn_def split: if_splits)
next
  case (fail i)
  with assms(2) show ?thesis
    by (intro turns_inv_step [OF assms(2) internal_step_extend [OF assms(1)]])
      (auto simp: fail_run_fields fail_run_phase turns_inv_def past_turn_def split: if_splits)
next
  case (start i late)
  show ?thesis
    using start assms(2) waiters
    by (intro turns_inv_step [OF assms(2) internal_step_extend [OF assms(1)]])
      (auto simp: begin_run_def Let_def finish_run_fields finish_run_phase turns_inv_def past_turn_def split: if_splits)
next
  case (finish i)
  show ?thesis
    using finish assms(2) waiters
    by (intro turns_inv_step [OF assms(2) internal_step_extend [OF assms(1)]])
      (auto simp: finish_run_fields finish_run_phase turns_inv_def past_turn_def split: if_splits)
next
  case (delete i)
  with assms(2) show ?thesis by (simp add: turns_inv_delete)
qed


subsection \<open>Slots\<close>

definition count_phase :: "(queue_phase \<Rightarrow> bool) \<Rightarrow> queue_phase list \<Rightarrow> nat" where
  "count_phase P ps = length (filter P ps)"

lemma count_phase_update:
  "i < length ps \<Longrightarrow> count_phase P (ps[i := p]) + of_bool (P (ps ! i)) = count_phase P ps + of_bool (P p)"
  unfolding count_phase_def
proof (induction ps arbitrary: i)
  case (Cons y ys)
  then show ?case by (cases i) auto
qed simp

lemma count_phase_pos: "0 < count_phase P ps \<longleftrightarrow> (\<exists>i < length ps. P (ps ! i))"
  unfolding count_phase_def length_greater_0_conv filter_empty_conv by (metis in_set_conv_nth)

definition phases :: "operation_queue \<Rightarrow> queue_phase list" where
  "phases q = map qr_phase (oq_runs q)"

lemma phases_nth: "i < length (oq_runs q) \<Longrightarrow> phases q ! i = phase q i"
  by (simp add: phases_def)

lemma phases_set_run [simp]: "phases (set_run i f q) = (phases q)[i := qr_phase (f (oq_runs q ! i))]"
  by (simp add: phases_def set_run_def map_update)

lemma phases_fields [simp]:
  "length (phases q) = length (oq_runs q)"
  "phases (q\<lparr>oq_tails := t\<rparr>) = phases q" "phases (q\<lparr>oq_slotWaiters := w\<rparr>) = phases q"
  "phases (q\<lparr>oq_active := a\<rparr>) = phases q" "phases (q\<lparr>oq_queued := n\<rparr>) = phases q"
  by (simp_all add: phases_def)

definition has_slot :: "queue_phase \<Rightarrow> bool" where
  "has_slot p \<longleftrightarrow> p = Holding \<or> p = Running"

definition is_queued :: "queue_phase \<Rightarrow> bool" where
  "is_queued p \<longleftrightarrow> p \<noteq> Running \<and> p \<noteq> Ended"

definition is_resumed :: "queue_phase \<Rightarrow> bool" where
  "is_resumed p \<longleftrightarrow> p = Resumed"

lemmas phase_kinds = has_slot_def is_queued_def is_resumed_def

text \<open>
  The list of waiters is exactly the runs that wait, the counters are the numbers of runs with
  a slot and in the queue, and while a run waits the slots are taken or promised to runs that
  were resumed: no wake-up is lost.
\<close>

definition slots_ok :: "queue_phase list \<Rightarrow> nat list \<Rightarrow> nat \<Rightarrow> nat \<Rightarrow> nat \<Rightarrow> bool" where
  "slots_ok ps ws active queued m \<longleftrightarrow>
     distinct ws \<and> (\<forall>w. w \<in> set ws \<longleftrightarrow> w < length ps \<and> ps ! w = Waiting_slot) \<and>
     active = count_phase has_slot ps \<and> active \<le> m \<and>
     (ws \<noteq> [] \<longrightarrow> m \<le> active + count_phase is_resumed ps) \<and> queued = count_phase is_queued ps"

definition slots_inv :: "operation_queue \<Rightarrow> bool" where
  "slots_inv q \<longleftrightarrow> slots_ok (phases q) (oq_slotWaiters q) (oq_active q) (oq_queued q) (oq_maxConcurrency q)"

lemma slots_okD:
  assumes "slots_ok ps ws a n m"
  shows "distinct ws" "a = count_phase has_slot ps" "a \<le> m" "ws \<noteq> [] \<Longrightarrow> m \<le> a + count_phase is_resumed ps"
    "n = count_phase is_queued ps"
  using assms by (simp_all add: slots_ok_def)

lemma slots_ok_waiter: "slots_ok ps ws a n m \<Longrightarrow> w \<in> set ws \<longleftrightarrow> w < length ps \<and> ps ! w = Waiting_slot"
  by (simp add: slots_ok_def)

lemma slots_ok_not_waiter:
  assumes "slots_ok ps ws a n m" "ps ! i \<noteq> Waiting_slot"
  shows "i \<notin> set ws" "set ws - {i} = set ws"
  using slots_ok_waiter [OF assms(1)] assms(2) by auto

lemma slots_ok_update:
  assumes ok: "slots_ok ps ws a n m" and i: "i < length ps"
    and waiters: "distinct ws'" "set ws' = (if p = Waiting_slot then insert i (set ws) else set ws - {i})"
    and active: "a' + of_bool (has_slot (ps ! i)) = a + of_bool (has_slot p)" "a' \<le> m"
    and queued: "n' + of_bool (is_queued (ps ! i)) = n + of_bool (is_queued p)"
    and wake: "ws' \<noteq> [] \<Longrightarrow> m + of_bool (is_resumed (ps ! i)) \<le> a' + count_phase is_resumed ps + of_bool (is_resumed p)"
  shows "slots_ok (ps[i := p]) ws' a' n' m"
  unfolding slots_ok_def
proof (intro conjI)
  note count = count_phase_update [OF i, of _ p]
  show "\<forall>w. w \<in> set ws' \<longleftrightarrow> w < length (ps[i := p]) \<and> ps[i := p] ! w = Waiting_slot"
    using slots_ok_waiter [OF ok] i waiters(2) by (auto simp: nth_list_update)
  show "a' = count_phase has_slot (ps[i := p])" using ok active(1) count [of has_slot] by (simp add: slots_ok_def)
  show "n' = count_phase is_queued (ps[i := p])" using ok queued count [of is_queued] by (simp add: slots_ok_def)
  show "ws' \<noteq> [] \<longrightarrow> m \<le> a' + count_phase is_resumed (ps[i := p])" using wake count [of is_resumed] by auto
qed (use waiters active in simp_all)

lemma slots_ok_resume:
  assumes "slots_ok ps (w # ws) a n m"
  shows "slots_ok (ps[w := Resumed]) ws a n m" "m < a + count_phase is_resumed (ps[w := Resumed])" "w < length ps" "ps ! w = Waiting_slot"
proof -
  show w: "w < length ps" "ps ! w = Waiting_slot" using assms by (auto simp: slots_ok_def)
  show "slots_ok (ps[w := Resumed]) ws a n m"
    using slots_okD [OF assms] w by (intro slots_ok_update [OF assms w(1)]) (auto simp: phase_kinds)
  show "m < a + count_phase is_resumed (ps[w := Resumed])"
    using assms count_phase_update [OF w(1), of is_resumed Resumed] w(2) by (simp add: slots_ok_def phase_kinds)
qed

text \<open>Giving up a slot: the first waiter is resumed.\<close>

lemma slots_ok_finish:
  assumes ok: "slots_ok ps ws a n m" and i: "i < length ps" "has_slot (ps ! i)"
  shows "slots_ok ((if ws = [] then ps else ps[hd ws := Resumed])[i := Ended]) (tl ws) (a - 1) (n - of_bool (is_queued (ps ! i))) m"
proof -
  have "0 < count_phase has_slot ps" "is_queued (ps ! i) \<Longrightarrow> 0 < count_phase is_queued ps"
    using i count_phase_pos by blast+
  then have pos: "0 < a" "is_queued (ps ! i) \<Longrightarrow> 0 < n" using ok by (simp_all add: slots_ok_def)
  show ?thesis
  proof (cases ws)
    case Nil
    have "slots_ok (ps[i := Ended]) [] (a - 1) (n - of_bool (is_queued (ps ! i))) m"
      using slots_okD [OF ok] i pos Nil by (intro slots_ok_update [OF ok i(1)]) (auto simp: phase_kinds)
    with Nil show ?thesis by simp
  next
    case (Cons w ws')
    note resume = slots_ok_resume [OF ok [unfolded Cons]]
    have ne: "w \<noteq> i" using resume(4) i(2) by (auto simp: phase_kinds)
    then have same: "ps[w := Resumed] ! i = ps ! i" by simp
    have "slots_ok (ps[w := Resumed, i := Ended]) ws' (a - 1) (n - of_bool (is_queued (ps ! i))) m"
      using slots_okD [OF ok] slots_okD(1) [OF resume(1)] resume(2) i pos same i slots_ok_not_waiter [OF resume(1), of i]
      by (intro slots_ok_update [OF resume(1)]) (auto simp: phase_kinds)
    with Cons show ?thesis by simp
  qed
qed


lemma slots_inv_new: "slots_inv (operation_queue_new n)"
  by (simp add: slots_inv_def slots_ok_def operation_queue_new_def phases_def count_phase_def)

lemma slots_ok_append:
  assumes "slots_ok ps ws a n m" "p = Waiting_turn \<or> p = Rejected"
  shows "slots_ok (ps @ [p]) ws a (n + 1) m"
proof -
  have "w < length (ps @ [p]) \<and> (ps @ [p]) ! w = Waiting_slot \<longleftrightarrow> w < length ps \<and> ps ! w = Waiting_slot" for w
    using assms(2) by (cases "w = length ps") (auto simp: nth_append less_Suc_eq)
  with assms show ?thesis unfolding slots_ok_def by (auto simp: count_phase_def phase_kinds)
qed

lemma slots_inv_enqueue: "slots_inv q \<Longrightarrow> slots_inv (enqueue_run key aborted q)"
  using slots_ok_append [of "phases q" "oq_slotWaiters q" "oq_active q" "oq_queued q" "oq_maxConcurrency q"
      "if aborted then Rejected else Waiting_turn"]
  by (simp add: slots_inv_def enqueue_run_def phases_def)

lemma phases_cleanup [simp]: "phases (cleanupTail i q) = phases q"
  by (auto simp: cleanupTail_def phases_nth list_update_same_conv)
     (metis list_update_beyond list_update_id not_less phases_fields(1) phases_nth)

lemma cleanup_fields [simp]:
  "oq_slotWaiters (cleanupTail i q) = oq_slotWaiters q" "oq_active (cleanupTail i q) = oq_active q"
  "oq_queued (cleanupTail i q) = oq_queued q" "oq_maxConcurrency (cleanupTail i q) = oq_maxConcurrency q"
  by (simp_all add: cleanupTail_def)

lemma slots_inv_abort:
  assumes inv: "slots_inv q" and i: "i < length (oq_runs q)"
  shows "slots_inv (abort_run i q)"
proof -
  note ok = inv [unfolded slots_inv_def] and i' = i [folded phases_fields(1)]
  note facts = slots_okD [OF ok] slots_ok_not_waiter [OF ok, of i]
  have same: "(phases q)[i := phase q i] = phases q" using i by (metis list_update_id phases_nth)
  show ?thesis
  proof (cases "phase q i")
    case Waiting_turn
    have "slots_ok ((phases q)[i := Rejected]) (oq_slotWaiters q) (oq_active q) (oq_queued q) (oq_maxConcurrency q)"
      using facts i Waiting_turn by (intro slots_ok_update [OF ok i']) (auto simp: phase_kinds phases_nth)
    with Waiting_turn i show ?thesis by (simp add: slots_inv_def abort_run_def Let_def same)
  next
    case Waiting_slot
    have "slots_ok ((phases q)[i := Rejected]) (remove1 i (oq_slotWaiters q)) (oq_active q) (oq_queued q) (oq_maxConcurrency q)"
      using facts i Waiting_slot
      by (intro slots_ok_update [OF ok i']) (auto simp: phase_kinds phases_nth, cases "oq_slotWaiters q", auto)
    with Waiting_slot i show ?thesis by (simp add: slots_inv_def abort_run_def Let_def same)
  qed (use ok same in \<open>simp_all add: slots_inv_def abort_run_def Let_def\<close>)
qed

lemma finish_run_phases:
  "phases (finish_run i q) =
   (if oq_slotWaiters q = [] then phases q else (phases q)[hd (oq_slotWaiters q) := Resumed])[i := Ended]"
  by (auto simp: finish_run_def release_turn_def release_slot_def Let_def split: list.splits)

lemma slots_inv_internal:
  assumes step: "internal_step q q'" and inv: "slots_inv q"
  shows "slots_inv q'"
proof -
  note ok = inv [unfolded slots_inv_def]
  note facts = slots_okD [OF ok] slots_ok_not_waiter [OF ok]
  show ?thesis
    using step
  proof cases
    case (turn i)
    then have "slots_ok ((phases q)[i := Turn_ready]) (oq_slotWaiters q) (oq_active q) (oq_queued q) (oq_maxConcurrency q)"
      using facts by (intro slots_ok_update [OF ok]) (auto simp: phase_kinds phases_nth)
    with turn show ?thesis by (simp add: slots_inv_def take_turn_def)
  next
    case (acquire i)
    have resumed: "of_bool (is_resumed (phase q i)) \<le> count_phase is_resumed (phases q)"
    proof (cases "is_resumed (phase q i)")
      case True
      then have "0 < count_phase is_resumed (phases q)" using acquire by (auto simp: count_phase_pos phases_nth)
      then show ?thesis by simp
    qed simp
    have full: "slots_ok ((phases q)[i := p]) ws (oq_active q) (oq_queued q) (oq_maxConcurrency q)"
      if "oq_maxConcurrency q \<le> oq_active q" "p = Rejected \<and> ws = oq_slotWaiters q \<or> p = Waiting_slot \<and> ws = oq_slotWaiters q @ [i]" for p ws
      using facts(1-5) facts(6,7) [of i] that acquire resumed by (intro slots_ok_update [OF ok]) (auto simp: phase_kinds phases_nth)
    have free: "slots_ok ((phases q)[i := Holding]) (oq_slotWaiters q) (oq_active q + 1) (oq_queued q) (oq_maxConcurrency q)"
      if "oq_active q < oq_maxConcurrency q"
      using facts(1-5) facts(6,7) [of i] that acquire by (intro slots_ok_update [OF ok]) (auto simp: phase_kinds phases_nth)
    from acquire full free show ?thesis by (simp add: slots_inv_def acquireSlot_def)
  next
    case (fail i)
    have "0 < count_phase is_queued (phases q)" using fail by (auto simp: count_phase_pos phases_nth phase_kinds)
    then have "slots_ok ((phases q)[i := Ended]) (oq_slotWaiters q) (oq_active q) (oq_queued q - 1) (oq_maxConcurrency q)"
      using fail facts(1-5) facts(6,7) [of i] by (intro slots_ok_update [OF ok]) (auto simp: phase_kinds phases_nth)
    with fail show ?thesis by (simp add: slots_inv_def fail_run_def release_turn_def)
  next
    case (start i late)
    have "0 < count_phase is_queued (phases q)" using start by (auto simp: count_phase_pos phases_nth phase_kinds)
    then have run: "slots_ok ((phases q)[i := Running]) (oq_slotWaiters q) (oq_active q) (oq_queued q - 1) (oq_maxConcurrency q)"
      using start facts(1-5) facts(6,7) [of i] by (intro slots_ok_update [OF ok]) (auto simp: phase_kinds phases_nth)
    have "slots_ok ((if oq_slotWaiters q = [] then phases q else (phases q)[hd (oq_slotWaiters q) := Resumed])[i := Ended])
        (tl (oq_slotWaiters q)) (oq_active q - 1) (oq_queued q - 1) (oq_maxConcurrency q)"
      using slots_ok_finish [OF ok, of i] start by (simp add: phases_nth phase_kinds)
    with start run show ?thesis
      by (cases "oq_slotWaiters q") (auto simp: slots_inv_def begin_run_def Let_def finish_run_phases finish_run_fields)
  next
    case (finish i)
    then show ?thesis
      using slots_ok_finish [OF ok, of i]
      by (simp add: slots_inv_def finish_run_phases finish_run_fields phases_nth phase_kinds)
  next
    case (delete i)
    then have "phases (delete_tail i q) = phases q"
      by (simp add: delete_tail_def Let_def) (metis list_update_id phases_nth)
    with delete ok show ?thesis by (simp add: slots_inv_def delete_tail_def Let_def)
  qed
qed

lemma queue_invariant: "queue_reachable n q \<Longrightarrow> turns_inv q \<and> slots_inv q"
proof (induction rule: queue_reachable.induct)
  case (internal q q')
  moreover have "w < length (oq_runs q) \<and> phase q w = Waiting_slot" if "w \<in> set (oq_slotWaiters q)" for w
    using that internal.IH slots_ok_waiter phases_nth by (simp add: slots_inv_def) (metis phases_fields(1))
  ultimately show ?case using turns_inv_internal slots_inv_internal by blast
qed (simp_all add: turns_inv_new slots_inv_new turns_inv_enqueue slots_inv_enqueue turns_inv_abort slots_inv_abort)

lemma queue_max: "queue_reachable n q \<Longrightarrow> oq_maxConcurrency q = n"
proof (induction rule: queue_reachable.induct)
  case (internal q q')
  from internal.hyps(2) have "oq_maxConcurrency q' = oq_maxConcurrency q"
    by cases (auto simp: take_turn_def acquireSlot_def fail_run_fields begin_run_def Let_def finish_run_fields delete_tail_def)
  with internal.IH show ?case by simp
qed (auto simp: operation_queue_new_def enqueue_run_def abort_run_def Let_def split: queue_phase.splits)


subsection \<open>Progress\<close>

fun phase_weight :: "queue_phase \<Rightarrow> nat" where
  "phase_weight Waiting_turn = 9"
| "phase_weight Turn_ready = 8"
| "phase_weight Resumed = 7"
| "phase_weight Waiting_slot = 6"
| "phase_weight Holding = 4"
| "phase_weight Running = 3"
| "phase_weight Rejected = 1"
| "phase_weight Ended = 0"

definition run_weight :: "queue_run \<Rightarrow> nat" where
  "run_weight r = 2 * phase_weight (qr_phase r) + of_bool (qr_cleanup r)"

definition queue_weight :: "operation_queue \<Rightarrow> nat" where
  "queue_weight q = sum_list (map run_weight (oq_runs q))"

lemma sum_list_map_update:
  fixes f :: "'a \<Rightarrow> nat"
  shows "i < length xs \<Longrightarrow> sum_list (map f (xs[i := x])) + f (xs ! i) = sum_list (map f xs) + f x"
proof (induction xs arbitrary: i)
  case (Cons y ys)
  then show ?case by (cases i) auto
qed simp

lemma queue_weight_set_run:
  "i < length (oq_runs q) \<Longrightarrow>
   queue_weight (set_run i f q) + run_weight (oq_runs q ! i) = queue_weight q + run_weight (f (oq_runs q ! i))"
  using sum_list_map_update [of i "oq_runs q" run_weight "f (oq_runs q ! i)"] by (simp add: queue_weight_def set_run_def)

lemma queue_weight_fields [simp]:
  "queue_weight (q\<lparr>oq_tails := t\<rparr>) = queue_weight q" "queue_weight (q\<lparr>oq_slotWaiters := w\<rparr>) = queue_weight q"
  "queue_weight (q\<lparr>oq_active := a\<rparr>) = queue_weight q" "queue_weight (q\<lparr>oq_queued := n\<rparr>) = queue_weight q"
  by (simp_all add: queue_weight_def)

lemma queue_weight_phase:
  assumes "i < length (oq_runs q)" "phase_weight p < phase_weight (phase q i)"
  shows "queue_weight (set_run i (set_phase p) q) < queue_weight q"
  using queue_weight_set_run [OF assms(1), of "set_phase p"] assms(2) by (simp add: run_weight_def set_phase_def)

text \<open>Ending a run: its weight falls, by more than the new flag and a resumed waiter add.\<close>

lemma queue_weight_end:
  assumes "i < length (oq_runs q)"
  shows "queue_weight (cleanupTail i (release_turn i q)) + 2 * phase_weight (phase q i) \<le> queue_weight q + 1"
proof -
  let ?q = "release_turn i q"
  have "queue_weight (cleanupTail i ?q) \<le> queue_weight ?q + 1"
    using queue_weight_set_run [of i ?q "\<lambda>r. r\<lparr>qr_cleanup := True\<rparr>"] assms
    by (auto simp: cleanupTail_def release_turn_def run_weight_def)
  moreover have "queue_weight ?q + 2 * phase_weight (phase q i) = queue_weight q"
    using queue_weight_set_run [OF assms, of "\<lambda>r. r\<lparr>qr_released := True, qr_phase := Ended\<rparr>"]
    by (simp add: release_turn_def run_weight_def)
  ultimately show ?thesis by linarith
qed

lemma queue_weight_release_slot:
  assumes "slots_inv q" "i < length (oq_runs q)" "has_slot (phase q i)"
  shows "queue_weight (release_slot q) \<le> queue_weight q + 2" "phase (release_slot q) i = phase q i"
proof -
  have w: "w < length (oq_runs q) \<and> phase q w = Waiting_slot" if "w \<in> set (oq_slotWaiters q)" for w
    using that assms(1) slots_ok_waiter phases_nth by (simp add: slots_inv_def) (metis phases_fields(1))
  show "phase (release_slot q) i = phase q i"
    using w assms(3) by (auto simp: release_slot_runs has_slot_def)
  show "queue_weight (release_slot q) \<le> queue_weight q + 2"
  proof (cases "oq_slotWaiters q")
    case (Cons v vs)
    with w have "v < length (oq_runs q)" "phase q v = Waiting_slot" by auto
    with Cons queue_weight_set_run [of v "q\<lparr>oq_active := oq_active q - 1\<rparr>" "set_phase Resumed"] show ?thesis
      by (simp add: release_slot_def Let_def run_weight_def set_phase_def)
  qed (simp add: release_slot_def)
qed

lemma queue_weight_finish:
  assumes "slots_inv q" "i < length (oq_runs q)" "has_slot (phase q i)"
  shows "queue_weight (finish_run i q) < queue_weight q"
proof -
  have "3 \<le> phase_weight (phase q i)" using assms(3) by (auto simp: has_slot_def)
  moreover have "i < length (oq_runs (release_slot q))" using assms(2) by (simp add: release_slot_runs)
  ultimately show ?thesis
    using queue_weight_end [of i "release_slot q"] queue_weight_release_slot [OF assms] by (simp add: finish_run_def)
qed

lemma internal_step_weight:
  assumes "internal_step q q'" "slots_inv q"
  shows "queue_weight q' < queue_weight q"
  using assms(1)
proof cases
  case (turn i)
  then show ?thesis by (simp add: take_turn_def queue_weight_phase)
next
  case (acquire i)
  then show ?thesis by (auto simp: acquireSlot_def intro!: queue_weight_phase)
next
  case (fail i)
  then show ?thesis using queue_weight_end [of i "q\<lparr>oq_queued := oq_queued q - 1\<rparr>"] by (simp add: fail_run_def)
next
  case (start i late)
  have "queue_weight (finish_run i (q\<lparr>oq_queued := n\<rparr>)) = queue_weight (finish_run i q)" for n
    by (simp add: finish_run_def cleanupTail_def release_turn_def release_slot_def Let_def set_run_def queue_weight_def split: list.split)
  moreover have "queue_weight (set_run i (set_phase Running) (q\<lparr>oq_queued := n\<rparr>)) < queue_weight q" for n
    using queue_weight_phase [of i "q\<lparr>oq_queued := n\<rparr>" Running] start by simp
  ultimately show ?thesis
    using start queue_weight_finish [OF assms(2), of i] by (simp add: begin_run_def Let_def has_slot_def)
next
  case (finish i)
  then show ?thesis using queue_weight_finish [OF assms(2), of i] by (simp add: has_slot_def)
next
  case (delete i)
  then show ?thesis
    using queue_weight_set_run [of i q "\<lambda>r. r\<lparr>qr_cleanup := False\<rparr>"] by (simp add: delete_tail_def Let_def run_weight_def)
qed

lemma all_released_resolved:
  assumes "turns_inv q" "i < length (oq_runs q)" "\<forall>j \<le> i. qr_released (oq_runs q ! j)"
  shows "current_resolved (oq_runs q) i"
  using assms(2,3)
proof (induction i rule: less_induct)
  case (less i)
  have "chained q i" using assms(1) less.prems(1) by (simp add: turns_inv_def)
  then show ?case
    using less by (subst current_resolved.simps) (auto simp: chained_def split: option.splits)
qed

lemma queue_progress:
  assumes "turns_inv q" "slots_inv q" "0 < oq_maxConcurrency q" "i < length (oq_runs q)" "phase q i \<noteq> Ended"
  shows "\<exists>q'. internal_step q q'"
proof (rule ccontr)
  assume stuck: "\<nexists>q'. internal_step q q'"
  have waiting: "phase q j \<in> {Waiting_turn, Waiting_slot, Ended}" if "j < length (oq_runs q)" for j
    using stuck internal_step.acquire [OF that] internal_step.fail [OF that] internal_step.start [OF that] internal_step.finish [OF that]
    by (cases "phase q j") blast+
  note ok = assms(2) [unfolded slots_inv_def]
  have none: "count_phase P (phases q) = 0" if "\<And>p. P p \<Longrightarrow> p \<notin> {Waiting_turn, Waiting_slot, Ended}" for P
    using that waiting count_phase_pos [of P "phases q"] by (force simp: phases_nth)
  have "count_phase has_slot (phases q) = 0" "count_phase is_resumed (phases q) = 0"
    by (rule none, auto simp: phase_kinds)+
  then have "oq_active q = 0" "count_phase is_resumed (phases q) = 0" using slots_okD(2) [OF ok] by simp_all
  then have "oq_slotWaiters q = []" using slots_okD(4) [OF ok] assms(3) by auto
  then have turns: "phase q j \<in> {Waiting_turn, Ended}" if "j < length (oq_runs q)" for j
    using waiting [OF that] slots_ok_waiter [OF ok, of j] that by (auto simp: phases_nth)
  define k where "k = (LEAST k. k < length (oq_runs q) \<and> phase q k \<noteq> Ended)"
  have k: "k < length (oq_runs q) \<and> phase q k \<noteq> Ended" unfolding k_def by (rule LeastI [of _ i]) (use assms in simp)
  have "qr_released (oq_runs q ! j)" if "j < k" for j
  proof -
    have "\<not> (j < length (oq_runs q) \<and> phase q j \<noteq> Ended)" using that unfolding k_def by (rule not_less_Least)
    then have "phase q j = Ended" using that k by simp
    with that k assms(1) show ?thesis by (simp add: turns_inv_def)
  qed
  moreover have "chained q k" using assms(1) k by (simp add: turns_inv_def)
  ultimately have "previous_resolved q k"
    using k all_released_resolved [OF assms(1)] by (auto simp: previous_resolved_def chained_def split: option.splits)
  with k turns stuck show False using internal_step.turn [of k q] by auto
qed


lemma reachable_star: "internal_step\<^sup>*\<^sup>* q q' \<Longrightarrow> queue_reachable n q \<Longrightarrow> queue_reachable n q'"
  by (induction rule: rtranclp_induct) (auto intro: queue_reachable.internal)

subsection \<open>Properties\<close>

text \<open>
  C16. The queue runs one operation of a tab at a time and in order, and at most
  \<open>maxConcurrency\<close> in all. In every reachable state a run whose turn has come has no unfinished
  earlier run of the same key, whatever was aborted before it; at most \<open>maxConcurrency\<close> runs
  hold a slot; and \<open>queuedCount\<close> is the number of runs that have not started or ended.\<close>

theorem queue_exclusive_and_bounded:
  assumes "queue_reachable maxConcurrency q"
  shows "(\<forall>i j. i < j \<and> j < length (oq_runs q) \<and> qr_key (oq_runs q ! i) = qr_key (oq_runs q ! j) \<and> past_turn (phase q j) \<longrightarrow>
      phase q i = Ended) \<and>
    count_phase has_slot (phases q) \<le> maxConcurrency \<and> queuedCount q = count_phase is_queued (phases q)"
proof -
  from queue_invariant [OF assms] have turns: "turns_inv q"
    and ok: "slots_ok (phases q) (oq_slotWaiters q) (oq_active q) (oq_queued q) (oq_maxConcurrency q)"
    by (simp_all add: slots_inv_def)
  have "phase q i = Ended" if "i < j \<and> j < length (oq_runs q) \<and> qr_key (oq_runs q ! i) = qr_key (oq_runs q ! j) \<and> past_turn (phase q j)" for i j
  proof -
    from that turns have "earlier_released q j" by (simp add: turns_inv_def)
    with that have "qr_released (oq_runs q ! i)" by (simp add: earlier_released_def)
    with that turns show ?thesis by (simp add: turns_inv_def)
  qed
  then show ?thesis
    using slots_okD [OF ok] queue_max [OF assms] unfolding queuedCount_def by metis
qed

definition demo_queue :: operation_queue where
  "demo_queue = acquireSlot 0 (take_turn 0 (enqueue_run ''t1'' False (enqueue_run ''t1'' False (operation_queue_new 1))))"

lemma demo_queue_reachable: "queue_reachable 1 demo_queue"
proof -
  let ?q0 = "enqueue_run ''t1'' False (enqueue_run ''t1'' False (operation_queue_new 1))"
  have "queue_reachable 1 ?q0" by (intro queue_reachable.enqueue queue_reachable.initial)
  moreover have "internal_step ?q0 (take_turn 0 ?q0)"
    by (rule internal_step.turn) (simp_all add: enqueue_run_def operation_queue_new_def previous_resolved_def)
  moreover have "internal_step (take_turn 0 ?q0) demo_queue"
    unfolding demo_queue_def
    by (rule internal_step.acquire) (simp_all add: enqueue_run_def operation_queue_new_def take_turn_def)
  ultimately show ?thesis by (meson queue_reachable.internal)
qed

theorem queue_exclusive_and_bounded_witness:
  "count_phase has_slot (phases demo_queue) \<le> 1 \<and> queuedCount demo_queue = 2 \<and> phase demo_queue 0 = Holding"
proof -
  have "phases demo_queue = [Holding, Waiting_turn]" "phase demo_queue 0 = Holding" by code_simp+
  with queue_exclusive_and_bounded [OF demo_queue_reachable] show ?thesis
    by (simp add: count_phase_def has_slot_def is_queued_def)
qed

text \<open>
  C35. The queue never gets stuck. While some run has not ended, a step is possible in every
  reachable state with at least one slot: a waiter is never forgotten, also when resumed waiters
  lose their slot to newcomers or runs are aborted in the queue. Every step lowers a weight of
  the state, so without further calls each way of taking steps comes to an end, and then all
  runs have ended. Tasks are taken to return or throw.\<close>

theorem queue_drains:
  assumes "queue_reachable maxConcurrency q" and "0 < maxConcurrency" and "internal_step\<^sup>*\<^sup>* q q'"
  shows "(\<forall>q''. internal_step q' q'' \<longrightarrow> queue_weight q'' < queue_weight q') \<and>
    ((\<exists>q''. internal_step q' q'') \<or> (\<forall>i < length (oq_runs q'). phase q' i = Ended))"
proof -
  note reach = reachable_star [OF assms(3,1)]
  note inv = queue_invariant [OF reach]
  have "\<exists>q''. internal_step q' q''" if "i < length (oq_runs q')" "phase q' i \<noteq> Ended" for i
    using queue_progress [of q' i] inv that queue_max [OF reach] assms(2) by simp
  with inv internal_step_weight show ?thesis by blast
qed

theorem queue_drains_witness: "\<exists>q''. internal_step demo_queue q'' \<and> queue_weight q'' < queue_weight demo_queue"
proof -
  have "phase demo_queue 0 \<noteq> Ended" "0 < length (oq_runs demo_queue)" by code_simp+
  with queue_drains [OF demo_queue_reachable, of demo_queue] show ?thesis by auto
qed

end
