(* ===== verification/Spec2Isabelle.thy ===== *)
theory Spec2Isabelle
  imports Confirmation_Refinement Shell_Service Path_Security Workspace_Registry Task_Registry Source_Control_Safety Operation_Registry
    Contract_Rollout Edge_Connector Tab_Binding Tab_Reuse Browser_Idempotency Operation_Queue
begin

text \<open>
  Verification of the MCP access stack (\<open>src/mcp-access-stack\<close>).

  \<^bold>\<open>The program.\<close> A client of the Model Context Protocol reaches workspaces and a browser on a
  private machine. The edge gateway (\<open>services/mcp-edge-gateway\<close>) accepts the client and relays
  its requests over a WebSocket to the connector of the gateway
  (\<open>services/mcp-gateway/src/edge/connector.ts\<close>), which forwards them to the local gateway with a
  signed principal. The gateway keeps a registry of running operations and calls the workspace
  agent (\<open>services/workspace-agent\<close>) through a relay, and the browser worker
  (\<open>services/browser-worker\<close>). The agent authorises paths, shell commands and source-control
  mutations; the browser worker owns sessions, tabs, tasks and confirmations. Shared contracts
  are in \<open>packages/mcp-core\<close> and \<open>packages/edge-protocol\<close>.

  \<^bold>\<open>Conventions.\<close> \<open>Prelude\<close> has the exceptions (a fallible function returns \<open>exn + 'a\<close>, a method
  that also changes its object the pair of that and the new object), JavaScript maps as
  association lists in insertion order, instants as integers and strings over Latin-1. Random
  ids, clock readings and the file system are arguments. A method is a \<open>definition\<close> of the same
  name where HOL allows it; a class is a record of its fields; a sequence of calls is
  \<open>run_ops\<close>; asynchronous code is a step relation or a list of events, one step per stretch
  between two awaits.

  \<^bold>\<open>Confirmations.\<close> \<open>Confirmation_Spec\<close> is the abstract registry of one-time confirmations with
  its locale; \<open>Browser_Confirmations\<close>, \<open>Command_Confirmations\<close> and \<open>Typed_Confirmations\<close> model
  \<open>domain/confirmation-registry.ts\<close>, \<open>shell/confirmation.ts\<close> and \<open>typed-confirmation.ts\<close> (with the
  argument digests over \<open>Json\<close>) and interpret it; \<open>Confirmation_Refinement\<close> shows that all three
  refine the specification over every sequence of calls.

  \<^bold>\<open>Workspaces.\<close> \<open>Workspace_Policy\<close> (\<open>policy.ts\<close>, \<open>project-write-policy.ts\<close>,
  \<open>policy-merge.ts\<close>, \<open>workspace-catalog.ts\<close>) checks policies and merges explicit ones with
  discovered folders, and \<open>Workspace_Registry\<close> (\<open>workspace-registry.ts\<close>) resolves the result on
  the file system: what a merged policy exposes, and that a registered workspace is confined to
  its root and blocks the mandatory patterns.

  \<^bold>\<open>Shell commands.\<close> \<open>Command_Analysis\<close> (\<open>shell/command-analysis.ts\<close>) splits command lines,
  \<open>Js_Regex\<close> matches the patterns of the source as JavaScript does (repetition is bounded by the
  length of the input, which is enough since a further empty iteration changes nothing),
  \<open>Command_Risk\<close> (\<open>shell/command-risk.ts\<close>) classifies them, \<open>Path_Security\<close>
  (\<open>path-security.ts\<close>, \<open>permission-profile.ts\<close>) authorises paths, \<open>Trusted_Workspace\<close>
  (\<open>shell/trusted-workspace-authorization.ts\<close>) decides which destructive commands a trusted
  workspace runs at once (its walk over a directory ends because it lists at most
  \<open>maxListedFiles\<close> entries), and \<open>Shell_Service\<close> (\<open>shell/service.ts\<close>,
  \<open>shell/confirmation-policy.ts\<close>) composes them with the confirmations: a destructive command
  runs only after its own confirmation or on checked paths of a trusted workspace, in a
  directory inside the workspace.

  \<^bold>\<open>Source control.\<close> \<open>Source_Control_Policy\<close> (\<open>source-control-policy.ts\<close>), \<open>Mutation_Receipts\<close>
  (\<open>mutation-receipts.ts\<close>), \<open>File_Receipts\<close> (\<open>file-mutation-receipt-store.ts\<close>) and
  \<open>Source_Control_Mutation\<close> (the mutation path of \<open>local-agent.ts\<close>, a machine whose runs settle
  in at most seven steps) give \<open>Source_Control_Safety\<close>: under every interleaving and every file
  failure a mutation runs at most once per key and only after its confirmation.

  \<^bold>\<open>Gateway and edge.\<close> \<open>Operation_Registry\<close> (\<open>mcp/operation-registry.ts\<close>), \<open>Relay_Requests\<close>
  (\<open>relay/request-manager.ts\<close>, \<open>timeout-policy.ts\<close>, \<open>relay-retry-policy.ts\<close>), \<open>Edge_Protocol\<close>
  (\<open>edge-protocol/src/index.ts\<close>), \<open>Edge_Trust\<close> (\<open>edge/internal-trust.ts\<close>), \<open>Edge_Connector\<close>
  (\<open>edge/connector.ts\<close>) and \<open>Contract_Rollout\<close> (\<open>contract-compatibility.ts\<close>,
  \<open>connector-handover.ts\<close>): messages are parsed exactly, promises settle once, forwarded requests
  are trusted for exactly their principal, and contract revisions move only to ready ones.

  \<^bold>\<open>Browser worker.\<close> \<open>Task_Registry\<close> (\<open>domain/browser-task-registry.ts\<close>), \<open>Browser_Sessions\<close>
  (\<open>domain/session-registry.ts\<close>, \<open>domain/browser-session-model.ts\<close>), \<open>Tab_Registry\<close>
  (\<open>domain/tab-registry.ts\<close>), \<open>Browser_Idempotency\<close> (\<open>services/browser-idempotency-registry.ts\<close>)
  and \<open>Operation_Queue\<close> (\<open>services/browser-operation-queue.ts\<close>, with the shell leases of the
  agent): ownership of tasks and tabs, the stored registry and its recovery, one run per key,
  and a queue that is exclusive per tab, bounded and never stuck.
  \<open>Browser_Url\<close> has the URLs, and \<open>Site_Access\<close> (\<open>domain/authorized-site-policy.ts\<close>,
  \<open>domain/browser-site-grant-registry.ts\<close> and their use in \<open>services/browser-runtime.ts\<close>) the
  private sites: a target of a private origin needs a grant that rests on its own confirmation.
  \<open>Tab_Binding\<close> (the services for tab binding, navigation state, session state, tab selection and
  persistent tabs under \<open>services/\<close>) has the tabs of the real browser as replies of the driver: a
  selected tab is always identified by its binding, and a checkpoint stores a consistent registry.
  \<open>Tab_Reuse\<close> (\<open>domain/browser-tab-reuse.ts\<close>, \<open>domain/navigation-cache.ts\<close>) shows that a reused tab
  fits the request and that the cache keeps the newest addresses and survives a restart.

  \<^bold>\<open>Not modelled.\<close> Drivers of real browsers and processes, HTTP and WebSocket plumbing, command
  line and configuration code, generated manifests, tool tables and schema declarations, HTML
  and OpenAPI rendering: they are input and output, data, or calls of third-party packages. Code
  units above 255, prototype effects of JavaScript objects and stack or memory limits are
  outside the model.
\<close>

end
